(* ===== verification/Prelude.thy ===== *)
theory Prelude
  imports Complex_Main "HOL-Library.AList" "HOL-Library.Char_ord"
begin

text \<open>
  Shared vocabulary of the development: the collections of rewrite rules the
  component proofs use, Python values and exceptions, the string methods the
  sources call, dictionaries as association lists, and the generic locale of
  transition systems with an invariant that every component with interleaved
  operations interprets.
\<close>

section \<open>Collections\<close>

named_theorems step_simps \<open>definitions of state-changing operations\<close>
named_theorems inv_defs \<open>definitions of component invariants\<close>
named_theorems res_simps \<open>rewrite rules for results that may be exceptions\<close>

section \<open>Transition systems with an invariant\<close>

text \<open>
  A component is a set of initial states and a step relation. The locale states
  the two obligations of an inductive invariant; its lemmas lift them to all
  reachable states and to finite runs.
\<close>

locale invariant_system =
  fixes init :: "'s \<Rightarrow> bool"
    and step :: "'s \<Rightarrow> 's \<Rightarrow> bool"
    and inv :: "'s \<Rightarrow> bool"
  assumes inv_init: "init s \<Longrightarrow> inv s"
    and inv_step: "inv s \<Longrightarrow> step s t \<Longrightarrow> inv t"
begin

lemma inv_steps: "step\<^sup>*\<^sup>* s t \<Longrightarrow> inv s \<Longrightarrow> inv t"
  by (induction rule: rtranclp_induct) (auto intro: inv_step)

lemma inv_reachable: "init s \<Longrightarrow> step\<^sup>*\<^sup>* s t \<Longrightarrow> inv t"
  by (blast intro: inv_init inv_steps)

end

section \<open>Python values\<close>

text \<open>
  Floating-point numbers are the finite values (as reals), the two infinities
  and the not-a-number value. Strings are sequences of code points below 256.
\<close>

datatype pyfloat = Fin real | PosInf | NegInf | NaN

datatype pyval =
    PNone
  | PBool bool
  | PInt int
  | PFloat pyfloat
  | PStr string
  | PList "pyval list"
  | PDict "(string \<times> pyval) list"

type_synonym pydict = "(string \<times> pyval) list"

text \<open>An absolute path is the list of its components.\<close>

type_synonym path = "string list"

fun is_str :: "pyval \<Rightarrow> bool" where
  "is_str (PStr _) = True"
| "is_str _ = False"

fun is_dict :: "pyval \<Rightarrow> bool" where
  "is_dict (PDict _) = True"
| "is_dict _ = False"

text \<open>Truth value testing (\<^verbatim>\<open>if x:\<close>).\<close>

fun truthy :: "pyval \<Rightarrow> bool" where
  "truthy PNone = False"
| "truthy (PBool b) = b"
| "truthy (PInt i) = (i \<noteq> 0)"
| "truthy (PFloat f) = (f \<noteq> Fin 0)"
| "truthy (PStr s) = (s \<noteq> [])"
| "truthy (PList xs) = (xs \<noteq> [])"
| "truthy (PDict d) = (d \<noteq> [])"

text \<open>\<^verbatim>\<open>d.get(k)\<close> and \<^verbatim>\<open>d.get(k, default)\<close>.\<close>

definition dict_get :: "pydict \<Rightarrow> string \<Rightarrow> pyval" where
  "dict_get d k = (case map_of d k of None \<Rightarrow> PNone | Some v \<Rightarrow> v)"

definition dict_get_default :: "pydict \<Rightarrow> string \<Rightarrow> pyval \<Rightarrow> pyval" where
  "dict_get_default d k v = (case map_of d k of None \<Rightarrow> v | Some w \<Rightarrow> w)"

text \<open>\<^verbatim>\<open>{**a, **b}\<close>: the keys of \<open>a\<close> keep their place, new keys of \<open>b\<close> follow in order.\<close>

fun dict_merge :: "('k \<times> 'v) list \<Rightarrow> ('k \<times> 'v) list \<Rightarrow> ('k \<times> 'v) list" where
  "dict_merge a [] = a"
| "dict_merge a ((k, v) # b) = dict_merge (AList.update k v a) b"

lemma map_of_dict_merge:
  "distinct (map fst b) \<Longrightarrow> map_of (dict_merge a b) = map_of a ++ map_of b"
proof (induction a b rule: dict_merge.induct)
  case (2 a k v b)
  then have "map_of (dict_merge (AList.update k v a) b) = map_of (AList.update k v a) ++ map_of b"
    by simp
  also have "\<dots> = (map_of a)(k \<mapsto> v) ++ map_of b"
    by (simp only: update_conv')
  also have "\<dots> = map_of a ++ (map_of b)(k \<mapsto> v)"
  proof -
    have "map_of b k = None"
      using 2 by (simp add: map_of_eq_None_iff)
    then show ?thesis
      by (auto simp: map_add_def fun_eq_iff split: option.split)
  qed
  finally show ?case by (simp only: dict_merge.simps map_of.simps fst_conv snd_conv)
qed simp

lemma keys_dict_merge: "fst ` set (dict_merge a b) = fst ` set a \<union> fst ` set b"
proof (induction a b rule: dict_merge.induct)
  case (2 a k v b)
  have "fst ` set (AList.update k v a) = insert k (fst ` set a)"
    by (metis dom_map_of_conv_image_fst dom_fun_upd update_conv' option.distinct(1))
  with 2 show ?case by simp
qed simp

lemma distinct_dict_merge:
  "distinct (map fst a) \<Longrightarrow> distinct (map fst (dict_merge a b))"
  by (induction a b rule: dict_merge.induct) (auto simp: distinct_update)

section \<open>Exceptions\<close>

text \<open>
  An exception is its class and its message. \<open>exc_mro\<close> lists a class and its
  base classes, the built-in ones as the language defines them and the ones of
  the repository as their \<^verbatim>\<open>class\<close> statements declare them; an
  \<^verbatim>\<open>except C\<close> clause takes an exception exactly when \<open>C\<close> is in that list.
\<close>

datatype exc_class =
    C_BaseException | C_Exception | C_RuntimeError | C_ValueError | C_TypeError
  | C_KeyError | C_OSError | C_OverflowError | C_ImportError | C_AssertionError
  | C_FileNotFoundError | C_SqliteError | C_SqliteOperationalError | C_JSONDecodeError
  | C_OperationAdmissionError | C_MaintenanceLockAcquisitionError
  | C_SQLiteWALUnsupportedError | C_EmbeddingUnavailable
  | C_InitializationCancelledError | C_PreAdmissionRejectedError
  | C_OpaqueUpstreamError | C_AuditBudgetError | C_CronAdmissionError | C_AttributeError

fun exc_mro :: "exc_class \<Rightarrow> exc_class list" where
  "exc_mro C_BaseException = [C_BaseException]"
| "exc_mro C_Exception = [C_Exception, C_BaseException]"
| "exc_mro C_RuntimeError = [C_RuntimeError, C_Exception, C_BaseException]"
| "exc_mro C_ValueError = [C_ValueError, C_Exception, C_BaseException]"
| "exc_mro C_TypeError = [C_TypeError, C_Exception, C_BaseException]"
| "exc_mro C_KeyError = [C_KeyError, C_Exception, C_BaseException]"
| "exc_mro C_OSError = [C_OSError, C_Exception, C_BaseException]"
| "exc_mro C_OverflowError = [C_OverflowError, C_Exception, C_BaseException]"
| "exc_mro C_ImportError = [C_ImportError, C_Exception, C_BaseException]"
| "exc_mro C_AssertionError = [C_AssertionError, C_Exception, C_BaseException]"
| "exc_mro C_FileNotFoundError = [C_FileNotFoundError, C_OSError, C_Exception, C_BaseException]"
| "exc_mro C_SqliteError = [C_SqliteError, C_Exception, C_BaseException]"
| "exc_mro C_SqliteOperationalError =
     [C_SqliteOperationalError, C_SqliteError, C_Exception, C_BaseException]"
| "exc_mro C_JSONDecodeError = [C_JSONDecodeError, C_ValueError, C_Exception, C_BaseException]"
| "exc_mro C_OperationAdmissionError =
     [C_OperationAdmissionError, C_RuntimeError, C_Exception, C_BaseException]"
| "exc_mro C_MaintenanceLockAcquisitionError =
     [C_MaintenanceLockAcquisitionError, C_OSError, C_Exception, C_BaseException]"
| "exc_mro C_SQLiteWALUnsupportedError =
     [C_SQLiteWALUnsupportedError, C_RuntimeError, C_Exception, C_BaseException]"
| "exc_mro C_EmbeddingUnavailable =
     [C_EmbeddingUnavailable, C_RuntimeError, C_Exception, C_BaseException]"
| "exc_mro C_InitializationCancelledError =
     [C_InitializationCancelledError, C_RuntimeError, C_Exception, C_BaseException]"
| "exc_mro C_PreAdmissionRejectedError =
     [C_PreAdmissionRejectedError, C_RuntimeError, C_Exception, C_BaseException]"
| "exc_mro C_OpaqueUpstreamError =
     [C_OpaqueUpstreamError, C_RuntimeError, C_Exception, C_BaseException]"
| "exc_mro C_AuditBudgetError =
     [C_AuditBudgetError, C_RuntimeError, C_Exception, C_BaseException]"
| "exc_mro C_CronAdmissionError =
     [C_CronAdmissionError, C_RuntimeError, C_Exception, C_BaseException]"
| "exc_mro C_AttributeError = [C_AttributeError, C_Exception, C_BaseException]"

record exn =
  exn_class :: exc_class
  exn_msg :: string

definition mk_exn :: "exc_class \<Rightarrow> string \<Rightarrow> exn" where
  "mk_exn c m = \<lparr>exn_class = c, exn_msg = m\<rparr>"

definition isinstance :: "exn \<Rightarrow> exc_class \<Rightarrow> bool" where
  "isinstance e c \<longleftrightarrow> c \<in> set (exc_mro (exn_class e))"

lemma exn_class_mk_exn [simp]: "exn_class (mk_exn c m) = c"
  and exn_msg_mk_exn [simp]: "exn_msg (mk_exn c m) = m"
  by (simp_all add: mk_exn_def)

type_synonym 'a res = "exn + 'a"

abbreviation raise :: "exc_class \<Rightarrow> string \<Rightarrow> 'a res" where
  "raise c m \<equiv> Inl (mk_exn c m)"

abbreviation return :: "'a \<Rightarrow> 'a res" where
  "return x \<equiv> Inr x"

definition bind_res :: "'a res \<Rightarrow> ('a \<Rightarrow> 'b res) \<Rightarrow> 'b res" where
  "bind_res r f = (case r of Inl e \<Rightarrow> Inl e | Inr x \<Rightarrow> f x)"

lemma bind_res_Inl [simp]: "bind_res (Inl e) f = Inl e"
  and bind_res_Inr [simp]: "bind_res (Inr x) f = f x"
  by (simp_all add: bind_res_def)

lemma bind_res_eq_Inr [res_simps]:
  "bind_res r f = Inr y \<longleftrightarrow> (\<exists>x. r = Inr x \<and> f x = Inr y)"
  by (cases r) simp_all

lemma bind_res_eq_Inl [res_simps]:
  "bind_res r f = Inl e \<longleftrightarrow> r = Inl e \<or> (\<exists>x. r = Inr x \<and> f x = Inl e)"
  by (cases r) simp_all

lemma not_isl_conv: "\<not> isl r \<longleftrightarrow> (\<exists>x. r = Inr x)"
  by (cases r) simp_all

text \<open>A call without a value: it may raise.\<close>

definition raised :: "exn option \<Rightarrow> unit res" where
  "raised e = (case e of None \<Rightarrow> Inr () | Some x \<Rightarrow> Inl x)"

text \<open>Evaluating a comprehension: the first element that raises ends it.\<close>

fun map_res :: "('a \<Rightarrow> 'b res) \<Rightarrow> 'a list \<Rightarrow> 'b list res" where
  "map_res f [] = Inr []"
| "map_res f (x # xs) =
     bind_res (f x) (\<lambda>y. bind_res (map_res f xs) (\<lambda>ys. Inr (y # ys)))"

lemma map_res_eq_Inr:
  "map_res f xs = Inr ys \<longleftrightarrow> list_all2 (\<lambda>x y. f x = Inr y) xs ys"
  by (induction xs arbitrary: ys) (auto simp: res_simps list_all2_Cons1)

lemma map_res_total:
  "(\<forall>x \<in> set xs. \<exists>y. f x = Inr y) \<longleftrightarrow> (\<exists>ys. map_res f xs = Inr ys)"
  by (induction xs) (auto simp: res_simps)

section \<open>String methods\<close>

text \<open>\<^verbatim>\<open>str.isspace\<close> on the code points below 256.\<close>

definition py_isspace :: "char \<Rightarrow> bool" where
  "py_isspace c \<longleftrightarrow> (of_char c :: nat) \<in> {9, 10, 11, 12, 13, 28, 29, 30, 31, 32, 133, 160}"

definition py_strip :: "string \<Rightarrow> string" where
  "py_strip s = rev (dropWhile py_isspace (rev (dropWhile py_isspace s)))"

lemma py_strip_Nil [simp]: "py_strip [] = []"
  by (simp add: py_strip_def)

lemma py_strip_eq_Nil: "py_strip s = [] \<longleftrightarrow> (\<forall>c \<in> set s. py_isspace c)"
proof -
  have "py_strip s = [] \<longleftrightarrow> (\<forall>c \<in> set (dropWhile py_isspace s). py_isspace c)"
    by (simp add: py_strip_def)
  also have "\<dots> \<longleftrightarrow> (\<forall>c \<in> set s. py_isspace c)"
    by (induction s) auto
  finally show ?thesis .
qed

text \<open>\<^verbatim>\<open>str.lower\<close>: the letters A to Z and the Latin-1 capitals.\<close>

definition py_lower_char :: "char \<Rightarrow> char" where
  "py_lower_char c =
     (let n = (of_char c :: nat)
      in if 65 \<le> n \<and> n \<le> 90 \<or> 192 \<le> n \<and> n \<le> 222 \<and> n \<noteq> 215 then char_of (n + 32) else c)"

definition py_lower :: "string \<Rightarrow> string" where
  "py_lower s = map py_lower_char s"

definition py_startswith :: "string \<Rightarrow> string \<Rightarrow> bool" where
  "py_startswith p s \<longleftrightarrow> take (length p) s = p"

text \<open>\<^verbatim>\<open>needle in haystack\<close> for strings.\<close>

fun py_contains :: "string \<Rightarrow> string \<Rightarrow> bool" where
  "py_contains needle [] = (needle = [])"
| "py_contains needle (c # cs) = (py_startswith needle (c # cs) \<or> py_contains needle cs)"

text \<open>\<^verbatim>\<open>str(i)\<close> for an integer.\<close>

fun digits_of :: "nat \<Rightarrow> string" where
  "digits_of n =
     (if n < 10 then [char_of (48 + n)] else digits_of (n div 10) @ [char_of (48 + n mod 10)])"

declare digits_of.simps [simp del]

definition str_of_int :: "int \<Rightarrow> string" where
  "str_of_int i = (if i < 0 then CHR ''-'' # digits_of (nat (- i)) else digits_of (nat i))"

text \<open>
  \<^verbatim>\<open>int(s)\<close>: surrounding whitespace, an optional sign and decimal digits in
  which single underscores may separate digits; \<open>None\<close> is the \<^verbatim>\<open>ValueError\<close>.
\<close>

definition digit_val :: "char \<Rightarrow> nat option" where
  "digit_val c =
     (let n = (of_char c :: nat) in if 48 \<le> n \<and> n \<le> 57 then Some (n - 48) else None)"

fun int_digits :: "bool \<Rightarrow> nat \<Rightarrow> string \<Rightarrow> nat option" where
  "int_digits after_digit acc [] = (if after_digit then Some acc else None)"
| "int_digits after_digit acc (c # cs) =
     (case digit_val c of
        Some d \<Rightarrow> int_digits True (10 * acc + d) cs
      | None \<Rightarrow> if c = CHR ''_'' \<and> after_digit then int_digits False acc cs else None)"

definition int_of_str :: "string \<Rightarrow> int option" where
  "int_of_str s =
     (case py_strip s of
        [] \<Rightarrow> None
      | c # cs \<Rightarrow>
          if c = CHR ''-'' then map_option (\<lambda>n. - int n) (int_digits False 0 cs)
          else if c = CHR ''+'' then map_option int (int_digits False 0 cs)
          else map_option int (int_digits False 0 (c # cs)))"

text \<open>\<^verbatim>\<open>int(str(i))\<close> is \<open>i\<close>, and \<^verbatim>\<open>str(i)\<close> has only a sign and digits.\<close>

lemma of_char_digit [simp]: "n < 10 \<Longrightarrow> of_char (char_of (48 + n)) = 48 + n" for n :: nat
  by simp

lemma digit_val_digit [simp]: "n < 10 \<Longrightarrow> digit_val (char_of (48 + n)) = Some n" for n :: nat
  by (simp add: digit_val_def Let_def)

lemma int_digits_append_digit:
  "int_digits b a s = Some n \<Longrightarrow> d < 10 \<Longrightarrow> int_digits b a (s @ [char_of (48 + d)]) = Some (10 * n + d)"
  by (induction b a s rule: int_digits.induct) (auto split: option.splits if_splits)

lemma int_digits_digits_of: "int_digits False 0 (digits_of n) = Some n"
proof (induction n rule: digits_of.induct)
  case (1 n)
  show ?case
  proof (cases "n < 10")
    case True
    then show ?thesis by (simp add: digits_of.simps)
  next
    case False
    then have "int_digits False 0 (digits_of (n div 10) @ [char_of (48 + n mod 10)]) =
        Some (10 * (n div 10) + n mod 10)"
      using 1 by (intro int_digits_append_digit) simp_all
    then show ?thesis
      using False by (subst digits_of.simps) simp
  qed
qed

definition is_digit :: "char \<Rightarrow> bool" where
  "is_digit c \<longleftrightarrow> 48 \<le> (of_char c :: nat) \<and> (of_char c :: nat) \<le> 57"

lemma digits_of_digits: "c \<in> set (digits_of n) \<Longrightarrow> is_digit c"
proof (induction n rule: digits_of.induct)
  case (1 n)
  show ?case
    using 1 by (cases "n < 10") (auto simp: digits_of.simps [of n] is_digit_def)
qed

lemma digits_of_neq_Nil: "digits_of n \<noteq> []"
  by (subst digits_of.simps) simp

lemma py_strip_trim:
  assumes "s \<noteq> []" "\<not> py_isspace (hd s)" "\<not> py_isspace (last s)"
  shows "py_strip s = s"
proof -
  have d: "dropWhile py_isspace s = s"
    using assms(1,2) by (cases s) auto
  have "dropWhile py_isspace (rev s) = rev s"
    using assms(1,3) by (cases s rule: rev_cases) auto
  with d show ?thesis by (simp add: py_strip_def)
qed

lemma is_digit_nonspace: "is_digit c \<Longrightarrow> \<not> py_isspace c"
  by (auto simp: is_digit_def py_isspace_def)

lemma int_of_str_of_int: "int_of_str (str_of_int i) = Some i"
proof -
  have strip: "py_strip (str_of_int i) = str_of_int i"
  proof (rule py_strip_trim)
    have l: "\<not> py_isspace (last (digits_of n))" for n
      using digits_of_digits digits_of_neq_Nil is_digit_nonspace by (metis last_in_set)
    have h: "\<not> py_isspace (hd (digits_of n))" for n
      using digits_of_digits digits_of_neq_Nil is_digit_nonspace by (metis list.set_sel(1))
    show "str_of_int i \<noteq> []" by (simp add: str_of_int_def digits_of_neq_Nil)
    show "\<not> py_isspace (hd (str_of_int i))"
      using h by (simp add: str_of_int_def py_isspace_def)
    show "\<not> py_isspace (last (str_of_int i))"
      using l by (simp add: str_of_int_def digits_of_neq_Nil)
  qed
  obtain c cs where d: "digits_of (nat i) = c # cs"
    by (cases "digits_of (nat i)") (simp_all add: digits_of_neq_Nil)
  have c: "c \<noteq> CHR ''-''" "c \<noteq> CHR ''+''"
    using digits_of_digits [of c "nat i"] d by (auto simp: is_digit_def)
  have "int_digits False 0 (c # cs) = Some (nat i)"
    using int_digits_digits_of [of "nat i"] d by simp
  then show ?thesis
    using strip c d by (auto simp: int_of_str_def str_of_int_def int_digits_digits_of simp del: int_digits.simps)
qed

lemma str_of_int_inject [simp]: "str_of_int i = str_of_int j \<longleftrightarrow> i = j"
  by (metis int_of_str_of_int option.inject)

section \<open>UTF-8\<close>

text \<open>\<^verbatim>\<open>len(s.encode("utf-8"))\<close>: one byte below 128, two up to 255.\<close>

definition utf8_length :: "string \<Rightarrow> int" where
  "utf8_length s = sum_list (map (\<lambda>c. if (of_char c :: nat) < 128 then 1 else 2) s)"

end
