(* ===== verification/Config.thy ===== *)
theory Config
  imports Prelude "HOL-Library.Sublist"
begin

text \<open>
  The configuration component, \<^verbatim>\<open>plugins/memory/cashew/config.py\<close>: the default
  table, per-field validation, environment overrides, the profile-confined
  database path, loading, the effective snapshot of the cron job, and saving
  with an atomic replacement of \<^verbatim>\<open>cashew.json\<close>.

  The file is modelled by what \<^verbatim>\<open>json.loads\<close> makes of it (a document, or text
  that does not decode). Parameters stand for what the operating system and the
  text parsers of the standard library decide: \<open>fs_resolve\<close> is
  \<^verbatim>\<open>Path.resolve\<close>, \<open>float_of\<close> is \<^verbatim>\<open>float\<close> on a string and
  \<open>json_loads\<close> is \<^verbatim>\<open>json.loads\<close> (\<open>None\<close> is their \<^verbatim>\<open>ValueError\<close>).
\<close>

section \<open>Defaults and data\<close>

definition DEFAULTS :: pydict where
  "DEFAULTS =
     [(''cashew_db_path'', PStr ''cashew/brain.db''),
      (''embedding_model'', PStr ''thenlper/gte-large''),
      (''embedding_device'', PStr ''cpu''),
      (''recall_k'', PInt 5),
      (''sync_queue_timeout'', PFloat (Fin 30)),
      (''user_domain'', PStr ''user''),
      (''ai_domain'', PStr ''ai''),
      (''auto_extraction'', PBool True),
      (''think_cycles'', PBool True),
      (''sleep_cycles'', PBool True),
      (''llm_aux_role'', PStr ''memory''),
      (''think_interval'', PInt 10),
      (''prefetch_k'', PInt 3),
      (''prefetch_cues'', PInt 3),
      (''sleep_schedule'', PStr ''every 12h''),
      (''sleep_max_nodes'', PInt 2000),
      (''_features'', PDict [(''experimental_batch_sync'', PBool False)])]"

definition CONFIG_KEYS :: "string list" where
  "CONFIG_KEYS = map fst DEFAULTS"

definition REMOVED_LEGACY_CONFIG_KEYS :: "string list" where
  "REMOVED_LEGACY_CONFIG_KEYS =
     [''default_domain'', ''auto_classify'', ''domain_classifications'',
      ''domain_separation_enabled'', ''token_budget'', ''walk_depth'',
      ''similarity_threshold'', ''access_weight'', ''temporal_weight'',
      ''clustering_eps'', ''clustering_min_samples'', ''novelty_threshold'',
      ''max_think_iterations'', ''think_cycle_nodes'', ''gc_mode'', ''gc_threshold'',
      ''gc_grace_days'', ''gc_protect_types'', ''gc_think_cycle_penalty'',
      ''decay_pruning'', ''pattern_detection'']"

record CashewConfig =
  cfg_cashew_db_path :: string
  cfg_embedding_model :: string
  cfg_embedding_device :: string
  cfg_recall_k :: int
  cfg_sync_queue_timeout :: real
  cfg_user_domain :: string
  cfg_ai_domain :: string
  cfg_auto_extraction :: bool
  cfg_think_cycles :: bool
  cfg_sleep_cycles :: bool
  cfg_llm_aux_role :: "string option"
  cfg_think_interval :: int
  cfg_prefetch_k :: int
  cfg_prefetch_cues :: int
  cfg_sleep_schedule :: string
  cfg_sleep_max_nodes :: int
  cfg_features :: "(string \<times> bool) list"

definition is_feature_enabled :: "CashewConfig \<Rightarrow> string \<Rightarrow> bool" where
  "is_feature_enabled c flag =
     (case map_of (cfg_features c) flag of None \<Rightarrow> False | Some b \<Rightarrow> b)"

definition get_user_domain :: "CashewConfig \<Rightarrow> string" where
  "get_user_domain c = cfg_user_domain c"

definition get_ai_domain :: "CashewConfig \<Rightarrow> string" where
  "get_ai_domain c = cfg_ai_domain c"

definition removeprefix :: "string \<Rightarrow> string \<Rightarrow> string" where
  "removeprefix p s = (if py_startswith p s then drop (length p) s else s)"

definition py_upper_char :: "char \<Rightarrow> char" where
  \<comment> \<open>enough for the configuration keys, which are lower-case ASCII\<close>
  "py_upper_char c =
     (let n = (of_char c :: nat) in if 97 \<le> n \<and> n \<le> 122 then char_of (n - 32) else c)"

definition env_var_name :: "string \<Rightarrow> string" where
  "env_var_name key = ''CASHEW_'' @ map py_upper_char (removeprefix ''cashew_'' key)"

section \<open>Validation\<close>

definition COUNT_RANGES :: "(string \<times> int \<times> int) list" where
  "COUNT_RANGES =
     [(''recall_k'', 1, 20), (''think_interval'', 0, 10000), (''prefetch_k'', 1, 20),
      (''prefetch_cues'', 0, 20), (''sleep_max_nodes'', 1, 2000)]"

definition BOOL_FIELDS :: "string list" where
  "BOOL_FIELDS = [''auto_extraction'', ''think_cycles'', ''sleep_cycles'']"

definition NONEMPTY_STRING_FIELDS :: "string list" where
  "NONEMPTY_STRING_FIELDS =
     [''embedding_model'', ''embedding_device'', ''user_domain'', ''ai_domain'']"

definition invalid_value :: "string \<Rightarrow> string \<Rightarrow> 'a res" where
  "invalid_value key expectation = raise C_ValueError (key @ '' must be '' @ expectation)"

fun validate_nonempty_string :: "string \<Rightarrow> pyval \<Rightarrow> pyval res" where
  "validate_nonempty_string key (PStr s) =
     (if py_strip s = [] then invalid_value key ''a non-empty string'' else return (PStr s))"
| "validate_nonempty_string key v = invalid_value key ''a non-empty string''"

definition count_expectation :: "int \<Rightarrow> int \<Rightarrow> string" where
  "count_expectation lower upper =
     ''an integer from '' @ str_of_int lower @ '' to '' @ str_of_int upper"

definition validate_count :: "string \<Rightarrow> pyval \<Rightarrow> pyval res" where
  "validate_count key v =
     (case map_of COUNT_RANGES key of
        None \<Rightarrow> raise C_KeyError key
      | Some (lower, upper) \<Rightarrow>
          (case v of
             PInt i \<Rightarrow> if lower \<le> i \<and> i \<le> upper then return (PInt i)
                       else invalid_value key (count_expectation lower upper)
           | _ \<Rightarrow> invalid_value key (count_expectation lower upper)))"

text \<open>
  \<^verbatim>\<open>math.isfinite\<close> converts an integer to a double first; an integer of at least
  \<open>2\<^sup>1\<^sup>0\<^sup>2\<^sup>4 - 2\<^sup>9\<^sup>7\<^sup>0\<close> in absolute value has none and raises \<^verbatim>\<open>OverflowError\<close>.
\<close>

definition double_overflow :: "int \<Rightarrow> bool" where
  "double_overflow i \<longleftrightarrow> 2 ^ 1024 - 2 ^ 970 \<le> \<bar>i\<bar>"

definition timeout_expectation :: string where
  "timeout_expectation = ''a finite number from 0 to 300''"

definition validate_timeout :: "pyval \<Rightarrow> pyval res" where
  "validate_timeout v =
     (case v of
        PInt i \<Rightarrow>
          if double_overflow i then raise C_OverflowError ''int too large to convert to float''
          else if 0 \<le> i \<and> i \<le> 300 then return (PFloat (Fin (real_of_int i)))
          else invalid_value ''sync_queue_timeout'' timeout_expectation
      | PFloat (Fin r) \<Rightarrow>
          if 0 \<le> r \<and> r \<le> 300 then return (PFloat (Fin r))
          else invalid_value ''sync_queue_timeout'' timeout_expectation
      | _ \<Rightarrow> invalid_value ''sync_queue_timeout'' timeout_expectation)"

fun is_bool :: "pyval \<Rightarrow> bool" where
  "is_bool (PBool _) = True"
| "is_bool _ = False"

definition validate_features :: "pyval \<Rightarrow> pyval res" where
  "validate_features v =
     (case v of
        PDict d \<Rightarrow>
          if list_ex (\<lambda>(name, _). name = []) d then
            invalid_value ''_features'' ''an object with non-empty string flag names''
          else if list_ex (\<lambda>(_, enabled). \<not> is_bool enabled) d then
            invalid_value ''_features'' ''an object of boolean feature flags''
          else return (PDict (filter (\<lambda>(name, _). name \<noteq> ''experimental_parallel_retrieval'') d))
      | _ \<Rightarrow> invalid_value ''_features'' ''a JSON object of boolean feature flags'')"

section \<open>Paths\<close>

text \<open>
  An absolute path is the list of its components. \<open>split_path\<close> is how
  \<^verbatim>\<open>PurePath\<close> reads a relative path string: empty and \<^verbatim>\<open>.\<close> components are
  dropped, \<^verbatim>\<open>..\<close> stays for \<^verbatim>\<open>resolve\<close>.
\<close>

fun split_slash :: "string \<Rightarrow> string \<Rightarrow> string list" where
  "split_slash acc [] = [rev acc]"
| "split_slash acc (c # cs) =
     (if c = CHR ''/'' then rev acc # split_slash [] cs else split_slash (c # acc) cs)"

definition split_path :: "string \<Rightarrow> string list" where
  "split_path s = filter (\<lambda>p. p \<noteq> [] \<and> p \<noteq> ''.'') (split_slash [] s)"

definition resolve_db_path :: "(path \<Rightarrow> path res) \<Rightarrow> path \<Rightarrow> string \<Rightarrow> path res" where
  "resolve_db_path fs_resolve hermes_home db_path_value =
     (if py_startswith ''/'' db_path_value then
        raise C_ValueError ''cashew_db_path must be relative to hermes_home''
      else
        bind_res (fs_resolve hermes_home) (\<lambda>home.
        bind_res (fs_resolve (home @ split_path db_path_value)) (\<lambda>candidate.
          if prefix home candidate then return candidate
          else raise C_ValueError ''cashew_db_path must stay within hermes_home'')))"

definition resolve_config_path :: "path \<Rightarrow> path" where
  "resolve_config_path hermes_home = hermes_home @ [''cashew.json'']"

section \<open>One field, all fields\<close>

definition validate_field ::
    "(path \<Rightarrow> path res) \<Rightarrow> path \<Rightarrow> string \<Rightarrow> pyval \<Rightarrow> pyval res" where
  "validate_field fs_resolve home key v =
     (if key = ''cashew_db_path'' then
        bind_res (validate_nonempty_string key v) (\<lambda>w.
          case w of
            PStr s \<Rightarrow> bind_res (resolve_db_path fs_resolve home s) (\<lambda>_. return w)
          | _ \<Rightarrow> return w)
      else if key \<in> set NONEMPTY_STRING_FIELDS then validate_nonempty_string key v
      else if key = ''llm_aux_role'' then
        (if v \<noteq> PNone \<and> \<not> is_str v then invalid_value key ''a string, empty string, or null''
         else return v)
      else if key = ''sleep_schedule'' then
        (if \<not> is_str v then invalid_value key ''a string'' else return v)
      else if key \<in> set BOOL_FIELDS then
        (if \<not> is_bool v then invalid_value key ''a boolean'' else return v)
      else if key \<in> fst ` set COUNT_RANGES then validate_count key v
      else if key = ''sync_queue_timeout'' then validate_timeout v
      else if key = ''_features'' then validate_features v
      else raise C_AssertionError (''Unhandled Cashew config field: '' @ key))"

definition dict_index :: "pydict \<Rightarrow> string \<Rightarrow> pyval res" where
  "dict_index d k = (case map_of d k of None \<Rightarrow> raise C_KeyError k | Some v \<Rightarrow> return v)"

definition validate_config_values ::
    "(path \<Rightarrow> path res) \<Rightarrow> path \<Rightarrow> pydict \<Rightarrow> pydict res" where
  "validate_config_values fs_resolve home values =
     map_res (\<lambda>key. bind_res (dict_index values key) (\<lambda>v.
                    bind_res (validate_field fs_resolve home key v) (\<lambda>w. return (key, w))))
       CONFIG_KEYS"

text \<open>
  \<^verbatim>\<open>CashewConfig(**payload)\<close>. The projections have a value for every input; they
  are applied to validated payloads only, where each finds its own constructor.
\<close>

fun the_str :: "pyval \<Rightarrow> string" where
  "the_str (PStr s) = s" | "the_str _ = []"

fun the_int :: "pyval \<Rightarrow> int" where
  "the_int (PInt i) = i" | "the_int _ = 0"

fun the_bool :: "pyval \<Rightarrow> bool" where
  "the_bool (PBool b) = b" | "the_bool _ = False"

fun the_float :: "pyval \<Rightarrow> real" where
  "the_float (PFloat (Fin r)) = r" | "the_float _ = 0"

fun the_opt_str :: "pyval \<Rightarrow> string option" where
  "the_opt_str (PStr s) = Some s" | "the_opt_str _ = None"

fun the_flags :: "pyval \<Rightarrow> (string \<times> bool) list" where
  "the_flags (PDict d) = map (\<lambda>(n, v). (n, the_bool v)) d" | "the_flags _ = []"

definition config_of_payload :: "pydict \<Rightarrow> CashewConfig" where
  "config_of_payload d =
     \<lparr>cfg_cashew_db_path = the_str (dict_get d ''cashew_db_path''),
      cfg_embedding_model = the_str (dict_get d ''embedding_model''),
      cfg_embedding_device = the_str (dict_get d ''embedding_device''),
      cfg_recall_k = the_int (dict_get d ''recall_k''),
      cfg_sync_queue_timeout = the_float (dict_get d ''sync_queue_timeout''),
      cfg_user_domain = the_str (dict_get d ''user_domain''),
      cfg_ai_domain = the_str (dict_get d ''ai_domain''),
      cfg_auto_extraction = the_bool (dict_get d ''auto_extraction''),
      cfg_think_cycles = the_bool (dict_get d ''think_cycles''),
      cfg_sleep_cycles = the_bool (dict_get d ''sleep_cycles''),
      cfg_llm_aux_role = the_opt_str (dict_get d ''llm_aux_role''),
      cfg_think_interval = the_int (dict_get d ''think_interval''),
      cfg_prefetch_k = the_int (dict_get d ''prefetch_k''),
      cfg_prefetch_cues = the_int (dict_get d ''prefetch_cues''),
      cfg_sleep_schedule = the_str (dict_get d ''sleep_schedule''),
      cfg_sleep_max_nodes = the_int (dict_get d ''sleep_max_nodes''),
      cfg_features = the_flags (dict_get d ''_features'')\<rparr>"

definition effective_config_snapshot :: "CashewConfig \<Rightarrow> pydict" where
  "effective_config_snapshot c =
     [(''cashew_db_path'', PStr (cfg_cashew_db_path c)),
      (''embedding_model'', PStr (cfg_embedding_model c)),
      (''embedding_device'', PStr (cfg_embedding_device c)),
      (''recall_k'', PInt (cfg_recall_k c)),
      (''sync_queue_timeout'', PFloat (Fin (cfg_sync_queue_timeout c))),
      (''user_domain'', PStr (cfg_user_domain c)),
      (''ai_domain'', PStr (cfg_ai_domain c)),
      (''auto_extraction'', PBool (cfg_auto_extraction c)),
      (''think_cycles'', PBool (cfg_think_cycles c)),
      (''sleep_cycles'', PBool (cfg_sleep_cycles c)),
      (''llm_aux_role'', case cfg_llm_aux_role c of None \<Rightarrow> PNone | Some r \<Rightarrow> PStr r),
      (''think_interval'', PInt (cfg_think_interval c)),
      (''prefetch_k'', PInt (cfg_prefetch_k c)),
      (''prefetch_cues'', PInt (cfg_prefetch_cues c)),
      (''sleep_schedule'', PStr (cfg_sleep_schedule c)),
      (''sleep_max_nodes'', PInt (cfg_sleep_max_nodes c)),
      (''_features'', PDict (map (\<lambda>(n, b). (n, PBool b)) (cfg_features c)))]"

section \<open>Loading\<close>

datatype config_file = Absent | Undecodable | Document pyval

definition coerce_environment_value ::
    "(string \<Rightarrow> pyfloat option) \<Rightarrow> (string \<Rightarrow> pyval option) \<Rightarrow> string \<Rightarrow> string \<Rightarrow> pyval res" where
  "coerce_environment_value float_of json_loads key v =
     (case dict_get DEFAULTS key of
        PBool _ \<Rightarrow>
          (let normalized = py_lower (py_strip v)
           in if normalized \<in> {''1'', ''true'', ''yes'', ''on''} then return (PBool True)
              else if normalized \<in> {''0'', ''false'', ''no'', ''off''} then return (PBool False)
              else raise C_ValueError ''invalid boolean'')
      | PInt _ \<Rightarrow>
          (case int_of_str v of
             None \<Rightarrow> raise C_ValueError ''invalid literal for int()''
           | Some i \<Rightarrow> return (PInt i))
      | PFloat _ \<Rightarrow>
          (case float_of v of
             None \<Rightarrow> raise C_ValueError ''could not convert string to float''
           | Some f \<Rightarrow> return (PFloat f))
      | _ \<Rightarrow>
          if key = ''_features'' then
            (case json_loads v of
               None \<Rightarrow> raise C_JSONDecodeError ''invalid JSON''
             | Some parsed \<Rightarrow>
                 if is_dict parsed then return parsed
                 else raise C_ValueError ''invalid feature object'')
          else return (PStr v))"

text \<open>The \<^verbatim>\<open>except\<close> clause of the override loop.\<close>

definition override_ignored :: "exn \<Rightarrow> bool" where
  "override_ignored e \<longleftrightarrow>
     isinstance e C_TypeError \<or> isinstance e C_ValueError \<or> isinstance e C_JSONDecodeError"

definition env_override ::
    "(string \<Rightarrow> pyfloat option) \<Rightarrow> (string \<Rightarrow> pyval option) \<Rightarrow> (path \<Rightarrow> path res) \<Rightarrow> path \<Rightarrow>
     (string \<rightharpoonup> string) \<Rightarrow> string \<Rightarrow> pydict \<Rightarrow> pydict res" where
  "env_override float_of json_loads fs_resolve home env key merged =
     (case env (env_var_name key) of
        None \<Rightarrow> return merged
      | Some env_val \<Rightarrow>
          (case bind_res (coerce_environment_value float_of json_loads key env_val)
                  (validate_field fs_resolve home key) of
             Inr w \<Rightarrow> return (AList.update key w merged)
           | Inl e \<Rightarrow> if override_ignored e then return merged else Inl e))"

fun fold_res :: "('a \<Rightarrow> 's \<Rightarrow> 's res) \<Rightarrow> 'a list \<Rightarrow> 's \<Rightarrow> 's res" where
  "fold_res f [] s = return s"
| "fold_res f (x # xs) s = bind_res (f x s) (fold_res f xs)"

definition file_values :: "config_file \<Rightarrow> pydict res" where
  "file_values file =
     (case file of
        Absent \<Rightarrow> return DEFAULTS
      | Undecodable \<Rightarrow> raise C_JSONDecodeError ''invalid JSON''
      | Document v \<Rightarrow>
          (case v of
             PDict raw \<Rightarrow> return (dict_merge DEFAULTS raw)
           | _ \<Rightarrow> raise C_ValueError ''cashew.json must contain a JSON object''))"

definition load_config ::
    "(string \<Rightarrow> pyfloat option) \<Rightarrow> (string \<Rightarrow> pyval option) \<Rightarrow> (path \<Rightarrow> path res) \<Rightarrow> path \<Rightarrow>
     (string \<rightharpoonup> string) \<Rightarrow> config_file \<Rightarrow> CashewConfig res" where
  "load_config float_of json_loads fs_resolve home env file =
     bind_res (file_values file) (\<lambda>merged0.
     bind_res (fold_res (env_override float_of json_loads fs_resolve home env) CONFIG_KEYS merged0)
       (\<lambda>merged.
     bind_res (validate_config_values fs_resolve home merged) (\<lambda>payload.
       return (config_of_payload payload))))"

definition load_effective_config_snapshot ::
    "(path \<Rightarrow> path res) \<Rightarrow> path \<Rightarrow> pyval \<Rightarrow> CashewConfig res" where
  "load_effective_config_snapshot fs_resolve home snap =
     (case snap of
        PDict d \<Rightarrow>
          if fst ` set d \<noteq> set CONFIG_KEYS then
            raise C_ValueError ''Cashew cron configuration snapshot is malformed''
          else bind_res (validate_config_values fs_resolve home d) (\<lambda>payload.
            return (config_of_payload payload))
      | _ \<Rightarrow> raise C_ValueError ''Cashew cron configuration snapshot is malformed'')"

section \<open>Saving\<close>

text \<open>
  The directory that holds \<^verbatim>\<open>cashew.json\<close>: the file itself and how many temporary
  files are left in it. The stages of the atomic replacement are the calls that
  can raise; \<open>fault\<close> names the one that does, if any.
\<close>

record config_dir =
  cd_main :: config_file
  cd_temps :: nat

datatype write_stage = St_mkstemp | St_write | St_fsync | St_chmod | St_replace | St_fsync_dir

definition atomic_write_config ::
    "write_stage option \<Rightarrow> config_file \<Rightarrow> config_dir \<Rightarrow> unit res \<times> config_dir" where
  "atomic_write_config fault contents d =
     (if fault = Some St_mkstemp then (raise C_OSError ''mkstemp'', d)
      else
        (let d = d\<lparr>cd_temps := cd_temps d + 1\<rparr>;
             unlink_temp = (\<lambda>d. d\<lparr>cd_temps := cd_temps d - 1\<rparr>)
         in if fault \<in> {Some St_write, Some St_fsync, Some St_chmod, Some St_replace} then
              (raise C_OSError ''write'', unlink_temp d)
            else
              (let d = d\<lparr>cd_main := contents, cd_temps := cd_temps d - 1\<rparr>
               in if fault = Some St_fsync_dir then
                    \<comment> \<open>the temporary file is gone: the unlink in the handler does nothing\<close>
                    (raise C_OSError ''fsync'', d)
                  else (return (), d))))"

definition read_existing_config :: "config_file \<Rightarrow> pydict res" where
  "read_existing_config file =
     (case file of
        Absent \<Rightarrow> return []
      | Undecodable \<Rightarrow> raise C_ValueError ''Cannot save Cashew config: not valid JSON''
      | Document v \<Rightarrow>
          (case v of
             PDict d \<Rightarrow> return d
           | _ \<Rightarrow> raise C_ValueError ''Cannot save Cashew config: must contain a JSON object''))"

fun apply_values :: "pydict \<Rightarrow> pydict \<Rightarrow> pydict" where
  "apply_values [] merged = merged"
| "apply_values ((k, v) # rest) merged =
     apply_values rest (if k \<in> set CONFIG_KEYS then AList.update k v merged else merged)"

definition merged_config ::
    "(path \<Rightarrow> path res) \<Rightarrow> path \<Rightarrow> pydict \<Rightarrow> config_file \<Rightarrow> pydict res" where
  "merged_config fs_resolve home values file =
     bind_res (read_existing_config file) (\<lambda>raw.
       (let existing = filter (\<lambda>(k, _). k \<notin> set REMOVED_LEGACY_CONFIG_KEYS) raw;
            merged = apply_values values (dict_merge DEFAULTS existing)
        in bind_res (validate_config_values fs_resolve home merged) (\<lambda>validated.
             return (dict_merge merged validated))))"

text \<open>The body of the locked section; the lock makes it one step for other writers.\<close>

definition save_config ::
    "(path \<Rightarrow> path res) \<Rightarrow> path \<Rightarrow> pydict \<Rightarrow> write_stage option \<Rightarrow> config_dir \<Rightarrow>
     path res \<times> config_dir" where
  "save_config fs_resolve home values fault d =
     (case merged_config fs_resolve home values (cd_main d) of
        Inl e \<Rightarrow> (Inl e, d)
      | Inr merged \<Rightarrow>
          (case atomic_write_config fault (Document (PDict merged)) d of
             (Inl e, d') \<Rightarrow> (Inl e, d')
           | (Inr _, d') \<Rightarrow> (return (resolve_config_path home), d')))"

definition generate_default_config ::
    "(path \<Rightarrow> path res) \<Rightarrow> path \<Rightarrow> write_stage option \<Rightarrow> config_dir \<Rightarrow> path res \<times> config_dir" where
  "generate_default_config fs_resolve home fault d =
     (if cd_main d \<noteq> Absent then (return (resolve_config_path home), d)
      else save_config fs_resolve home DEFAULTS fault d)"

end
