(* ===== verification/ConfigProps.thy ===== *)
theory ConfigProps
  imports Config
begin

text \<open>
  What the configuration of \<^verbatim>\<open>config.py\<close> guarantees: validation and its
  idempotence, well-formed results, the precedence of the sources, atomic saving
  and its round trip, the cron snapshot, and the confinement of the database path.
\<close>

section \<open>Validation: shape and idempotence\<close>

lemma distinct_CONFIG_KEYS [simp]: "distinct CONFIG_KEYS"
  by code_simp

lemma map_fst_DEFAULTS [simp]: "map fst DEFAULTS = CONFIG_KEYS"
  by (simp add: CONFIG_KEYS_def)

lemma distinct_DEFAULTS [simp]: "distinct (map fst DEFAULTS)"
  by simp

lemma keys_DEFAULTS [simp]: "fst ` set DEFAULTS = set CONFIG_KEYS"
  by (metis list.set_map map_fst_DEFAULTS)

lemma legacy_not_config: "k \<in> set CONFIG_KEYS \<Longrightarrow> k \<notin> set REMOVED_LEGACY_CONFIG_KEYS"
proof -
  have "list_all (\<lambda>k. k \<notin> set REMOVED_LEGACY_CONFIG_KEYS) CONFIG_KEYS" by code_simp
  then show "k \<in> set CONFIG_KEYS \<Longrightarrow> k \<notin> set REMOVED_LEGACY_CONFIG_KEYS"
    by (simp add: list_all_iff)
qed

lemma invalid_value_neq_Inr [simp]: "invalid_value k x \<noteq> Inr y"
  by (simp add: invalid_value_def)

lemma validate_nonempty_string_Inr [res_simps]:
  "validate_nonempty_string k v = Inr w \<longleftrightarrow> (\<exists>s. v = PStr s \<and> py_strip s \<noteq> [] \<and> w = PStr s)"
  by (cases v) auto

lemma validate_count_Inr [res_simps]:
  "validate_count k v = Inr w \<longleftrightarrow>
     (\<exists>lo hi i. map_of COUNT_RANGES k = Some (lo, hi) \<and> v = PInt i \<and> lo \<le> i \<and> i \<le> hi \<and> w = PInt i)"
  by (auto simp: validate_count_def split: option.splits pyval.splits)

lemma no_overflow_small: "0 \<le> i \<Longrightarrow> i \<le> 300 \<Longrightarrow> \<not> double_overflow i"
  by (simp add: double_overflow_def)

lemma validate_timeout_Inr [res_simps]:
  "validate_timeout v = Inr w \<longleftrightarrow>
     (\<exists>r. 0 \<le> r \<and> r \<le> 300 \<and> w = PFloat (Fin r) \<and>
       (v = PFloat (Fin r) \<or> (\<exists>i. v = PInt i \<and> r = real_of_int i)))"
  by (auto simp: validate_timeout_def no_overflow_small split: pyval.splits pyfloat.splits)

definition good_flags :: "pydict \<Rightarrow> bool" where
  "good_flags d \<longleftrightarrow> (\<forall>(n, v) \<in> set d. n \<noteq> [] \<and> is_bool v)"

lemma validate_features_Inr [res_simps]:
  "validate_features v = Inr w \<longleftrightarrow>
     (\<exists>d. v = PDict d \<and> good_flags d \<and>
       w = PDict (filter (\<lambda>(name, _). name \<noteq> ''experimental_parallel_retrieval'') d))"
  by (auto simp: validate_features_def good_flags_def list_ex_iff split: pyval.splits)

lemma good_flags_filter: "good_flags d \<Longrightarrow> good_flags (filter P d)"
  by (auto simp: good_flags_def)

lemmas field_tables = NONEMPTY_STRING_FIELDS_def BOOL_FIELDS_def COUNT_RANGES_def

text \<open>Which validator each key reaches in the chain of tests.\<close>

lemma validate_field_db_path:
  "validate_field fs home ''cashew_db_path'' v = Inr w \<longleftrightarrow>
     (\<exists>s p. v = PStr s \<and> w = PStr s \<and> py_strip s \<noteq> [] \<and> resolve_db_path fs home s = Inr p)"
  by (cases v) (auto simp: validate_field_def res_simps)

lemma validate_field_string:
  assumes "k \<in> set NONEMPTY_STRING_FIELDS"
  shows "validate_field fs home k = validate_nonempty_string k"
proof -
  have "list_all (\<lambda>k. validate_field fs home k = validate_nonempty_string k) NONEMPTY_STRING_FIELDS"
    by (simp add: validate_field_def fun_eq_iff field_tables)
  with assms show ?thesis by (simp add: list_all_iff)
qed

lemma validate_field_count:
  assumes "k \<in> fst ` set COUNT_RANGES"
  shows "validate_field fs home k = validate_count k"
proof -
  have "list_all (\<lambda>k. validate_field fs home k = validate_count k) (map fst COUNT_RANGES)"
    by (simp add: validate_field_def fun_eq_iff field_tables)
  with assms show ?thesis by (auto simp: list_all_iff)
qed

lemma validate_field_bool:
  assumes "k \<in> set BOOL_FIELDS"
  shows "validate_field fs home k v = Inr w \<longleftrightarrow> (\<exists>b. v = PBool b \<and> w = PBool b)"
proof -
  have "list_all (\<lambda>k. validate_field fs home k v =
          (if \<not> is_bool v then invalid_value k ''a boolean'' else return v)) BOOL_FIELDS"
    by (simp add: validate_field_def field_tables)
  with assms have "validate_field fs home k v =
      (if \<not> is_bool v then invalid_value k ''a boolean'' else return v)"
    by (simp add: list_all_iff)
  then show ?thesis by (cases v) auto
qed

lemma validate_field_role:
  "validate_field fs home ''llm_aux_role'' v = Inr w \<longleftrightarrow> w = v \<and> (v = PNone \<or> (\<exists>s. v = PStr s))"
  by (cases v) (auto simp: validate_field_def field_tables)

lemma validate_field_schedule:
  "validate_field fs home ''sleep_schedule'' v = Inr w \<longleftrightarrow> w = v \<and> (\<exists>s. v = PStr s)"
  by (cases v) (auto simp: validate_field_def field_tables)

lemma validate_field_timeout:
  "validate_field fs home ''sync_queue_timeout'' v = validate_timeout v"
  by (simp add: validate_field_def field_tables)

lemma validate_field_features:
  "validate_field fs home ''_features'' v = validate_features v"
  by (simp add: validate_field_def field_tables)

lemma validate_field_key_cases:
  assumes "validate_field fs home k v = Inr w"
  obtains (db_path) "k = ''cashew_db_path''" | (str) "k \<in> set NONEMPTY_STRING_FIELDS"
    | (role) "k = ''llm_aux_role''" | (schedule) "k = ''sleep_schedule''"
    | (flag) "k \<in> set BOOL_FIELDS" | (num) "k \<in> fst ` set COUNT_RANGES"
    | (timeout) "k = ''sync_queue_timeout''" | (features) "k = ''_features''"
  using assms by (simp add: validate_field_def split: if_split_asm)

text \<open>A validated value is a normal form: validating it again changes nothing.\<close>

lemma validate_field_idem:
  assumes "validate_field fs home k v = Inr w"
  shows "validate_field fs home k w = Inr w"
  using assms
proof (cases rule: validate_field_key_cases)
  case features
  with assms show ?thesis
    by (auto simp: validate_field_features validate_features_Inr good_flags_filter)
qed (use assms in \<open>auto simp: validate_field_db_path validate_field_string validate_field_role
  validate_field_schedule validate_field_bool validate_field_count validate_field_timeout
  validate_nonempty_string_Inr validate_count_Inr validate_timeout_Inr\<close>)

lemma validate_config_values_Inr:
  "validate_config_values fs home m = Inr p \<longleftrightarrow>
     map fst p = CONFIG_KEYS \<and>
     (\<forall>(k, w) \<in> set p. \<exists>v. map_of m k = Some v \<and> validate_field fs home k v = Inr w)"
proof -
  let ?g = "\<lambda>key. bind_res (dict_index m key) (\<lambda>v.
              bind_res (validate_field fs home key v) (\<lambda>w. return (key, w)))"
  have g: "?g k = Inr x \<longleftrightarrow> fst x = k \<and>
      (\<exists>v. map_of m k = Some v \<and> validate_field fs home k v = Inr (snd x))" for k x
    by (cases x) (auto simp: res_simps dict_index_def split: option.splits)
  have "list_all2 (\<lambda>k x. ?g k = Inr x) ks xs \<longleftrightarrow> map fst xs = ks \<and>
      (\<forall>(k, w) \<in> set xs. \<exists>v. map_of m k = Some v \<and> validate_field fs home k v = Inr w)" for ks xs
    unfolding g by (induction xs arbitrary: ks) (auto simp: list_all2_Cons2)
  then show ?thesis
    by (simp add: validate_config_values_def map_res_eq_Inr)
qed

lemma payload_lookup:
  assumes "validate_config_values fs home m = Inr p" "k \<in> set CONFIG_KEYS"
  obtains v w where "map_of m k = Some v" "validate_field fs home k v = Inr w" "map_of p k = Some w"
proof -
  from assms have keys: "map fst p = CONFIG_KEYS"
    and vals: "\<And>k w. (k, w) \<in> set p \<Longrightarrow>
                 \<exists>v. map_of m k = Some v \<and> validate_field fs home k v = Inr w"
    by (auto simp: validate_config_values_Inr)
  from keys assms(2) obtain w where "(k, w) \<in> set p"
    by (metis imageE list.set_map prod.collapse)
  moreover from this keys have "map_of p k = Some w"
    by (metis distinct_CONFIG_KEYS map_of_is_SomeI)
  ultimately show thesis using vals that by blast
qed

text \<open>The result depends on the known keys only, and is a fixed point.\<close>

lemma validate_config_values_cong:
  assumes "\<And>k. k \<in> set CONFIG_KEYS \<Longrightarrow> map_of m k = map_of n k"
  shows "validate_config_values fs home m = validate_config_values fs home n"
proof -
  have "map_res (\<lambda>key. bind_res (dict_index m key) (f key)) ks =
        map_res (\<lambda>key. bind_res (dict_index n key) (f key)) ks"
    if "\<And>k. k \<in> set ks \<Longrightarrow> map_of m k = map_of n k"
    for ks :: "string list" and f :: "string \<Rightarrow> pyval \<Rightarrow> (string \<times> pyval) res"
    using that by (induction ks) (auto simp: dict_index_def)
  with assms show ?thesis by (simp add: validate_config_values_def)
qed

lemma validate_config_values_idem:
  assumes "validate_config_values fs home m = Inr p"
  shows "validate_config_values fs home p = Inr p"
proof -
  from assms have keys: "map fst p = CONFIG_KEYS"
    and vals: "\<And>k w. (k, w) \<in> set p \<Longrightarrow>
                 \<exists>v. map_of m k = Some v \<and> validate_field fs home k v = Inr w"
    by (auto simp: validate_config_values_Inr)
  have "map_of p k = Some w \<and> validate_field fs home k w = Inr w" if "(k, w) \<in> set p" for k w
    using that vals keys validate_field_idem by (metis distinct_CONFIG_KEYS map_of_is_SomeI)
  with keys show ?thesis by (auto simp: validate_config_values_Inr)
qed

section \<open>Well-formed configurations\<close>

definition wf_config :: "(path \<Rightarrow> path res) \<Rightarrow> path \<Rightarrow> CashewConfig \<Rightarrow> bool" where
  [inv_defs]: "wf_config fs home c \<longleftrightarrow>
     py_strip (cfg_cashew_db_path c) \<noteq> [] \<and>
     \<not> isl (resolve_db_path fs home (cfg_cashew_db_path c)) \<and>
     py_strip (cfg_embedding_model c) \<noteq> [] \<and> py_strip (cfg_embedding_device c) \<noteq> [] \<and>
     py_strip (cfg_user_domain c) \<noteq> [] \<and> py_strip (cfg_ai_domain c) \<noteq> [] \<and>
     1 \<le> cfg_recall_k c \<and> cfg_recall_k c \<le> 20 \<and>
     0 \<le> cfg_sync_queue_timeout c \<and> cfg_sync_queue_timeout c \<le> 300 \<and>
     0 \<le> cfg_think_interval c \<and> cfg_think_interval c \<le> 10000 \<and>
     1 \<le> cfg_prefetch_k c \<and> cfg_prefetch_k c \<le> 20 \<and>
     0 \<le> cfg_prefetch_cues c \<and> cfg_prefetch_cues c \<le> 20 \<and>
     1 \<le> cfg_sleep_max_nodes c \<and> cfg_sleep_max_nodes c \<le> 2000 \<and>
     (\<forall>(n, _) \<in> set (cfg_features c). n \<noteq> [] \<and> n \<noteq> ''experimental_parallel_retrieval'')"

text \<open>The values of a validated payload.\<close>

lemma payload_value:
  assumes "validate_config_values fs home m = Inr p" "k \<in> set CONFIG_KEYS"
  obtains v where "validate_field fs home k v = Inr (dict_get p k)"
  using payload_lookup [OF assms] by (metis dict_get_def option.simps(5))

lemma CONFIG_KEYS_mem [simp]:
  "''cashew_db_path'' \<in> set CONFIG_KEYS" "''embedding_model'' \<in> set CONFIG_KEYS"
  "''embedding_device'' \<in> set CONFIG_KEYS" "''recall_k'' \<in> set CONFIG_KEYS"
  "''sync_queue_timeout'' \<in> set CONFIG_KEYS" "''user_domain'' \<in> set CONFIG_KEYS"
  "''ai_domain'' \<in> set CONFIG_KEYS" "''auto_extraction'' \<in> set CONFIG_KEYS"
  "''think_cycles'' \<in> set CONFIG_KEYS" "''sleep_cycles'' \<in> set CONFIG_KEYS"
  "''llm_aux_role'' \<in> set CONFIG_KEYS" "''think_interval'' \<in> set CONFIG_KEYS"
  "''prefetch_k'' \<in> set CONFIG_KEYS" "''prefetch_cues'' \<in> set CONFIG_KEYS"
  "''sleep_schedule'' \<in> set CONFIG_KEYS" "''sleep_max_nodes'' \<in> set CONFIG_KEYS"
  "''_features'' \<in> set CONFIG_KEYS"
  by (simp_all add: CONFIG_KEYS_def DEFAULTS_def)

lemma payload_count:
  assumes "validate_config_values fs home m = Inr p"
    and "map_of COUNT_RANGES k = Some (lo, hi)" "k \<in> set CONFIG_KEYS"
  shows "\<exists>i. dict_get p k = PInt i \<and> lo \<le> i \<and> i \<le> hi"
proof -
  from payload_value [OF assms(1,3)] obtain v
    where "validate_field fs home k v = Inr (dict_get p k)" by blast
  moreover from assms(2) have "k \<in> fst ` set COUNT_RANGES"
    by (force dest: map_of_SomeD)
  ultimately show ?thesis
    using assms(2) by (auto simp: validate_field_count validate_count_Inr)
qed

lemma payload_string:
  assumes "validate_config_values fs home m = Inr p" "k \<in> set NONEMPTY_STRING_FIELDS"
    and "k \<in> set CONFIG_KEYS"
  shows "\<exists>s. dict_get p k = PStr s \<and> py_strip s \<noteq> []"
proof -
  from payload_value [OF assms(1,3)] obtain v
    where "validate_field fs home k v = Inr (dict_get p k)" by blast
  with assms(2) show ?thesis
    by (simp add: validate_field_string validate_nonempty_string_Inr) blast
qed

lemma payload_bool:
  assumes "validate_config_values fs home m = Inr p" "k \<in> set BOOL_FIELDS"
    and "k \<in> set CONFIG_KEYS"
  shows "\<exists>b. dict_get p k = PBool b"
proof -
  from payload_value [OF assms(1,3)] obtain v
    where "validate_field fs home k v = Inr (dict_get p k)" by blast
  with assms(2) show ?thesis
    by (simp add: validate_field_bool) blast
qed

lemma payload_db_path:
  assumes "validate_config_values fs home m = Inr p"
  shows "\<exists>s q. dict_get p ''cashew_db_path'' = PStr s \<and> py_strip s \<noteq> [] \<and>
           resolve_db_path fs home s = Inr q"
proof -
  from payload_value [OF assms CONFIG_KEYS_mem(1)] obtain v
    where "validate_field fs home ''cashew_db_path'' v = Inr (dict_get p ''cashew_db_path'')"
    by blast
  then show ?thesis by (simp add: validate_field_db_path) blast
qed

lemma payload_timeout:
  assumes "validate_config_values fs home m = Inr p"
  shows "\<exists>r. dict_get p ''sync_queue_timeout'' = PFloat (Fin r) \<and> 0 \<le> r \<and> r \<le> 300"
proof -
  from payload_value [OF assms CONFIG_KEYS_mem(5)] obtain v
    where "validate_field fs home ''sync_queue_timeout'' v = Inr (dict_get p ''sync_queue_timeout'')"
    by blast
  then show ?thesis by (simp add: validate_field_timeout validate_timeout_Inr) blast
qed

lemma payload_features:
  assumes "validate_config_values fs home m = Inr p"
  shows "\<exists>d. dict_get p ''_features'' = PDict d \<and> good_flags d \<and>
           (\<forall>(n, _) \<in> set d. n \<noteq> ''experimental_parallel_retrieval'')"
proof -
  from payload_value [OF assms CONFIG_KEYS_mem(17)] obtain v
    where "validate_features v = Inr (dict_get p ''_features'')"
    by (auto simp: validate_field_features)
  then show ?thesis
    by (auto simp: validate_features_Inr good_flags_filter)
qed

lemma payload_wf:
  assumes "validate_config_values fs home m = Inr p"
  shows "wf_config fs home (config_of_payload p)"
proof -
  note counts = payload_count [OF assms]
    and strings = payload_string [OF assms]
  have "\<exists>i. dict_get p ''recall_k'' = PInt i \<and> 1 \<le> i \<and> i \<le> 20"
    "\<exists>i. dict_get p ''think_interval'' = PInt i \<and> 0 \<le> i \<and> i \<le> 10000"
    "\<exists>i. dict_get p ''prefetch_k'' = PInt i \<and> 1 \<le> i \<and> i \<le> 20"
    "\<exists>i. dict_get p ''prefetch_cues'' = PInt i \<and> 0 \<le> i \<and> i \<le> 20"
    "\<exists>i. dict_get p ''sleep_max_nodes'' = PInt i \<and> 1 \<le> i \<and> i \<le> 2000"
    by (rule counts; simp add: COUNT_RANGES_def)+
  moreover have "\<exists>s. dict_get p ''embedding_model'' = PStr s \<and> py_strip s \<noteq> []"
    "\<exists>s. dict_get p ''embedding_device'' = PStr s \<and> py_strip s \<noteq> []"
    "\<exists>s. dict_get p ''user_domain'' = PStr s \<and> py_strip s \<noteq> []"
    "\<exists>s. dict_get p ''ai_domain'' = PStr s \<and> py_strip s \<noteq> []"
    by (rule strings; simp add: NONEMPTY_STRING_FIELDS_def)+
  ultimately show ?thesis
    using payload_db_path [OF assms] payload_timeout [OF assms] payload_features [OF assms]
    by (auto simp: wf_config_def config_of_payload_def good_flags_def not_isl_conv)
qed

section \<open>Loading\<close>

lemma load_config_payload:
  assumes "load_config float_of json_loads fs home env file = Inr c"
  obtains m p where "validate_config_values fs home m = Inr p" "c = config_of_payload p"
  using assms by (auto simp: load_config_def res_simps)


definition lex_resolve :: "path \<Rightarrow> path res" where
  \<comment> \<open>a file system without symbolic links: \<^verbatim>\<open>..\<close> removes the component before it\<close>
  "lex_resolve p = return (foldl (\<lambda>acc c. if c = ''..'' then butlast acc else acc @ [c]) [] p)"


text \<open>An override that does not parse or does not validate leaves the value in place.\<close>

lemma env_override_other:
  assumes "env_override float_of json_loads fs home env key m = Inr n" "k \<noteq> key"
  shows "map_of n k = map_of m k"
  using assms by (auto simp: env_override_def update_conv' split: option.splits sum.splits if_splits)

lemma fold_env_override_other:
  assumes "fold_res (env_override float_of json_loads fs home env) ks m = Inr n" "k \<notin> set ks"
  shows "map_of n k = map_of m k"
  using assms
  by (induction ks arbitrary: m) (auto simp: res_simps env_override_other)

lemma fold_env_override_at:
  assumes "fold_res (env_override float_of json_loads fs home env) ks m = Inr n"
    and "distinct ks" "k \<in> set ks"
  shows "\<exists>n'. env_override float_of json_loads fs home env k m = Inr n' \<and> map_of n k = map_of n' k"
  using assms
proof (induction ks arbitrary: m)
  case (Cons a ks)
  then obtain m' where m': "env_override float_of json_loads fs home env a m = Inr m'"
    and rest: "fold_res (env_override float_of json_loads fs home env) ks m' = Inr n"
    by (auto simp: res_simps)
  show ?case
  proof (cases "k = a")
    case True
    with m' rest Cons.prems show ?thesis by (auto simp: fold_env_override_other)
  next
    case False
    then have eq: "map_of m' k = map_of m k" using m' by (simp add: env_override_other)
    from False Cons rest obtain n' where
      "env_override float_of json_loads fs home env k m' = Inr n'" "map_of n k = map_of n' k"
      by auto
    then show ?thesis using eq
      by (auto simp: env_override_def update_conv' split: option.splits sum.splits if_splits)
  qed
qed simp

definition override_value ::
    "(string \<Rightarrow> pyfloat option) \<Rightarrow> (string \<Rightarrow> pyval option) \<Rightarrow> (path \<Rightarrow> path res) \<Rightarrow> path \<Rightarrow>
     (string \<rightharpoonup> string) \<Rightarrow> string \<Rightarrow> pyval option" where
  "override_value float_of json_loads fs home env key =
     (case env (env_var_name key) of
        None \<Rightarrow> None
      | Some s \<Rightarrow>
          (case bind_res (coerce_environment_value float_of json_loads key s)
                  (validate_field fs home key) of
             Inr w \<Rightarrow> Some w
           | Inl _ \<Rightarrow> None))"

text \<open>
  C2: precedence. For every setting, the loaded value is the validated environment
  override when there is a valid one, and otherwise the validated value of the file,
  or of the defaults when the file does not have the key; an invalid override never
  displaces a valid file value.
\<close>

theorem load_config_precedence:
  assumes "load_config float_of json_loads fs home env (Document (PDict raw)) = Inr c"
    and "distinct (map fst raw)" and "key \<in> set CONFIG_KEYS"
  shows "\<exists>payload. c = config_of_payload payload \<and>
     map_of payload key =
       (case override_value float_of json_loads fs home env key of
          Some w \<Rightarrow> Some w
        | None \<Rightarrow> (case validate_field fs home key
                       (case map_of raw key of Some v \<Rightarrow> v | None \<Rightarrow> dict_get DEFAULTS key) of
                    Inr w \<Rightarrow> Some w | Inl _ \<Rightarrow> None))"
proof -
  from assms(1) obtain m p where
    m: "fold_res (env_override float_of json_loads fs home env) CONFIG_KEYS
          (dict_merge DEFAULTS raw) = Inr m"
    and p: "validate_config_values fs home m = Inr p" and c: "c = config_of_payload p"
    by (auto simp: load_config_def file_values_def res_simps)
  from fold_env_override_at [OF m distinct_CONFIG_KEYS assms(3)] obtain n' where
    n': "env_override float_of json_loads fs home env key (dict_merge DEFAULTS raw) = Inr n'"
    "map_of m key = map_of n' key" by blast
  from payload_lookup [OF p assms(3)] obtain v w where
    v: "map_of m key = Some v" "validate_field fs home key v = Inr w" "map_of p key = Some w" .
  have base: "map_of (dict_merge DEFAULTS raw) key =
      Some (case map_of raw key of Some v \<Rightarrow> v | None \<Rightarrow> dict_get DEFAULTS key)"
  proof -
    have "map_of DEFAULTS key \<noteq> None"
      using assms(3) by (simp add: map_of_eq_None_iff)
    then show ?thesis
      by (auto simp: map_of_dict_merge [OF assms(2)] map_add_def dict_get_def split: option.split)
  qed
  have "map_of p key =
      (case override_value float_of json_loads fs home env key of
         Some w \<Rightarrow> Some w
       | None \<Rightarrow> (case validate_field fs home key
                     (case map_of raw key of Some v \<Rightarrow> v | None \<Rightarrow> dict_get DEFAULTS key) of
                    Inr w \<Rightarrow> Some w | Inl _ \<Rightarrow> None))"
    using n' v base
    by (auto simp: env_override_def override_value_def update_conv' validate_field_idem res_simps
        split: option.splits sum.splits if_splits)
  with c show ?thesis by blast
qed

definition recall_env :: "string \<rightharpoonup> string" where
  "recall_env = [''CASHEW_RECALL_K'' \<mapsto> '' 7 '', ''CASHEW_PREFETCH_K'' \<mapsto> ''many'']"

theorem load_config_precedence_witness:
  "\<exists>payload. config_of_payload (AList.update ''recall_k'' (PInt 7) DEFAULTS) =
       config_of_payload payload \<and> map_of payload ''recall_k'' = Some (PInt 7)"
proof -
  let ?c = "config_of_payload (AList.update ''recall_k'' (PInt 7) DEFAULTS)"
  have load: "load_config (\<lambda>_. None) (\<lambda>_. None) lex_resolve [''home''] recall_env
      (Document (PDict [(''recall_k'', PInt 9)])) = Inr ?c"
    by code_simp
  have "override_value (\<lambda>_. None) (\<lambda>_. None) lex_resolve [''home''] recall_env ''recall_k'' =
      Some (PInt 7)"
    by code_simp
  with load_config_precedence [OF load, of "''recall_k''"] show ?thesis by simp
qed

section \<open>Saving\<close>


lemma apply_values_lookup:
  assumes "distinct (map fst vals)"
  shows "map_of (apply_values vals m) k =
     (if k \<in> set CONFIG_KEYS then
        (case map_of vals k of Some v \<Rightarrow> Some v | None \<Rightarrow> map_of m k)
      else map_of m k)"
  using assms
proof (induction vals m rule: apply_values.induct)
  case (2 k' v rest m)
  then have "map_of rest k' = None" by (simp add: map_of_eq_None_iff)
  with 2 show ?case
    by (simp add: update_conv' split: option.split)
qed simp

lemma distinct_apply_values:
  "distinct (map fst m) \<Longrightarrow> distinct (map fst (apply_values vals m))"
  by (induction vals m rule: apply_values.induct) (auto simp: distinct_update)

lemma map_of_filter_key: "map_of (filter (\<lambda>(k, _). P k) d) k = (if P k then map_of d k else None)"
  by (induction d) auto

lemma config_of_payload_cong:
  assumes "\<And>k. k \<in> set CONFIG_KEYS \<Longrightarrow> map_of m k = map_of n k"
  shows "config_of_payload m = config_of_payload n"
proof -
  have "dict_get m k = dict_get n k" if "k \<in> set CONFIG_KEYS" for k
    using assms [OF that] by (simp add: dict_get_def)
  then show ?thesis by (simp add: config_of_payload_def)
qed

text \<open>What a save asks for at a known key: the new value, the old one, or the default.\<close>

definition requested_value :: "pydict \<Rightarrow> pydict \<Rightarrow> string \<Rightarrow> pyval" where
  "requested_value vals raw k =
     (case map_of vals k of
        Some v \<Rightarrow> v
      | None \<Rightarrow> (case map_of raw k of Some v \<Rightarrow> v | None \<Rightarrow> dict_get DEFAULTS k))"

lemma merged_config_lookup:
  assumes m: "merged_config fs home vals file = Inr m"
    and raw: "read_existing_config file = Inr raw"
    and dist: "distinct (map fst raw)" "distinct (map fst vals)"
  shows "k \<in> set CONFIG_KEYS \<Longrightarrow>
           \<exists>w. validate_field fs home k (requested_value vals raw k) = Inr w \<and> map_of m k = Some w"
    and "k \<notin> set CONFIG_KEYS \<Longrightarrow> k \<notin> set REMOVED_LEGACY_CONFIG_KEYS \<Longrightarrow> map_of m k = map_of raw k"
    and "k \<in> set REMOVED_LEGACY_CONFIG_KEYS \<Longrightarrow> map_of m k = None"
    and "distinct (map fst m)"
proof -
  define ex where "ex = filter (\<lambda>(k, _). k \<notin> set REMOVED_LEGACY_CONFIG_KEYS) raw"
  define am where "am = apply_values vals (dict_merge DEFAULTS ex)"
  from m raw obtain p where p: "validate_config_values fs home am = Inr p"
    and m_eq: "m = dict_merge am p"
    by (auto simp: merged_config_def res_simps Let_def ex_def am_def)
  have dist_ex: "distinct (map fst ex)"
    using dist(1) by (auto simp: ex_def distinct_map_filter)
  have dist_p: "distinct (map fst p)"
    using p by (simp add: validate_config_values_Inr)
  have look_ex: "map_of ex k = (if k \<in> set REMOVED_LEGACY_CONFIG_KEYS then None else map_of raw k)"
    for k unfolding ex_def by (simp add: map_of_filter_key)
  have look_am: "map_of am k =
      (if k \<in> set CONFIG_KEYS then Some (requested_value vals raw k) else map_of ex k)" for k
  proof (cases "k \<in> set CONFIG_KEYS")
    case True
    then obtain v where "map_of DEFAULTS k = Some v"
      by (metis keys_DEFAULTS map_of_eq_None_iff not_None_eq)
    with True legacy_not_config [OF True] show ?thesis
      by (simp add: am_def apply_values_lookup [OF dist(2)] map_of_dict_merge [OF dist_ex]
          map_add_def requested_value_def dict_get_def look_ex split: option.split)
  next
    case False
    then have "map_of DEFAULTS k = None"
      by (simp add: map_of_eq_None_iff)
    with False show ?thesis
      by (simp add: am_def apply_values_lookup [OF dist(2)] map_of_dict_merge [OF dist_ex]
          map_add_def split: option.split)
  qed
  have keys_p: "map_of p k = None \<longleftrightarrow> k \<notin> set CONFIG_KEYS" for k
    using p by (metis list.set_map map_of_eq_None_iff validate_config_values_Inr)
  have look_m: "map_of m k = (case map_of p k of Some w \<Rightarrow> Some w | None \<Rightarrow> map_of am k)" for k
    by (simp add: m_eq map_of_dict_merge [OF dist_p] map_add_def)
  show "\<exists>w. validate_field fs home k (requested_value vals raw k) = Inr w \<and> map_of m k = Some w"
    if "k \<in> set CONFIG_KEYS"
  proof -
    from payload_lookup [OF p that] obtain v w where
      "map_of am k = Some v" "validate_field fs home k v = Inr w" "map_of p k = Some w" .
    with that show ?thesis by (simp add: look_m look_am)
  qed
  show "map_of m k = map_of raw k"
    if "k \<notin> set CONFIG_KEYS" "k \<notin> set REMOVED_LEGACY_CONFIG_KEYS"
    using that keys_p [of k] by (simp add: look_m look_am look_ex)
  show "map_of m k = None" if "k \<in> set REMOVED_LEGACY_CONFIG_KEYS"
    using that keys_p [of k] legacy_not_config [of k] by (auto simp: look_m look_am look_ex)
  show "distinct (map fst m)"
    by (simp add: m_eq am_def distinct_dict_merge distinct_apply_values)
qed

text \<open>
  saving round-trips. After a successful save, loading the file (without
  overrides) succeeds and gives exactly the validated form of what the save asked
  for: the new value where one was given, else the old file's, else the default;
  keys of the old file that the adapter does not know survive unchanged and the
  retired ones are pruned.
\<close>

theorem save_config_roundtrip:
  assumes "save_config fs home vals fault d = (Inr p, d')"
    and "read_existing_config (cd_main d) = Inr raw"
    and "distinct (map fst raw)" "distinct (map fst vals)"
  shows "\<exists>m. cd_main d' = Document (PDict m) \<and>
     load_config float_of json_loads fs home Map.empty (cd_main d') = Inr (config_of_payload m) \<and>
     (\<forall>k \<in> set CONFIG_KEYS. validate_field fs home k (requested_value vals raw k) = dict_index m k) \<and>
     (\<forall>k. k \<notin> set CONFIG_KEYS \<longrightarrow> k \<notin> set REMOVED_LEGACY_CONFIG_KEYS \<longrightarrow>
        map_of m k = map_of raw k) \<and>
     (\<forall>k \<in> set REMOVED_LEGACY_CONFIG_KEYS. map_of m k = None)"
proof -
  from assms(1) obtain m where m: "merged_config fs home vals (cd_main d) = Inr m"
    and d': "cd_main d' = Document (PDict m)"
    by (auto simp: save_config_def atomic_write_config_def Let_def split: sum.splits prod.splits if_splits)
  note look = merged_config_lookup [OF m assms(2-4)]
  have look_load: "map_of (dict_merge DEFAULTS m) k = map_of m k" if k: "k \<in> set CONFIG_KEYS" for k
    using look(1) [OF k] by (auto simp: map_of_dict_merge [OF look(4)] map_add_def)
  have valid: "validate_config_values fs home m =
      Inr (map (\<lambda>k. (k, dict_get m k)) CONFIG_KEYS)"
    unfolding validate_config_values_Inr
    using look(1) by (fastforce simp: comp_def dict_get_def intro: validate_field_idem)
  have "fold_res (env_override float_of json_loads fs home Map.empty) ks a = Inr a" for ks a
    by (induction ks) (simp_all add: env_override_def)
  then have "load_config float_of json_loads fs home Map.empty (cd_main d') =
      Inr (config_of_payload (map (\<lambda>k. (k, dict_get m k)) CONFIG_KEYS))"
    using valid validate_config_values_cong [OF look_load]
    by (simp add: load_config_def file_values_def d')
  moreover have "config_of_payload (map (\<lambda>k. (k, dict_get m k)) CONFIG_KEYS) = config_of_payload m"
  proof (rule config_of_payload_cong)
    fix k assume k: "k \<in> set CONFIG_KEYS"
    then show "map_of (map (\<lambda>k. (k, dict_get m k)) CONFIG_KEYS) k = map_of m k"
      using look(1) [OF k] by (auto simp: map_of_map_restrict dict_get_def restrict_map_def)
  qed
  moreover have "\<forall>k \<in> set CONFIG_KEYS.
      validate_field fs home k (requested_value vals raw k) = dict_index m k"
    using look(1) by (force simp: dict_index_def)
  ultimately show ?thesis using d' look(2,3) by auto
qed

theorem save_config_roundtrip_witness:
  "\<exists>m d'. save_config lex_resolve [''home''] [(''recall_k'', PInt 9)] None
       \<lparr>cd_main = Document (PDict [(''gc_mode'', PInt 1), (''note'', PStr ''x'')]), cd_temps = 0\<rparr>
         = (Inr [''home'', ''cashew.json''], d') \<and>
     cd_main d' = Document (PDict m) \<and> map_of m ''note'' = Some (PStr ''x'') \<and>
     map_of m ''gc_mode'' = None \<and> map_of m ''recall_k'' = Some (PInt 9)"
proof -
  let ?d = "\<lparr>cd_main = Document (PDict [(''gc_mode'', PInt 1), (''note'', PStr ''x'')]), cd_temps = 0\<rparr>"
  let ?s = "save_config lex_resolve [''home''] [(''recall_k'', PInt 9)] None ?d"
  have s: "fst ?s = Inr [''home'', ''cashew.json'']" by code_simp
  then have sv: "?s = (Inr [''home'', ''cashew.json''], snd ?s)" by (metis prod.collapse)
  have ex: "read_existing_config (cd_main ?d) = Inr [(''gc_mode'', PInt 1), (''note'', PStr ''x'')]"
    by (simp add: read_existing_config_def)
  obtain m where m: "cd_main (snd ?s) = Document (PDict m)"
    "\<forall>k \<in> set CONFIG_KEYS. validate_field lex_resolve [''home''] k
       (requested_value [(''recall_k'', PInt 9)] [(''gc_mode'', PInt 1), (''note'', PStr ''x'')] k) =
       dict_index m k"
    "\<forall>k. k \<notin> set CONFIG_KEYS \<longrightarrow> k \<notin> set REMOVED_LEGACY_CONFIG_KEYS \<longrightarrow>
       map_of m k = map_of [(''gc_mode'', PInt 1), (''note'', PStr ''x'')] k"
    "\<forall>k \<in> set REMOVED_LEGACY_CONFIG_KEYS. map_of m k = None"
    using save_config_roundtrip [OF sv ex, of "\<lambda>_. None" "\<lambda>_. None"] by auto
  have nt: "''note'' \<notin> set CONFIG_KEYS \<and> ''note'' \<notin> set REMOVED_LEGACY_CONFIG_KEYS \<and>
      ''gc_mode'' \<in> set REMOVED_LEGACY_CONFIG_KEYS"
    by code_simp
  have "validate_field lex_resolve [''home''] ''recall_k''
      (requested_value [(''recall_k'', PInt 9)] [(''gc_mode'', PInt 1), (''note'', PStr ''x'')]
        ''recall_k'') = Inr (PInt 9)"
    by code_simp
  with m(2) have "dict_index m ''recall_k'' = Inr (PInt 9)" by (metis CONFIG_KEYS_mem(4))
  then have "map_of m ''recall_k'' = Some (PInt 9)"
    by (simp add: dict_index_def split: option.splits)
  moreover from m(3) nt have "map_of m ''note'' = Some (PStr ''x'')" by simp
  moreover from m(4) nt have "map_of m ''gc_mode'' = None" by blast
  ultimately show ?thesis using sv m(1) by blast
qed

section \<open>The effective snapshot\<close>

lemma validate_flags_id:
  assumes "\<forall>(n, _) \<in> set fl. n \<noteq> [] \<and> n \<noteq> ''experimental_parallel_retrieval''"
  shows "validate_features (PDict (map (\<lambda>(n, b). (n, PBool b)) fl)) =
           Inr (PDict (map (\<lambda>(n, b). (n, PBool b)) fl))"
proof -
  have "good_flags (map (\<lambda>(n, b). (n, PBool b)) fl)"
    using assms by (auto simp: good_flags_def)
  moreover have "filter (\<lambda>(n, _). n \<noteq> ''experimental_parallel_retrieval'')
      (map (\<lambda>(n, b). (n, PBool b)) fl) = map (\<lambda>(n, b). (n, PBool b)) fl"
    using assms by (auto simp: filter_id_conv)
  ultimately show ?thesis by (simp add: validate_features_Inr)
qed

text \<open>
  The snapshot a provider embeds into the cron script is read back as the same
  configuration, for every well-formed configuration; the job runs the settings of
  the provider that registered it.
\<close>

theorem snapshot_roundtrip:
  assumes "wf_config fs home c"
  shows "load_effective_config_snapshot fs home (PDict (effective_config_snapshot c)) = Inr c"
proof -
  let ?s = "effective_config_snapshot c"
  have keys: "map fst ?s = CONFIG_KEYS"
    by (simp add: effective_config_snapshot_def CONFIG_KEYS_def DEFAULTS_def)
  have flags: "validate_features (PDict (map (\<lambda>(n, b). (n, PBool b)) (cfg_features c))) =
      Inr (PDict (map (\<lambda>(n, b). (n, PBool b)) (cfg_features c)))"
    using assms by (intro validate_flags_id) (auto simp: wf_config_def)
  have "list_all (\<lambda>(k, w). validate_field fs home k w = Inr w) ?s"
    using assms flags
    by (simp add: effective_config_snapshot_def wf_config_def not_isl_conv validate_field_db_path
        validate_field_string validate_field_count validate_field_bool validate_field_role
        validate_field_schedule validate_field_timeout validate_field_features
        validate_count_def validate_timeout_def field_tables split: option.split)
  then have "validate_config_values fs home ?s = Inr ?s"
    using keys distinct_CONFIG_KEYS
    by (auto simp: validate_config_values_Inr list_all_iff intro!: map_of_is_SomeI)
  moreover have "config_of_payload ?s = c"
    by (cases c) (simp add: config_of_payload_def effective_config_snapshot_def dict_get_def
        comp_def case_prod_beta split: option.split)
  moreover have "fst ` set ?s = set CONFIG_KEYS"
    using keys by (metis list.set_map)
  ultimately show ?thesis by (simp add: load_effective_config_snapshot_def)
qed

theorem snapshot_roundtrip_witness:
  "load_effective_config_snapshot lex_resolve [''home'']
     (PDict (effective_config_snapshot (config_of_payload DEFAULTS))) =
   Inr (config_of_payload DEFAULTS)"
proof -
  have "wf_config lex_resolve [''home''] (config_of_payload DEFAULTS)"
    by code_simp
  then show ?thesis by (rule snapshot_roundtrip)
qed

section \<open>Profile confinement\<close>

text \<open>
  A configured database path never leaves the profile. What
  \<^verbatim>\<open>resolve_db_path\<close> returns lies under the resolved home, whatever symbolic
  links the file system follows, and an absolute path is always refused.
\<close>

theorem resolve_db_path_confined:
  assumes "resolve_db_path fs home value = Inr p"
  shows "\<not> py_startswith ''/'' value \<and> (\<exists>root. fs home = Inr root \<and> prefix root p)"
  using assms by (auto simp: resolve_db_path_def res_simps split: if_splits)

theorem resolve_db_path_confined_witness:
  "resolve_db_path lex_resolve [''home''] ''cashew/../brain.db'' = Inr [''home'', ''brain.db''] \<and>
   \<not> py_startswith ''/'' ''cashew/../brain.db'' \<and>
   (\<exists>root. lex_resolve [''home''] = Inr root \<and> prefix root [''home'', ''brain.db'']) \<and>
   isl (resolve_db_path lex_resolve [''home''] ''../other/brain.db'')"
proof -
  have r: "resolve_db_path lex_resolve [''home''] ''cashew/../brain.db'' = Inr [''home'', ''brain.db'']"
    by code_simp
  moreover have "isl (resolve_db_path lex_resolve [''home''] ''../other/brain.db'')"
    by code_simp
  ultimately show ?thesis using resolve_db_path_confined [OF r] by blast
qed

end
