(* ===== verification/Locking.thy ===== *)
theory Locking
  imports Prelude
begin

text \<open>
  The advisory file locks of \<^verbatim>\<open>locking.py\<close> and its journal-mode guards.

  The kernel's side of \<^verbatim>\<open>flock\<close> is a table of open file descriptions: each has
  the lock file it was opened on, the lock it holds and whether this process
  owns it. A lock belongs to the description, so two descriptions of one process
  conflict like those of two processes, and closing a description gives its lock
  up. The two context managers differ in the lock mode only and share \<open>lock_enter\<close>
  and \<open>lock_exit\<close>; \<open>flt\<close> says, for each description, which of its system calls
  fail. The locale \<open>lease_provider\<close> is what the admission layer relies on.
\<close>

section \<open>The lock table\<close>

datatype lmode = LOCK_SH | LOCK_EX

record lockfd =
  lf_id :: nat
  lf_path :: path
  lf_mode :: "lmode option"
  lf_mine :: bool

record kernel =
  k_next :: nat
  k_open :: "lockfd list"

record lock_faults =
  ft_open :: bool
  ft_flock :: bool
  ft_unlock :: "exn option"
  ft_close :: "exn option"

text \<open>\<^verbatim>\<open>Path(f"{canonical_db}.sleep.lock")\<close>, on the resolved database path.\<close>

definition lock_path_for_db :: "(path \<Rightarrow> path res) \<Rightarrow> path \<Rightarrow> path res" where
  "lock_path_for_db fs_resolve db =
     bind_res (fs_resolve db) (\<lambda>p.
       return (if p = [] then [''.sleep.lock''] else butlast p @ [last p @ ''.sleep.lock'']))"

text \<open>A lock is granted when no other description holds a conflicting one on the file.\<close>

fun conflicts :: "lmode \<Rightarrow> lmode option \<Rightarrow> bool" where
  "conflicts m None = False"
| "conflicts m (Some m') = (m = LOCK_EX \<or> m' = LOCK_EX)"

definition flock_grant :: "nat \<Rightarrow> path \<Rightarrow> lmode \<Rightarrow> kernel \<Rightarrow> bool" where
  "flock_grant fd p m k \<longleftrightarrow>
     list_all (\<lambda>e. lf_id e = fd \<or> lf_path e \<noteq> p \<or> \<not> conflicts m (lf_mode e)) (k_open k)"

definition set_lock :: "nat \<Rightarrow> lmode option \<Rightarrow> kernel \<Rightarrow> kernel" where
  [step_simps]: "set_lock fd m k =
     k\<lparr>k_open := map (\<lambda>e. if lf_id e = fd then e\<lparr>lf_mode := m\<rparr> else e) (k_open k)\<rparr>"

definition open_lock_file :: "bool \<Rightarrow> path \<Rightarrow> kernel \<Rightarrow> kernel" where
  [step_simps]: "open_lock_file mine p k =
     k\<lparr>k_next := Suc (k_next k),
       k_open := \<lparr>lf_id = k_next k, lf_path = p, lf_mode = None, lf_mine = mine\<rparr> # k_open k\<rparr>"

text \<open>
  Closing takes the description out of the table and with it its lock, also when
  the close reports an error.
\<close>

definition close_lock_file :: "nat \<Rightarrow> kernel \<Rightarrow> kernel" where
  [step_simps]: "close_lock_file fd k = k\<lparr>k_open := filter (\<lambda>e. lf_id e \<noteq> fd) (k_open k)\<rparr>"

section \<open>The context managers\<close>

text \<open>An entered context manager: its descriptor and whether the lock was acquired.\<close>

record lock_cm =
  cm_fd :: nat
  cm_acquired :: bool

definition lock_enter ::
    "(path \<Rightarrow> path res) \<Rightarrow> (nat \<Rightarrow> lock_faults) \<Rightarrow> bool \<Rightarrow> lmode \<Rightarrow> path \<Rightarrow> kernel \<Rightarrow>
     kernel \<times> lock_cm res" where
  "lock_enter fs_resolve flt mine m db k =
     (case lock_path_for_db fs_resolve db of
        Inl e \<Rightarrow> (k, Inl e)
      | Inr p \<Rightarrow>
          let fd = k_next k; k1 = open_lock_file mine p k
          in if ft_open (flt fd) then
               (k, raise C_MaintenanceLockAcquisitionError ''open'')
             else if ft_flock (flt fd) then
               (close_lock_file fd k1, raise C_MaintenanceLockAcquisitionError ''flock'')
             else if flock_grant fd p m k1 then
               (set_lock fd (Some m) k1, return \<lparr>cm_fd = fd, cm_acquired = True\<rparr>)
             else (k1, return \<lparr>cm_fd = fd, cm_acquired = False\<rparr>))"

text \<open>
  The \<^verbatim>\<open>finally\<close> block. \<open>body\<close> is the exception of the protected body; \<open>ambient\<close> is
  whether the \<^verbatim>\<open>with\<close> statement itself runs while an exception is being handled,
  which \<^verbatim>\<open>sys.exc_info()\<close> reports too. The result is the exception that leaves.
\<close>

definition lock_exit ::
    "(nat \<Rightarrow> lock_faults) \<Rightarrow> bool \<Rightarrow> exn option \<Rightarrow> lock_cm \<Rightarrow> kernel \<Rightarrow> kernel \<times> exn option" where
  "lock_exit flt ambient body cm k =
     (let original_exception = ambient \<or> body \<noteq> None;
          unlock_err = (if cm_acquired cm then ft_unlock (flt (cm_fd cm)) else None);
          k1 = (if cm_acquired cm \<and> unlock_err = None then set_lock (cm_fd cm) None k else k);
          close_err = ft_close (flt (cm_fd cm));
          k2 = close_lock_file (cm_fd cm) k1
      in (k2,
          if original_exception then body
          else if close_err \<noteq> None then close_err
          else unlock_err))"

text \<open>
  The \<^verbatim>\<open>with\<close> statement over one of the two managers: the body sees the descriptor,
  or nothing when the lock is contended.
\<close>

definition with_lock ::
    "(path \<Rightarrow> path res) \<Rightarrow> (nat \<Rightarrow> lock_faults) \<Rightarrow> bool \<Rightarrow> lmode \<Rightarrow> path \<Rightarrow>
     (nat option \<Rightarrow> kernel \<Rightarrow> kernel \<times> 'a res) \<Rightarrow> kernel \<Rightarrow> kernel \<times> 'a res" where
  "with_lock fs_resolve flt ambient m db body k =
     (case lock_enter fs_resolve flt True m db k of
        (k1, Inl e) \<Rightarrow> (k1, Inl e)
      | (k1, Inr cm) \<Rightarrow>
          (case body (if cm_acquired cm then Some (cm_fd cm) else None) k1 of
             (k2, r) \<Rightarrow>
               (case lock_exit flt ambient (case r of Inl e \<Rightarrow> Some e | Inr _ \<Rightarrow> None) cm k2 of
                  (k3, None) \<Rightarrow> (k3, r)
                | (k3, Some e) \<Rightarrow> (k3, Inl e))))"

definition try_maintenance_lock ::
    "(path \<Rightarrow> path res) \<Rightarrow> (nat \<Rightarrow> lock_faults) \<Rightarrow> bool \<Rightarrow> path \<Rightarrow>
     (nat option \<Rightarrow> kernel \<Rightarrow> kernel \<times> 'a res) \<Rightarrow> kernel \<Rightarrow> kernel \<times> 'a res" where
  "try_maintenance_lock fs_resolve flt ambient db = with_lock fs_resolve flt ambient LOCK_EX db"

definition try_shared_lock ::
    "(path \<Rightarrow> path res) \<Rightarrow> (nat \<Rightarrow> lock_faults) \<Rightarrow> bool \<Rightarrow> path \<Rightarrow>
     (nat option \<Rightarrow> kernel \<Rightarrow> kernel \<times> 'a res) \<Rightarrow> kernel \<Rightarrow> kernel \<times> 'a res" where
  "try_shared_lock fs_resolve flt ambient db = with_lock fs_resolve flt ambient LOCK_SH db"

section \<open>Exit stacks\<close>

text \<open>
  \<^verbatim>\<open>ExitStack.close()\<close>: the managers leave in reverse order of entry (the list has
  the latest first), each is told the exception pending so far, and the last
  pending exception is raised at the end.
\<close>

fun exitstack_close ::
    "(bool \<Rightarrow> exn option \<Rightarrow> 'cm \<Rightarrow> 'k \<Rightarrow> 'k \<times> exn option) \<Rightarrow> bool \<Rightarrow> exn option \<Rightarrow> 'cm list \<Rightarrow>
     'k \<Rightarrow> 'k \<times> exn option" where
  "exitstack_close leave ambient pend [] k = (k, pend)"
| "exitstack_close leave ambient pend (cm # cms) k =
     (case leave ambient pend cm k of
        (k1, e) \<Rightarrow> exitstack_close leave ambient e cms k1)"

section \<open>Journal modes\<close>

definition sqlite_wal_reset_vulnerable :: "int \<times> int \<times> int \<Rightarrow> bool" where
  "sqlite_wal_reset_vulnerable version =
     (case version of (major, minor, patch) \<Rightarrow>
        if major \<noteq> 3 then major < 3
        else if minor < 44 then 7 \<le> minor
        else if minor = 44 then patch < 6
        else if 45 \<le> minor \<and> minor < 50 then True
        else if minor = 50 then patch < 7
        else if minor = 51 then patch < 3
        else False)"

text \<open>
  A connection is seen through \<^verbatim>\<open>PRAGMA journal_mode\<close>: the mode in force, and the
  mode that asking for another one results in.
\<close>

record journal_conn =
  jc_mode :: string
  jc_set :: "string \<Rightarrow> string"

definition pragma_journal_mode :: "journal_conn \<Rightarrow> string \<Rightarrow> journal_conn" where
  "pragma_journal_mode c m = c\<lparr>jc_mode := jc_set c m\<rparr>"

definition guard_sqlite_journal ::
    "int \<times> int \<times> int \<Rightarrow> journal_conn \<Rightarrow> journal_conn \<times> string res" where
  "guard_sqlite_journal version c =
     (let mode = py_lower (jc_mode c)
      in if sqlite_wal_reset_vulnerable version then
           if mode = ''wal'' then
             (c, raise C_SQLiteWALUnsupportedError ''cannot safely write an existing WAL database'')
           else let c1 = (if mode \<noteq> ''delete'' then pragma_journal_mode c ''DELETE'' else c);
                    mode1 = (if mode \<noteq> ''delete'' then py_lower (jc_mode c1) else mode)
                in if mode1 \<noteq> ''delete'' then
                     (c1, raise C_SQLiteWALUnsupportedError ''could not establish DELETE journal mode'')
                   else (c1, return mode1)
         else (c, return mode))"

definition bootstrap_sqlite_journal ::
    "int \<times> int \<times> int \<Rightarrow> journal_conn \<Rightarrow> journal_conn \<times> string res" where
  "bootstrap_sqlite_journal version c =
     (if sqlite_wal_reset_vulnerable version then guard_sqlite_journal version c
      else let mode = py_lower (jc_mode c);
               c1 = (if mode \<noteq> ''wal'' then pragma_journal_mode c ''WAL'' else c);
               mode1 = (if mode \<noteq> ''wal'' then py_lower (jc_mode c1) else mode)
           in if mode1 \<noteq> ''wal'' then
                (c1, raise C_SQLiteWALUnsupportedError ''could not establish WAL journal mode'')
              else (c1, return mode1))"

section \<open>What the admission layer relies on\<close>

text \<open>
  \<open>own k\<close> lists the leases this process has. Entering adds exactly one, under a
  fresh identity; leaving takes exactly that one away, whatever fails on the way;
  a pending exception survives leaving, and inside a handler leaving is silent.
\<close>

locale lease_provider =
  fixes ok :: "'k \<Rightarrow> bool"
    and own :: "'k \<Rightarrow> 'l list"
    and lid :: "'l \<Rightarrow> nat"
    and cid :: "'cm \<Rightarrow> nat"
    and enter :: "'q \<Rightarrow> 'k \<Rightarrow> 'k \<times> 'cm res"
    and leave :: "bool \<Rightarrow> exn option \<Rightarrow> 'cm \<Rightarrow> 'k \<Rightarrow> 'k \<times> exn option"
  assumes ok_enter: "ok k \<Longrightarrow> ok (fst (enter q k))"
    and enter_fail: "enter q k = (k', Inl e) \<Longrightarrow> ok k \<Longrightarrow> own k' = own k"
    and enter_own: "enter q k = (k', Inr cm) \<Longrightarrow> ok k \<Longrightarrow>
      \<exists>l. own k' = l # own k \<and> lid l = cid cm \<and> (\<forall>x \<in> set (own k). lid x \<noteq> cid cm)"
    and ok_leave: "ok k \<Longrightarrow> ok (fst (leave a b cm k))"
    and leave_own: "own (fst (leave a b cm k)) = filter (\<lambda>l. lid l \<noteq> cid cm) (own k)"
    and leave_pending: "snd (leave a (Some e) cm k) = Some e"
    and leave_ambient: "snd (leave True b cm k) = b"
begin

lemma close_own:
  "own (fst (exitstack_close leave a p cms k)) = filter (\<lambda>l. lid l \<notin> cid ` set cms) (own k)"
  by (induction cms arbitrary: p k)
    (auto simp: case_prod_beta leave_own intro: filter_cong)

lemma close_ok: "ok k \<Longrightarrow> ok (fst (exitstack_close leave a p cms k))"
  by (induction cms arbitrary: p k) (auto simp: case_prod_beta ok_leave)

lemma close_ambient: "snd (exitstack_close leave True p cms k) = p"
  by (induction cms arbitrary: p k) (auto simp: case_prod_beta leave_ambient)

lemma close_pending: "snd (exitstack_close leave a (Some e) cms k) = Some e"
  by (induction cms arbitrary: k) (auto simp: case_prod_beta leave_pending)

text \<open>A manager that is entered and closed leaves the leases as they were.\<close>

lemma enter_close:
  assumes "enter q k = (k', Inr cm)" "ok k"
  shows "own (fst (exitstack_close leave a p [cm] k')) = own k"
proof -
  obtain l where "own k' = l # own k" "lid l = cid cm" "\<forall>x \<in> set (own k). lid x \<noteq> cid cm"
    using enter_own [OF assms] by blast
  then show ?thesis
    unfolding close_own by (auto simp: filter_id_conv)
qed

text \<open>Two managers, with others acting in between without touching the own leases.\<close>

lemma enter_two_close:
  assumes "enter q k = (k1, Inr cm1)" "ok k" "own k2 = own k1" "ok k2"
    and "enter q' k2 = (k3, Inr cm2)"
  shows "own (fst (exitstack_close leave a p [cm2, cm1] k3)) = own k"
proof -
  obtain l1 where 1: "own k1 = l1 # own k" "lid l1 = cid cm1" "\<forall>x \<in> set (own k). lid x \<noteq> cid cm1"
    using enter_own [OF assms(1,2)] by blast
  obtain l2 where 2: "own k3 = l2 # own k2" "lid l2 = cid cm2" "\<forall>x \<in> set (own k2). lid x \<noteq> cid cm2"
    using enter_own [OF assms(5,4)] by blast
  show ?thesis
    unfolding close_own using 1 2 assms(3) by (auto simp: filter_id_conv)
qed

end

section \<open>The lock table keeps the contract\<close>

definition own_locks :: "kernel \<Rightarrow> lockfd list" where
  "own_locks k = filter lf_mine (k_open k)"

definition excludes :: "lockfd \<Rightarrow> lockfd \<Rightarrow> bool" where
  "excludes e f \<longleftrightarrow> lf_id e \<noteq> lf_id f \<longrightarrow> lf_path e = lf_path f \<longrightarrow>
     lf_mode e = Some LOCK_EX \<longrightarrow> lf_mode f = None"

definition locks_ok :: "kernel \<Rightarrow> bool" where
  [inv_defs]: "locks_ok k \<longleftrightarrow> distinct (map lf_id (k_open k)) \<and>
     (\<forall>e \<in> set (k_open k). lf_id e < k_next k) \<and>
     (\<forall>e \<in> set (k_open k). \<forall>f \<in> set (k_open k). excludes e f)"

lemma locks_ok_close: "locks_ok k \<Longrightarrow> locks_ok (close_lock_file fd k)"
  by (auto simp: locks_ok_def close_lock_file_def distinct_map_filter)

lemma locks_ok_open: "locks_ok k \<Longrightarrow> locks_ok (open_lock_file mine p k)"
  by (fastforce simp: locks_ok_def open_lock_file_def excludes_def)

lemma set_lock_ids:
  "map lf_id (k_open (set_lock fd m k)) = map lf_id (k_open k)" "k_next (set_lock fd m k) = k_next k"
  by (simp_all add: set_lock_def)

lemma set_lock_mem:
  assumes "x \<in> set (k_open (set_lock fd m k))"
  obtains e where "e \<in> set (k_open k)" "x = (if lf_id e = fd then e\<lparr>lf_mode := m\<rparr> else e)"
    "lf_id x = lf_id e" "lf_path x = lf_path e"
proof -
  from assms obtain e where e: "e \<in> set (k_open k)" "x = (if lf_id e = fd then e\<lparr>lf_mode := m\<rparr> else e)"
    by (auto simp: set_lock_def)
  then have "lf_id x = lf_id e" "lf_path x = lf_path e" by simp_all
  with e show thesis by (rule that)
qed

lemma locks_ok_set_lock:
  assumes "locks_ok k"
    and "\<And>e f. e \<in> set (k_open k) \<Longrightarrow> f \<in> set (k_open k) \<Longrightarrow> lf_id e \<noteq> lf_id f \<Longrightarrow>
      excludes (if lf_id e = fd then e\<lparr>lf_mode := m\<rparr> else e)
               (if lf_id f = fd then f\<lparr>lf_mode := m\<rparr> else f)"
  shows "locks_ok (set_lock fd m k)"
  unfolding locks_ok_def set_lock_ids
proof (intro conjI ballI)
  show "distinct (map lf_id (k_open k))"
    using assms(1) by (simp add: locks_ok_def)
  fix x assume "x \<in> set (k_open (set_lock fd m k))"
  then obtain e where e: "e \<in> set (k_open k)" "x = (if lf_id e = fd then e\<lparr>lf_mode := m\<rparr> else e)"
    "lf_id x = lf_id e" "lf_path x = lf_path e" by (rule set_lock_mem)
  show "lf_id x < k_next k"
    using assms(1) e by (simp add: locks_ok_def)
  fix y assume "y \<in> set (k_open (set_lock fd m k))"
  then obtain f where f: "f \<in> set (k_open k)" "y = (if lf_id f = fd then f\<lparr>lf_mode := m\<rparr> else f)"
    "lf_id y = lf_id f" "lf_path y = lf_path f" by (rule set_lock_mem)
  show "excludes x y"
  proof (cases "lf_id e = lf_id f")
    case True
    then show ?thesis using e(3) f(3) by (simp add: excludes_def)
  next
    case False
    then show ?thesis using assms(2) [OF e(1) f(1)] e(2) f(2) by simp
  qed
qed

lemma locks_ok_unlock: "locks_ok k \<Longrightarrow> locks_ok (set_lock fd None k)"
proof (rule locks_ok_set_lock)
  fix e f assume "locks_ok k" "e \<in> set (k_open k)" "f \<in> set (k_open k)"
  then have "excludes e f" by (simp add: locks_ok_def)
  then show "excludes (if lf_id e = fd then e\<lparr>lf_mode := None\<rparr> else e)
                      (if lf_id f = fd then f\<lparr>lf_mode := None\<rparr> else f)"
    by (simp add: excludes_def)
qed

lemma locks_ok_grant:
  assumes "locks_ok k" "flock_grant fd p m k"
    and "\<forall>e \<in> set (k_open k). lf_id e = fd \<longrightarrow> lf_path e = p"
  shows "locks_ok (set_lock fd (Some m) k)"
proof (rule locks_ok_set_lock [OF assms(1)])
  fix e f assume e: "e \<in> set (k_open k)" and f: "f \<in> set (k_open k)" and ne: "lf_id e \<noteq> lf_id f"
  have grant: "lf_id x = fd \<or> lf_path x \<noteq> p \<or> \<not> conflicts m (lf_mode x)" if "x \<in> set (k_open k)" for x
    using assms(2) that by (simp add: flock_grant_def list_all_iff)
  have old: "excludes e f"
    using assms(1) e f by (simp add: locks_ok_def)
  show "excludes (if lf_id e = fd then e\<lparr>lf_mode := Some m\<rparr> else e)
                 (if lf_id f = fd then f\<lparr>lf_mode := Some m\<rparr> else f)"
    using grant [OF e] grant [OF f] old assms(3) e f ne
    by (cases "lf_id e = fd"; cases "lf_id f = fd"; cases "lf_mode e"; cases "lf_mode f")
      (auto simp: excludes_def)
qed

lemma locks_ok_enter: "locks_ok k \<Longrightarrow> locks_ok (fst (lock_enter fs_resolve flt mine m db k))"
proof -
  assume ok: "locks_ok k"
  have "locks_ok (set_lock (k_next k) (Some m) (open_lock_file mine p k))"
    if "flock_grant (k_next k) p m (open_lock_file mine p k)" for p
  proof (rule locks_ok_grant [OF locks_ok_open [OF ok] that])
    show "\<forall>e \<in> set (k_open (open_lock_file mine p k)). lf_id e = k_next k \<longrightarrow> lf_path e = p"
      using ok by (force simp: locks_ok_def open_lock_file_def)
  qed
  then show ?thesis
    using ok by (auto simp: lock_enter_def Let_def locks_ok_open locks_ok_close split: sum.splits)
qed

lemma locks_ok_exit: "locks_ok k \<Longrightarrow> locks_ok (fst (lock_exit flt a b cm k))"
  by (simp add: lock_exit_def Let_def locks_ok_close locks_ok_unlock)

lemma k_open_enter:
  assumes "lock_enter fs_resolve flt mine m db k = (k', r)" "locks_ok k"
  shows "case r of Inl e \<Rightarrow> k_open k' = k_open k
     | Inr cm \<Rightarrow> cm_fd cm = k_next k \<and>
         (\<exists>p. lock_path_for_db fs_resolve db = Inr p \<and>
            k_open k' = \<lparr>lf_id = cm_fd cm, lf_path = p,
                         lf_mode = (if cm_acquired cm then Some m else None), lf_mine = mine\<rparr>
                        # k_open k)"
proof -
  have fresh: "\<forall>e \<in> set (k_open k). lf_id e \<noteq> k_next k"
    using assms(2) by (auto simp: locks_ok_def)
  then have "filter (\<lambda>e. lf_id e \<noteq> k_next k) (k_open k) = k_open k"
    by (simp add: filter_id_conv)
  moreover have "map (\<lambda>e. if lf_id e = k_next k then e\<lparr>lf_mode := Some m\<rparr> else e) (k_open k) = k_open k"
    using fresh by (simp add: map_idI)
  ultimately show ?thesis
    using assms(1)
    by (auto simp: lock_enter_def Let_def step_simps split: sum.splits if_splits)
qed

lemma own_exit:
  "own_locks (fst (lock_exit flt a b cm k)) = filter (\<lambda>e. lf_id e \<noteq> cm_fd cm) (own_locks k)"
proof -
  have "filter (\<lambda>e. lf_mine e \<and> lf_id e \<noteq> fd)
          (map (\<lambda>e. if lf_id e = fd then e\<lparr>lf_mode := m\<rparr> else e) xs) =
        filter (\<lambda>e. lf_mine e \<and> lf_id e \<noteq> fd) xs" for fd m and xs :: "lockfd list"
    by (induction xs) auto
  then show ?thesis
    by (simp add: lock_exit_def Let_def own_locks_def step_simps conj_commute)
qed

text \<open>A request to the provider: the mode and the database whose lock file is meant.\<close>

definition lease_enter ::
    "(path \<Rightarrow> path res) \<Rightarrow> (nat \<Rightarrow> lock_faults) \<Rightarrow> lmode \<times> path \<Rightarrow> kernel \<Rightarrow> kernel \<times> lock_cm res" where
  "lease_enter fs_resolve flt q = lock_enter fs_resolve flt True (fst q) (snd q)"

lemma own_enter_fail:
  assumes "lease_enter fs_resolve flt q k = (k', Inl e)" "locks_ok k"
  shows "own_locks k' = own_locks k"
  using k_open_enter [of fs_resolve flt True "fst q" "snd q" k k' "Inl e"] assms
  by (simp add: lease_enter_def own_locks_def)

lemma own_enter:
  assumes "lease_enter fs_resolve flt q k = (k', Inr cm)" "locks_ok k"
  obtains p where "lock_path_for_db fs_resolve (snd q) = Inr p"
    and "own_locks k' = \<lparr>lf_id = cm_fd cm, lf_path = p,
           lf_mode = (if cm_acquired cm then Some (fst q) else None), lf_mine = True\<rparr> # own_locks k"
    and "\<forall>x \<in> set (own_locks k). lf_id x \<noteq> cm_fd cm"
proof -
  obtain p where "cm_fd cm = k_next k" "lock_path_for_db fs_resolve (snd q) = Inr p"
    "k_open k' = \<lparr>lf_id = cm_fd cm, lf_path = p,
       lf_mode = (if cm_acquired cm then Some (fst q) else None), lf_mine = True\<rparr> # k_open k"
    using k_open_enter [of fs_resolve flt True "fst q" "snd q" k k' "Inr cm"] assms
    by (auto simp: lease_enter_def)
  then show thesis
    using assms(2) by (intro that) (auto simp: own_locks_def locks_ok_def)
qed

interpretation leases: lease_provider locks_ok own_locks lf_id cm_fd
  "lease_enter fs_resolve flt" "lock_exit flt" for fs_resolve flt
proof unfold_locales
  fix k k' :: kernel and q cm e a b
  show "locks_ok k \<Longrightarrow> locks_ok (fst (lease_enter fs_resolve flt q k))"
    by (simp add: lease_enter_def locks_ok_enter)
  show "lease_enter fs_resolve flt q k = (k', Inl e) \<Longrightarrow> locks_ok k \<Longrightarrow> own_locks k' = own_locks k"
    by (rule own_enter_fail)
  show "\<exists>l. own_locks k' = l # own_locks k \<and> lf_id l = cm_fd cm \<and>
          (\<forall>x \<in> set (own_locks k). lf_id x \<noteq> cm_fd cm)"
    if "lease_enter fs_resolve flt q k = (k', Inr cm)" "locks_ok k"
    by (rule own_enter [OF that]) simp
  show "locks_ok k \<Longrightarrow> locks_ok (fst (lock_exit flt a b cm k))"
    by (rule locks_ok_exit)
qed (simp_all add: own_exit, simp_all add: lock_exit_def Let_def)

section \<open>Properties\<close>

text \<open>
  The kernel's table changes by the two halves of a context manager, run by this
  process or by another one, in any interleaving and with any faults.
\<close>

inductive lock_step :: "kernel \<Rightarrow> kernel \<Rightarrow> bool" where
  lock_step_enter: "lock_step k (fst (lock_enter fs_resolve flt mine m db k))"
| lock_step_exit: "lock_step k (fst (lock_exit flt ambient body cm k))"

definition no_locks :: kernel where
  "no_locks = \<lparr>k_next = 0, k_open = []\<rparr>"

interpretation lock_table: invariant_system "\<lambda>k. k = no_locks" lock_step locks_ok
proof unfold_locales
  show "locks_ok k" if "k = no_locks" for k
    using that by (simp add: locks_ok_def no_locks_def)
  show "locks_ok t" if "locks_ok s" "lock_step s t" for s t
    using that(2,1) by cases (simp_all add: locks_ok_enter locks_ok_exit)
qed


definition no_faults :: "nat \<Rightarrow> lock_faults" where
  "no_faults fd = \<lparr>ft_open = False, ft_flock = False, ft_unlock = None, ft_close = None\<rparr>"


text \<open>
  A lock is given back whatever happens. After a \<^verbatim>\<open>with\<close> statement over either
  lock manager, this process holds exactly the descriptors it held before,
  provided the body itself keeps the table's contract: also when the lock was
  contended, when the body raised, and when unlocking or closing failed. An
  exception of the body is the one that leaves the statement.
\<close>

theorem with_lock_releases:
  assumes ok: "locks_ok k"
    and body: "\<And>y k1. own_locks (fst (body y k1)) = own_locks k1"
  shows "own_locks (fst (with_lock fs_resolve flt ambient m db body k)) = own_locks k \<and>
    (case lock_enter fs_resolve flt True m db k of
       (k1, Inl e) \<Rightarrow> snd (with_lock fs_resolve flt ambient m db body k) = Inl e
     | (k1, Inr cm) \<Rightarrow>
         (case snd (body (if cm_acquired cm then Some (cm_fd cm) else None) k1) of
            Inl e \<Rightarrow> snd (with_lock fs_resolve flt ambient m db body k) = Inl e
          | Inr _ \<Rightarrow> True))"
proof (cases "lock_enter fs_resolve flt True m db k")
  case enter: (Pair k1 r)
  show ?thesis
  proof (cases r)
    case (Inl e)
    then show ?thesis
      using enter leases.enter_fail [of fs_resolve flt "(m, db)" k k1 e] ok
      by (simp add: with_lock_def lease_enter_def)
  next
    case (Inr cm)
    obtain k2 b where b: "body (if cm_acquired cm then Some (cm_fd cm) else None) k1 = (k2, b)"
      by fastforce
    obtain k3 x where x: "lock_exit flt ambient (case b of Inl e \<Rightarrow> Some e | Inr _ \<Rightarrow> None) cm k2 = (k3, x)"
      by fastforce
    have "own_locks k2 = own_locks k1"
      using body [of "if cm_acquired cm then Some (cm_fd cm) else None" k1] b by simp
    moreover have "filter (\<lambda>e. lf_id e \<noteq> cm_fd cm) (own_locks k1) = own_locks k"
      using leases.enter_close [of fs_resolve flt "(m, db)" k k1 cm ambient None] ok enter Inr
      by (simp add: lease_enter_def own_exit case_prod_beta)
    ultimately have "own_locks k3 = own_locks k"
      using own_exit [of flt ambient _ cm k2] x by (metis fst_conv)
    moreover have "x = Some e" if "b = Inl e" for e
      using x that by (auto simp: lock_exit_def Let_def)
    ultimately show ?thesis
      using enter Inr b x by (auto simp: with_lock_def split: option.splits sum.splits)
  qed
qed

text \<open>The witness: the body raises, then unlocking and closing fail too.\<close>

definition release_faults :: "nat \<Rightarrow> lock_faults" where
  "release_faults fd = \<lparr>ft_open = False, ft_flock = False,
     ft_unlock = Some (mk_exn C_OSError ''unlock''), ft_close = Some (mk_exn C_OSError ''close'')\<rparr>"

theorem with_lock_releases_witness:
  "with_lock return release_faults False LOCK_EX [''g''] (\<lambda>_ k. (k, raise C_ValueError ''body'')) no_locks =
     (\<lparr>k_next = 1, k_open = []\<rparr>, raise C_ValueError ''body'' :: unit res)"
proof -
  let ?w = "with_lock return release_faults False LOCK_EX [''g'']
              (\<lambda>_ k. (k, raise C_ValueError ''body'' :: unit res)) no_locks"
  have ok: "locks_ok no_locks"
    by (simp add: locks_ok_def no_locks_def)
  have enter: "lock_enter return release_faults True LOCK_EX [''g''] no_locks =
      (\<lparr>k_next = 1, k_open = [\<lparr>lf_id = 0, lf_path = [''g.sleep.lock''],
          lf_mode = Some LOCK_EX, lf_mine = True\<rparr>]\<rparr>, Inr \<lparr>cm_fd = 0, cm_acquired = True\<rparr>)"
    by code_simp
  have "own_locks (fst ?w) = [] \<and> snd ?w = raise C_ValueError ''body''"
    using with_lock_releases [OF ok, of "\<lambda>_ k. (k, raise C_ValueError ''body'' :: unit res)"
        return release_faults False LOCK_EX "[''g'']"] enter
    by (simp add: own_locks_def no_locks_def)
  moreover have "fst ?w = \<lparr>k_next = 1, k_open = []\<rparr>"
    by code_simp
  ultimately show ?thesis
    by (simp add: prod_eq_iff)
qed

text \<open>
  The journal guards never let an affected SQLite write a WAL database. On a
  vulnerable version both guards return only with the connection in DELETE mode
  and refuse an existing WAL database without changing it; on any other version
  the guard changes nothing, and bootstrapping returns only in WAL mode.
\<close>

theorem journal_guard_safe:
  "(case guard_sqlite_journal v c of
      (c', Inr m) \<Rightarrow> m = py_lower (jc_mode c') \<and>
        (if sqlite_wal_reset_vulnerable v then m = ''delete'' else c' = c)
    | (c', Inl e) \<Rightarrow> sqlite_wal_reset_vulnerable v \<and> exn_class e = C_SQLiteWALUnsupportedError \<and>
        (if py_lower (jc_mode c) = ''wal'' then c' = c else py_lower (jc_mode c') \<noteq> ''delete'')) \<and>
   (case bootstrap_sqlite_journal v c of
      (c', Inr m) \<Rightarrow> m = py_lower (jc_mode c') \<and>
        m = (if sqlite_wal_reset_vulnerable v then ''delete'' else ''wal'')
    | (c', Inl e) \<Rightarrow> exn_class e = C_SQLiteWALUnsupportedError)"
  by (auto simp: guard_sqlite_journal_def bootstrap_sqlite_journal_def Let_def
      pragma_journal_mode_def)

end
