(* ===== verification/Admission.thy ===== *)
theory Admission
  imports Locking
begin

text \<open>
  The operation admission of \<^verbatim>\<open>admission.py\<close>: graph and cache leases taken in one
  order under one deadline, and their transfer to a worker.

  The state is the lock table, the context variable that holds the admission in
  force and the store of lease owners, which tokens refer to by index because a
  worker and its caller share one. A \<^verbatim>\<open>with admit_operation(...)\<close> statement is its
  two halves, \<open>admit_operation\<close> up to the \<^verbatim>\<open>yield\<close> and \<open>admit_exit\<close> after it. The
  retry loop runs against a schedule: the clock readings of each round and what
  other processes do to the lock table before each acquisition. It has fuel;
  \<open>admit_returns\<close> shows how much is enough.
\<close>

section \<open>Tokens and their lease owners\<close>

record AdmissionLeaseOwner =
  lo_stack :: "lock_cm list"
  lo_transferred :: bool
  lo_closed :: bool

record OperationAdmission =
  oa_graph_path :: "path option"
  oa_cache_path :: "path option"
  oa_model :: "string option"
  oa_embedding_dim :: "int option"
  oa_vec_dim :: "int option"
  oa_epoch :: "int option"
  oa_supervisor :: "nat option"
  oa_embedding_generation :: "pyval option"
  oa_graph_lease :: "nat option"
  oa_cache_lease :: "nat option"
  oa_exclusive :: bool
  oa_cache_exclusive :: bool
  oa_lease_owner :: "nat option"

record adm_world =
  aw_kernel :: kernel
  aw_current :: "OperationAdmission option"
  aw_owners :: "AdmissionLeaseOwner list"

definition new_owner :: "lock_cm list \<Rightarrow> AdmissionLeaseOwner" where
  "new_owner stack = \<lparr>lo_stack = stack, lo_transferred = False, lo_closed = False\<rparr>"

definition transfer :: "AdmissionLeaseOwner \<Rightarrow> AdmissionLeaseOwner res" where
  "transfer owner =
     (if lo_closed owner then raise C_OperationAdmissionError ''admission lease is already closed''
      else if lo_transferred owner then
        raise C_OperationAdmissionError ''admission lease was already transferred''
      else return (owner\<lparr>lo_transferred := True\<rparr>))"

text \<open>\<^verbatim>\<open>AdmissionLeaseOwner.close\<close> on the owner with index \<open>i\<close>; closing empties its exit stack.\<close>

definition close_owner ::
    "(nat \<Rightarrow> lock_faults) \<Rightarrow> bool \<Rightarrow> nat \<Rightarrow> adm_world \<Rightarrow> adm_world \<times> exn option" where
  "close_owner flt ambient i w =
     (let owner = aw_owners w ! i
      in if lo_closed owner then (w, None)
         else case exitstack_close (lock_exit flt) ambient None (lo_stack owner) (aw_kernel w) of
           (k, e) \<Rightarrow>
             (w\<lparr>aw_kernel := k, aw_owners := (aw_owners w)[i := owner\<lparr>lo_closed := True, lo_stack := []\<rparr>]\<rparr>,
              e))"

text \<open>\<^verbatim>\<open>install_admission\<close>: set the context variable for the body, then reset it.\<close>

definition install_admission ::
    "OperationAdmission \<Rightarrow> (adm_world \<Rightarrow> adm_world \<times> 'a res) \<Rightarrow> adm_world \<Rightarrow> adm_world \<times> 'a res" where
  "install_admission admission body w =
     (case body (w\<lparr>aw_current := Some admission\<rparr>) of
        (w1, r) \<Rightarrow> (w1\<lparr>aw_current := aw_current w\<rparr>, r))"

text \<open>
  \<^verbatim>\<open>transfer_admission\<close>: from here on the worker closes the owner, unless handing
  the work over (the body) fails.
\<close>

definition transfer_admission ::
    "(nat \<Rightarrow> lock_faults) \<Rightarrow> OperationAdmission \<Rightarrow> (adm_world \<Rightarrow> adm_world \<times> 'a res) \<Rightarrow> adm_world \<Rightarrow>
     adm_world \<times> 'a res" where
  "transfer_admission flt admission body w =
     (case oa_lease_owner admission of
        None \<Rightarrow> (w, raise C_OperationAdmissionError ''admission has no transferable lease owner'')
      | Some i \<Rightarrow>
          (case transfer (aw_owners w ! i) of
             Inl e \<Rightarrow> (w, Inl e)
           | Inr owner \<Rightarrow>
               (case body (w\<lparr>aw_owners := (aw_owners w)[i := owner]\<rparr>) of
                  (w1, Inr x) \<Rightarrow> (w1, Inr x)
                | (w1, Inl e) \<Rightarrow> (fst (close_owner flt True i w1), Inl e))))"

section \<open>Admission\<close>

record adm_request =
  rq_graph_path :: "path option"
  rq_cache_path :: "path option"
  rq_model :: "string option"
  rq_embedding_dim :: "int option"
  rq_vec_dim :: "int option"
  rq_epoch :: "int option"
  rq_supervisor :: "nat option"
  rq_embedding_generation :: "pyval option"
  rq_exclusive :: bool
  rq_cache_exclusive :: bool
  rq_deadline :: real

record schedule =
  sc_start :: real
  sc_check :: "nat \<Rightarrow> real"
  sc_sleep :: "nat \<Rightarrow> real"
  sc_before_graph :: "nat \<Rightarrow> kernel \<Rightarrow> kernel"
  sc_before_cache :: "nat \<Rightarrow> kernel \<Rightarrow> kernel"

definition canonical :: "(path \<Rightarrow> path res) \<Rightarrow> path option \<Rightarrow> path option res" where
  "canonical fs_resolve p =
     (case p of None \<Rightarrow> return None | Some p \<Rightarrow> bind_res (fs_resolve p) (\<lambda>q. return (Some q)))"

text \<open>The guards of a nested admission, in the order of the code.\<close>

definition nested_mismatch ::
    "OperationAdmission \<Rightarrow> path option \<Rightarrow> path option \<Rightarrow> adm_request \<Rightarrow> string option" where
  "nested_mismatch parent graph cache rq =
     (if oa_graph_path parent \<noteq> graph \<or> oa_cache_path parent \<noteq> cache then
        Some ''nested admission identity mismatch''
      else if rq_model rq \<noteq> None \<and> oa_model parent \<noteq> rq_model rq then
        Some ''nested admission model mismatch''
      else if rq_embedding_dim rq \<noteq> None \<and> oa_embedding_dim parent \<noteq> rq_embedding_dim rq then
        Some ''nested admission dimension mismatch''
      else if rq_vec_dim rq \<noteq> None \<and> oa_vec_dim parent \<noteq> rq_vec_dim rq then
        Some ''nested admission vector dimension mismatch''
      else if rq_epoch rq \<noteq> None \<and> oa_epoch parent \<noteq> rq_epoch rq then
        Some ''nested admission epoch mismatch''
      else if rq_supervisor rq \<noteq> None \<and> oa_supervisor parent \<noteq> rq_supervisor rq then
        Some ''nested admission supervisor mismatch''
      else if rq_embedding_generation rq \<noteq> None \<and>
              oa_embedding_generation parent \<noteq> rq_embedding_generation rq then
        Some ''nested admission generation mismatch''
      else if rq_cache_exclusive rq \<and> \<not> oa_cache_exclusive parent then
        Some ''nested cache lease upgrade is forbidden''
      else if rq_exclusive rq \<and> \<not> oa_exclusive parent then
        Some ''nested graph lease upgrade is forbidden''
      else None)"

text \<open>
  One round of the loop, up to the decision whether a token can be built: the
  leases in order of entry, or \<open>None\<close> when one of them is contended. The exit stack
  is closed on every way out that has no lease owner; inside the exception handler
  release errors are silent.
\<close>

definition abandon ::
    "(nat \<Rightarrow> lock_faults) \<Rightarrow> bool \<Rightarrow> lock_cm list \<Rightarrow> kernel \<Rightarrow> kernel \<times> 'a option res" where
  "abandon flt ambient stack k =
     (case exitstack_close (lock_exit flt) ambient None stack k of
        (k1, Some e) \<Rightarrow> (k1, Inl e)
      | (k1, None) \<Rightarrow> (k1, return None))"

definition acquire_leases ::
    "(path \<Rightarrow> path res) \<Rightarrow> (nat \<Rightarrow> lock_faults) \<Rightarrow> schedule \<Rightarrow> nat \<Rightarrow> bool \<Rightarrow>
     path option \<Rightarrow> path option \<Rightarrow> adm_request \<Rightarrow> kernel \<Rightarrow>
     kernel \<times> (lock_cm option \<times> lock_cm option) option res" where
  "acquire_leases fs_resolve flt sc i ambient graph cache rq k0 =
     (let k = sc_before_graph sc i k0;
          cache_mode = (if rq_cache_exclusive rq then LOCK_EX else LOCK_SH)
      in case graph of
           Some g \<Rightarrow>
             (case lease_enter fs_resolve flt (if rq_exclusive rq then LOCK_EX else LOCK_SH, g) k of
                (k1, Inl e) \<Rightarrow> (k1, Inl e)
              | (k1, Inr gcm) \<Rightarrow>
                  if \<not> cm_acquired gcm then abandon flt ambient [gcm] k1
                  else (case cache of
                     None \<Rightarrow> (k1, return (Some (Some gcm, None)))
                   | Some c \<Rightarrow>
                       (case lease_enter fs_resolve flt (cache_mode, c) (sc_before_cache sc i k1) of
                          (k2, Inl e) \<Rightarrow>
                            (fst (exitstack_close (lock_exit flt) True None [gcm] k2), Inl e)
                        | (k2, Inr ccm) \<Rightarrow>
                            if cm_acquired ccm then (k2, return (Some (Some gcm, Some ccm)))
                            else abandon flt ambient [ccm, gcm] k2)))
         | None \<Rightarrow>
             (case cache of
                None \<Rightarrow> (k, raise C_AssertionError ''assert cache is not None'')
              | Some c \<Rightarrow>
                  (case lease_enter fs_resolve flt
                          (if rq_cache_exclusive rq \<or> rq_exclusive rq then LOCK_EX else LOCK_SH, c)
                          (sc_before_cache sc i k) of
                     (k1, Inl e) \<Rightarrow> (k1, Inl e)
                   | (k1, Inr ccm) \<Rightarrow>
                       if cm_acquired ccm then (k1, return (Some (None, Some ccm)))
                       else abandon flt ambient [ccm] k1)))"

definition stack_of :: "lock_cm option \<times> lock_cm option \<Rightarrow> lock_cm list" where
  "stack_of l = (case snd l of None \<Rightarrow> [] | Some c \<Rightarrow> [c]) @ (case fst l of None \<Rightarrow> [] | Some g \<Rightarrow> [g])"

text \<open>The token, its owner and the context variable, when every lease was granted.\<close>

definition make_token ::
    "path option \<Rightarrow> path option \<Rightarrow> adm_request \<Rightarrow> lock_cm option \<times> lock_cm option \<Rightarrow> nat \<Rightarrow>
     OperationAdmission" where
  "make_token graph cache rq l owner =
     \<lparr>oa_graph_path = graph, oa_cache_path = cache, oa_model = rq_model rq,
      oa_embedding_dim = rq_embedding_dim rq, oa_vec_dim = rq_vec_dim rq, oa_epoch = rq_epoch rq,
      oa_supervisor = rq_supervisor rq, oa_embedding_generation = rq_embedding_generation rq,
      oa_graph_lease = map_option cm_fd (fst l), oa_cache_lease = map_option cm_fd (snd l),
      oa_exclusive = (graph \<noteq> None \<and> rq_exclusive rq),
      oa_cache_exclusive = (rq_cache_exclusive rq \<or> graph = None \<and> rq_exclusive rq),
      oa_lease_owner = Some owner\<rparr>"

definition grant ::
    "path option \<Rightarrow> path option \<Rightarrow> adm_request \<Rightarrow> lock_cm option \<times> lock_cm option \<Rightarrow> kernel \<Rightarrow>
     adm_world \<Rightarrow> adm_world \<times> OperationAdmission res" where
  "grant graph cache rq l k w =
     (let token = make_token graph cache rq l (length (aw_owners w))
      in (w\<lparr>aw_kernel := k, aw_owners := aw_owners w @ [new_owner (stack_of l)],
            aw_current := Some token\<rparr>, return token))"

fun admit_loop ::
    "(path \<Rightarrow> path res) \<Rightarrow> (nat \<Rightarrow> lock_faults) \<Rightarrow> schedule \<Rightarrow> bool \<Rightarrow> path option \<Rightarrow> path option \<Rightarrow>
     adm_request \<Rightarrow> real \<Rightarrow> nat \<Rightarrow> nat \<Rightarrow> adm_world \<Rightarrow> (adm_world \<times> OperationAdmission res) option" where
  "admit_loop fs_resolve flt sc ambient graph cache rq end_time 0 i w = None"
| "admit_loop fs_resolve flt sc ambient graph cache rq end_time (Suc fuel) i w =
     (case acquire_leases fs_resolve flt sc i ambient graph cache rq (aw_kernel w) of
        (k, Inl e) \<Rightarrow> Some (w\<lparr>aw_kernel := k\<rparr>, Inl e)
      | (k, Inr (Some l)) \<Rightarrow> Some (grant graph cache rq l k w)
      | (k, Inr None) \<Rightarrow>
          if sc_check sc i \<ge> end_time then
            Some (w\<lparr>aw_kernel := k\<rparr>,
                  raise C_OperationAdmissionError ''operation admission deadline exceeded'')
          else admit_loop fs_resolve flt sc ambient graph cache rq end_time fuel (Suc i)
                 (w\<lparr>aw_kernel := k\<rparr>))"

definition admit_operation ::
    "(path \<Rightarrow> path res) \<Rightarrow> (nat \<Rightarrow> lock_faults) \<Rightarrow> schedule \<Rightarrow> bool \<Rightarrow> nat \<Rightarrow> adm_request \<Rightarrow> adm_world \<Rightarrow>
     (adm_world \<times> OperationAdmission res) option" where
  "admit_operation fs_resolve flt sc ambient fuel rq w =
     (case bind_res (canonical fs_resolve (rq_graph_path rq)) (\<lambda>graph.
           bind_res (canonical fs_resolve (rq_cache_path rq)) (\<lambda>cache. return (graph, cache))) of
        Inl e \<Rightarrow> Some (w, Inl e)
      | Inr (graph, cache) \<Rightarrow>
          if graph = None \<and> cache = None then
            Some (w, raise C_OperationAdmissionError ''an operation requires graph or cache identity'')
          else if graph \<noteq> None \<and> cache = graph then
            Some (w, raise C_OperationAdmissionError ''graph and cache must have distinct lock files'')
          else (case aw_current w of
             Some parent \<Rightarrow>
               (case nested_mismatch parent graph cache rq of
                  Some msg \<Rightarrow> Some (w, raise C_OperationAdmissionError msg)
                | None \<Rightarrow> Some (w, return parent))
           | None \<Rightarrow>
               admit_loop fs_resolve flt sc ambient graph cache rq
                 (sc_start sc + max 0 (rq_deadline rq)) fuel 0 w))"

text \<open>
  Leaving the statement: a nested one does nothing; the outermost one resets the
  context variable and closes the owner unless it was transferred. \<open>body\<close> is the
  exception of the protected block; the result is the exception that leaves.
\<close>

definition admit_exit ::
    "(nat \<Rightarrow> lock_faults) \<Rightarrow> bool \<Rightarrow> bool \<Rightarrow> OperationAdmission \<Rightarrow> exn option \<Rightarrow> adm_world \<Rightarrow>
     adm_world \<times> exn option" where
  "admit_exit flt ambient nested token body w =
     (if nested then (w, body)
      else case oa_lease_owner token of
        None \<Rightarrow> (w\<lparr>aw_current := None\<rparr>, body)
      | Some i \<Rightarrow>
          let w1 = w\<lparr>aw_current := None\<rparr>
          in if lo_transferred (aw_owners w1 ! i) then (w1, body)
             else (case close_owner flt (ambient \<or> body \<noteq> None) i w1 of
                (w2, Some e) \<Rightarrow> (w2, Some e)
              | (w2, None) \<Rightarrow> (w2, body)))"

section \<open>One round of acquisition\<close>

text \<open>
  What is asked of other processes: they keep the kernel's table consistent and
  use their own descriptors.
\<close>

definition others_only :: "(kernel \<Rightarrow> kernel) \<Rightarrow> bool" where
  "others_only f \<longleftrightarrow> (\<forall>k. locks_ok k \<longrightarrow> locks_ok (f k) \<and> own_locks (f k) = own_locks k)"

definition fair_schedule :: "schedule \<Rightarrow> bool" where
  "fair_schedule sc \<longleftrightarrow> (\<forall>i. others_only (sc_before_graph sc i) \<and> others_only (sc_before_cache sc i))"

lemma fair_scheduleD:
  assumes "fair_schedule sc" "locks_ok k"
  shows "locks_ok (sc_before_graph sc i k)" "own_locks (sc_before_graph sc i k) = own_locks k"
    "locks_ok (sc_before_cache sc i k)" "own_locks (sc_before_cache sc i k) = own_locks k"
  using assms by (simp_all add: fair_schedule_def others_only_def)

text \<open>The leases a request asks for, the latest first.\<close>

definition wanted ::
    "(path \<Rightarrow> path res) \<Rightarrow> path option \<Rightarrow> path option \<Rightarrow> adm_request \<Rightarrow> (path res \<times> lmode option) list" where
  "wanted fs_resolve graph cache rq =
     (case cache of None \<Rightarrow> []
      | Some c \<Rightarrow> [(lock_path_for_db fs_resolve c,
          Some (if rq_cache_exclusive rq \<or> graph = None \<and> rq_exclusive rq then LOCK_EX else LOCK_SH))]) @
     (case graph of None \<Rightarrow> []
      | Some g \<Rightarrow> [(lock_path_for_db fs_resolve g, Some (if rq_exclusive rq then LOCK_EX else LOCK_SH))])"

text \<open>\<open>holds es stack req\<close>: the entries \<open>es\<close> are the leases \<open>req\<close>, under the managers of \<open>stack\<close>.\<close>

definition holds :: "lockfd list \<Rightarrow> lock_cm list \<Rightarrow> (path res \<times> lmode option) list \<Rightarrow> bool" where
  "holds es stack req \<longleftrightarrow> map lf_id es = map cm_fd stack \<and>
     map (\<lambda>e. (Inr (lf_path e), lf_mode e)) es = req"

definition fresh_for :: "lock_cm list \<Rightarrow> lockfd list \<Rightarrow> bool" where
  "fresh_for stack es \<longleftrightarrow> (\<forall>x \<in> set es. \<forall>cm \<in> set stack. lf_id x \<noteq> cm_fd cm)"

definition round_ok ::
    "(path \<Rightarrow> path res) \<Rightarrow> path option \<Rightarrow> path option \<Rightarrow> adm_request \<Rightarrow> lockfd list \<Rightarrow>
     kernel \<times> (lock_cm option \<times> lock_cm option) option res \<Rightarrow> bool" where
  "round_ok fs_resolve graph cache rq old r \<longleftrightarrow> locks_ok (fst r) \<and>
     (case snd r of
        Inr (Some l) \<Rightarrow> fresh_for (stack_of l) old \<and>
          (\<exists>es. own_locks (fst r) = es @ old \<and> holds es (stack_of l) (wanted fs_resolve graph cache rq))
      | _ \<Rightarrow> own_locks (fst r) = old)"

lemma abandon_ok:
  assumes "locks_ok k" "\<And>a p. own_locks (fst (exitstack_close (lock_exit flt) a p stack k)) = old"
  shows "round_ok fs_resolve graph cache rq old (abandon flt ambient stack k)"
  using assms leases.close_ok [OF assms(1), of flt ambient None stack]
  by (auto simp: round_ok_def abandon_def split: prod.split option.split sum.split)
    (metis fst_conv)+

lemma lease_granted:
  assumes "locks_ok k" "lease_enter fs_resolve flt (m, c) k = (k1, Inr ccm)" "cm_acquired ccm"
  shows "locks_ok k1" "\<forall>x \<in> set (own_locks k). lf_id x \<noteq> cm_fd ccm"
    "\<exists>e. own_locks k1 = e # own_locks k \<and> lf_id e = cm_fd ccm \<and>
       (Inr (lf_path e), lf_mode e) = (lock_path_for_db fs_resolve c, Some m)"
proof -
  show "locks_ok k1"
    using leases.ok_enter [OF assms(1), of fs_resolve flt "(m, c)"] assms(2) by simp
  obtain p where p: "lock_path_for_db fs_resolve c = Inr p"
    "own_locks k1 = \<lparr>lf_id = cm_fd ccm, lf_path = p, lf_mode = Some m, lf_mine = True\<rparr> # own_locks k"
    "\<forall>x \<in> set (own_locks k). lf_id x \<noteq> cm_fd ccm"
    by (rule own_enter [OF assms(2,1)]) (use assms(3) in simp)
  show "\<forall>x \<in> set (own_locks k). lf_id x \<noteq> cm_fd ccm"
    by (rule p(3))
  show "\<exists>e. own_locks k1 = e # own_locks k \<and> lf_id e = cm_fd ccm \<and>
       (Inr (lf_path e), lf_mode e) = (lock_path_for_db fs_resolve c, Some m)"
    using p(1,2) by simp
qed

text \<open>Each of the three ways through a round: cache alone, graph alone, graph then cache.\<close>

lemma acquire_cache_only:
  assumes sc: "fair_schedule sc" and k0: "locks_ok k0"
  shows "round_ok fs_resolve None (Some c) rq (own_locks k0)
     (acquire_leases fs_resolve flt sc i ambient None (Some c) rq k0)"
proof -
  let ?m = "if rq_cache_exclusive rq \<or> rq_exclusive rq then LOCK_EX else LOCK_SH"
  let ?k = "sc_before_cache sc i (sc_before_graph sc i k0)"
  have k: "locks_ok ?k" "own_locks ?k = own_locks k0"
    using fair_scheduleD [OF sc k0] fair_scheduleD [OF sc] by simp_all
  obtain k1 r where e: "lease_enter fs_resolve flt (?m, c) ?k = (k1, r)" by fastforce
  have ok1: "locks_ok k1"
    using leases.ok_enter [OF k(1), of fs_resolve flt "(?m, c)"] e by simp
  consider (fail) x where "r = Inl x" | (granted) ccm where "r = Inr ccm" "cm_acquired ccm"
    | (contended) ccm where "r = Inr ccm" "\<not> cm_acquired ccm"
    by (cases r) auto
  then show ?thesis
  proof cases
    case fail
    then show ?thesis
      using e ok1 leases.enter_fail [OF e [unfolded fail] k(1)] k(2)
      by (simp add: acquire_leases_def round_ok_def Let_def)
  next
    case granted
    then show ?thesis
      using e lease_granted [OF k(1) e [unfolded granted(1)] granted(2)] k(2)
      by (auto simp: acquire_leases_def round_ok_def Let_def fresh_for_def stack_of_def
          holds_def wanted_def)
  next
    case contended
    have "own_locks (fst (exitstack_close (lock_exit flt) a p [ccm] k1)) = own_locks k0" for a p
      using leases.enter_close [OF e [unfolded contended(1)] k(1)] k(2) by simp
    then show ?thesis
      using e contended abandon_ok [OF ok1]
      by (simp add: acquire_leases_def Let_def del: exitstack_close.simps)
  qed
qed

lemma acquire_graph_contended:
  assumes sc: "fair_schedule sc" and k0: "locks_ok k0"
    and e: "lease_enter fs_resolve flt (if rq_exclusive rq then LOCK_EX else LOCK_SH, g)
              (sc_before_graph sc i k0) = (k1, r)"
    and r: "\<And>gcm. r = Inr gcm \<Longrightarrow> \<not> cm_acquired gcm"
  shows "round_ok fs_resolve (Some g) cache rq (own_locks k0)
     (acquire_leases fs_resolve flt sc i ambient (Some g) cache rq k0)"
proof -
  have k: "locks_ok (sc_before_graph sc i k0)" "own_locks (sc_before_graph sc i k0) = own_locks k0"
    using fair_scheduleD [OF sc k0] by simp_all
  have ok1: "locks_ok k1"
    using leases.ok_enter [OF k(1)] e by (metis fst_conv)
  show ?thesis
  proof (cases r)
    case (Inl x)
    then show ?thesis
      using e ok1 leases.enter_fail [OF e [unfolded Inl] k(1)] k(2)
      by (simp add: acquire_leases_def round_ok_def Let_def)
  next
    case (Inr gcm)
    have "own_locks (fst (exitstack_close (lock_exit flt) a p [gcm] k1)) = own_locks k0" for a p
      using leases.enter_close [OF e [unfolded Inr] k(1)] k(2) by simp
    then show ?thesis
      using e Inr r abandon_ok [OF ok1]
      by (simp add: acquire_leases_def Let_def del: exitstack_close.simps)
  qed
qed

lemma acquire_graph_cache:
  assumes sc: "fair_schedule sc" and k0: "locks_ok k0"
    and e: "lease_enter fs_resolve flt (if rq_exclusive rq then LOCK_EX else LOCK_SH, g)
              (sc_before_graph sc i k0) = (k1, Inr gcm)" and g: "cm_acquired gcm"
  shows "round_ok fs_resolve (Some g) (Some c) rq (own_locks k0)
     (acquire_leases fs_resolve flt sc i ambient (Some g) (Some c) rq k0)"
proof -
  let ?m = "if rq_cache_exclusive rq then LOCK_EX else LOCK_SH"
  let ?k = "sc_before_graph sc i k0" and ?k1 = "sc_before_cache sc i k1"
  have k: "locks_ok ?k" "own_locks ?k = own_locks k0"
    using fair_scheduleD [OF sc k0] by simp_all
  have k1: "locks_ok ?k1" "own_locks ?k1 = own_locks k1"
    using fair_scheduleD [OF sc lease_granted(1) [OF k(1) e g]] by simp_all
  obtain k2 r where c: "lease_enter fs_resolve flt (?m, c) ?k1 = (k2, r)" by fastforce
  have ok2: "locks_ok k2"
    using leases.ok_enter [OF k1(1), of fs_resolve flt "(?m, c)"] c by simp
  consider (fail) x where "r = Inl x" | (granted) ccm where "r = Inr ccm" "cm_acquired ccm"
    | (contended) ccm where "r = Inr ccm" "\<not> cm_acquired ccm"
    by (cases r) auto
  then show ?thesis
  proof cases
    case fail
    have "own_locks (fst (exitstack_close (lock_exit flt) True None [gcm] k2)) = own_locks k0"
      using leases.enter_close [OF e k(1), of True None] k(2) k1(2)
        leases.enter_fail [OF c [unfolded fail] k1(1)]
      by (simp only: leases.close_own)
    then show ?thesis
      using e g c fail leases.close_ok [OF ok2, of flt True None "[gcm]"]
      by (simp add: acquire_leases_def round_ok_def Let_def del: exitstack_close.simps)
  next
    case granted
    then show ?thesis
      using e g c ok2 lease_granted [OF k1(1) c [unfolded granted(1)] granted(2)] k1(2)
        lease_granted [OF k(1) e g] k(2)
      by (auto simp: acquire_leases_def round_ok_def Let_def fresh_for_def stack_of_def
          holds_def wanted_def)
  next
    case contended
    have "own_locks (fst (exitstack_close (lock_exit flt) a p [ccm, gcm] k2)) = own_locks k0" for a p
      using leases.enter_two_close [OF e k(1) k1(2,1) c [unfolded contended(1)]] k(2) by simp
    then show ?thesis
      using e g c contended abandon_ok [OF ok2]
      by (simp add: acquire_leases_def Let_def del: exitstack_close.simps)
  qed
qed

lemma acquire_leases_ok:
  assumes sc: "fair_schedule sc" and k0: "locks_ok k0"
  shows "round_ok fs_resolve graph cache rq (own_locks k0)
     (acquire_leases fs_resolve flt sc i ambient graph cache rq k0)"
proof (cases graph)
  case None
  then show ?thesis
    using acquire_cache_only [OF assms] fair_scheduleD [OF assms]
    by (cases cache) (simp_all add: acquire_leases_def round_ok_def)
next
  case (Some g)
  obtain k1 r where e: "lease_enter fs_resolve flt (if rq_exclusive rq then LOCK_EX else LOCK_SH, g)
      (sc_before_graph sc i k0) = (k1, r)" by fastforce
  show ?thesis
  proof (cases "\<exists>gcm. r = Inr gcm \<and> cm_acquired gcm")
    case True
    then obtain gcm where r: "r = Inr gcm" and g: "cm_acquired gcm" by blast
    show ?thesis
    proof (cases cache)
      case None
      then show ?thesis
        using Some e r g fair_scheduleD [OF assms] lease_granted [OF _ e [unfolded r] g]
        by (auto simp: acquire_leases_def round_ok_def Let_def fresh_for_def stack_of_def
            holds_def wanted_def)
    qed (use Some acquire_graph_cache [OF assms e [unfolded r] g] in simp)
  qed (use Some acquire_graph_contended [OF assms e] in blast)
qed

section \<open>The whole admission\<close>

text \<open>What a caller may rely on after an admission: all of the request, or nothing.\<close>

definition admitted ::
    "(path \<Rightarrow> path res) \<Rightarrow> path option \<Rightarrow> path option \<Rightarrow> adm_request \<Rightarrow> adm_world \<Rightarrow> adm_world \<Rightarrow>
     OperationAdmission \<Rightarrow> bool" where
  "admitted fs_resolve graph cache rq w w' token \<longleftrightarrow>
     (\<exists>l es. token = make_token graph cache rq l (length (aw_owners w)) \<and>
        aw_current w' = Some token \<and>
        aw_owners w' = aw_owners w @ [new_owner (stack_of l)] \<and>
        own_locks (aw_kernel w') = es @ own_locks (aw_kernel w) \<and>
        holds es (stack_of l) (wanted fs_resolve graph cache rq) \<and>
        fresh_for (stack_of l) (own_locks (aw_kernel w)))"

definition refused :: "adm_world \<Rightarrow> adm_world \<Rightarrow> bool" where
  "refused w w' \<longleftrightarrow> own_locks (aw_kernel w') = own_locks (aw_kernel w) \<and>
     aw_current w' = aw_current w \<and> aw_owners w' = aw_owners w"

lemma close_admitted:
  assumes "holds es stack req" "fresh_for stack old" "own_locks k = es @ old"
  shows "own_locks (fst (exitstack_close (lock_exit flt) ambient p stack k)) = old"
proof -
  have "set (map lf_id es) = set (map cm_fd stack)"
    using assms(1) by (simp only: holds_def)
  then have "filter (\<lambda>e. lf_id e \<notin> cm_fd ` set stack) es = []"
    by (auto simp: filter_empty_conv)
  moreover have "filter (\<lambda>e. lf_id e \<notin> cm_fd ` set stack) old = old"
    using assms(2) by (force simp: fresh_for_def filter_id_conv)
  ultimately show ?thesis
    unfolding leases.close_own by (simp add: assms(3))
qed

lemma admit_loop_ok:
  assumes "fair_schedule sc" "locks_ok (aw_kernel w)"
    and "admit_loop fs_resolve flt sc ambient graph cache rq end_time fuel i w = Some (w', r)"
  shows "locks_ok (aw_kernel w') \<and>
     (case r of Inl _ \<Rightarrow> refused w w' | Inr token \<Rightarrow> admitted fs_resolve graph cache rq w w' token)"
  using assms(2,3)
proof (induction fuel arbitrary: i w)
  case (Suc fuel)
  obtain k q where a: "acquire_leases fs_resolve flt sc i ambient graph cache rq (aw_kernel w) = (k, q)"
    by fastforce
  have round: "round_ok fs_resolve graph cache rq (own_locks (aw_kernel w)) (k, q)"
    using acquire_leases_ok [OF assms(1) Suc.prems(1)] a by metis
  consider (err) e where "q = Inl e" | (got) l where "q = Inr (Some l)" | (busy) "q = Inr None"
    by (metis old.sum.exhaust option.exhaust)
  then show ?case
  proof cases
    case err
    then show ?thesis
      using Suc.prems(2) a round by (auto simp: round_ok_def refused_def)
  next
    case got
    then show ?thesis
      using Suc.prems(2) a round
      by (auto simp: round_ok_def grant_def Let_def admitted_def simp del: split_paired_Ex)
  next
    case busy
    show ?thesis
    proof (cases "sc_check sc i \<ge> end_time")
      case True
      then show ?thesis
        using Suc.prems(2) a round busy by (auto simp: round_ok_def refused_def)
    next
      case False
      then show ?thesis
        using Suc.IH [of "w\<lparr>aw_kernel := k\<rparr>" "Suc i"] Suc.prems(2) a round busy
        by (auto simp: round_ok_def refused_def admitted_def split: sum.splits)
    qed
  qed
qed simp

lemma admit_outermost:
  assumes "fair_schedule sc" "locks_ok (aw_kernel w)" "aw_current w = None"
    and "admit_operation fs_resolve flt sc ambient fuel rq w = Some (w', r)"
  shows "locks_ok (aw_kernel w') \<and>
    (case r of
       Inl _ \<Rightarrow> refused w w'
     | Inr token \<Rightarrow> \<exists>graph cache.
         canonical fs_resolve (rq_graph_path rq) = Inr graph \<and>
         canonical fs_resolve (rq_cache_path rq) = Inr cache \<and>
         (graph \<noteq> None \<or> cache \<noteq> None) \<and> (graph \<noteq> None \<longrightarrow> cache \<noteq> graph) \<and>
         admitted fs_resolve graph cache rq w w' token)"
proof (cases "canonical fs_resolve (rq_graph_path rq)")
  case (Inl e)
  then show ?thesis using assms by (auto simp: admit_operation_def refused_def)
next
  case graph: (Inr graph)
  show ?thesis
  proof (cases "canonical fs_resolve (rq_cache_path rq)")
    case (Inl e)
    then show ?thesis using assms graph by (auto simp: admit_operation_def refused_def)
  next
    case cache: (Inr cache)
    show ?thesis
    proof (cases "graph = None \<and> cache = None \<or> graph \<noteq> None \<and> cache = graph")
      case True
      then show ?thesis
        using assms(2,4) graph cache by (auto simp: admit_operation_def refused_def)
    next
      case False
      then have "admit_loop fs_resolve flt sc ambient graph cache rq
          (sc_start sc + max 0 (rq_deadline rq)) fuel 0 w = Some (w', r)"
        using assms(3,4) graph cache by (auto simp: admit_operation_def split: if_splits)
      then show ?thesis
        using admit_loop_ok [OF assms(1,2)] graph cache False by (fastforce split: sum.splits)
    qed
  qed
qed

text \<open>
  C5: An admission is all or nothing. An outermost admission that succeeds holds
  exactly the requested leases in the requested modes on top of what the process
  held, with a token that records the request, in a lock table without
  conflicts; one that raises, for a contended lease, a failing system call or a
  missed deadline, leaves the process's leases, the context variable and the
  lease owners as they were.
\<close>

theorem admit_all_or_nothing:
  assumes "fair_schedule sc" "locks_ok (aw_kernel w)" "aw_current w = None"
    and "admit_operation fs_resolve flt sc ambient fuel rq w = Some (w', r)"
  shows "locks_ok (aw_kernel w') \<and>
    (case r of
       Inl _ \<Rightarrow> refused w w'
     | Inr token \<Rightarrow> \<exists>graph cache.
         canonical fs_resolve (rq_graph_path rq) = Inr graph \<and>
         canonical fs_resolve (rq_cache_path rq) = Inr cache \<and>
         (graph \<noteq> None \<or> cache \<noteq> None) \<and> (graph \<noteq> None \<longrightarrow> cache \<noteq> graph) \<and>
         admitted fs_resolve graph cache rq w w' token)"
  using admit_outermost [OF assms] .

text \<open>Leaving the statement gives back exactly what entering it took.\<close>

lemma admit_then_exit:
  assumes "fair_schedule sc" "locks_ok (aw_kernel w)" "aw_current w = None"
    and admit: "admit_operation fs_resolve flt sc ambient fuel rq w = Some (w1, Inr token)"
    and leases: "own_locks (aw_kernel w2) = own_locks (aw_kernel w1)"
    and owners: "aw_owners w2 = aw_owners w1"
    and exit: "admit_exit flt' ambient' False token body w2 = (w3, e)"
  shows "own_locks (aw_kernel w3) = own_locks (aw_kernel w) \<and> aw_current w3 = None \<and>
    lo_closed (aw_owners w3 ! length (aw_owners w)) \<and> (body \<noteq> None \<longrightarrow> e = body)"
proof -
  obtain l es graph cache where adm:
      "token = make_token graph cache rq l (length (aw_owners w))"
      "aw_owners w1 = aw_owners w @ [new_owner (stack_of l)]"
      "own_locks (aw_kernel w1) = es @ own_locks (aw_kernel w)"
      "holds es (stack_of l) (wanted fs_resolve graph cache rq)"
      "fresh_for (stack_of l) (own_locks (aw_kernel w))"
    using admit_outermost [OF assms(1-4)] by (auto simp: admitted_def)
  let ?n = "length (aw_owners w)"
  obtain k x where c: "exitstack_close (lock_exit flt') (ambient' \<or> body \<noteq> None) None (stack_of l)
      (aw_kernel w2) = (k, x)" by fastforce
  have own: "own_locks k = own_locks (aw_kernel w)"
    using close_admitted [OF adm(4,5), of "aw_kernel w2"] leases adm(3) c by (metis fst_conv)
  have x: "x = None" if "body \<noteq> None"
    using leases.close_ambient [of flt' None "stack_of l" "aw_kernel w2"] c that by simp
  show ?thesis
    using exit adm(1,2) owners c own x
    by (auto simp: admit_exit_def make_token_def close_owner_def new_owner_def nth_append Let_def
        split: option.splits)
qed

text \<open>
  C7: A lease is held no longer than its statement. After an outermost admission
  and a body that leaves the process's other leases alone and does not transfer
  the owner, leaving the statement gives back exactly the leases the admission
  took, whatever fails while unlocking, closes the owner and clears the context
  variable; an exception of the body is not replaced.
\<close>

theorem admit_exit_releases:
  assumes "fair_schedule sc" "locks_ok (aw_kernel w)" "aw_current w = None"
    and admit: "admit_operation fs_resolve flt sc ambient fuel rq w = Some (w1, Inr token)"
    and leases: "own_locks (aw_kernel w2) = own_locks (aw_kernel w1)"
    and owners: "aw_owners w2 = aw_owners w1"
    and exit: "admit_exit flt' ambient' False token body w2 = (w3, e)"
  shows "own_locks (aw_kernel w3) = own_locks (aw_kernel w) \<and> aw_current w3 = None \<and>
    lo_closed (aw_owners w3 ! length (aw_owners w)) \<and> (body \<noteq> None \<longrightarrow> e = body)"
  using admit_then_exit [OF assms] .

text \<open>
  A nested admission takes no lease and upgrades none. Inside an admission, a
  request changes nothing; it is granted only when the paths are the same, every
  identity it names is the one in force, and it asks for no exclusive lease the
  outer one does not have. The token it gets is the outer one.
\<close>

theorem admit_nested_no_upgrade:
  assumes "aw_current w = Some parent"
    and "admit_operation fs_resolve flt sc ambient fuel rq w = Some (w', r)"
  shows "w' = w \<and> (\<forall>token. r = Inr token \<longrightarrow> token = parent \<and>
    canonical fs_resolve (rq_graph_path rq) = Inr (oa_graph_path parent) \<and>
    canonical fs_resolve (rq_cache_path rq) = Inr (oa_cache_path parent) \<and>
    (rq_exclusive rq \<longrightarrow> oa_exclusive parent) \<and>
    (rq_cache_exclusive rq \<longrightarrow> oa_cache_exclusive parent) \<and>
    rq_model rq \<in> {None, oa_model parent} \<and>
    rq_embedding_dim rq \<in> {None, oa_embedding_dim parent} \<and>
    rq_vec_dim rq \<in> {None, oa_vec_dim parent} \<and> rq_epoch rq \<in> {None, oa_epoch parent} \<and>
    rq_supervisor rq \<in> {None, oa_supervisor parent} \<and>
    rq_embedding_generation rq \<in> {None, oa_embedding_generation parent})"
proof -
  have mismatch: "nested_mismatch parent g c rq = None \<longleftrightarrow>
      oa_graph_path parent = g \<and> oa_cache_path parent = c \<and>
      (rq_exclusive rq \<longrightarrow> oa_exclusive parent) \<and> (rq_cache_exclusive rq \<longrightarrow> oa_cache_exclusive parent) \<and>
      rq_model rq \<in> {None, oa_model parent} \<and>
      rq_embedding_dim rq \<in> {None, oa_embedding_dim parent} \<and>
      rq_vec_dim rq \<in> {None, oa_vec_dim parent} \<and> rq_epoch rq \<in> {None, oa_epoch parent} \<and>
      rq_supervisor rq \<in> {None, oa_supervisor parent} \<and>
      rq_embedding_generation rq \<in> {None, oa_embedding_generation parent}" for g c
  proof -
    have named: "x \<in> {None, y} \<longleftrightarrow> \<not> (x \<noteq> None \<and> y \<noteq> x)" for x y :: "'x option"
      by auto
    have guard: "(if b then Some x else y) = None \<longleftrightarrow> \<not> b \<and> y = None" for b and x :: 'y and y
      by simp
    show ?thesis
      unfolding named nested_mismatch_def guard by argo
  qed
  show ?thesis
  proof (cases "bind_res (canonical fs_resolve (rq_graph_path rq)) (\<lambda>graph.
      bind_res (canonical fs_resolve (rq_cache_path rq)) (\<lambda>cache. return (graph, cache)))")
    case (Inl e)
    then show ?thesis
      using assms by (auto simp: admit_operation_def)
  next
    case (Inr gc)
    obtain g c where gc: "gc = (g, c)" by fastforce
    have canonical: "canonical fs_resolve (rq_graph_path rq) = Inr g"
      "canonical fs_resolve (rq_cache_path rq) = Inr c"
      using Inr gc by (auto simp: res_simps)
    have "w' = w \<and> (isl r \<or> r = Inr parent \<and> nested_mismatch parent g c rq = None)"
      using assms Inr gc by (auto simp: admit_operation_def split: if_splits option.splits)
    then show ?thesis
      unfolding mismatch using canonical by auto
  qed
qed

section \<open>The deadline ends the loop\<close>

text \<open>
  The clock does not run backwards, and a sleep lasts at least as long as asked:
  10 ms, or what is left to the deadline if that is less.
\<close>

definition sleeps :: "schedule \<Rightarrow> real \<Rightarrow> bool" where
  "sleeps sc end_time \<longleftrightarrow> sc_start sc \<le> sc_check sc 0 \<and>
     (\<forall>i. sc_check sc i \<le> sc_sleep sc i \<and>
          sc_sleep sc i + min (1/100) (max 0 (end_time - sc_sleep sc i)) \<le> sc_check sc (Suc i))"

lemma sleeps_progress:
  assumes "sleeps sc end_time"
  shows "min end_time (sc_start sc + real n / 100) \<le> sc_check sc n"
proof (induction n)
  case 0
  have "sc_start sc \<le> sc_check sc 0" using assms by (simp add: sleeps_def)
  then show ?case by (simp add: min_def)
next
  case (Suc n)
  have "sc_check sc n \<le> sc_sleep sc n"
    "sc_sleep sc n + min (1/100) (max 0 (end_time - sc_sleep sc n)) \<le> sc_check sc (Suc n)"
    using assms by (simp_all add: sleeps_def)
  then show ?case
    using Suc.IH by (simp add: min_def max_def field_simps split: if_splits)
qed

lemma admit_loop_returns:
  assumes "\<exists>n < fuel. end_time \<le> sc_check sc (i + n)"
  shows "\<exists>w' r. admit_loop fs_resolve flt sc ambient graph cache rq end_time fuel i w = Some (w', r)"
  using assms
proof (induction fuel arbitrary: i w)
  case (Suc fuel)
  then obtain n where n: "n < Suc fuel" "end_time \<le> sc_check sc (i + n)" by blast
  have "\<exists>w'' r. admit_loop fs_resolve flt sc ambient graph cache rq end_time fuel (Suc i) (w\<lparr>aw_kernel := k\<rparr>)
          = Some (w'', r)" if "\<not> end_time \<le> sc_check sc i" for k
  proof (rule Suc.IH)
    have "n \<noteq> 0" using n(2) that by (metis add.right_neutral)
    then have "n - 1 < fuel \<and> end_time \<le> sc_check sc (Suc i + (n - 1))"
      using n by simp
    then show "\<exists>n<fuel. end_time \<le> sc_check sc (Suc i + n)" by blast
  qed
  then show ?case
    by (auto simp: grant_def Let_def split: prod.split sum.split option.split)
qed simp

text \<open>
  C6: Admission ends. Whatever other processes do to the locks and whichever
  system calls fail, one admission makes at most one attempt for each 10 ms of
  its deadline and one more, and then has either a token or an exception.
\<close>

theorem admit_returns:
  assumes "sleeps sc (sc_start sc + max 0 (rq_deadline rq))"
    and "nat \<lceil>100 * max 0 (rq_deadline rq)\<rceil> < fuel"
  shows "\<exists>w' r. admit_operation fs_resolve flt sc ambient fuel rq w = Some (w', r)"
proof -
  let ?d = "max 0 (rq_deadline rq)"
  let ?n = "nat \<lceil>100 * ?d\<rceil>"
  have "?d \<le> real ?n / 100"
    by (simp add: field_simps real_nat_ceiling_ge)
  then have "sc_start sc + ?d \<le> sc_check sc ?n"
    using sleeps_progress [OF assms(1), of ?n] by simp
  then have "\<exists>n < fuel. sc_start sc + ?d \<le> sc_check sc (0 + n)"
    using assms(2) by (intro exI [of _ ?n]) simp
  then have "\<exists>w' r. admit_loop fs_resolve flt sc ambient graph cache rq (sc_start sc + ?d) fuel 0 w
      = Some (w', r)" for graph cache
    by (rule admit_loop_returns)
  then show ?thesis
    by (auto simp: admit_operation_def split: sum.split prod.split option.split)
qed

text \<open>
  A transferred lease outlives its caller and ends once. When the owner is
  handed to a worker, leaving the admission statement keeps every lease; the
  worker's close gives back exactly the leases of the admission, a second close
  changes nothing, and the owner can be transferred neither twice nor after it
  was closed.
\<close>

theorem transferred_lease_released_once:
  assumes "fair_schedule sc" "locks_ok (aw_kernel w)" "aw_current w = None"
    and admit: "admit_operation fs_resolve flt sc ambient fuel rq w = Some (w1, Inr token)"
    and transfer: "transfer_admission flt token hand w1 = (w2, Inr x)"
    and hand: "\<And>v. own_locks (aw_kernel (fst (hand v))) = own_locks (aw_kernel v)"
      "\<And>v. aw_owners (fst (hand v)) = aw_owners v"
    and exit: "admit_exit flt ambient False token body w2 = (w3, e)"
    and close: "close_owner flt' ambient' (length (aw_owners w)) w3 = (w4, e')"
  shows "own_locks (aw_kernel w3) = own_locks (aw_kernel w1) \<and> e = body \<and>
    own_locks (aw_kernel w4) = own_locks (aw_kernel w) \<and>
    close_owner flt' ambient' (length (aw_owners w)) w4 = (w4, None) \<and>
    isl (transfer (aw_owners w3 ! length (aw_owners w))) \<and>
    isl (transfer (aw_owners w4 ! length (aw_owners w)))"
proof -
  obtain l es graph cache where adm:
      "token = make_token graph cache rq l (length (aw_owners w))"
      "aw_owners w1 = aw_owners w @ [new_owner (stack_of l)]"
      "own_locks (aw_kernel w1) = es @ own_locks (aw_kernel w)"
      "holds es (stack_of l) (wanted fs_resolve graph cache rq)"
      "fresh_for (stack_of l) (own_locks (aw_kernel w))"
    using admit_outermost [OF assms(1-4)] by (auto simp: admitted_def)
  let ?n = "length (aw_owners w)" and ?o = "(new_owner (stack_of l))\<lparr>lo_transferred := True\<rparr>"
  let ?v = "w1\<lparr>aw_owners := aw_owners w @ [?o]\<rparr>"
  have "w2 = fst (hand ?v)"
    using transfer adm(1,2)
    by (auto simp: transfer_admission_def make_token_def Admission.transfer_def new_owner_def
        nth_append list_update_append split: prod.splits sum.splits if_splits)
  then have w2: "aw_owners w2 = aw_owners w @ [?o]" "own_locks (aw_kernel w2) = own_locks (aw_kernel w1)"
    using hand [of ?v] by simp_all
  then have w3: "w3 = w2\<lparr>aw_current := None\<rparr>" "e = body"
    using exit adm(1) by (auto simp: admit_exit_def make_token_def nth_append Let_def)
  have "w4 = w3\<lparr>aw_kernel := fst (exitstack_close (lock_exit flt') ambient' None (stack_of l) (aw_kernel w3)),
      aw_owners := aw_owners w @ [?o\<lparr>lo_closed := True, lo_stack := []\<rparr>]\<rparr>"
    using close w2(1) w3(1)
    by (auto simp: close_owner_def nth_append list_update_append new_owner_def split: prod.splits)
  moreover have "own_locks (aw_kernel w3) = es @ own_locks (aw_kernel w)"
    using w2(2) w3(1) adm(3) by simp
  ultimately show ?thesis
    using close_admitted [OF adm(4,5)] w2 w3
    by (simp add: adm(3) close_owner_def nth_append Admission.transfer_def)
qed

section \<open>Witnesses\<close>

text \<open>A quiet schedule, an idle world and a request for both leases.\<close>

definition quiet :: schedule where
  "quiet = \<lparr>sc_start = 0, sc_check = \<lambda>i. real i / 100, sc_sleep = \<lambda>i. real i / 100,
     sc_before_graph = \<lambda>_ k. k, sc_before_cache = \<lambda>_ k. k\<rparr>"

definition idle_world :: adm_world where
  "idle_world = \<lparr>aw_kernel = no_locks, aw_current = None, aw_owners = []\<rparr>"

definition graph_cache_request :: adm_request where
  "graph_cache_request =
     \<lparr>rq_graph_path = Some [''graph.db''], rq_cache_path = Some [''cache.db''], rq_model = Some ''m'',
      rq_embedding_dim = Some 3, rq_vec_dim = Some 3, rq_epoch = Some 1, rq_supervisor = None,
      rq_embedding_generation = None, rq_exclusive = True, rq_cache_exclusive = False,
      rq_deadline = 1 / 20\<rparr>"

definition graph_cache_token :: OperationAdmission where
  "graph_cache_token = make_token (Some [''graph.db'']) (Some [''cache.db'']) graph_cache_request
     (Some \<lparr>cm_fd = 0, cm_acquired = True\<rparr>, Some \<lparr>cm_fd = 1, cm_acquired = True\<rparr>) 0"

definition admitted_world :: adm_world where
  "admitted_world =
     \<lparr>aw_kernel = \<lparr>k_next = 2, k_open =
        [\<lparr>lf_id = 1, lf_path = [''cache.db.sleep.lock''], lf_mode = Some LOCK_SH, lf_mine = True\<rparr>,
         \<lparr>lf_id = 0, lf_path = [''graph.db.sleep.lock''], lf_mode = Some LOCK_EX, lf_mine = True\<rparr>]\<rparr>,
      aw_current = Some graph_cache_token,
      aw_owners = [new_owner [\<lparr>cm_fd = 1, cm_acquired = True\<rparr>, \<lparr>cm_fd = 0, cm_acquired = True\<rparr>]]\<rparr>"

lemma quiet_fair: "fair_schedule quiet"
  by (simp add: fair_schedule_def others_only_def quiet_def)

lemma idle_ok: "locks_ok (aw_kernel idle_world)" "aw_current idle_world = None" "aw_owners idle_world = []"
  by (simp_all add: idle_world_def no_locks_def locks_ok_def)

lemma idle_admits:
  "admit_operation return no_faults quiet False (Suc n) graph_cache_request idle_world =
     Some (admitted_world, Inr graph_cache_token)"
  by (simp add: admit_operation_def canonical_def graph_cache_request_def idle_world_def quiet_def
      acquire_leases_def lease_enter_def lock_enter_def lock_path_for_db_def no_faults_def no_locks_def
      open_lock_file_def set_lock_def flock_grant_def Let_def grant_def stack_of_def admitted_world_def
      graph_cache_token_def)

theorem admit_all_or_nothing_witness:
  "\<exists>w token. admit_operation return no_faults quiet False 1 graph_cache_request idle_world = Some (w, Inr token) \<and>
     locks_ok (aw_kernel w) \<and> map lf_mode (own_locks (aw_kernel w)) = [Some LOCK_SH, Some LOCK_EX]"
proof -
  have "locks_ok (aw_kernel admitted_world)"
    using admit_all_or_nothing [OF quiet_fair idle_ok(1,2) idle_admits [of 0]] by blast
  then show ?thesis
    using idle_admits [of 0] by (simp add: admitted_world_def own_locks_def)
qed

theorem admit_exit_releases_witness:
  "\<exists>w e. admit_exit release_faults False False graph_cache_token (Some (mk_exn C_ValueError ''body''))
     admitted_world = (w, e) \<and>
     own_locks (aw_kernel w) = [] \<and> e = Some (mk_exn C_ValueError ''body'')"
proof -
  let ?b = "Some (mk_exn C_ValueError ''body'')"
  obtain w e where x: "admit_exit release_faults False False graph_cache_token ?b admitted_world = (w, e)"
    by fastforce
  have "own_locks (aw_kernel w) = own_locks (aw_kernel idle_world) \<and> e = ?b"
    using admit_exit_releases [OF quiet_fair idle_ok(1,2) idle_admits [of 0] refl refl x] by simp
  then show ?thesis
    using x by (simp add: idle_world_def no_locks_def own_locks_def)
qed

theorem admit_nested_no_upgrade_witness:
  "\<exists>r. admit_operation return no_faults quiet False 0 graph_cache_request admitted_world =
         Some (admitted_world, r) \<and> r = Inr graph_cache_token \<and> oa_exclusive graph_cache_token"
proof -
  have cur: "aw_current admitted_world = Some graph_cache_token"
    by (simp add: admitted_world_def)
  have run: "admit_operation return no_faults quiet False 0 graph_cache_request admitted_world =
      Some (admitted_world, Inr graph_cache_token)"
    by (simp add: admit_operation_def canonical_def cur nested_mismatch_def graph_cache_request_def
        graph_cache_token_def make_token_def)
  moreover have "oa_exclusive graph_cache_token"
    using admit_nested_no_upgrade [OF cur run] by (simp add: graph_cache_request_def)
  ultimately show ?thesis by blast
qed

theorem admit_returns_witness:
  "\<exists>w r. admit_operation return no_faults quiet False 6 graph_cache_request idle_world = Some (w, r)"
  by (rule admit_returns)
    (auto simp: sleeps_def quiet_def graph_cache_request_def min_def max_def field_simps)

theorem transferred_lease_released_once_witness:
  "\<exists>w w2 w3 w4. transfer_admission no_faults graph_cache_token (\<lambda>v. (v, Inr ())) admitted_world = (w2, Inr ()) \<and>
     admit_exit no_faults False False graph_cache_token None w2 = (w3, None) \<and>
     close_owner release_faults False 0 w3 = (w4, Some (mk_exn C_OSError ''close'')) \<and>
     length (own_locks (aw_kernel w3)) = 2 \<and> own_locks (aw_kernel w4) = []"
proof -
  obtain w2 r where t: "transfer_admission no_faults graph_cache_token (\<lambda>v. (v, Inr ())) admitted_world = (w2, r)"
    by fastforce
  have r: "r = Inr ()"
    using t by (simp add: transfer_admission_def graph_cache_token_def make_token_def admitted_world_def
        new_owner_def Admission.transfer_def)
  obtain w3 e where x: "admit_exit no_faults False False graph_cache_token None w2 = (w3, e)" by fastforce
  obtain w4 e' where c: "close_owner release_faults False (length (aw_owners idle_world)) w3 = (w4, e')" by fastforce
  have all: "own_locks (aw_kernel w3) = own_locks (aw_kernel admitted_world) \<and> e = None \<and>
      own_locks (aw_kernel w4) = own_locks (aw_kernel idle_world)"
    using transferred_lease_released_once [OF quiet_fair idle_ok(1,2) idle_admits [of 0]
        t [unfolded r] _ _ x c] by simp
  have "e' = Some (mk_exn C_OSError ''close'')"
    using t x c unfolding r idle_ok(3)
    by (auto simp: transfer_admission_def graph_cache_token_def make_token_def admitted_world_def
        new_owner_def Admission.transfer_def admit_exit_def close_owner_def lock_exit_def release_faults_def Let_def)
  then show ?thesis
    using t [unfolded r] x c all idle_ok(3)
    by (auto simp: admitted_world_def own_locks_def idle_world_def no_locks_def)
qed

end
