(* ===== verification/Health.thy ===== *)
theory Health
  imports Prelude
begin

text \<open>
  The outcome ledger of \<^verbatim>\<open>plugins/memory/cashew/health.py\<close>: the counters a
  provider generation keeps for accepted turns and tool calls, one definition per
  method, and the accounting identity that \<^verbatim>\<open>work_snapshot\<close> publishes as
  \<^verbatim>\<open>reconciled\<close>. Counters are Python integers, so the model uses \<^typ>\<open>int\<close>
  and proves that none ever becomes negative.
\<close>

section \<open>Data and operations\<close>

definition SAFE_ERROR_CLASSES :: "string list" where
  "SAFE_ERROR_CLASSES =
     [''Exception'', ''ImportError'', ''KeyError'', ''OSError'', ''OperationalError'',
      ''RuntimeError'', ''TimeoutError'', ''TypeError'', ''ValueError'']"

text \<open>The argument is \<^verbatim>\<open>type(error).__name__\<close>.\<close>

definition safe_error_class :: "string \<Rightarrow> string" where
  "safe_error_class name = (if name \<in> set SAFE_ERROR_CLASSES then name else ''Exception'')"

record OutcomeLedger =
  ol_accepted :: int
  ol_completed :: int
  ol_failed :: int
  ol_partial :: int
  ol_uncertain :: int
  ol_dropped :: int
  ol_rejected :: int
  ol_pending :: int
  ol_in_flight :: int
  ol_query_completed :: int
  ol_query_failed :: int
  ol_query_empty :: int
  ol_extract_completed :: int
  ol_extract_failed :: int
  ol_extract_empty :: int

definition new_ledger :: OutcomeLedger where
  "new_ledger = \<lparr>ol_accepted = 0, ol_completed = 0, ol_failed = 0, ol_partial = 0,
     ol_uncertain = 0, ol_dropped = 0, ol_rejected = 0, ol_pending = 0, ol_in_flight = 0,
     ol_query_completed = 0, ol_query_failed = 0, ol_query_empty = 0,
     ol_extract_completed = 0, ol_extract_failed = 0, ol_extract_empty = 0\<rparr>"

definition admit :: "OutcomeLedger \<Rightarrow> OutcomeLedger" where
  [step_simps]: "admit l = l\<lparr>ol_accepted := ol_accepted l + 1, ol_pending := ol_pending l + 1\<rparr>"

definition reject :: "OutcomeLedger \<Rightarrow> OutcomeLedger" where
  [step_simps]: "reject l = l\<lparr>ol_rejected := ol_rejected l + 1\<rparr>"

definition start :: "OutcomeLedger \<Rightarrow> OutcomeLedger" where
  [step_simps]: "start l =
     (let l = (if ol_pending l \<noteq> 0 then l\<lparr>ol_pending := ol_pending l - 1\<rparr> else l)
      in l\<lparr>ol_in_flight := ol_in_flight l + 1\<rparr>)"

definition leave_flight :: "OutcomeLedger \<Rightarrow> OutcomeLedger" where
  [step_simps]: "leave_flight l =
     (if ol_in_flight l \<noteq> 0 then l\<lparr>ol_in_flight := ol_in_flight l - 1\<rparr> else l)"

definition complete :: "OutcomeLedger \<Rightarrow> OutcomeLedger" where
  [step_simps]: "complete l =
     (let l = leave_flight l in l\<lparr>ol_completed := ol_completed l + 1\<rparr>)"

definition fail :: "bool \<Rightarrow> bool \<Rightarrow> OutcomeLedger \<Rightarrow> OutcomeLedger" where
  [step_simps]: "fail is_partial is_uncertain l =
     (let l = leave_flight l
      in if is_partial then l\<lparr>ol_partial := ol_partial l + 1\<rparr>
         else if is_uncertain then l\<lparr>ol_uncertain := ol_uncertain l + 1\<rparr>
         else l\<lparr>ol_failed := ol_failed l + 1\<rparr>)"

definition drop_pending :: "OutcomeLedger \<Rightarrow> OutcomeLedger" where
  [step_simps]: "drop_pending l =
     (let l = (if ol_pending l \<noteq> 0 then l\<lparr>ol_pending := ol_pending l - 1\<rparr> else l)
      in l\<lparr>ol_dropped := ol_dropped l + 1\<rparr>)"

definition drop_in_flight :: "OutcomeLedger \<Rightarrow> OutcomeLedger" where
  [step_simps]: "drop_in_flight l =
     (let l = leave_flight l in l\<lparr>ol_dropped := ol_dropped l + 1\<rparr>)"

definition reject_in_flight :: "OutcomeLedger \<Rightarrow> OutcomeLedger" where
  [step_simps]: "reject_in_flight l =
     (let l = leave_flight l;
          l = (if ol_accepted l \<noteq> 0 then l\<lparr>ol_accepted := ol_accepted l - 1\<rparr> else l)
      in l\<lparr>ol_rejected := ol_rejected l + 1\<rparr>)"

definition record_tool :: "string \<Rightarrow> bool \<Rightarrow> bool \<Rightarrow> OutcomeLedger \<Rightarrow> OutcomeLedger" where
  [step_simps]: "record_tool tool success is_empty l =
     (if tool = ''cashew_query'' then
        (if success then
           (let l = l\<lparr>ol_query_completed := ol_query_completed l + 1\<rparr>
            in if is_empty then l\<lparr>ol_query_empty := ol_query_empty l + 1\<rparr> else l)
         else l\<lparr>ol_query_failed := ol_query_failed l + 1\<rparr>)
      else if tool = ''cashew_extract'' then
        (if success then
           (let l = l\<lparr>ol_extract_completed := ol_extract_completed l + 1\<rparr>
            in if is_empty then l\<lparr>ol_extract_empty := ol_extract_empty l + 1\<rparr> else l)
         else l\<lparr>ol_extract_failed := ol_extract_failed l + 1\<rparr>)
      else l)"

definition reconciled :: "OutcomeLedger \<Rightarrow> bool" where
  "reconciled l \<longleftrightarrow>
     ol_accepted l = ol_completed l + ol_failed l + ol_partial l + ol_uncertain l
       + ol_dropped l + ol_pending l + ol_in_flight l"

definition work_snapshot :: "OutcomeLedger \<Rightarrow> pydict" where
  "work_snapshot l =
     [(''accepted'', PInt (ol_accepted l)), (''completed'', PInt (ol_completed l)),
      (''failed'', PInt (ol_failed l)), (''dropped'', PInt (ol_dropped l)),
      (''rejected'', PInt (ol_rejected l)), (''pending'', PInt (ol_pending l)),
      (''in_flight'', PInt (ol_in_flight l)), (''reconciled'', PBool (reconciled l))]
     @ (if ol_accepted l \<noteq> 0 \<or> ol_partial l \<noteq> 0 \<or> ol_uncertain l \<noteq> 0
        then [(''partial'', PInt (ol_partial l)), (''uncertain'', PInt (ol_uncertain l))]
        else [])"

definition tool_snapshot :: "OutcomeLedger \<Rightarrow> pydict" where
  "tool_snapshot l =
     [(''query_completed'', PInt (ol_query_completed l)),
      (''query_failed'', PInt (ol_query_failed l)),
      (''query_empty'', PInt (ol_query_empty l)),
      (''extract_completed'', PInt (ol_extract_completed l)),
      (''extract_failed'', PInt (ol_extract_failed l)),
      (''extract_empty'', PInt (ol_extract_empty l))]"

definition snapshot :: "OutcomeLedger \<Rightarrow> pydict" where
  "snapshot l = [(''work'', PDict (work_snapshot l)), (''tools'', PDict (tool_snapshot l))]"

section \<open>The ledger contract\<close>

text \<open>
  What a client of the ledger relies on: a counter of queued turns, a counter of
  turns being worked on, and a bookkeeping predicate that every operation keeps
  when the client calls it in a state where it makes sense.
\<close>

locale work_ledger =
  fixes ok :: "'l \<Rightarrow> bool"
    and pending :: "'l \<Rightarrow> int"
    and in_flight :: "'l \<Rightarrow> int"
    and l_admit l_start l_evict :: "'l \<Rightarrow> 'l"
    and terminal :: "('l \<Rightarrow> 'l) \<Rightarrow> bool"
  assumes ok_nonneg: "ok l \<Longrightarrow> 0 \<le> pending l \<and> 0 \<le> in_flight l"
    and ok_admit: "ok l \<Longrightarrow> ok (l_admit l)"
    and pending_admit: "pending (l_admit l) = pending l + 1"
    and flight_admit: "in_flight (l_admit l) = in_flight l"
    and ok_start: "ok l \<Longrightarrow> 0 < pending l \<Longrightarrow> ok (l_start l)"
    and pending_start: "0 < pending l \<Longrightarrow> pending (l_start l) = pending l - 1"
    and flight_start: "in_flight (l_start l) = in_flight l + 1"
    and ok_evict: "ok l \<Longrightarrow> 0 < pending l \<Longrightarrow> ok (l_evict l)"
    and pending_evict: "0 < pending l \<Longrightarrow> pending (l_evict l) = pending l - 1"
    and flight_evict: "in_flight (l_evict l) = in_flight l"
    and ok_terminal: "terminal f \<Longrightarrow> ok l \<Longrightarrow> 0 < in_flight l \<Longrightarrow> ok (f l)"
    and pending_terminal: "terminal f \<Longrightarrow> pending (f l) = pending l"
    and flight_terminal: "terminal f \<Longrightarrow> 0 < in_flight l \<Longrightarrow> in_flight (f l) = in_flight l - 1"
begin

text \<open>One turn from the queue to its terminal state.\<close>

lemma turn_ok: "ok l \<Longrightarrow> 0 < pending l \<Longrightarrow> terminal f \<Longrightarrow> ok (f (l_start l))"
  by (metis add_pos_nonneg add.commute flight_start ok_nonneg ok_start ok_terminal zero_less_one)

lemma turn_pending:
  "0 < pending l \<Longrightarrow> terminal f \<Longrightarrow> pending (f (l_start l)) = pending l - 1"
  by (simp add: pending_start pending_terminal)

lemma turn_flight:
  "ok l \<Longrightarrow> terminal f \<Longrightarrow> in_flight (f (l_start l)) = in_flight l"
  by (simp add: flight_start flight_terminal ok_nonneg add_nonneg_pos)

text \<open>Draining a whole backlog, each turn ending in some terminal state.\<close>

lemma drain_ok:
  "list_all terminal fs \<Longrightarrow> ok l \<Longrightarrow> int (length fs) \<le> pending l \<Longrightarrow>
   ok (fold (\<lambda>f l. f (l_start l)) fs l) \<and>
   pending (fold (\<lambda>f l. f (l_start l)) fs l) = pending l - int (length fs) \<and>
   in_flight (fold (\<lambda>f l. f (l_start l)) fs l) = in_flight l"
proof (induction fs arbitrary: l)
  case (Cons f fs)
  then have p: "0 < pending l" and f: "terminal f" by auto
  then have "int (length fs) \<le> pending (f (l_start l))"
    using Cons.prems by (simp add: turn_pending)
  then show ?case
    using Cons.IH [of "f (l_start l)"] Cons.prems p f
    by (simp add: turn_ok turn_pending turn_flight)
qed simp

end

section \<open>The ledger keeps the contract\<close>

definition ledger_ok :: "OutcomeLedger \<Rightarrow> bool" where
  [inv_defs]: "ledger_ok l \<longleftrightarrow> reconciled l \<and>
     0 \<le> ol_pending l \<and> 0 \<le> ol_in_flight l \<and> 0 \<le> ol_completed l \<and> 0 \<le> ol_failed l \<and>
     0 \<le> ol_partial l \<and> 0 \<le> ol_uncertain l \<and> 0 \<le> ol_dropped l \<and> 0 \<le> ol_rejected l"

text \<open>The operations that end a turn the worker has started.\<close>

definition ledger_terminal :: "(OutcomeLedger \<Rightarrow> OutcomeLedger) \<Rightarrow> bool" where
  "ledger_terminal f \<longleftrightarrow>
     f = complete \<or> f = drop_in_flight \<or> f = reject_in_flight \<or> (\<exists>p u. f = fail p u)"

lemma ledger_terminal_simps [simp]:
  "ledger_terminal complete" "ledger_terminal drop_in_flight"
  "ledger_terminal reject_in_flight" "ledger_terminal (fail p u)"
  by (auto simp: ledger_terminal_def)

lemma ledger_terminal_cases:
  assumes "ledger_terminal f"
  obtains "f = complete" | "f = drop_in_flight" | "f = reject_in_flight" | p u where "f = fail p u"
  using assms by (auto simp: ledger_terminal_def)

lemma ledger_ok_new [simp]: "ledger_ok new_ledger"
  by (simp add: ledger_ok_def reconciled_def new_ledger_def)

lemma ledger_ok_reject: "ledger_ok l \<Longrightarrow> ledger_ok (reject l)"
  by (simp add: ledger_ok_def reconciled_def step_simps)

lemma ledger_ok_record_tool: "ledger_ok l \<Longrightarrow> ledger_ok (record_tool t s e l)"
  by (simp add: ledger_ok_def reconciled_def step_simps Let_def)

lemma ledger_counts_other [simp]:
  "ol_pending (reject l) = ol_pending l" "ol_in_flight (reject l) = ol_in_flight l"
  "ol_pending (record_tool t s e l) = ol_pending l"
  "ol_in_flight (record_tool t s e l) = ol_in_flight l"
  by (simp_all add: step_simps Let_def)

lemma ledger_ok_terminal:
  assumes "ledger_terminal f" "ledger_ok l" "0 < ol_in_flight l"
  shows "ledger_ok (f l)"
  using assms(1)
  by (rule ledger_terminal_cases)
    (use assms(2,3) in \<open>auto simp: ledger_ok_def reconciled_def step_simps Let_def\<close>)

lemma ledger_flight_terminal:
  assumes "ledger_terminal f"
  shows "ol_pending (f l) = ol_pending l"
    and "0 < ol_in_flight l \<Longrightarrow> ol_in_flight (f l) = ol_in_flight l - 1"
  using assms by (auto elim!: ledger_terminal_cases simp: step_simps Let_def)

interpretation outcomes: work_ledger ledger_ok ol_pending ol_in_flight admit start drop_pending
  ledger_terminal
proof unfold_locales
  fix l f
  show "ledger_ok l \<Longrightarrow> 0 \<le> ol_pending l \<and> 0 \<le> ol_in_flight l"
    by (simp add: ledger_ok_def)
  show "ledger_ok l \<Longrightarrow> ledger_ok (admit l)"
    by (simp add: ledger_ok_def reconciled_def step_simps)
  show "ledger_ok l \<Longrightarrow> 0 < ol_pending l \<Longrightarrow> ledger_ok (start l)"
    by (simp add: ledger_ok_def reconciled_def step_simps Let_def)
  show "ledger_ok l \<Longrightarrow> 0 < ol_pending l \<Longrightarrow> ledger_ok (drop_pending l)"
    by (simp add: ledger_ok_def reconciled_def step_simps Let_def)
  show "ledger_terminal f \<Longrightarrow> ledger_ok l \<Longrightarrow> 0 < ol_in_flight l \<Longrightarrow> ledger_ok (f l)"
    by (rule ledger_ok_terminal)
qed (simp_all add: step_simps Let_def ledger_flight_terminal)

end
