(* ===== verification/Metrics.thy ===== *)
theory Metrics
  imports Prelude
begin

text \<open>
  The process-wide counters of \<^verbatim>\<open>metrics.py\<close>. Each method holds the object's lock,
  so it is one step. Durations are reals; formatting a snapshot for the log is not
  modelled.
\<close>

record PluginMetrics =
  pm_query_count :: int
  pm_query_cache_hits :: int
  pm_query_total_ms :: real
  pm_sync_extracted :: int
  pm_sync_failed :: int
  pm_sync_dropped :: int
  pm_sync_queue_depth :: int
  pm_prefetch_coalesced :: int
  pm_prefetch_cancelled :: int
  pm_prefetch_failed :: int
  pm_sleep_cycle_count :: int
  pm_sleep_cycle_total_ms :: real
  pm_sleep_nodes_processed :: int

definition new_metrics :: PluginMetrics where
  "new_metrics = \<lparr>pm_query_count = 0, pm_query_cache_hits = 0, pm_query_total_ms = 0,
     pm_sync_extracted = 0, pm_sync_failed = 0, pm_sync_dropped = 0, pm_sync_queue_depth = 0,
     pm_prefetch_coalesced = 0, pm_prefetch_cancelled = 0, pm_prefetch_failed = 0,
     pm_sleep_cycle_count = 0, pm_sleep_cycle_total_ms = 0, pm_sleep_nodes_processed = 0\<rparr>"

definition record_query :: "bool \<Rightarrow> real \<Rightarrow> PluginMetrics \<Rightarrow> PluginMetrics" where
  "record_query cache_hit elapsed_ms m =
     (let m = m\<lparr>pm_query_count := pm_query_count m + 1,
                pm_query_total_ms := pm_query_total_ms m + elapsed_ms\<rparr>
      in if cache_hit then m\<lparr>pm_query_cache_hits := pm_query_cache_hits m + 1\<rparr> else m)"

definition record_sync_success :: "PluginMetrics \<Rightarrow> PluginMetrics" where
  "record_sync_success m = m\<lparr>pm_sync_extracted := pm_sync_extracted m + 1\<rparr>"

definition record_sync_failure :: "PluginMetrics \<Rightarrow> PluginMetrics" where
  "record_sync_failure m = m\<lparr>pm_sync_failed := pm_sync_failed m + 1\<rparr>"

definition record_sync_dropped :: "PluginMetrics \<Rightarrow> PluginMetrics" where
  "record_sync_dropped m = m\<lparr>pm_sync_dropped := pm_sync_dropped m + 1\<rparr>"

definition set_queue_depth :: "int \<Rightarrow> PluginMetrics \<Rightarrow> PluginMetrics" where
  "set_queue_depth depth m = m\<lparr>pm_sync_queue_depth := depth\<rparr>"

definition record_prefetch_coalesced :: "PluginMetrics \<Rightarrow> PluginMetrics" where
  "record_prefetch_coalesced m = m\<lparr>pm_prefetch_coalesced := pm_prefetch_coalesced m + 1\<rparr>"

definition record_prefetch_cancelled :: "PluginMetrics \<Rightarrow> PluginMetrics" where
  "record_prefetch_cancelled m = m\<lparr>pm_prefetch_cancelled := pm_prefetch_cancelled m + 1\<rparr>"

definition record_prefetch_failed :: "PluginMetrics \<Rightarrow> PluginMetrics" where
  "record_prefetch_failed m = m\<lparr>pm_prefetch_failed := pm_prefetch_failed m + 1\<rparr>"

definition record_sleep_cycle :: "real \<Rightarrow> int \<Rightarrow> PluginMetrics \<Rightarrow> PluginMetrics" where
  "record_sleep_cycle elapsed_ms nodes m =
     m\<lparr>pm_sleep_cycle_count := pm_sleep_cycle_count m + 1,
       pm_sleep_cycle_total_ms := pm_sleep_cycle_total_ms m + elapsed_ms,
       pm_sleep_nodes_processed := pm_sleep_nodes_processed m + nodes\<rparr>"

end
