(* ===== verification/Provider.thy ===== *)
theory Provider
  imports Config Health Metrics
begin

text \<open>
  The state of \<^verbatim>\<open>CashewMemoryProvider\<close> and the operations of its turn pipeline:
  health publication, \<^verbatim>\<open>sync_turn\<close>, the worker loop, \<^verbatim>\<open>_drain_once\<close>, the phases of
  \<^verbatim>\<open>initialize\<close> and \<^verbatim>\<open>shutdown\<close> and the deferred cleanup.

  The record has the attributes of the class and, besides, the queue object's
  contents (\<open>pq_*\<close>) and the program points of the threads that run its methods
  (\<open>th_*\<close>). A definition is one section of the code that runs under a provider
  lock, or one operation on the thread-safe queue; whatever lies between two such
  sections may be interleaved. Objects that are compared by identity (queues,
  worker threads, ledgers, embedding supervisors) are numbers.
\<close>

section \<open>State\<close>

record PrefetchRequestIdentity =
  pri_generation :: int
  pri_session_id :: string
  pri_db_path :: path
  pri_config_fingerprint :: string
  pri_recall_limit :: int
  pri_domain :: "string option"
  pri_tag :: "string option"
  pri_exclude_tags :: "string list"
  pri_embedding_epoch :: "int option"
  pri_embedding_generation :: "nat option"

text \<open>A row of \<^verbatim>\<open>thought_nodes\<close> as a dictionary, with the columns that recall looks at.\<close>

record recall_node =
  rn_id :: string
  rn_content :: string
  rn_node_type :: "string option"
  rn_domain :: "string option"
  rn_tags :: "string option"
  rn_permanent :: "int option"
  rn_decayed :: "int option"
  rn_referent_time :: "string option"
  rn_timestamp :: "string option"

record PrefetchResult =
  prr_identity :: PrefetchRequestIdentity
  prr_cues :: "string list"
  prr_nodes :: "recall_node list"

record PrefetchRequest =
  prq_identity :: PrefetchRequestIdentity
  prq_query :: string
  prq_db_path :: path
  prq_top_k :: int
  prq_use_llm :: bool

type_synonym turn = "string \<times> string \<times> string"

datatype qitem = Turn turn | SHUTDOWN

text \<open>
  Where the worker thread is: not started, about to get an item, collecting a
  batch (how many more it may take), between the items of a batch, inside a turn
  (with the ledger and generation it captured), or gone.
\<close>

datatype worker_state =
    W_none
  | W_get
  | W_batch nat "qitem list"
  | W_items "qitem list"
  | W_turn turn "nat \<times> int" "qitem list"
  | W_exited

datatype init_state = In_none | In_claimed | In_open | In_setup | In_ready | In_raised exn | In_done

datatype shutdown_state = Sd_none | Sd_post | Sd_join

record provider =
  pv_hermes_home :: "path option"
  pv_config :: "CashewConfig option"
  pv_db_path :: "path option"
  pv_retriever :: bool
  pv_model_fn :: bool
  pv_write_enabled :: bool
  pv_read_only_mode :: bool
  pv_cache_writes_disabled :: bool
  pv_bootstrap_failed :: bool
  pv_runtime_epoch :: "int option"
  pv_embedding_generation :: "nat option"
  pv_session_id :: string
  pv_sync_queue :: "nat option"
  pv_sync_worker :: "nat option"
  pv_initializing :: bool
  pv_initialization_cancelled :: bool
  pv_dropped_turn_count :: int
  pv_last_assistant :: string
  pv_sleep_cron_job_id :: "string option"
  pv_shutdown_started :: bool
  pv_cleanup_pending :: "(nat option \<times> nat) option"
  pv_shutdown_flag :: bool
  pv_health_state :: string
  pv_health_reason :: "string option"
  pv_health_fallback :: string
  pv_health_cron :: string
  pv_health_generation :: int
  pv_health_last_error :: "(string \<times> string) option"
  pv_health_last_error_at :: "real option"
  pv_ledger :: nat
  pv_outcomes :: OutcomeLedger
  pv_vector_available :: "bool option"
  pv_identity_ready :: bool
  pv_supervisor :: "nat option"
  pv_sentry :: bool
  pv_log_scrub :: bool
  pv_warm_cache :: "(string \<times> PrefetchResult) list"
  pv_prefetch_pending :: "PrefetchResult option"
  pv_prefetch_generation :: int
  pv_prefetch_threads :: "nat list"
  pv_prefetch_worker :: "nat option"
  pv_pending_request :: "PrefetchRequest option"
  pv_active_identity :: "PrefetchRequestIdentity option"
  pv_latest_identity :: "PrefetchRequestIdentity option"
  pv_clock :: real
  pv_metrics :: PluginMetrics
  pv_fresh :: nat
  pq_items :: "qitem list"
  pq_unfinished :: int
  th_worker :: worker_state
  th_init :: init_state
  th_shutdown :: shutdown_state
  th_cleanup :: "(nat option \<times> nat) option"
  th_closing :: "(nat \<times> bool) list"

text \<open>\<^verbatim>\<open>CashewMemoryProvider.__init__\<close>.\<close>

definition new_provider :: provider where
  "new_provider =
     \<lparr>pv_hermes_home = None, pv_config = None, pv_db_path = None, pv_retriever = False,
      pv_model_fn = False, pv_write_enabled = True, pv_read_only_mode = False,
      pv_cache_writes_disabled = False, pv_bootstrap_failed = False, pv_runtime_epoch = None,
      pv_embedding_generation = None, pv_session_id = [],
      pv_sync_queue = None, pv_sync_worker = None,
      pv_initializing = False, pv_initialization_cancelled = False, pv_dropped_turn_count = 0,
      pv_last_assistant = [], pv_sleep_cron_job_id = None, pv_shutdown_started = False,
      pv_cleanup_pending = None, pv_shutdown_flag = False,
      pv_health_state = ''unconfigured'', pv_health_reason = Some ''not_initialized'',
      pv_health_fallback = ''none'', pv_health_cron = ''disabled'', pv_health_generation = 0,
      pv_health_last_error = None, pv_health_last_error_at = None, pv_ledger = 0,
      pv_outcomes = new_ledger, pv_vector_available = None, pv_identity_ready = False,
      pv_supervisor = None, pv_sentry = False, pv_log_scrub = False,
      pv_warm_cache = [], pv_prefetch_pending = None, pv_prefetch_generation = 0,
      pv_prefetch_threads = [], pv_prefetch_worker = None, pv_pending_request = None,
      pv_active_identity = None, pv_latest_identity = None, pv_clock = 0,
      pv_metrics = new_metrics, pv_fresh = 1, pq_items = [], pq_unfinished = 0,
      th_worker = W_none, th_init = In_none, th_shutdown = Sd_none, th_cleanup = None,
      th_closing = []\<rparr>"

section \<open>Health\<close>

text \<open>\<^verbatim>\<open>type(error).__name__\<close>.\<close>

fun exc_name :: "exc_class \<Rightarrow> string" where
  "exc_name C_BaseException = ''BaseException''"
| "exc_name C_Exception = ''Exception''"
| "exc_name C_RuntimeError = ''RuntimeError''"
| "exc_name C_ValueError = ''ValueError''"
| "exc_name C_TypeError = ''TypeError''"
| "exc_name C_KeyError = ''KeyError''"
| "exc_name C_OSError = ''OSError''"
| "exc_name C_OverflowError = ''OverflowError''"
| "exc_name C_ImportError = ''ImportError''"
| "exc_name C_AssertionError = ''AssertionError''"
| "exc_name C_FileNotFoundError = ''FileNotFoundError''"
| "exc_name C_SqliteError = ''Error''"
| "exc_name C_SqliteOperationalError = ''OperationalError''"
| "exc_name C_JSONDecodeError = ''JSONDecodeError''"
| "exc_name C_OperationAdmissionError = ''OperationAdmissionError''"
| "exc_name C_MaintenanceLockAcquisitionError = ''MaintenanceLockAcquisitionError''"
| "exc_name C_SQLiteWALUnsupportedError = ''SQLiteWALUnsupportedError''"
| "exc_name C_EmbeddingUnavailable = ''EmbeddingUnavailable''"
| "exc_name C_InitializationCancelledError = ''_InitializationCancelledError''"
| "exc_name C_PreAdmissionRejectedError = ''_PreAdmissionRejectedError''"
| "exc_name C_OpaqueUpstreamError = ''_OpaqueUpstreamError''"
| "exc_name C_AuditBudgetError = ''_AuditBudgetError''"
| "exc_name C_CronAdmissionError = ''_CronAdmissionError''"
| "exc_name C_AttributeError = ''AttributeError''"

definition set_health_locked ::
    "string \<Rightarrow> string option \<Rightarrow> string option \<Rightarrow> string option \<Rightarrow> exn option \<Rightarrow> provider \<Rightarrow> provider" where
  "set_health_locked state reason fallback cron error p =
     (let p = p\<lparr>pv_health_state := state, pv_health_reason := reason\<rparr>;
          p = (case fallback of None \<Rightarrow> p | Some f \<Rightarrow> p\<lparr>pv_health_fallback := f\<rparr>);
          p = (case cron of None \<Rightarrow> p | Some c \<Rightarrow> p\<lparr>pv_health_cron := c\<rparr>)
      in case error of
           Some e \<Rightarrow>
             p\<lparr>pv_health_last_error :=
                 Some (case reason of None \<Rightarrow> ''provider_error''
                       | Some r \<Rightarrow> if r = [] then ''provider_error'' else r,
                       safe_error_class (exc_name (exn_class e))),
               pv_health_last_error_at := Some (pv_clock p)\<rparr>
         | None \<Rightarrow>
             if state \<in> {''ready'', ''degraded'', ''stopped'', ''unconfigured''} then
               p\<lparr>pv_health_last_error := None, pv_health_last_error_at := None\<rparr>
             else p)"

text \<open>A handle is the ledger and the generation an operation captured.\<close>

definition outcome_current_locked :: "nat \<times> int \<Rightarrow> provider \<Rightarrow> bool" where
  "outcome_current_locked h p \<longleftrightarrow>
     fst h = pv_ledger p \<and> snd h = pv_health_generation p \<and> \<not> pv_shutdown_started p \<and>
     pv_health_state p \<notin> {''stopping'', ''stopped''}"

definition mark_health_if_current ::
    "nat \<times> int \<Rightarrow> string \<Rightarrow> string \<Rightarrow> string option \<Rightarrow> provider \<Rightarrow> provider" where
  "mark_health_if_current h state reason fallback p =
     (if fst h \<noteq> pv_ledger p \<or> snd h \<noteq> pv_health_generation p \<or> pv_shutdown_started p \<or>
         pv_health_state p \<in> {''stopping'', ''stopped''} then p
      else set_health_locked state (Some reason) fallback None None p)"

definition worker_alive :: "provider \<Rightarrow> bool" where
  "worker_alive p \<longleftrightarrow> th_worker p \<noteq> W_none \<and> th_worker p \<noteq> W_exited"

definition opt_str :: "string option \<Rightarrow> pyval" where
  "opt_str s = (case s of None \<Rightarrow> PNone | Some t \<Rightarrow> PStr t)"

text \<open>
  The snapshot; \<open>round1\<close> is \<^verbatim>\<open>round(x, 1)\<close>, \<open>report\<close> and \<open>claim\<close> are the SQLite report
  and the think claim's state.
\<close>

definition health_status ::
    "(real \<Rightarrow> pyfloat) \<Rightarrow> pydict option \<Rightarrow> string \<Rightarrow> provider \<Rightarrow> pydict" where
  "health_status round1 report claim p =
     [(''state'', PStr (pv_health_state p)), (''reason_code'', opt_str (pv_health_reason p)),
      (''generation'', PInt (pv_health_generation p)),
      (''runtime'', PDict
        [(''config_loaded'', PBool (pv_config p \<noteq> None)),
         (''retriever_ready'', PBool (pv_retriever p)),
         (''write_enabled'', PBool (pv_write_enabled p)),
         (''worker_running'', PBool (pv_sync_worker p \<noteq> None \<and> worker_alive p))]),
      (''fallback'', PStr (pv_health_fallback p)), (''cron'', PStr (pv_health_cron p)),
      (''last_error'',
        (case pv_health_last_error p of
           None \<Rightarrow> PNone
         | Some (code, cls) \<Rightarrow>
             PDict ([(''code'', PStr code), (''class'', PStr cls)] @
               (case pv_health_last_error_at p of
                  None \<Rightarrow> []
                | Some since \<Rightarrow> [(''age_s'', PFloat (round1 (max 0 (pv_clock p - since))))]))))]
     @ snapshot (pv_outcomes p)
     @ (case report of None \<Rightarrow> [] | Some r \<Rightarrow> [(''sqlite'', PDict r)])
     @ (if claim \<noteq> ''none'' then [(''think'', PDict [(''claim_state'', PStr claim)])] else [])"

section \<open>The worker's side of the queue\<close>

definition QUEUE_MAXSIZE :: nat where
  "QUEUE_MAXSIZE = 16"

definition BATCH_SIZE :: nat where
  "BATCH_SIZE = 8"

definition task_done :: "provider \<Rightarrow> provider" where
  "task_done p = p\<lparr>pq_unfinished := pq_unfinished p - 1\<rparr>"

definition batch_enabled :: "provider \<Rightarrow> bool" where
  "batch_enabled p \<longleftrightarrow>
     (case pv_config p of None \<Rightarrow> False
      | Some c \<Rightarrow> is_feature_enabled c ''experimental_batch_sync'')"

text \<open>One \<^verbatim>\<open>get\<close> or \<^verbatim>\<open>get_nowait\<close> of the worker, with what it does with the item.\<close>

definition worker_get :: "provider \<Rightarrow> provider" where
  "worker_get p =
     (case th_worker p of
        W_get \<Rightarrow>
          (case pq_items p of
             [] \<Rightarrow> p
           | SHUTDOWN # q \<Rightarrow> task_done (p\<lparr>pq_items := q, th_worker := W_exited\<rparr>)
           | Turn t # q \<Rightarrow>
               p\<lparr>pq_items := q,
                 th_worker := W_batch (if batch_enabled p then BATCH_SIZE - 1 else 0) [Turn t]\<rparr>)
      | W_batch n items \<Rightarrow>
          (case n of
             0 \<Rightarrow> p
           | Suc m \<Rightarrow>
               (case pq_items p of
                  [] \<Rightarrow> p\<lparr>th_worker := W_items items\<rparr>
                | SHUTDOWN # q \<Rightarrow> p\<lparr>pq_items := q, th_worker := W_items (items @ [SHUTDOWN])\<rparr>
                | Turn t # q \<Rightarrow> p\<lparr>pq_items := q, th_worker := W_batch m (items @ [Turn t])\<rparr>))
      | _ \<Rightarrow> p)"

section \<open>Producing turns\<close>

text \<open>\<^verbatim>\<open>q.put_nowait\<close>; the result says whether there was room.\<close>

definition put_nowait :: "qitem \<Rightarrow> provider \<Rightarrow> provider \<times> bool" where
  "put_nowait x p =
     (if length (pq_items p) < QUEUE_MAXSIZE then
        (p\<lparr>pq_items := pq_items p @ [x], pq_unfinished := pq_unfinished p + 1\<rparr>, True)
      else (p, False))"

definition upd_outcomes :: "(OutcomeLedger \<Rightarrow> OutcomeLedger) \<Rightarrow> provider \<Rightarrow> provider" where
  "upd_outcomes f p = p\<lparr>pv_outcomes := f (pv_outcomes p)\<rparr>"

definition upd_metrics :: "(PluginMetrics \<Rightarrow> PluginMetrics) \<Rightarrow> provider \<Rightarrow> provider" where
  "upd_metrics f p = p\<lparr>pv_metrics := f (pv_metrics p)\<rparr>"

definition sync_admissible :: "provider \<Rightarrow> bool" where
  "sync_admissible p \<longleftrightarrow>
     \<not> (\<not> pv_write_enabled p \<or> \<not> pv_identity_ready p \<or> pv_config p = None \<or> pv_initializing p \<or>
        pv_shutdown_started p \<or>
        (case pv_config p of None \<Rightarrow> True | Some c \<Rightarrow> \<not> cfg_auto_extraction c) \<or>
        pv_sync_queue p = None)"

text \<open>
  \<^verbatim>\<open>sync_turn\<close> runs under the state lock, but the worker takes from the queue without
  it: \<open>r1\<close> and \<open>r2\<close> are the numbers of its gets between the failed put and the
  eviction, and between the eviction and the second put.
\<close>

definition sync_evict :: "provider \<Rightarrow> provider" where
  "sync_evict p =
     (case pq_items p of
        [] \<Rightarrow> p
      | _ # q \<Rightarrow>
          upd_metrics record_sync_dropped (upd_outcomes drop_pending
            (task_done (p\<lparr>pq_items := q, pv_dropped_turn_count := pv_dropped_turn_count p + 1\<rparr>))))"

definition sync_turn ::
    "nat \<Rightarrow> nat \<Rightarrow> string \<Rightarrow> string \<Rightarrow> string \<Rightarrow> provider \<Rightarrow> provider" where
  "sync_turn r1 r2 user_content assistant_content session_id p =
     (if \<not> sync_admissible p then
        (if pv_sync_queue p \<noteq> None \<and> (pv_initializing p \<or> pv_shutdown_started p)
         then upd_outcomes reject p else p)
      else
        let p = (if assistant_content \<noteq> [] then p\<lparr>pv_last_assistant := assistant_content\<rparr> else p);
            turn = (user_content, assistant_content,
                    if session_id \<noteq> [] then session_id else pv_session_id p)
        in case put_nowait (Turn turn) p of
             (p1, True) \<Rightarrow> upd_outcomes admit p1
           | (p1, False) \<Rightarrow>
               (case put_nowait (Turn turn) ((worker_get ^^ r2) (sync_evict ((worker_get ^^ r1) p1))) of
                  (p2, True) \<Rightarrow> upd_outcomes admit p2
                | (p2, False) \<Rightarrow> upd_outcomes reject p2))"

section \<open>Draining one turn\<close>

text \<open>
  What the calls of \<^verbatim>\<open>_drain_once\<close> answer: whether the admission (or the validation
  inside it) raises, the node counts before and after (\<open>None\<close> when they cannot be
  read), what \<^verbatim>\<open>end_session\<close> does (a result with or without the expected fields, or
  an exception), an error while the leases are given back, and whether the think
  cycle raises.
\<close>

record drain_env =
  de_admission :: "exn option"
  de_before :: "int option"
  de_after :: "int option"
  de_end_session :: "bool res"
  de_release :: "exn option"
  de_think :: "exn option"

datatype drain_outcome = Drained bool | Drain_raised exn bool

definition ATEXIT_MESSAGE :: string where
  "ATEXIT_MESSAGE = ''can'' @ [CHR 0x27] @ ''t register atexit after shutdown''"

definition opaque_upstream :: "bool \<Rightarrow> exn \<times> bool" where
  "opaque_upstream is_partial =
     (mk_exn C_OpaqueUpstreamError ''upstream persistence outcome is not replayable'', is_partial)"

text \<open>The body of the admission: nothing, or the exception and its \<^verbatim>\<open>partial\<close> attribute.\<close>

definition persist_turn :: "drain_env \<Rightarrow> (exn \<times> bool) option" where
  "persist_turn env =
     (let after_failure = opaque_upstream
            (case (de_before env, de_after env) of
               (Some before_nodes, Some after_nodes) \<Rightarrow> after_nodes > before_nodes
             | _ \<Rightarrow> False)
      in case de_end_session env of
           Inr True \<Rightarrow> None
         | Inr False \<Rightarrow> Some after_failure
         | Inl exc \<Rightarrow>
             if isinstance exc C_RuntimeError \<and> py_contains ATEXIT_MESSAGE (exn_msg exc)
             then Some (exc, False)
             else Some after_failure)"

text \<open>The two \<^verbatim>\<open>except\<close> clauses around the admission, in their order.\<close>

definition drain_handler :: "exn \<times> bool \<Rightarrow> provider \<Rightarrow> provider \<times> drain_outcome" where
  "drain_handler e p =
     (if isinstance (fst e) C_RuntimeError then
        if py_contains ATEXIT_MESSAGE (exn_msg (fst e)) then
          (p\<lparr>pv_shutdown_flag := True\<rparr>, Drained False)
        else (p, Drain_raised (fst e) (snd e))
      else if isinstance (fst e) C_OperationAdmissionError then
        (p, Drain_raised (mk_exn C_PreAdmissionRejectedError []) False)
      else (p, Drain_raised (fst e) (snd e)))"

definition drain_once :: "drain_env \<Rightarrow> provider \<Rightarrow> provider \<times> drain_outcome" where
  "drain_once env p =
     (if pv_shutdown_flag p \<or> \<not> pv_identity_ready p then (p, Drained False)
      else case de_admission env of
        Some e \<Rightarrow> drain_handler (e, False) p
      | None \<Rightarrow>
          (case persist_turn env of
             Some e \<Rightarrow> drain_handler e p
           | None \<Rightarrow>
               (case de_release env of
                  Some e \<Rightarrow> drain_handler (e, False) p
                | None \<Rightarrow>
                    let p = upd_metrics record_sync_success p
                    in case de_think env of
                         Some e \<Rightarrow> (p, Drain_raised e False)
                       | None \<Rightarrow> (p, Drained True))))"

section \<open>The worker loop\<close>

definition finish_worker_turn :: "nat \<times> int \<Rightarrow> bool \<Rightarrow> provider \<Rightarrow> provider" where
  "finish_worker_turn h completed p =
     (if fst h \<noteq> pv_ledger p \<or> snd h \<noteq> pv_health_generation p then p
      else if \<not> completed then upd_outcomes drop_in_flight p
      else upd_outcomes complete p)"

definition fail_worker_turn :: "nat \<times> int \<Rightarrow> exn \<Rightarrow> bool \<Rightarrow> provider \<Rightarrow> provider" where
  "fail_worker_turn h e e_partial p =
     (if fst h \<noteq> pv_ledger p \<or> snd h \<noteq> pv_health_generation p then p
      else
        let opaque = isinstance e C_OpaqueUpstreamError;
            p = upd_outcomes (fail (opaque \<and> e_partial) (opaque \<and> \<not> e_partial)) p
        in if \<not> pv_shutdown_started p \<and> pv_health_state p \<notin> {''stopping'', ''stopped''} then
             set_health_locked ''degraded'' (Some ''backend_error'') None None (Some e) p
           else p)"

definition reject_worker_turn :: "nat \<times> int \<Rightarrow> provider \<Rightarrow> provider" where
  "reject_worker_turn h p =
     (if fst h = pv_ledger p \<and> snd h = pv_health_generation p
      then upd_outcomes reject_in_flight p else p)"

text \<open>From \<^verbatim>\<open>_drain_once\<close> to \<^verbatim>\<open>task_done\<close>: the \<^verbatim>\<open>try\<close> statement of one turn.\<close>

definition worker_turn :: "drain_env \<Rightarrow> nat \<times> int \<Rightarrow> provider \<Rightarrow> provider" where
  "worker_turn env h p =
     (let p = (case drain_once env p of
                 (p1, Drained completed) \<Rightarrow> finish_worker_turn h completed p1
               | (p1, Drain_raised e e_partial) \<Rightarrow>
                   if isinstance e C_PreAdmissionRejectedError then reject_worker_turn h p1
                   else upd_metrics record_sync_failure (fail_worker_turn h e e_partial p1));
          p = task_done p
      in upd_metrics (set_queue_depth (int (length (pq_items p)))) p)"

text \<open>One step of \<^verbatim>\<open>_worker_loop\<close>; \<open>env\<close> matters only when the step is a turn.\<close>

definition worker_step :: "drain_env \<Rightarrow> provider \<Rightarrow> provider" where
  "worker_step env p =
     (case th_worker p of
        W_get \<Rightarrow>
          if pq_items p = [] then
            (if pv_shutdown_started p then p\<lparr>th_worker := W_exited\<rparr> else p)
          else worker_get p
      | W_batch n items \<Rightarrow> if n = 0 then p\<lparr>th_worker := W_items items\<rparr> else worker_get p
      | W_items items \<Rightarrow>
          (case items of
             [] \<Rightarrow> p\<lparr>th_worker := W_get\<rparr>
           | SHUTDOWN # rest \<Rightarrow> task_done (p\<lparr>th_worker := W_exited\<rparr>)
           | Turn t # rest \<Rightarrow>
               (upd_outcomes start p)\<lparr>th_worker := W_turn t (pv_ledger p, pv_health_generation p) rest\<rparr>)
      | W_turn t h rest \<Rightarrow> (worker_turn env h p)\<lparr>th_worker := W_items rest\<rparr>
      | _ \<Rightarrow> p)"

section \<open>Teardown\<close>

text \<open>The callback of a closed embedding owner.\<close>

definition finish_embedding_runtime_close :: "nat option \<Rightarrow> bool \<Rightarrow> provider \<Rightarrow> provider" where
  "finish_embedding_runtime_close supervisor mark_stopped p =
     (if supervisor \<noteq> None \<and> pv_supervisor p \<noteq> supervisor then p
      else
        let p = p\<lparr>pv_supervisor := None\<rparr>
        in if pv_sync_queue p \<noteq> None then p
           else let p = p\<lparr>pv_shutdown_started := False\<rparr>
                in if mark_stopped then
                     set_health_locked ''stopped'' (Some ''shutdown_complete'') None None None p
                   else p)"

text \<open>
  With an owner, the callback is registered and runs when the owner is gone
  (\<open>embedding_closed\<close>); without one it runs at once.
\<close>

definition close_embedding_runtime :: "nat option \<Rightarrow> bool \<Rightarrow> provider \<Rightarrow> provider" where
  "close_embedding_runtime supervisor mark_stopped p =
     (case supervisor of
        None \<Rightarrow> finish_embedding_runtime_close None mark_stopped p
      | Some s \<Rightarrow> p\<lparr>th_closing := th_closing p @ [(s, mark_stopped)]\<rparr>)"

definition embedding_closed :: "provider \<Rightarrow> provider" where
  "embedding_closed p =
     (case th_closing p of
        [] \<Rightarrow> p
      | (s, mark_stopped) # rest \<Rightarrow>
          finish_embedding_runtime_close (Some s) mark_stopped (p\<lparr>th_closing := rest\<rparr>))"

definition clear_runtime_state :: "nat option \<Rightarrow> nat \<Rightarrow> provider \<Rightarrow> provider" where
  "clear_runtime_state worker sync_queue p =
     (if pv_sync_queue p \<noteq> Some sync_queue then p
      else if worker \<noteq> None \<and> pv_sync_worker p \<noteq> worker then p
      else
        let supervisor = pv_supervisor p;
            p = p\<lparr>pv_sleep_cron_job_id := None, pv_sync_queue := None, pv_cleanup_pending := None,
                  pv_sync_worker := None, pv_config := None, pv_db_path := None,
                  pv_retriever := False, pv_model_fn := False, pv_identity_ready := False,
                  pv_sentry := False, pv_warm_cache := [],
                  pv_prefetch_generation := pv_prefetch_generation p + 1,
                  pv_prefetch_pending := None, pv_prefetch_threads := [], pv_prefetch_worker := None,
                  pv_active_identity := None, pv_pending_request := None,
                  pv_latest_identity := None, pv_last_assistant := []\<rparr>;
            p = set_health_locked ''stopping'' (Some ''embedding_shutdown'') None None None p;
            p = close_embedding_runtime supervisor True p
        in p\<lparr>pv_log_scrub := False\<rparr>)"

text \<open>
  \<open>alive\<close> is whether one of the workers waited for still runs, \<open>started\<close> whether the
  cleanup thread could be started.
\<close>

definition schedule_shutdown_cleanup ::
    "bool \<Rightarrow> bool \<Rightarrow> nat option \<Rightarrow> nat \<Rightarrow> provider \<Rightarrow> provider" where
  "schedule_shutdown_cleanup alive started worker sync_queue p =
     (if \<not> alive then clear_runtime_state worker sync_queue p
      else if \<not> started then p
      else
        let p = p\<lparr>th_cleanup := Some (worker, sync_queue)\<rparr>
        in if pv_sync_queue p = Some sync_queue then p\<lparr>pv_cleanup_pending := None\<rparr> else p)"

text \<open>\<^verbatim>\<open>_clear_state_after_workers_exit\<close>, once its joins return.\<close>

definition clear_state_after_workers_exit :: "provider \<Rightarrow> provider" where
  "clear_state_after_workers_exit p =
     (case th_cleanup p of
        None \<Rightarrow> p
      | Some (worker, sync_queue) \<Rightarrow>
          if worker_alive p then p
          else clear_runtime_state worker sync_queue (p\<lparr>th_cleanup := None\<rparr>))"

text \<open>
  \<^verbatim>\<open>shutdown\<close> in three sections: the ownership decision under both locks, the
  sentinel, and the decision after the bounded joins. \<open>prefetch_alive\<close> is whether
  a prefetch thread is still running then.
\<close>

definition shutdown_begin :: "bool \<Rightarrow> bool \<Rightarrow> provider \<Rightarrow> provider" where
  "shutdown_begin prefetch_alive started p =
     (if pv_initializing p \<and> pv_sync_worker p = None then
        p\<lparr>pv_initialization_cancelled := True, pv_shutdown_started := True\<rparr>
      else if pv_sync_queue p = None then p
      else if pv_shutdown_started p then
        (case pv_cleanup_pending p of
           None \<Rightarrow> p
         | Some (worker, q) \<Rightarrow>
             schedule_shutdown_cleanup (worker_alive p \<or> prefetch_alive) started worker q p)
      else
        let p = p\<lparr>pv_shutdown_started := True\<rparr>;
            p = set_health_locked ''stopping'' (Some ''shutdown_requested'') None None None p
        in p\<lparr>pv_prefetch_generation := pv_prefetch_generation p + 1, pv_prefetch_pending := None,
             pv_pending_request := None, pv_latest_identity := None, th_shutdown := Sd_post\<rparr>)"

definition shutdown_post :: "provider \<Rightarrow> provider" where
  "shutdown_post p =
     (if th_shutdown p = Sd_post then (fst (put_nowait SHUTDOWN p))\<lparr>th_shutdown := Sd_join\<rparr> else p)"

definition shutdown_join :: "bool \<Rightarrow> bool \<Rightarrow> provider \<Rightarrow> provider" where
  "shutdown_join prefetch_alive started p =
     (if th_shutdown p \<noteq> Sd_join then p
      else case pv_sync_queue p of
        None \<Rightarrow> p\<lparr>th_shutdown := Sd_none\<rparr>
      | Some q \<Rightarrow>
          let p = p\<lparr>th_shutdown := Sd_none\<rparr>;
              worker = pv_sync_worker p
          in if worker_alive p \<or> prefetch_alive then
               schedule_shutdown_cleanup (worker_alive p \<or> prefetch_alive) started worker q
                 ((set_health_locked ''stopping'' (Some ''worker_timeout'') None None None p)
                    \<lparr>pv_cleanup_pending := Some (worker, q)\<rparr>)
             else clear_runtime_state worker q p)"

section \<open>Initialization\<close>

text \<open>The claim of a generation.\<close>

definition initialize_claim :: "provider \<Rightarrow> provider" where
  "initialize_claim p =
     (if pv_initializing p then p
      else if pv_sync_queue p \<noteq> None \<or> pv_shutdown_started p then p
      else
        set_health_locked ''initializing'' (Some ''initializing'') None None None
          (p\<lparr>pv_initializing := True, pv_initialization_cancelled := False,
             pv_health_generation := pv_health_generation p + 1,
             pv_ledger := pv_fresh p, pv_fresh := Suc (pv_fresh p), pv_outcomes := new_ledger,
             pv_health_fallback := ''none'', pv_health_cron := ''disabled'',
             pv_health_last_error := None, pv_health_last_error_at := None,
             pv_vector_available := None, pv_bootstrap_failed := False,
             pv_embedding_generation := None, pv_identity_ready := False,
             th_init := In_claimed\<rparr>))"

definition initialize_open :: "string \<Rightarrow> path \<Rightarrow> string \<Rightarrow> bool \<Rightarrow> provider \<Rightarrow> provider" where
  "initialize_open session_id hermes_home agent_context sentry p =
     (if th_init p \<noteq> In_claimed then p
      else p\<lparr>pv_session_id := session_id, pv_hermes_home := Some hermes_home,
             pv_write_enabled := (agent_context = ''primary''),
             pv_sync_queue := Some (pv_fresh p), pv_fresh := Suc (pv_fresh p),
             pq_items := [], pq_unfinished := 0, th_worker := W_none,
             pv_shutdown_started := False, pv_shutdown_flag := False,
             pv_log_scrub := True, pv_sentry := sentry, th_init := In_open\<rparr>)"

text \<open>
  What the calls of the setup phase answer. \<open>ie_identity\<close> is the block under the
  exclusive admission: whether the embedding identity is proved, and the epoch
  published with it, or the exception of one of its steps.
\<close>

record init_env =
  ie_config :: "CashewConfig res"
  ie_config_file :: "exn option"
  ie_db_path :: "path res"
  ie_policy :: "(bool \<times> bool) res"
  ie_bootstrap :: "exn option"
  ie_supervisor :: "nat option res"
  ie_has_retriever :: bool
  ie_mkdir :: "exn option"
  ie_identity :: "(bool \<times> int option) res"
  ie_model_fn :: bool
  ie_has_cron :: bool
  ie_cron_job :: "string option"
  ie_cron_state :: string

type_synonym init_result = "provider \<times> exn option"

definition and_then :: "init_result \<Rightarrow> (provider \<Rightarrow> init_result) \<Rightarrow> init_result" where
  "and_then r f = (case r of (p, Some e) \<Rightarrow> (p, Some e) | (p, None) \<Rightarrow> f p)"

definition check :: "exn option \<Rightarrow> provider \<Rightarrow> init_result" where
  "check e p = (p, e)"

definition setup_load :: "init_env \<Rightarrow> provider \<Rightarrow> init_result" where
  "setup_load env p =
     (case ie_config env of
        Inl e \<Rightarrow> (p, Some e)
      | Inr c \<Rightarrow>
          let p = p\<lparr>pv_config := Some c\<rparr>
          in and_then (check (ie_config_file env) p) (\<lambda>p.
             case ie_db_path env of
               Inl e \<Rightarrow> (p, Some e)
             | Inr db \<Rightarrow>
                 let p = p\<lparr>pv_db_path := Some db\<rparr>
                 in case ie_policy env of
                      Inl e \<Rightarrow> (p, Some e)
                    | Inr (read_only, cache_disabled) \<Rightarrow>
                        (p\<lparr>pv_read_only_mode := read_only,
                           pv_cache_writes_disabled := cache_disabled\<rparr>, None)))"

definition setup_bind :: "init_env \<Rightarrow> provider \<Rightarrow> init_result" where
  "setup_bind env p =
     (if pv_read_only_mode p then
        (p\<lparr>pv_write_enabled := False, pv_identity_ready := False, pv_vector_available := Some False,
           pv_retriever := False, pv_model_fn := ie_model_fn env\<rparr>, None)
      else
        and_then
          (case ie_bootstrap env of
             None \<Rightarrow> (p, None)
           | Some e \<Rightarrow>
               if isinstance e C_MaintenanceLockAcquisitionError \<or> isinstance e C_OperationAdmissionError
               then (p\<lparr>pv_bootstrap_failed := True, pv_cache_writes_disabled := True\<rparr>, None)
               else (p, Some e))
          (\<lambda>p. case ie_supervisor env of
             Inl e \<Rightarrow> (p, Some e)
           | Inr s \<Rightarrow> (p\<lparr>pv_supervisor := s, pv_embedding_generation := s\<rparr>, None)))"

definition setup_identity :: "init_env \<Rightarrow> provider \<Rightarrow> init_result" where
  "setup_identity env p =
     (if \<not> ie_has_retriever env then
        (p, Some (mk_exn C_RuntimeError ''core.context.ContextRetriever unavailable''))
      else and_then (check (ie_mkdir env) p) (\<lambda>p.
        case (if pv_read_only_mode p \<or> pv_bootstrap_failed p then return (False, pv_runtime_epoch p)
              else ie_identity env) of
          Inl e \<Rightarrow> (p, Some e)
        | Inr (identity_ready, epoch) \<Rightarrow>
            let p = (if identity_ready then p\<lparr>pv_runtime_epoch := epoch\<rparr> else p);
                p = p\<lparr>pv_identity_ready := identity_ready\<rparr>;
                p = (if identity_ready then p
                     else p\<lparr>pv_warm_cache := [], pv_prefetch_pending := None\<rparr>);
                p = (if identity_ready \<or> pv_read_only_mode p then p
                     else close_embedding_runtime (pv_supervisor p) False
                            (p\<lparr>pv_vector_available := Some False, pv_sleep_cron_job_id := None,
                               pv_health_cron := ''disabled''\<rparr>));
                p = (if pv_read_only_mode p then p
                     else p\<lparr>pv_retriever := True, pv_model_fn := ie_model_fn env\<rparr>)
            in (p, None)))"

text \<open>Everything up to the first cancellation check.\<close>

definition initialize_setup :: "init_env \<Rightarrow> provider \<Rightarrow> provider" where
  "initialize_setup env p =
     (if th_init p \<noteq> In_open then p
      else case and_then (and_then (setup_load env p) (setup_bind env)) (setup_identity env) of
        (p, Some e) \<Rightarrow> p\<lparr>th_init := In_raised e\<rparr>
      | (p, None) \<Rightarrow> p\<lparr>th_init := In_setup\<rparr>)"

definition cancelled_error :: exn where
  "cancelled_error = mk_exn C_InitializationCancelledError []"

definition initialize_register :: "init_env \<Rightarrow> provider \<Rightarrow> provider" where
  "initialize_register env p =
     (if th_init p \<noteq> In_setup then p
      else if pv_initialization_cancelled p then p\<lparr>th_init := In_raised cancelled_error\<rparr>
      else if pv_write_enabled p \<and> pv_identity_ready p \<and> ie_has_cron env then
        p\<lparr>pv_sleep_cron_job_id := ie_cron_job env, pv_health_cron := ie_cron_state env,
          th_init := In_ready\<rparr>
      else p\<lparr>th_init := In_ready\<rparr>)"

text \<open>The publication handoff: the worker and the health it starts with.\<close>

definition publish_health :: "provider \<Rightarrow> provider" where
  "publish_health p =
     (let cron_state = (if pv_sleep_cron_job_id p \<noteq> None then ''registered'' else pv_health_cron p)
      in if \<not> pv_identity_ready p then
           set_health_locked ''degraded'' (Some ''identity_unresolved'') (Some ''keyword'')
             (Some cron_state) None p
         else if pv_vector_available p = Some False then
           set_health_locked ''degraded'' (Some ''vector_unavailable'') (Some ''keyword'')
             (Some cron_state) None p
         else if cron_state \<in> {''unavailable'', ''failed''} then
           set_health_locked ''degraded''
             (Some (if cron_state = ''unavailable'' then ''cron_unavailable''
                    else ''cron_registration_failed'')) None (Some cron_state) None p
         else if (case pv_config p of None \<Rightarrow> False
                  | Some c \<Rightarrow> cfg_llm_aux_role c \<noteq> None \<and> cfg_llm_aux_role c \<noteq> Some []) \<and>
                 \<not> pv_model_fn p then
           set_health_locked ''degraded'' (Some ''model_unavailable'') None (Some cron_state) None p
         else set_health_locked ''ready'' None None (Some cron_state) None p)"

definition initialize_publish :: "provider \<Rightarrow> provider" where
  "initialize_publish p =
     (if th_init p \<noteq> In_ready then p
      else if pv_initialization_cancelled p then p\<lparr>th_init := In_raised cancelled_error\<rparr>
      else
        let p = p\<lparr>pv_sync_worker := Some (pv_fresh p), pv_fresh := Suc (pv_fresh p),
                  th_worker := W_get\<rparr>
        in if pv_sync_queue p = None \<or> pv_shutdown_started p then
             p\<lparr>th_init := In_raised cancelled_error\<rparr>
           else (publish_health p)\<lparr>th_init := In_done\<rparr>)"

definition initialization_reason :: "bool \<Rightarrow> exn \<Rightarrow> string" where
  "initialization_reason has_retriever e =
     (if \<not> has_retriever then ''dependency_missing''
      else if isinstance e C_ValueError \<or> isinstance e C_TypeError \<or> isinstance e C_JSONDecodeError
        then ''config_invalid''
      else if isinstance e C_SqliteOperationalError then ''storage_error''
      else ''initialization_failed'')"

text \<open>The two exception handlers.\<close>

definition initialize_abort :: "bool \<Rightarrow> provider \<Rightarrow> provider" where
  "initialize_abort has_retriever p =
     (case th_init p of
        In_raised e \<Rightarrow>
          let supervisor = pv_supervisor p;
              p = p\<lparr>pv_config := None, pv_db_path := None, pv_retriever := False,
                    pv_model_fn := False, pv_identity_ready := False, pv_sync_queue := None,
                    pv_sentry := False, pv_shutdown_started := True\<rparr>;
              p = (if isinstance e C_InitializationCancelledError then
                     set_health_locked ''stopped'' (Some ''initialization_cancelled'') None None None p
                   else
                     set_health_locked ''failed'' (Some (initialization_reason has_retriever e))
                       None None (Some e) (p\<lparr>pv_sync_worker := None\<rparr>));
              p = close_embedding_runtime supervisor False p
          in p\<lparr>pv_log_scrub := False, th_init := In_done\<rparr>
      | _ \<Rightarrow> p)"

definition initialize_finally :: "provider \<Rightarrow> provider" where
  "initialize_finally p =
     (if th_init p \<noteq> In_done then p
      else p\<lparr>pv_initializing := False, pv_initialization_cancelled := False, th_init := In_none\<rparr>)"

end
