(* ===== verification/ProviderInv.thy ===== *)
theory ProviderInv
  imports Provider
begin

text \<open>
  The invariant of the turn pipeline and of the provider's life cycle: the step
  relation that interleaves the operations of the theory \<^verbatim>\<open>Provider\<close>, what the
  queue and the worker hold, and that every step keeps the bookkeeping, the queue
  discipline and the ownership of the threads. The theory \<^verbatim>\<open>ProviderProps\<close> draws the
  conclusions.
\<close>

declare not_None_eq [simp del]

section \<open>Interleavings\<close>

inductive prov_step :: "provider \<Rightarrow> provider \<Rightarrow> bool" where
  st_sync: "prov_step p (sync_turn r1 r2 user assistant session p)"
| st_worker: "prov_step p (worker_step env p)"
| st_shutdown: "prov_step p (shutdown_begin alive started p)"
| st_post: "prov_step p (shutdown_post p)"
| st_join: "prov_step p (shutdown_join alive started p)"
| st_cleanup: "prov_step p (clear_state_after_workers_exit p)"
| st_closed: "prov_step p (embedding_closed p)"
| st_claim: "prov_step p (initialize_claim p)"
| st_open: "prov_step p (initialize_open session home context sentry p)"
| st_setup: "prov_step p (initialize_setup ienv p)"
| st_register: "prov_step p (initialize_register ienv p)"
| st_publish: "prov_step p (initialize_publish p)"
| st_abort: "prov_step p (initialize_abort has_retriever p)"
| st_finally: "prov_step p (initialize_finally p)"
| st_mark: "prov_step p (mark_health_if_current h state reason fallback p)"
| st_tool: "prov_step p (upd_outcomes (record_tool tool success is_empty) p)"
| st_tick: "0 \<le> d \<Longrightarrow> prov_step p (p\<lparr>pv_clock := pv_clock p + d\<rparr>)"

section \<open>What the queue and the worker hold\<close>

fun turns :: "qitem list \<Rightarrow> int" where
  "turns [] = 0"
| "turns (Turn _ # xs) = turns xs + 1"
| "turns (SHUTDOWN # xs) = turns xs"

text \<open>Turns, then at most the sentinel.\<close>

fun tidy :: "qitem list \<Rightarrow> bool" where
  "tidy [] = True"
| "tidy (Turn _ # xs) = tidy xs"
| "tidy (SHUTDOWN # xs) = (xs = [])"

fun worker_items :: "worker_state \<Rightarrow> qitem list" where
  "worker_items (W_batch _ items) = items"
| "worker_items (W_items items) = items"
| "worker_items (W_turn _ _ rest) = rest"
| "worker_items _ = []"

fun in_turn :: "worker_state \<Rightarrow> int" where
  "in_turn (W_turn _ _ _) = 1"
| "in_turn _ = 0"

fun turn_handle_ok :: "worker_state \<Rightarrow> provider \<Rightarrow> bool" where
  "turn_handle_ok (W_turn _ h _) p = (h = (pv_ledger p, pv_health_generation p))"
| "turn_handle_ok _ p = True"

definition backlog :: "provider \<Rightarrow> qitem list" where
  "backlog p = worker_items (th_worker p) @ pq_items p"

lemma turns_append [simp]: "turns (xs @ ys) = turns xs + turns ys"
  by (induction xs rule: turns.induct) auto

lemma turns_nonneg [simp]: "0 \<le> turns xs"
  by (induction xs rule: turns.induct) auto

lemma tidy_append_Turn: "tidy xs \<Longrightarrow> SHUTDOWN \<notin> set xs \<Longrightarrow> tidy (xs @ [Turn t])"
  by (induction xs rule: tidy.induct) auto

lemma tidy_append_SHUTDOWN: "tidy xs \<Longrightarrow> SHUTDOWN \<notin> set xs \<Longrightarrow> tidy (xs @ [SHUTDOWN])"
  by (induction xs rule: tidy.induct) auto

lemma tidy_split: "tidy (xs @ SHUTDOWN # ys) \<Longrightarrow> ys = [] \<and> SHUTDOWN \<notin> set xs"
  by (induction xs rule: tidy.induct) auto

lemma tidy_drop: "tidy (xs @ ys) \<Longrightarrow> tidy ys"
  by (induction xs rule: tidy.induct) auto

lemma tidy_remove: "tidy (xs @ y # ys) \<Longrightarrow> SHUTDOWN \<notin> set (xs @ y # ys) \<Longrightarrow> tidy (xs @ ys)"
  by (induction xs rule: tidy.induct) (auto intro: tidy_drop [of "[y]", simplified])

section \<open>Frame rules\<close>

text \<open>The part of the state the invariant is about.\<close>

definition core ::
    "provider \<Rightarrow> (nat option \<times> nat option \<times> bool \<times> bool \<times> bool \<times> (nat option \<times> nat) option) \<times>
       (nat \<times> int \<times> OutcomeLedger) \<times>
       (qitem list \<times> worker_state \<times> init_state \<times> shutdown_state \<times> (nat option \<times> nat) option)" where
  "core p = ((pv_sync_queue p, pv_sync_worker p, pv_initializing p, pv_initialization_cancelled p,
              pv_shutdown_started p, pv_cleanup_pending p),
             (pv_ledger p, pv_health_generation p, pv_outcomes p),
             (pq_items p, th_worker p, th_init p, th_shutdown p, th_cleanup p))"

lemma core_set_health [simp]: "core (set_health_locked s r f c e p) = core p"
  by (simp add: core_def set_health_locked_def Let_def split: option.split)

lemma core_metrics [simp]: "core (upd_metrics f p) = core p"
  by (simp add: core_def upd_metrics_def)

lemma core_task_done [simp]: "core (task_done p) = core p"
  by (simp add: core_def task_done_def)

lemma core_mark [simp]: "core (mark_health_if_current h s r f p) = core p"
  by (simp add: mark_health_if_current_def)

lemma core_publish_health [simp]: "core (publish_health p) = core p"
  by (simp add: publish_health_def Let_def)

section \<open>The invariant\<close>

definition inv_accounting :: "provider \<Rightarrow> bool" where
  "inv_accounting p \<longleftrightarrow> ledger_ok (pv_outcomes p) \<and>
     ol_pending (pv_outcomes p) = turns (backlog p) \<and>
     ol_in_flight (pv_outcomes p) = in_turn (th_worker p) \<and>
     turn_handle_ok (th_worker p) p"

definition inv_queue :: "provider \<Rightarrow> bool" where
  "inv_queue p \<longleftrightarrow> length (pq_items p) \<le> QUEUE_MAXSIZE \<and> tidy (backlog p) \<and>
     (SHUTDOWN \<in> set (backlog p) \<longrightarrow>
        (pv_shutdown_started p \<or> pv_sync_queue p = None) \<and> th_shutdown p \<noteq> Sd_post) \<and>
     (pv_sync_queue p = None \<longrightarrow> \<not> worker_alive p) \<and>
     (\<not> worker_alive p \<longrightarrow> turns (backlog p) = 0) \<and>
     (th_worker p = W_exited \<longrightarrow> pv_shutdown_started p \<or> pv_sync_queue p = None)"

fun setting_up :: "init_state \<Rightarrow> bool" where
  "setting_up In_open = True"
| "setting_up In_setup = True"
| "setting_up In_ready = True"
| "setting_up _ = False"

fun unpublished :: "init_state \<Rightarrow> bool" where
  "unpublished (In_raised _) = True"
| "unpublished i = setting_up i"

fun settled :: "init_state \<Rightarrow> bool" where
  "settled In_none = True"
| "settled In_done = True"
| "settled _ = False"

lemma settled_simps [simp]: "settled i \<Longrightarrow> \<not> unpublished i" "settled i \<Longrightarrow> \<not> setting_up i"
  by (cases i; simp)+

text \<open>A cleanup record names the queue and the worker in force.\<close>

fun names :: "(nat option \<times> nat) option \<Rightarrow> nat option \<Rightarrow> nat option \<Rightarrow> bool" where
  "names None q w = True"
| "names (Some (w', q')) q w = (q = Some q' \<and> w = w')"

definition inv_threads :: "provider \<Rightarrow> bool" where
  "inv_threads p \<longleftrightarrow>
     pv_initializing p = (th_init p \<noteq> In_none) \<and>
     (th_init p = In_claimed \<longrightarrow> pv_sync_queue p = None) \<and>
     (unpublished (th_init p) \<longrightarrow> pv_sync_queue p \<noteq> None \<and> pv_sync_worker p = None \<and>
        th_worker p = W_none \<and> pq_items p = []) \<and>
     (setting_up (th_init p) \<longrightarrow> pv_shutdown_started p \<longrightarrow> pv_initialization_cancelled p) \<and>
     (th_shutdown p \<noteq> Sd_none \<longrightarrow> pv_sync_queue p \<noteq> None \<and> pv_shutdown_started p \<and>
        pv_cleanup_pending p = None \<and> th_cleanup p = None \<and> settled (th_init p)) \<and>
     (pv_cleanup_pending p \<noteq> None \<longrightarrow> pv_sync_queue p \<noteq> None \<and> pv_shutdown_started p \<and>
        th_cleanup p = None \<and> settled (th_init p)) \<and>
     (th_cleanup p \<noteq> None \<longrightarrow> pv_sync_queue p \<noteq> None \<and> pv_shutdown_started p \<and>
        settled (th_init p)) \<and>
     (pv_sync_queue p \<noteq> None \<longrightarrow> settled (th_init p) \<longrightarrow>
        pv_sync_worker p \<noteq> None \<and> th_worker p \<noteq> W_none) \<and>
     (pv_sync_queue p = None \<longrightarrow> pv_sync_worker p = None) \<and>
     names (pv_cleanup_pending p) (pv_sync_queue p) (pv_sync_worker p) \<and>
     names (th_cleanup p) (pv_sync_queue p) (pv_sync_worker p)"

definition prov_inv :: "provider \<Rightarrow> bool" where
  [inv_defs]: "prov_inv p \<longleftrightarrow> inv_accounting p \<and> inv_queue p \<and> inv_threads p"

lemma prov_inv_core: "core p = core q \<Longrightarrow> prov_inv p = prov_inv q"
proof -
  assume "core p = core q"
  then have "pv_sync_queue p = pv_sync_queue q" "pv_sync_worker p = pv_sync_worker q"
    "pv_initializing p = pv_initializing q"
    "pv_initialization_cancelled p = pv_initialization_cancelled q"
    "pv_shutdown_started p = pv_shutdown_started q" "pv_cleanup_pending p = pv_cleanup_pending q"
    "pv_ledger p = pv_ledger q" "pv_health_generation p = pv_health_generation q"
    "pv_outcomes p = pv_outcomes q" "pq_items p = pq_items q" "th_worker p = th_worker q"
    "th_init p = th_init q" "th_shutdown p = th_shutdown q" "th_cleanup p = th_cleanup q"
    by (simp_all add: core_def)
  then show ?thesis
    by (cases "th_worker q")
      (simp_all add: prov_inv_def inv_accounting_def inv_queue_def inv_threads_def backlog_def
        worker_alive_def)
qed

lemma prov_inv_new: "prov_inv new_provider"
  by (simp add: prov_inv_def inv_accounting_def inv_queue_def inv_threads_def backlog_def
      worker_alive_def new_provider_def ledger_ok_new [unfolded new_ledger_def] new_ledger_def)

lemmas inv_parts = prov_inv_def inv_accounting_def inv_queue_def inv_threads_def backlog_def
  worker_alive_def

lemmas pipe_defs = upd_outcomes_def upd_metrics_def task_done_def

section \<open>Worker and producer steps\<close>

lemma worker_get_frame [simp]:
  "pv_sync_queue (worker_get p) = pv_sync_queue p" "pv_config (worker_get p) = pv_config p"
  "pv_shutdown_started (worker_get p) = pv_shutdown_started p"
  "pv_outcomes (worker_get p) = pv_outcomes p" "pv_session_id (worker_get p) = pv_session_id p"
  "pv_dropped_turn_count (worker_get p) = pv_dropped_turn_count p"
  "pv_initializing (worker_get p) = pv_initializing p"
  by (simp_all add: worker_get_def task_done_def split: worker_state.split list.split qitem.split nat.split)

lemma inv_worker_get:
  assumes "prov_inv p"
  shows "prov_inv (worker_get p)"
proof (cases "th_worker p")
  case W_get
  show ?thesis
  proof (cases "pq_items p")
    case Nil
    then show ?thesis using assms W_get by (simp add: worker_get_def)
  next
    case (Cons x q)
    then show ?thesis
      using assms W_get
      by (cases x) (auto simp: worker_get_def inv_parts task_done_def)
  qed
next
  case (W_batch n items)
  show ?thesis
  proof (cases n)
    case 0
    then show ?thesis using assms W_batch by (simp add: worker_get_def)
  next
    case (Suc m)
    show ?thesis
    proof (cases "pq_items p")
      case Nil
      then show ?thesis using assms W_batch Suc by (auto simp: worker_get_def inv_parts)
    next
      case (Cons x q)
      then show ?thesis
        using assms W_batch Suc tidy_split [of items q]
        by (cases x) (auto simp: worker_get_def inv_parts)
    qed
  qed
qed (use assms in \<open>simp_all add: worker_get_def\<close>)

lemma inv_worker_gets: "prov_inv p \<Longrightarrow> prov_inv ((worker_get ^^ r) p)"
  by (induction r) (simp_all add: inv_worker_get)

lemma worker_gets_frame [simp]:
  "pv_sync_queue ((worker_get ^^ r) p) = pv_sync_queue p"
  "pv_config ((worker_get ^^ r) p) = pv_config p"
  "pv_shutdown_started ((worker_get ^^ r) p) = pv_shutdown_started p"
  "pv_outcomes ((worker_get ^^ r) p) = pv_outcomes p"
  "pv_session_id ((worker_get ^^ r) p) = pv_session_id p"
  "pv_dropped_turn_count ((worker_get ^^ r) p) = pv_dropped_turn_count p"
  "pv_initializing ((worker_get ^^ r) p) = pv_initializing p"
  by (induction r) simp_all

lemma length_worker_get: "length (pq_items (worker_get p)) \<le> length (pq_items p)"
  by (auto simp: worker_get_def task_done_def split: worker_state.split list.split qitem.split nat.split)

lemma length_worker_gets: "length (pq_items ((worker_get ^^ r) p)) \<le> length (pq_items p)"
  by (induction r) (auto intro: order_trans [OF length_worker_get])

text \<open>While turns are accepted there is no sentinel.\<close>

lemma no_sentinel:
  "prov_inv p \<Longrightarrow> \<not> pv_shutdown_started p \<Longrightarrow> pv_sync_queue p \<noteq> None \<Longrightarrow> SHUTDOWN \<notin> set (backlog p)"
  by (auto simp: inv_parts)

lemma inv_sync_evict:
  assumes "prov_inv p" "\<not> pv_shutdown_started p" "pv_sync_queue p \<noteq> None"
  shows "prov_inv (sync_evict p)"
proof (cases "pq_items p")
  case Nil
  then show ?thesis using assms by (simp add: sync_evict_def)
next
  case (Cons x q)
  have ns: "SHUTDOWN \<notin> set (worker_items (th_worker p) @ x # q)"
    using no_sentinel [OF assms] Cons by (simp add: backlog_def)
  then obtain t where x: "x = Turn t" by (cases x) auto
  have l: "ledger_ok (pv_outcomes p)" "ol_pending (pv_outcomes p) = turns (worker_items (th_worker p)) + turns q + 1"
    using assms(1) Cons x by (simp_all add: inv_parts)
  then have pos: "0 < ol_pending (pv_outcomes p)"
    using turns_nonneg [of q] turns_nonneg [of "worker_items (th_worker p)"] by linarith
  have tidy: "tidy (worker_items (th_worker p) @ q)"
    using tidy_remove [of "worker_items (th_worker p)" x q] ns assms(1) Cons by (simp add: inv_parts)
  have alive: "th_worker p \<noteq> W_none" "th_worker p \<noteq> W_exited"
    using assms Cons x turns_nonneg [of q] by (auto simp: inv_parts)
  show ?thesis
    using assms Cons x l pos tidy ns alive outcomes.ok_evict [OF l(1) pos]
      outcomes.pending_evict [OF pos] outcomes.flight_evict [of "pv_outcomes p"]
    by (cases "th_worker p") (auto simp: sync_evict_def inv_parts pipe_defs)
qed

lemma inv_put_turn:
  assumes "prov_inv p" "\<not> pv_shutdown_started p" "pv_sync_queue p \<noteq> None"
    "length (pq_items p) < QUEUE_MAXSIZE" "worker_alive p"
  shows "prov_inv (upd_outcomes admit (fst (put_nowait (Turn t) p)))"
proof -
  have tidy: "tidy (worker_items (th_worker p) @ pq_items p @ [Turn t])"
    using tidy_append_Turn [of "backlog p" t] no_sentinel [OF assms(1-3)] assms(1)
    by (simp add: inv_parts)
  show ?thesis
    using assms tidy no_sentinel [OF assms(1-3)]
    by (cases "th_worker p")
      (auto simp: put_nowait_def inv_parts pipe_defs outcomes.ok_admit outcomes.pending_admit
        outcomes.flight_admit)
qed

lemma upd_outcomes_inv:
  assumes "prov_inv p" "ledger_ok (f (pv_outcomes p))"
    "ol_pending (f (pv_outcomes p)) = ol_pending (pv_outcomes p)"
    "ol_in_flight (f (pv_outcomes p)) = ol_in_flight (pv_outcomes p)"
  shows "prov_inv (upd_outcomes f p)"
proof -
  have "inv_queue (upd_outcomes f p) = inv_queue p" "inv_threads (upd_outcomes f p) = inv_threads p"
    by (simp_all add: inv_queue_def inv_threads_def backlog_def worker_alive_def upd_outcomes_def)
  moreover have "turn_handle_ok (th_worker p) (upd_outcomes f p) = turn_handle_ok (th_worker p) p"
    by (cases "th_worker p") (simp_all add: upd_outcomes_def)
  ultimately show ?thesis
    using assms by (simp add: prov_inv_def inv_accounting_def backlog_def upd_outcomes_def)
qed

lemma inv_reject: "prov_inv p \<Longrightarrow> prov_inv (upd_outcomes reject p)"
  by (rule upd_outcomes_inv) (simp_all add: ledger_ok_reject prov_inv_def inv_accounting_def)

lemma sync_admissibleD:
  assumes "sync_admissible p"
  shows "\<not> pv_shutdown_started p" "pv_sync_queue p \<noteq> None" "\<not> pv_initializing p"
  using assms by (auto simp: sync_admissible_def)

lemma worker_runs:
  assumes "prov_inv p" "sync_admissible p"
  shows "worker_alive p"
proof -
  have "th_init p = In_none" "th_worker p \<noteq> W_exited"
    using assms(1) sync_admissibleD [OF assms(2)] by (auto simp: inv_parts)
  then show ?thesis
    using assms(1) sync_admissibleD [OF assms(2)] by (simp add: inv_parts)
qed

lemma sync_admissible_get [simp]: "sync_admissible (worker_get p) = sync_admissible p"
  by (simp add: worker_get_def task_done_def sync_admissible_def
      split: worker_state.split list.split qitem.split nat.split)

lemma sync_admissible_gets [simp]: "sync_admissible ((worker_get ^^ r) p) = sync_admissible p"
  by (induction r) simp_all

lemma sync_admissible_evict [simp]: "sync_admissible (sync_evict p) = sync_admissible p"
  by (simp add: sync_evict_def pipe_defs sync_admissible_def split: list.split)

lemma length_evict: "length (pq_items (sync_evict p)) = length (pq_items p) - 1"
  by (simp add: sync_evict_def pipe_defs split: list.split)

text \<open>After the eviction there is room, whatever the worker took in the meantime.\<close>

definition make_room :: "nat \<Rightarrow> nat \<Rightarrow> provider \<Rightarrow> provider" where
  "make_room r1 r2 p = (worker_get ^^ r2) (sync_evict ((worker_get ^^ r1) p))"

lemma make_room_ok:
  assumes "prov_inv p" "sync_admissible p"
  shows "prov_inv (make_room r1 r2 p)" "sync_admissible (make_room r1 r2 p)"
    "length (pq_items (make_room r1 r2 p)) < QUEUE_MAXSIZE"
proof -
  let ?q = "(worker_get ^^ r1) p"
  have q: "prov_inv ?q" "sync_admissible ?q"
    using assms by (simp_all add: inv_worker_gets)
  show "prov_inv (make_room r1 r2 p)"
    unfolding make_room_def
    by (rule inv_worker_gets, rule inv_sync_evict [OF q(1)]) (use sync_admissibleD [OF q(2)] in auto)
  show "sync_admissible (make_room r1 r2 p)"
    using assms(2) by (simp add: make_room_def)
  have "length (pq_items ?q) \<le> QUEUE_MAXSIZE"
    using q(1) by (simp add: inv_parts)
  then show "length (pq_items (make_room r1 r2 p)) < QUEUE_MAXSIZE"
    using length_worker_gets [of r2 "sync_evict ?q"] length_evict [of ?q]
    by (simp add: make_room_def QUEUE_MAXSIZE_def)
qed

lemma sync_turn_admissible:
  assumes "prov_inv p" "sync_admissible p"
  shows "sync_turn r1 r2 user assistant session p =
    (let p' = (if assistant \<noteq> [] then p\<lparr>pv_last_assistant := assistant\<rparr> else p);
         turn = (user, assistant, if session \<noteq> [] then session else pv_session_id p);
         room = (if length (pq_items p) < QUEUE_MAXSIZE then p' else make_room r1 r2 p')
     in upd_outcomes admit (fst (put_nowait (Turn turn) room)))"
proof -
  let ?p = "if assistant \<noteq> [] then p\<lparr>pv_last_assistant := assistant\<rparr> else p"
  have "core ?p = core p" by (simp add: core_def)
  then have "prov_inv ?p" using assms(1) prov_inv_core [of ?p p] by simp
  moreover have "sync_admissible ?p" using assms(2) by (simp add: sync_admissible_def)
  ultimately have "length (pq_items (make_room r1 r2 ?p)) < QUEUE_MAXSIZE"
    by (rule make_room_ok)
  then show ?thesis
    using assms(2) by (simp add: sync_turn_def Let_def put_nowait_def make_room_def)
qed

lemma inv_sync_turn:
  assumes "prov_inv p"
  shows "prov_inv (sync_turn r1 r2 user assistant session p)"
proof (cases "sync_admissible p")
  case False
  then show ?thesis using assms by (simp add: sync_turn_def inv_reject)
next
  case True
  let ?p = "if assistant \<noteq> [] then p\<lparr>pv_last_assistant := assistant\<rparr> else p"
  let ?room = "if length (pq_items p) < QUEUE_MAXSIZE then ?p else make_room r1 r2 ?p"
  have "core ?p = core p" by (simp add: core_def)
  then have p: "prov_inv ?p" "sync_admissible ?p"
    using assms prov_inv_core [of ?p p] True by (simp_all add: sync_admissible_def)
  have room: "prov_inv ?room" "sync_admissible ?room" "length (pq_items ?room) < QUEUE_MAXSIZE"
  proof -
    show "prov_inv ?room" using p(1) make_room_ok(1) [OF p] by (simp only: simp_thms split: if_split)
    show "sync_admissible ?room" using p(2) make_room_ok(2) [OF p] by (simp only: simp_thms split: if_split)
    show "length (pq_items ?room) < QUEUE_MAXSIZE"
      using make_room_ok(3) [OF p] by (cases "length (pq_items p) < QUEUE_MAXSIZE") simp_all
  qed
  have "prov_inv (upd_outcomes admit (fst (put_nowait (Turn t) ?room)))" for t
    by (rule inv_put_turn [OF room(1) sync_admissibleD(1,2) [OF room(2)] room(3) worker_runs [OF room(1,2)]])
  then show ?thesis
    using sync_turn_admissible [OF assms True] by (simp only: Let_def)
qed

section \<open>The worker's turn\<close>

lemma drain_once_core: "core (fst (drain_once env p)) = core p"
  by (simp add: drain_once_def drain_handler_def Let_def core_def upd_metrics_def split: option.split)

text \<open>Every way through a turn ends in one terminal operation on the captured ledger.\<close>

lemma worker_turn_terminal:
  assumes "h = (pv_ledger p, pv_health_generation p)"
  shows "\<exists>f. ledger_terminal f \<and> core (worker_turn env h p) = core (upd_outcomes f p)"
proof -
  obtain p1 o1 where d: "drain_once env p = (p1, o1)" by fastforce
  have c: "core p1 = core p" using drain_once_core [of env p] d by simp
  then have h: "h = (pv_ledger p1, pv_health_generation p1)"
    using assms by (simp add: core_def)
  have upd: "core (upd_outcomes f p1) = core (upd_outcomes f p)" for f
    using c by (simp add: core_def upd_outcomes_def)
  show ?thesis
  proof (cases o1)
    case (Drained completed)
    then have "core (worker_turn env h p) = core (upd_outcomes (if completed then complete else drop_in_flight) p1)"
      using d h by (simp add: worker_turn_def finish_worker_turn_def Let_def)
    then show ?thesis
      using upd by (intro exI [of _ "if completed then complete else drop_in_flight"]) simp
  next
    case (Drain_raised e is_partial)
    show ?thesis
    proof (cases "isinstance e C_PreAdmissionRejectedError")
      case True
      then have "core (worker_turn env h p) = core (upd_outcomes reject_in_flight p1)"
        using d h Drain_raised by (simp add: worker_turn_def reject_worker_turn_def Let_def)
      then show ?thesis
        using upd by (intro exI [of _ reject_in_flight]) simp
    next
      case False
      let ?f = "fail (isinstance e C_OpaqueUpstreamError \<and> is_partial)
        (isinstance e C_OpaqueUpstreamError \<and> \<not> is_partial)"
      have "core (worker_turn env h p) = core (upd_outcomes ?f p1)"
        using d h Drain_raised False by (simp add: worker_turn_def fail_worker_turn_def Let_def)
      then show ?thesis
        using upd by (intro exI [of _ ?f]) simp
    qed
  qed
qed

lemma inv_worker_turn:
  assumes "prov_inv p" "th_worker p = W_turn t h rest"
  shows "prov_inv ((worker_turn env h p)\<lparr>th_worker := W_items rest\<rparr>)"
proof -
  have h: "h = (pv_ledger p, pv_health_generation p)" and fl: "ol_in_flight (pv_outcomes p) = 1"
    and ok: "ledger_ok (pv_outcomes p)"
    using assms by (simp_all add: inv_parts)
  obtain f where f: "ledger_terminal f" "core (worker_turn env h p) = core (upd_outcomes f p)"
    using worker_turn_terminal [OF h] by blast
  have "core ((worker_turn env h p)\<lparr>th_worker := W_items rest\<rparr>) =
      core ((upd_outcomes f p)\<lparr>th_worker := W_items rest\<rparr>)"
    using f(2) by (simp add: core_def)
  moreover have "prov_inv ((upd_outcomes f p)\<lparr>th_worker := W_items rest\<rparr>)"
    using assms fl ok f(1) outcomes.ok_terminal [OF f(1) ok] outcomes.pending_terminal [OF f(1)]
      outcomes.flight_terminal [OF f(1), of "pv_outcomes p"]
    by (auto simp: inv_parts upd_outcomes_def)
  ultimately show ?thesis using prov_inv_core by blast
qed

lemma inv_worker_start:
  assumes "prov_inv p" "th_worker p = W_items (Turn t # rest)"
  shows "prov_inv ((upd_outcomes start p)\<lparr>th_worker := W_turn t (pv_ledger p, pv_health_generation p) rest\<rparr>)"
proof -
  have ok: "ledger_ok (pv_outcomes p)"
    and pending: "ol_pending (pv_outcomes p) = turns rest + turns (pq_items p) + 1"
    using assms by (simp_all add: inv_parts)
  have pos: "0 < ol_pending (pv_outcomes p)"
    using pending turns_nonneg [of rest] turns_nonneg [of "pq_items p"] by linarith
  show ?thesis
    using assms outcomes.ok_start [OF ok pos] outcomes.pending_start [OF pos]
      outcomes.flight_start [of "pv_outcomes p"]
    by (auto simp: inv_parts upd_outcomes_def)
qed

lemma inv_worker_step:
  assumes "prov_inv p"
  shows "prov_inv (worker_step env p)"
proof (cases "th_worker p")
  case W_get
  show ?thesis
  proof (cases "pq_items p = []")
    case True
    then show ?thesis using assms W_get by (auto simp: worker_step_def inv_parts)
  next
    case False
    then show ?thesis using W_get inv_worker_get [OF assms] by (simp add: worker_step_def)
  qed
next
  case (W_batch n items)
  show ?thesis
  proof (cases n)
    case 0
    then show ?thesis using assms W_batch by (auto simp: worker_step_def inv_parts)
  next
    case (Suc m)
    then show ?thesis using W_batch inv_worker_get [OF assms] by (simp add: worker_step_def)
  qed
next
  case (W_items items)
  show ?thesis
  proof (cases items)
    case Nil
    then show ?thesis using assms W_items by (auto simp: worker_step_def inv_parts)
  next
    case (Cons x rest)
    show ?thesis
    proof (cases x)
      case (Turn t)
      then show ?thesis
        using assms W_items Cons inv_worker_start by (simp add: worker_step_def)
    next
      case SHUTDOWN
      then show ?thesis
        using assms W_items Cons by (auto simp: worker_step_def inv_parts task_done_def)
    qed
  qed
next
  case (W_turn t h rest)
  then show ?thesis
    using inv_worker_turn [OF assms] by (simp add: worker_step_def)
qed (use assms in \<open>simp_all add: worker_step_def\<close>)

section \<open>Life-cycle steps\<close>

text \<open>How the callback of a closed embedding owner changes the core.\<close>

lemma inv_gate_opened:
  "prov_inv p \<Longrightarrow> pv_sync_queue p = None \<Longrightarrow> prov_inv (p\<lparr>pv_shutdown_started := False\<rparr>)"
  by (cases "th_worker p") (auto simp: inv_parts)

lemma core_finish_close:
  "core (finish_embedding_runtime_close s m p) = core p \<or>
   pv_sync_queue p = None \<and>
     core (finish_embedding_runtime_close s m p) = core (p\<lparr>pv_shutdown_started := False\<rparr>)"
  by (simp add: finish_embedding_runtime_close_def Let_def) (simp add: core_def)

lemma inv_finish_close: "prov_inv p \<Longrightarrow> prov_inv (finish_embedding_runtime_close s m p)"
  using core_finish_close [of s m p] prov_inv_core inv_gate_opened by blast

lemma inv_close_embedding: "prov_inv p \<Longrightarrow> prov_inv (close_embedding_runtime s m p)"
proof -
  assume p: "prov_inv p"
  have "core (p\<lparr>th_closing := x\<rparr>) = core p" for x by (simp add: core_def)
  then have "prov_inv (p\<lparr>th_closing := x\<rparr>)" for x
    using p prov_inv_core by blast
  then show ?thesis
    using inv_finish_close [OF p] by (simp add: close_embedding_runtime_def split: option.split)
qed

lemma inv_embedding_closed:
  assumes "prov_inv p"
  shows "prov_inv (embedding_closed p)"
proof -
  have "core (p\<lparr>th_closing := x\<rparr>) = core p" for x by (simp add: core_def)
  then have "prov_inv (p\<lparr>th_closing := x\<rparr>)" for x
    using assms prov_inv_core by blast
  then show ?thesis
    using assms by (simp add: embedding_closed_def inv_finish_close split: list.split prod.split)
qed

text \<open>Clearing the runtime is safe once the worker is gone.\<close>

definition quiescent :: "provider \<Rightarrow> bool" where
  "quiescent p \<longleftrightarrow> \<not> worker_alive p \<and> th_shutdown p = Sd_none \<and> th_cleanup p = None \<and>
     settled (th_init p)"

definition cleared :: "provider \<Rightarrow> provider" where
  "cleared p = p\<lparr>pv_sync_queue := None, pv_sync_worker := None, pv_cleanup_pending := None\<rparr>"

lemma inv_cleared: "prov_inv p \<Longrightarrow> quiescent p \<Longrightarrow> prov_inv (cleared p)"
  by (cases "th_worker p") (auto simp: inv_parts cleared_def quiescent_def)

lemma inv_clear:
  assumes "prov_inv p" "quiescent p"
  shows "prov_inv (clear_runtime_state w q p)"
proof (cases "pv_sync_queue p \<noteq> Some q \<or> w \<noteq> None \<and> pv_sync_worker p \<noteq> w")
  case True
  then show ?thesis using assms(1) by (auto simp: clear_runtime_state_def)
next
  case False
  have scrub: "prov_inv (x\<lparr>pv_log_scrub := b\<rparr>) = prov_inv x" for x b
    by (rule prov_inv_core) (simp add: core_def)
  let ?c = "set_health_locked ''stopping'' (Some ''embedding_shutdown'') None None None
    (p\<lparr>pv_sleep_cron_job_id := None, pv_sync_queue := None, pv_cleanup_pending := None,
       pv_sync_worker := None, pv_config := None, pv_db_path := None,
       pv_retriever := False, pv_model_fn := False, pv_identity_ready := False,
       pv_sentry := False, pv_warm_cache := [],
       pv_prefetch_generation := pv_prefetch_generation p + 1,
       pv_prefetch_pending := None, pv_prefetch_threads := [], pv_prefetch_worker := None,
       pv_active_identity := None, pv_pending_request := None,
       pv_latest_identity := None, pv_last_assistant := []\<rparr>)"
  have clear: "clear_runtime_state w q p = (close_embedding_runtime (pv_supervisor p) True ?c)\<lparr>pv_log_scrub := False\<rparr>"
    using False by (auto simp: clear_runtime_state_def Let_def)
  have "core ?c = core (cleared p)"
    unfolding core_set_health by (simp add: core_def cleared_def)
  then have "prov_inv ?c"
    using inv_cleared [OF assms] prov_inv_core by blast
  then show ?thesis
    unfolding clear scrub by (rule inv_close_embedding)
qed

lemma inv_schedule_cleanup:
  assumes "prov_inv p" "pv_cleanup_pending p = Some (w, q)" "pv_sync_queue p = Some q"
    "worker_alive p \<Longrightarrow> alive" "th_shutdown p = Sd_none"
  shows "prov_inv (schedule_shutdown_cleanup alive started w q p)"
proof (cases alive)
  case False
  then have "quiescent p"
    using assms by (auto simp: quiescent_def prov_inv_def inv_threads_def)
  then show ?thesis
    using False inv_clear [OF assms(1)] by (simp add: schedule_shutdown_cleanup_def)
next
  case True
  then show ?thesis
    using assms by (cases "th_worker p") (auto simp: schedule_shutdown_cleanup_def inv_parts)
qed

lemma inv_shutdown_begin:
  assumes "prov_inv p"
  shows "prov_inv (shutdown_begin alive started p)"
proof -
  consider (cancel) "pv_initializing p" "pv_sync_worker p = None"
    | (idle) "\<not> (pv_initializing p \<and> pv_sync_worker p = None)" "pv_sync_queue p = None"
    | (retry) "\<not> (pv_initializing p \<and> pv_sync_worker p = None)" "pv_sync_queue p \<noteq> None" "pv_shutdown_started p"
    | (begin_stop) "\<not> (pv_initializing p \<and> pv_sync_worker p = None)" "pv_sync_queue p \<noteq> None" "\<not> pv_shutdown_started p"
    by argo
  then show ?thesis
  proof cases
    case cancel
    then show ?thesis
      using assms by (cases "th_worker p") (auto simp: shutdown_begin_def inv_parts)
  next
    case idle
    then show ?thesis using assms by (auto simp: shutdown_begin_def)
  next
    case retry
    show ?thesis
    proof (cases "pv_cleanup_pending p")
      case None
      then show ?thesis using retry assms(1) by (auto simp: shutdown_begin_def)
    next
      case (Some wq)
      obtain w q where wq: "wq = (w, q)" by fastforce
      have "th_shutdown p = Sd_none"
        using assms Some by (auto simp: prov_inv_def inv_threads_def)
      then have "prov_inv (schedule_shutdown_cleanup (worker_alive p \<or> alive) started w q p)"
        using assms Some wq by (intro inv_schedule_cleanup) (auto simp: prov_inv_def inv_threads_def)
      then show ?thesis
        using retry Some wq by (auto simp: shutdown_begin_def)
    qed
  next
    case begin_stop
    let ?h = "set_health_locked ''stopping'' (Some ''shutdown_requested'') None None None (p\<lparr>pv_shutdown_started := True\<rparr>)"
    let ?q = "?h\<lparr>pv_prefetch_generation := pv_prefetch_generation ?h + 1, pv_prefetch_pending := None,
             pv_pending_request := None, pv_latest_identity := None, th_shutdown := Sd_post\<rparr>"
    have "core ?q = core (p\<lparr>pv_shutdown_started := True, th_shutdown := Sd_post\<rparr>)"
      using core_set_health [of "''stopping''" "Some ''shutdown_requested''" None None None "p\<lparr>pv_shutdown_started := True\<rparr>"]
      by (simp add: core_def)
    moreover have "settled (th_init p)"
      using assms begin_stop by (cases "th_init p") (auto simp: inv_parts)
    then have "prov_inv (p\<lparr>pv_shutdown_started := True, th_shutdown := Sd_post\<rparr>)"
      using assms begin_stop by (cases "th_worker p") (auto simp: inv_parts)
    ultimately have "prov_inv ?q" using prov_inv_core by blast
    then show ?thesis
      using begin_stop by (auto simp: shutdown_begin_def Let_def)
  qed
qed

lemma inv_shutdown_post:
  assumes "prov_inv p"
  shows "prov_inv (shutdown_post p)"
proof (cases "th_shutdown p = Sd_post")
  case True
  have ns: "SHUTDOWN \<notin> set (backlog p)" "pv_shutdown_started p"
    using assms True by (auto simp: inv_parts)
  then have tidy: "tidy (worker_items (th_worker p) @ pq_items p @ [SHUTDOWN])"
    using tidy_append_SHUTDOWN [of "backlog p"] assms by (simp add: inv_parts)
  show ?thesis
    using assms True ns tidy
    by (cases "th_worker p") (auto simp: shutdown_post_def put_nowait_def inv_parts)
qed (use assms in \<open>simp add: shutdown_post_def\<close>)

lemma inv_shutdown_join:
  assumes "prov_inv p"
  shows "prov_inv (shutdown_join alive started p)"
proof (cases "th_shutdown p = Sd_join")
  case True
  obtain q where q: "pv_sync_queue p = Some q"
    using assms True by (auto simp: prov_inv_def inv_threads_def)
  let ?p = "p\<lparr>th_shutdown := Sd_none\<rparr>"
  have p: "prov_inv ?p" "settled (th_init p)" "th_cleanup p = None" "pv_shutdown_started p"
    using assms True by (cases "th_worker p"; simp add: inv_parts)+
  show ?thesis
  proof (cases "worker_alive p \<or> alive")
    case False
    then have "quiescent ?p" using p by (simp add: quiescent_def worker_alive_def)
    then show ?thesis
      using inv_clear [OF p(1)] False True q by (auto simp: shutdown_join_def Let_def worker_alive_def)
  next
    case live: True
    let ?h = "set_health_locked ''stopping'' (Some ''worker_timeout'') None None None ?p"
    let ?r = "?h\<lparr>pv_cleanup_pending := Some (pv_sync_worker p, q)\<rparr>"
    have c: "core ?r = core (?p\<lparr>pv_cleanup_pending := Some (pv_sync_worker p, q)\<rparr>)"
      using core_set_health [of "''stopping''" "Some ''worker_timeout''" None None None ?p]
      by (simp add: core_def)
    have "prov_inv (?p\<lparr>pv_cleanup_pending := Some (pv_sync_worker p, q)\<rparr>)"
      using p q by (cases "th_worker p") (auto simp: inv_parts)
    then have "prov_inv ?r" using c prov_inv_core by blast
    moreover have "pv_sync_queue ?r = Some q" "th_shutdown ?r = Sd_none"
      using c q by (simp_all add: core_def)
    moreover have "worker_alive ?r = worker_alive p"
      using c by (simp add: core_def worker_alive_def)
    ultimately have "prov_inv (schedule_shutdown_cleanup (worker_alive p \<or> alive) started (pv_sync_worker p) q ?r)"
      by (intro inv_schedule_cleanup) auto
    then show ?thesis
      using live True q by (auto simp: shutdown_join_def Let_def worker_alive_def)
  qed
qed (use assms in \<open>simp add: shutdown_join_def\<close>)

lemma inv_cleanup:
  assumes "prov_inv p"
  shows "prov_inv (clear_state_after_workers_exit p)"
proof (cases "th_cleanup p = None \<or> worker_alive p")
  case True
  then show ?thesis
    using assms by (auto simp: clear_state_after_workers_exit_def split: option.split)
next
  case False
  have "turn_handle_ok (th_worker p) (p\<lparr>th_cleanup := None\<rparr>) = turn_handle_ok (th_worker p) p"
    by (cases "th_worker p") simp_all
  moreover have "inv_queue (p\<lparr>th_cleanup := None\<rparr>) = inv_queue p"
    by (simp add: inv_queue_def backlog_def worker_alive_def)
  ultimately have "prov_inv (p\<lparr>th_cleanup := None\<rparr>)"
    using assms by (simp add: prov_inv_def inv_accounting_def inv_threads_def backlog_def)
  moreover have "quiescent (p\<lparr>th_cleanup := None\<rparr>)"
    using assms False by (auto simp: quiescent_def prov_inv_def inv_threads_def worker_alive_def)
  ultimately show ?thesis
    using False inv_clear
    by (auto simp: clear_state_after_workers_exit_def worker_alive_def split: option.split)
qed

lemma inv_claim:
  assumes "prov_inv p"
  shows "prov_inv (initialize_claim p)"
proof (cases "pv_initializing p \<or> pv_sync_queue p \<noteq> None \<or> pv_shutdown_started p")
  case True
  then show ?thesis using assms by (auto simp: initialize_claim_def)
next
  case False
  let ?q = "p\<lparr>pv_initializing := True, pv_initialization_cancelled := False,
             pv_health_generation := pv_health_generation p + 1,
             pv_ledger := pv_fresh p, pv_fresh := Suc (pv_fresh p), pv_outcomes := new_ledger,
             pv_health_fallback := ''none'', pv_health_cron := ''disabled'',
             pv_health_last_error := None, pv_health_last_error_at := None,
             pv_vector_available := None, pv_bootstrap_failed := False,
             pv_embedding_generation := None, pv_identity_ready := False,
             th_init := In_claimed\<rparr>"
  have "prov_inv ?q"
    using assms False
    by (cases "th_worker p") (auto simp: inv_parts new_ledger_def ledger_ok_new [unfolded new_ledger_def])
  then show ?thesis
    using False prov_inv_core [OF core_set_health] by (simp add: initialize_claim_def)
qed

lemma inv_open:
  assumes "prov_inv p"
  shows "prov_inv (initialize_open session home context sentry p)"
proof (cases "th_init p = In_claimed")
  case True
  have q: "pv_sync_queue p = None" "\<not> worker_alive p"
    using assms True by (auto simp: inv_parts)
  then have "ol_pending (pv_outcomes p) = 0" "ol_in_flight (pv_outcomes p) = 0"
    "th_cleanup p = None" "pv_cleanup_pending p = None" "th_shutdown p = Sd_none" "pv_sync_worker p = None"
    using assms by (cases "th_worker p"; auto simp: inv_parts)+
  then show ?thesis
    using assms True by (simp add: initialize_open_def inv_parts)
qed (use assms in \<open>simp add: initialize_open_def\<close>)

text \<open>The setup phase touches the core only when a refused embedding owner is let go.\<close>

lemma core_close_with_queue:
  "pv_sync_queue p \<noteq> None \<Longrightarrow> core (close_embedding_runtime s m p) = core p"
  by (simp add: close_embedding_runtime_def finish_embedding_runtime_close_def Let_def core_def
      split: option.split)

lemma core_setup_load: "core (fst (setup_load env p)) = core p"
  by (auto simp: setup_load_def and_then_def check_def Let_def core_def split: sum.split option.split prod.split)

lemma core_setup_bind: "core (fst (setup_bind env p)) = core p"
  by (auto simp: setup_bind_def and_then_def core_def split: sum.split option.split prod.split)

lemma core_setup_identity:
  assumes "pv_sync_queue p \<noteq> None"
  shows "core (fst (setup_identity env p)) = core p"
proof -
  have *: "core (close_embedding_runtime s m x) = core x" if "core x = core p" for s m x
    using core_close_with_queue [of x] that assms by (simp add: core_def)
  let ?r = "\<lambda>x. x\<lparr>pv_retriever := True, pv_model_fn := ie_model_fn env\<rparr>"
  have retriever: "core (?r x) = core x" for x
    by (simp add: core_def)
  have fields: "core (p\<lparr>pv_runtime_epoch := a, pv_identity_ready := b\<rparr>) = core p"
    "core (p\<lparr>pv_identity_ready := b, pv_warm_cache := c, pv_prefetch_pending := d\<rparr>) = core p"
    "core (p\<lparr>pv_identity_ready := b, pv_warm_cache := c, pv_prefetch_pending := d,
       pv_vector_available := e, pv_sleep_cron_job_id := f, pv_health_cron := g\<rparr>) = core p"
    for a b c d e f g
    by (simp_all add: core_def)
  show ?thesis
    by (auto simp: setup_identity_def and_then_def check_def Let_def retriever * fields
        split: sum.split option.split prod.split)
qed

text \<open>Moving the initializer's program point.\<close>

lemma init_point_frame [simp]:
  "inv_accounting (p\<lparr>th_init := i\<rparr>) = inv_accounting p" "inv_queue (p\<lparr>th_init := i\<rparr>) = inv_queue p"
  by (cases "th_worker p"; simp add: inv_accounting_def inv_queue_def backlog_def worker_alive_def)+

lemma inv_init_point:
  assumes "prov_inv p" "unpublished (th_init p)" "unpublished i" "setting_up i \<Longrightarrow> setting_up (th_init p)"
  shows "prov_inv (p\<lparr>th_init := i\<rparr>)"
proof -
  have "i \<noteq> In_none" "i \<noteq> In_claimed" "th_init p \<noteq> In_none" "\<not> settled (th_init p)" "\<not> settled i"
    using assms(2,3) settled_simps by auto
  then show ?thesis
    using assms by (simp add: prov_inv_def inv_threads_def)
qed

lemma inv_setup:
  assumes "prov_inv p"
  shows "prov_inv (initialize_setup env p)"
proof (cases "th_init p = In_open")
  case True
  obtain p1 e1 where 1: "setup_load env p = (p1, e1)" by fastforce
  obtain p2 e2 where 2: "and_then (p1, e1) (setup_bind env) = (p2, e2)" by fastforce
  obtain p3 e3 where 3: "and_then (p2, e2) (setup_identity env) = (p3, e3)" by fastforce
  have c1: "core p1 = core p" using core_setup_load [of env p] 1 by simp
  have c2: "core p2 = core p"
    using core_setup_bind [of env p1] 2 c1 by (cases e1) (auto simp: and_then_def)
  have "pv_sync_queue p2 \<noteq> None"
    using assms True c2 by (simp add: inv_parts core_def)
  then have c3: "core p3 = core p"
    using core_setup_identity [of p2 env] 3 c2 by (cases e2) (auto simp: and_then_def)
  have r: "initialize_setup env p = p3\<lparr>th_init := (case e3 of Some e \<Rightarrow> In_raised e | None \<Rightarrow> In_setup)\<rparr>"
    using True 1 2 3 by (simp add: initialize_setup_def split: option.split)
  have "prov_inv (p\<lparr>th_init := (case e3 of Some e \<Rightarrow> In_raised e | None \<Rightarrow> In_setup)\<rparr>)"
    using True by (intro inv_init_point [OF assms]) (auto split: option.split)
  moreover have "core (p3\<lparr>th_init := i\<rparr>) = core (p\<lparr>th_init := i\<rparr>)" for i
    using c3 by (simp add: core_def)
  ultimately show ?thesis
    unfolding r using prov_inv_core by blast
qed (use assms in \<open>simp add: initialize_setup_def\<close>)

lemma inv_register:
  assumes "prov_inv p"
  shows "prov_inv (initialize_register env p)"
proof (cases "th_init p = In_setup")
  case True
  let ?i = "if pv_initialization_cancelled p then In_raised cancelled_error else In_ready"
  have "core (initialize_register env p) = core (p\<lparr>th_init := ?i\<rparr>)"
    using True by (simp add: initialize_register_def core_def)
  moreover have "prov_inv (p\<lparr>th_init := ?i\<rparr>)"
    using True by (intro inv_init_point [OF assms]) auto
  ultimately show ?thesis using prov_inv_core by blast
qed (use assms in \<open>simp add: initialize_register_def\<close>)

lemma inv_publish:
  assumes "prov_inv p"
  shows "prov_inv (initialize_publish p)"
proof (cases "th_init p = In_ready \<and> \<not> pv_initialization_cancelled p")
  case True
  have p: "pv_sync_queue p \<noteq> None" "\<not> pv_shutdown_started p" "th_worker p = W_none"
    "pq_items p = []" "pv_cleanup_pending p = None" "th_cleanup p = None" "th_shutdown p = Sd_none"
    using assms True by (auto simp: inv_parts)
  let ?q = "p\<lparr>pv_sync_worker := Some (pv_fresh p), pv_fresh := Suc (pv_fresh p), th_worker := W_get\<rparr>"
  have "prov_inv (?q\<lparr>th_init := In_done\<rparr>)"
    using assms True p by (auto simp: inv_parts)
  moreover have "core ((publish_health ?q)\<lparr>th_init := In_done\<rparr>) = core (?q\<lparr>th_init := In_done\<rparr>)"
    using core_publish_health [of ?q] by (simp add: core_def)
  ultimately have "prov_inv ((publish_health ?q)\<lparr>th_init := In_done\<rparr>)"
    using prov_inv_core by blast
  then show ?thesis
    using True p by (simp add: initialize_publish_def Let_def)
next
  case False
  then show ?thesis
    using assms inv_init_point [OF assms, of "In_raised cancelled_error"]
    by (auto simp: initialize_publish_def)
qed

lemma inv_abort:
  assumes "prov_inv p"
  shows "prov_inv (initialize_abort has_retriever p)"
proof (cases "th_init p")
  case (In_raised e)
  let ?q = "p\<lparr>pv_sync_queue := None, pv_shutdown_started := True, th_init := In_done\<rparr>"
  have p: "th_worker p = W_none" "pq_items p = []" "pv_cleanup_pending p = None" "th_cleanup p = None"
    "th_shutdown p = Sd_none" "pv_sync_worker p = None"
    using assms In_raised by (auto simp: inv_parts)
  have inv: "prov_inv ?q"
    using assms In_raised p by (auto simp: inv_parts)
  obtain x where x: "initialize_abort has_retriever p =
      (close_embedding_runtime (pv_supervisor p) False x)\<lparr>pv_log_scrub := False, th_init := In_done\<rparr>"
    "core x = core (p\<lparr>pv_sync_queue := None, pv_shutdown_started := True\<rparr>)"
  proof -
    let ?b = "p\<lparr>pv_config := None, pv_db_path := None, pv_retriever := False,
                    pv_model_fn := False, pv_identity_ready := False, pv_sync_queue := None,
                    pv_sentry := False, pv_shutdown_started := True\<rparr>"
    let ?x = "if isinstance e C_InitializationCancelledError then
                set_health_locked ''stopped'' (Some ''initialization_cancelled'') None None None ?b
              else set_health_locked ''failed'' (Some (initialization_reason has_retriever e))
                None None (Some e) (?b\<lparr>pv_sync_worker := None\<rparr>)"
    have "core ?x = core (p\<lparr>pv_sync_queue := None, pv_shutdown_started := True\<rparr>)"
      using p(6) by simp (simp add: core_def)
    then show thesis
      using In_raised by (intro that [of ?x]) (auto simp: initialize_abort_def Let_def)
  qed
  have "core (x\<lparr>th_init := In_done\<rparr>) = core ?q"
    using x(2) by (simp add: core_def)
  then have "prov_inv (close_embedding_runtime (pv_supervisor p) False (x\<lparr>th_init := In_done\<rparr>))"
    using inv prov_inv_core inv_close_embedding by blast
  moreover have "core ((close_embedding_runtime (pv_supervisor p) False x)\<lparr>pv_log_scrub := False, th_init := In_done\<rparr>) =
      core (close_embedding_runtime (pv_supervisor p) False (x\<lparr>th_init := In_done\<rparr>))"
    by (simp add: close_embedding_runtime_def finish_embedding_runtime_close_def set_health_locked_def
        Let_def core_def split: option.split)
  ultimately show ?thesis
    unfolding x(1) using prov_inv_core by blast
qed (use assms in \<open>simp_all add: initialize_abort_def\<close>)

lemma inv_finally: "prov_inv p \<Longrightarrow> prov_inv (initialize_finally p)"
proof (cases "th_init p = In_done")
  case True
  assume p: "prov_inv p"
  have "inv_accounting (p\<lparr>pv_initializing := False, pv_initialization_cancelled := False\<rparr>) = inv_accounting p"
    "inv_queue (p\<lparr>pv_initializing := False, pv_initialization_cancelled := False\<rparr>) = inv_queue p"
    by (cases "th_worker p"; simp add: inv_accounting_def inv_queue_def backlog_def worker_alive_def)+
  moreover have "inv_threads (initialize_finally p)"
    using p True by (simp add: initialize_finally_def prov_inv_def inv_threads_def)
  ultimately show ?thesis
    using p True by (simp add: initialize_finally_def prov_inv_def)
qed (simp add: initialize_finally_def)

lemma inv_mark: "prov_inv p \<Longrightarrow> prov_inv (mark_health_if_current h s r f p)"
  using prov_inv_core [OF core_mark] by blast

lemma inv_tool: "prov_inv p \<Longrightarrow> prov_inv (upd_outcomes (record_tool t s e) p)"
  by (rule upd_outcomes_inv) (simp_all add: ledger_ok_record_tool prov_inv_def inv_accounting_def)

lemma inv_tick: "prov_inv p \<Longrightarrow> prov_inv (p\<lparr>pv_clock := t\<rparr>)"
  using prov_inv_core [of "p\<lparr>pv_clock := t\<rparr>" p] by (simp add: core_def)

lemmas inv_steps_all = inv_sync_turn inv_worker_step inv_shutdown_begin inv_shutdown_post
  inv_shutdown_join inv_cleanup inv_embedding_closed inv_claim inv_open inv_setup inv_register
  inv_publish inv_abort inv_finally inv_mark inv_tool inv_tick

interpretation pipeline: invariant_system "\<lambda>p. p = new_provider" prov_step prov_inv
proof unfold_locales
  show "prov_inv p" if "p = new_provider" for p
    using that prov_inv_new by simp
  show "prov_inv q" if "prov_inv p" "prov_step p q" for p q
    using that(2,1) by cases (simp_all add: inv_steps_all)
qed

declare not_None_eq [simp]

end
