(* ===== verification/ProviderProps.thy ===== *)
theory ProviderProps
  imports ProviderInv
begin

text \<open>
  What the invariant of the theory \<^verbatim>\<open>ProviderInv\<close> gives: truthful accounting of
  turns, a bounded queue with nothing behind the sentinel, the drop-oldest policy,
  the classification of a turn's outcome, draining at shutdown, and a life-cycle
  gate that can stay closed.
\<close>

section \<open>Accounting and order\<close>

lemma reachable_inv: "prov_step\<^sup>*\<^sup>* new_provider p \<Longrightarrow> prov_inv p"
  using pipeline.inv_reachable by blast

definition work_of :: "provider \<Rightarrow> string \<Rightarrow> pyval option" where
  "work_of p k =
     (case map_of (health_status Fin None ''none'' p) ''work'' of
        Some (PDict w) \<Rightarrow> map_of w k
      | _ \<Rightarrow> None)"

lemma work_of_simps:
  "work_of p k = map_of (work_snapshot (pv_outcomes p)) k"
  by (simp add: work_of_def health_status_def snapshot_def)


text \<open>
  The queue is bounded and nothing is behind the sentinel. In every reachable
  state the queue has at most 16 items, and in the order in which the worker will
  see them (what it has taken, then the queue) the sentinel occurs at most once
  and last, so no accepted turn is left behind it.
\<close>

theorem queue_bounded_sentinel_last:
  assumes "prov_step\<^sup>*\<^sup>* new_provider p"
  shows "length (pq_items p) \<le> 16 \<and>
    (\<forall>xs ys. worker_items (th_worker p) @ pq_items p = xs @ SHUTDOWN # ys \<longrightarrow>
       ys = [] \<and> SHUTDOWN \<notin> set xs)"
  using reachable_inv [OF assms] tidy_split
  by (fastforce simp: prov_inv_def inv_queue_def backlog_def QUEUE_MAXSIZE_def)

section \<open>The drop-oldest policy\<close>

lemma worker_get_items: "\<exists>n. pq_items (worker_get p) = drop n (pq_items p)"
proof -
  have "pq_items (worker_get p) = pq_items p \<or> pq_items (worker_get p) = drop 1 (pq_items p)"
    by (auto simp: worker_get_def task_done_def
        split: worker_state.split list.split qitem.split nat.split)
  then show ?thesis by (metis drop0)
qed

lemma worker_gets_items: "\<exists>n. pq_items ((worker_get ^^ r) p) = drop n (pq_items p)"
proof (induction r)
  case 0
  show ?case by (intro exI [of _ 0]) simp
next
  case (Suc r)
  then obtain n where "pq_items ((worker_get ^^ r) p) = drop n (pq_items p)" by blast
  moreover obtain m where "pq_items (worker_get ((worker_get ^^ r) p)) = drop m (pq_items ((worker_get ^^ r) p))"
    using worker_get_items by blast
  ultimately show ?case by (intro exI [of _ "m + n"]) simp
qed

lemma make_room_items: "\<exists>n. pq_items (make_room r1 r2 p) = drop n (pq_items p)"
proof -
  obtain n1 where 1: "pq_items ((worker_get ^^ r1) p) = drop n1 (pq_items p)"
    using worker_gets_items by blast
  let ?e = "sync_evict ((worker_get ^^ r1) p)"
  have 2: "pq_items ?e = drop 1 (pq_items ((worker_get ^^ r1) p))"
    by (simp add: sync_evict_def pipe_defs split: list.split)
  obtain n3 where 3: "pq_items ((worker_get ^^ r2) ?e) = drop n3 (pq_items ?e)"
    using worker_gets_items by blast
  show ?thesis
    unfolding make_room_def 3 2 1 by (intro exI [of _ "n3 + (1 + n1)"]) simp
qed

lemma make_room_counts:
  fixes p r1 r2
  defines "q \<equiv> make_room r1 r2 p"
  shows "ol_accepted (pv_outcomes q) = ol_accepted (pv_outcomes p)"
    "ol_rejected (pv_outcomes q) = ol_rejected (pv_outcomes p)"
    "pv_dropped_turn_count q - pv_dropped_turn_count p =
       ol_dropped (pv_outcomes q) - ol_dropped (pv_outcomes p)"
    "ol_dropped (pv_outcomes q) - ol_dropped (pv_outcomes p) \<le> 1"
  by (simp_all add: q_def make_room_def sync_evict_def pipe_defs drop_pending_def Let_def
      split: list.split)


section \<open>The outcome of a turn\<close>

definition persisted_evidence :: "drain_env \<Rightarrow> bool" where
  "persisted_evidence env \<longleftrightarrow>
     (\<exists>before_nodes after_nodes. de_before env = Some before_nodes \<and> de_after env = Some after_nodes \<and>
        before_nodes < after_nodes)"

lemma persist_turn_failure:
  assumes "case de_end_session env of Inr result \<Rightarrow> \<not> result
      | Inl e \<Rightarrow> \<not> (isinstance e C_RuntimeError \<and> py_contains ATEXIT_MESSAGE (exn_msg e))"
  shows "persist_turn env = Some (opaque_upstream (persisted_evidence env))"
proof -
  have "(case (de_before env, de_after env) of
       (Some before_nodes, Some after_nodes) \<Rightarrow> after_nodes > before_nodes | _ \<Rightarrow> False) =
     persisted_evidence env"
    by (auto simp: persisted_evidence_def split: option.splits)
  then show ?thesis
    using assms by (auto simp: persist_turn_def Let_def split: sum.splits bool.splits)
qed

lemma opaque_not_atexit: "\<not> py_contains ATEXIT_MESSAGE ''upstream persistence outcome is not replayable''"
  by code_simp

lemma isinstance_classes:
  "isinstance (mk_exn C_OpaqueUpstreamError m) C_RuntimeError"
  "isinstance (mk_exn C_OpaqueUpstreamError m) C_OpaqueUpstreamError"
  "\<not> isinstance (mk_exn C_OpaqueUpstreamError m) C_PreAdmissionRejectedError"
  "exn_class e = C_OperationAdmissionError \<Longrightarrow> isinstance e C_RuntimeError"
  "exn_class e = C_OperationAdmissionError \<Longrightarrow> \<not> isinstance e C_OpaqueUpstreamError"
  "exn_class e = C_OperationAdmissionError \<Longrightarrow> \<not> isinstance e C_PreAdmissionRejectedError"
  by (simp_all add: isinstance_def)

lemma core_outcomes: "core p = core q \<Longrightarrow> pv_outcomes p = pv_outcomes q"
  by (simp add: core_def)

lemma worker_step_outcomes:
  assumes "th_worker p = W_turn t h rest"
  shows "pv_outcomes (worker_step env p) = pv_outcomes (worker_turn env h p)"
  using assms by (simp add: worker_step_def)

lemma handle_current:
  assumes "prov_inv p" "th_worker p = W_turn t h rest"
  shows "fst h = pv_ledger p" "snd h = pv_health_generation p"
  using assms by (simp_all add: prov_inv_def inv_accounting_def)

text \<open>
  C11: A persisted turn counts as completed and a failed one is never replayed or
  called completed. In a reachable state in which the worker processes a turn for
  a ready provider whose admission succeeds: when the upstream call returns its
  result and nothing else fails, the turn is completed; when the upstream call
  raises, or returns without its result, the turn is counted once, as partial if
  the node count is known to have grown and as uncertain otherwise.
\<close>

theorem turn_outcome_classified:
  assumes "prov_step\<^sup>*\<^sup>* new_provider p" "th_worker p = W_turn t h rest"
    and "pv_identity_ready p" "\<not> pv_shutdown_flag p" "de_admission env = None"
  shows "(de_end_session env = Inr True \<and> de_release env = None \<and> de_think env = None \<longrightarrow>
            pv_outcomes (worker_step env p) = complete (pv_outcomes p)) \<and>
    ((case de_end_session env of Inr result \<Rightarrow> \<not> result
      | Inl e \<Rightarrow> \<not> (isinstance e C_RuntimeError \<and> py_contains ATEXIT_MESSAGE (exn_msg e))) \<longrightarrow>
       pv_outcomes (worker_step env p) =
         fail (persisted_evidence env) (\<not> persisted_evidence env) (pv_outcomes p))"
proof (intro conjI impI)
  have h: "fst h = pv_ledger p" "snd h = pv_health_generation p"
    using handle_current [OF reachable_inv [OF assms(1)] assms(2)] .
  show "pv_outcomes (worker_step env p) = complete (pv_outcomes p)"
    if "de_end_session env = Inr True \<and> de_release env = None \<and> de_think env = None"
  proof -
    have "drain_once env p = (upd_metrics record_sync_success p, Drained True)"
      using that assms(3-5) by (simp add: drain_once_def persist_turn_def Let_def)
    then show ?thesis
      unfolding worker_step_outcomes [OF assms(2)] using h
      by (simp add: worker_turn_def finish_worker_turn_def pipe_defs Let_def)
  qed
  show "pv_outcomes (worker_step env p) =
      fail (persisted_evidence env) (\<not> persisted_evidence env) (pv_outcomes p)"
    if "case de_end_session env of Inr result \<Rightarrow> \<not> result
      | Inl e \<Rightarrow> \<not> (isinstance e C_RuntimeError \<and> py_contains ATEXIT_MESSAGE (exn_msg e))"
  proof -
    have "drain_once env p =
        (p, Drain_raised (fst (opaque_upstream (persisted_evidence env))) (persisted_evidence env))"
      using assms(3-5) persist_turn_failure [OF that]
      by (simp add: drain_once_def drain_handler_def opaque_upstream_def isinstance_classes
          opaque_not_atexit del: py_contains.simps)
    then show ?thesis
      unfolding worker_step_outcomes [OF assms(2)] using h
      by (simp add: worker_turn_def fail_worker_turn_def opaque_upstream_def isinstance_classes
          pipe_defs set_health_locked_def Let_def)
  qed
qed

text \<open>
  A turn that cannot be admitted is reported as a backend failure. The handler
  of \<^verbatim>\<open>_drain_once\<close> that would turn an admission error into a pre-admission rejection
  comes after one for \<^verbatim>\<open>RuntimeError\<close>, of which the admission error is a subclass. So
  in every reachable state an admission error while a turn is processed counts
  the turn as failed, leaves \<^verbatim>\<open>rejected\<close> alone, and degrades a running provider to
  \<^verbatim>\<open>backend_error\<close>.
\<close>

theorem admission_error_counts_as_failure:
  assumes "prov_step\<^sup>*\<^sup>* new_provider p" "th_worker p = W_turn t h rest"
    and "pv_identity_ready p" "\<not> pv_shutdown_flag p"
    and "de_admission env = Some e" "exn_class e = C_OperationAdmissionError"
    and "\<not> py_contains ATEXIT_MESSAGE (exn_msg e)"
  shows "pv_outcomes (worker_step env p) = fail False False (pv_outcomes p) \<and>
    (\<not> pv_shutdown_started p \<and> pv_health_state p \<notin> {''stopping'', ''stopped''} \<longrightarrow>
      pv_health_state (worker_step env p) = ''degraded'' \<and>
      pv_health_reason (worker_step env p) = Some ''backend_error'')"
proof -
  have h: "fst h = pv_ledger p" "snd h = pv_health_generation p"
    using handle_current [OF reachable_inv [OF assms(1)] assms(2)] .
  have "drain_once env p = (p, Drain_raised e False)"
    using assms(3-7) isinstance_classes(4) [OF assms(6)]
    by (simp add: drain_once_def drain_handler_def)
  then show ?thesis
    using h assms(2) isinstance_classes(5,6) [OF assms(6)]
    by (simp add: worker_step_def worker_turn_def fail_worker_turn_def pipe_defs set_health_locked_def
        Let_def)
qed

section \<open>Draining at shutdown\<close>

text \<open>
  A cleared runtime owes nothing. Whenever the provider has no queue, before
  the first initialization, after a failed or cancelled one and after every
  shutdown, no turn is pending or in flight: every accepted turn of the
  generation has reached one of the terminal outcomes.
\<close>

theorem cleared_runtime_owes_nothing:
  assumes "prov_step\<^sup>*\<^sup>* new_provider p" "pv_sync_queue p = None"
  shows "ol_pending (pv_outcomes p) = 0 \<and> ol_in_flight (pv_outcomes p) = 0 \<and>
    ol_accepted (pv_outcomes p) = ol_completed (pv_outcomes p) + ol_failed (pv_outcomes p) +
      ol_partial (pv_outcomes p) + ol_uncertain (pv_outcomes p) + ol_dropped (pv_outcomes p)"
  using reachable_inv [OF assms(1)] assms(2)
  by (cases "th_worker p") (auto simp: inv_parts ledger_ok_def reconciled_def)

text \<open>How many worker steps are left once shutdown has begun.\<close>

fun worker_weight :: "worker_state \<Rightarrow> nat" where
  "worker_weight W_get = 1"
| "worker_weight (W_batch _ items) = 2 * length items + 3"
| "worker_weight (W_items items) = 2 * length items + 2"
| "worker_weight (W_turn _ _ rest) = 2 * length rest + 3"
| "worker_weight _ = 0"

definition drain_steps :: "provider \<Rightarrow> nat" where
  "drain_steps p = 5 * length (pq_items p) + worker_weight (th_worker p)"

text \<open>A turn changes the outcomes and the worker's own state only.\<close>

lemma worker_turn_frame:
  "pq_items (worker_turn env h p) = pq_items p"
  "pv_shutdown_started (worker_turn env h p) = pv_shutdown_started p"
  "pv_sync_queue (worker_turn env h p) = pv_sync_queue p"
  "th_shutdown (worker_turn env h p) = th_shutdown p"
proof -
  define same where "same = (\<lambda>(a :: provider) (b :: provider). pq_items a = pq_items b \<and> pv_shutdown_started a = pv_shutdown_started b \<and>
    pv_sync_queue a = pv_sync_queue b \<and> th_shutdown a = th_shutdown b)"
  have c: "core a = core b \<Longrightarrow> same a b" for a b by (simp add: core_def same_def)
  have o: "same (upd_outcomes f a) a" for f a by (simp add: same_def upd_outcomes_def)
  have r: "same a a" for a by (simp add: same_def)
  have t: "same a b \<Longrightarrow> same b d \<Longrightarrow> same a d" for a b d by (simp add: same_def)
  have h: "same (set_health_locked s r f cr e a) a" "same (upd_metrics g a) a" "same (task_done a) a" for s r f cr e g a
    by (rule c, simp)+
  have f: "same (finish_worker_turn h b a) a" "same (reject_worker_turn h a) a" "same (fail_worker_turn h x b a) a"
    for a b x
    unfolding finish_worker_turn_def reject_worker_turn_def fail_worker_turn_def
    by (auto simp: Let_def intro: t [OF h(1) o] o h r)
  obtain p1 r where d: "drain_once env p = (p1, r)" by fastforce
  have "same p1 p" using c drain_once_core [of env p] d by simp
  then have "same (worker_turn env h p) p"
    using d by (cases r) (auto simp: worker_turn_def Let_def intro!: t [OF h(2)] t [OF h(3)] t [OF f(1)] t [OF f(2)] t [OF f(3)])
  then show "pq_items (worker_turn env h p) = pq_items p"
    "pv_shutdown_started (worker_turn env h p) = pv_shutdown_started p"
    "pv_sync_queue (worker_turn env h p) = pv_sync_queue p"
    "th_shutdown (worker_turn env h p) = th_shutdown p"
    by (simp_all add: same_def)
qed

lemma worker_step_frame [simp]:
  "pv_shutdown_started (worker_step env p) = pv_shutdown_started p"
  "pv_sync_queue (worker_step env p) = pv_sync_queue p"
  by (auto simp: worker_step_def worker_turn_frame pipe_defs
      split: worker_state.split list.split qitem.split)

lemma worker_step_progress:
  assumes "pv_shutdown_started p" "worker_alive p"
  shows "drain_steps (worker_step env p) < drain_steps p"
proof (cases "th_worker p")
  case (W_batch n items)
  then show ?thesis
    by (cases n; cases "pq_items p"; cases "hd (pq_items p)")
      (auto simp: worker_step_def worker_get_def drain_steps_def)
next
  case W_get
  then show ?thesis
    using assms(1) by (cases "pq_items p"; cases "hd (pq_items p)")
      (auto simp: worker_step_def worker_get_def drain_steps_def task_done_def)
next
  case (W_items items)
  then show ?thesis
    by (cases items; cases "hd items")
      (auto simp: worker_step_def drain_steps_def task_done_def upd_outcomes_def)
qed (use assms(2) in \<open>auto simp: worker_step_def drain_steps_def worker_turn_frame worker_alive_def\<close>)

lemma worker_alive_step: "\<not> worker_alive p \<Longrightarrow> worker_step env p = p"
  by (cases "th_worker p") (simp_all add: worker_alive_def worker_step_def)

definition run_worker :: "drain_env list \<Rightarrow> provider \<Rightarrow> provider" where
  "run_worker envs p = fold worker_step envs p"

lemma run_worker_exits:
  assumes "pv_shutdown_started p" "drain_steps p \<le> length envs"
  shows "\<not> worker_alive (run_worker envs p)"
  using assms
proof (induction envs arbitrary: p)
  case Nil
  then show ?case by (cases "th_worker p") (simp_all add: run_worker_def drain_steps_def worker_alive_def)
next
  case (Cons env envs)
  show ?case
  proof (cases "worker_alive p")
    case True
    have "drain_steps (worker_step env p) \<le> length envs"
      using worker_step_progress [OF Cons.prems(1) True, of env] Cons.prems(2) by simp
    then show ?thesis
      using Cons.IH Cons.prems(1) by (simp add: run_worker_def)
  next
    case False
    then have "fold worker_step xs p = p" for xs
      by (induction xs) (simp_all add: worker_alive_step)
    then show ?thesis using False worker_alive_step [OF False] by (simp add: run_worker_def)
  qed
qed

lemma run_worker_reachable: "prov_step\<^sup>*\<^sup>* p (run_worker envs p)"
  unfolding run_worker_def
  by (induction envs arbitrary: p) (auto intro: converse_rtranclp_into_rtranclp st_worker)


section \<open>The life-cycle gate\<close>

definition stuck :: "provider \<Rightarrow> bool" where
  "stuck p \<longleftrightarrow> prov_inv p \<and> pv_shutdown_started p \<and> pv_sync_queue p = None \<and>
     \<not> pv_initializing p \<and> th_closing p = []"

lemma stuck_threads:
  assumes "stuck p"
  shows "th_init p = In_none" "th_shutdown p = Sd_none" "th_cleanup p = None" "\<not> worker_alive p"
  using assms
  by (auto simp: stuck_def prov_inv_def inv_threads_def inv_queue_def simp del: not_None_eq)

lemma stuck_step:
  assumes "prov_step p q" "stuck p"
  shows "stuck q \<and> pv_health_generation q = pv_health_generation p"
proof -
  note s = stuck_threads [OF assms(2)] assms(2)[unfolded stuck_def]
  have "prov_inv q"
    using pipeline.inv_step assms(1) s by blast
  from assms(1) show ?thesis
  proof cases
    case (st_worker env)
    then show ?thesis using assms(2) worker_alive_step [OF s(4)] by simp
  next
    case (st_tool tool success is_empty)
    then show ?thesis using s \<open>prov_inv q\<close> by (simp add: stuck_def upd_outcomes_def)
  next
    case (st_tick d)
    then show ?thesis using s \<open>prov_inv q\<close> by (simp add: stuck_def)
  qed (use s assms(2) in \<open>simp_all add: sync_turn_def sync_admissible_def shutdown_begin_def
        shutdown_post_def shutdown_join_def clear_state_after_workers_exit_def embedding_closed_def
        initialize_claim_def initialize_open_def initialize_setup_def initialize_register_def
        initialize_publish_def initialize_abort_def initialize_finally_def mark_health_if_current_def\<close>)
qed

lemma stuck_forever:
  assumes "prov_step\<^sup>*\<^sup>* p q" "stuck p"
  shows "stuck q \<and> pv_health_generation q = pv_health_generation p"
  using assms by (induction rule: rtranclp_induct) (auto dest: stuck_step)

text \<open>A failing initialization, with a shutdown request just before its last statement.\<close>

definition broken_config :: init_env where
  "broken_config = \<lparr>ie_config = raise C_ValueError ''invalid'', ie_config_file = None,
     ie_db_path = return [], ie_policy = return (False, False), ie_bootstrap = None,
     ie_supervisor = return None, ie_has_retriever = True, ie_mkdir = None,
     ie_identity = return (False, None), ie_model_fn = False, ie_has_cron = False,
     ie_cron_job = None, ie_cron_state = ''disabled''\<rparr>"

definition late_shutdown :: provider where
  "late_shutdown =
     initialize_finally (shutdown_begin False False (initialize_abort True
       (initialize_setup broken_config (initialize_open ''s'' [''home''] ''primary'' False
         (initialize_claim new_provider)))))"

lemma late_shutdown_reachable: "prov_step\<^sup>*\<^sup>* new_provider late_shutdown"
  unfolding late_shutdown_def
  by (rule rtranclp.rtrancl_into_rtrancl, rule rtranclp.rtrancl_into_rtrancl,
      rule rtranclp.rtrancl_into_rtrancl, rule rtranclp.rtrancl_into_rtrancl,
      rule rtranclp.rtrancl_into_rtrancl, rule rtranclp.rtrancl_into_rtrancl,
      rule rtranclp.rtrancl_refl, rule st_claim, rule st_open, rule st_setup, rule st_abort,
      rule st_shutdown, rule st_finally)

lemma late_shutdown_gate:
  "pv_shutdown_started late_shutdown" "pv_sync_queue late_shutdown = None"
  "\<not> pv_initializing late_shutdown" "th_closing late_shutdown = []"
  by (simp_all add: late_shutdown_def initialize_finally_def shutdown_begin_def initialize_abort_def
      initialize_setup_def setup_load_def and_then_def broken_config_def initialize_open_def
      initialize_claim_def new_provider_def set_health_locked_def close_embedding_runtime_def
      finish_embedding_runtime_close_def isinstance_def Let_def)

text \<open>
  The life-cycle gate can stay closed for good. There is a reachable state in
  which no initialization runs, no runtime is owned and nothing is being closed,
  yet the shutdown flag is set: a shutdown request that arrives while a failed
  initialization has already released everything but not yet run its last
  statement. From it no sequence of operations ever claims a generation again.
\<close>

theorem lifecycle_gate_can_stay_closed:
  "\<exists>p. prov_step\<^sup>*\<^sup>* new_provider p \<and> pv_sync_queue p = None \<and> \<not> pv_initializing p \<and>
     \<not> worker_alive p \<and> th_closing p = [] \<and>
     (\<forall>q. prov_step\<^sup>*\<^sup>* p q \<longrightarrow> pv_health_generation q = pv_health_generation p \<and> pv_sync_queue q = None)"
proof -
  have stuck: "stuck late_shutdown"
    using reachable_inv [OF late_shutdown_reachable] late_shutdown_gate by (simp add: stuck_def)
  have "pv_health_generation q = pv_health_generation late_shutdown \<and> pv_sync_queue q = None"
    if "prov_step\<^sup>*\<^sup>* late_shutdown q" for q
    using stuck_forever [OF that stuck] by (simp add: stuck_def)
  then show ?thesis
    using late_shutdown_reachable late_shutdown_gate stuck_threads(4) [OF stuck] by blast
qed

text \<open>In that state a further call of \<^verbatim>\<open>initialize\<close> claims nothing.\<close>

theorem lifecycle_gate_witness:
  "\<exists>p. prov_step\<^sup>*\<^sup>* new_provider p \<and> \<not> pv_initializing p \<and>
     pv_health_generation (initialize_claim p) = pv_health_generation p \<and>
     pv_sync_queue (initialize_claim p) = None"
proof -
  obtain p where p: "prov_step\<^sup>*\<^sup>* new_provider p" "\<not> pv_initializing p"
    and stays: "\<forall>q. prov_step\<^sup>*\<^sup>* p q \<longrightarrow>
      pv_health_generation q = pv_health_generation p \<and> pv_sync_queue q = None"
    using lifecycle_gate_can_stay_closed by blast
  have "prov_step\<^sup>*\<^sup>* p (initialize_claim p)"
    by (blast intro: st_claim)
  then show ?thesis using p stays by blast
qed

section \<open>Witnesses\<close>

text \<open>A provider that was initialized, and one whose worker is inside its first turn.\<close>

definition good_setup :: init_env where
  "good_setup = broken_config\<lparr>ie_config := return (config_of_payload DEFAULTS),
     ie_db_path := return [''home'', ''brain.db''], ie_identity := return (True, Some 1)\<rparr>"

definition booted :: provider where
  "booted = initialize_finally (initialize_publish (initialize_register good_setup
     (initialize_setup good_setup (initialize_open ''s'' [''home''] ''primary'' False
       (initialize_claim new_provider)))))"

definition calm_env :: drain_env where
  "calm_env = \<lparr>de_admission = None, de_before = Some 3, de_after = Some 4, de_end_session = return True,
     de_release = None, de_think = None\<rparr>"

definition one_turn :: provider where
  "one_turn = sync_turn 0 0 ''hi'' ''hello'' [] booted"

definition busy :: provider where
  "busy = run_worker [calm_env, calm_env, calm_env] one_turn"

lemma booted_reachable: "prov_step\<^sup>*\<^sup>* new_provider booted"
  unfolding booted_def
  by (rule rtranclp.rtrancl_into_rtrancl, rule rtranclp.rtrancl_into_rtrancl,
      rule rtranclp.rtrancl_into_rtrancl, rule rtranclp.rtrancl_into_rtrancl,
      rule rtranclp.rtrancl_into_rtrancl, rule rtranclp.rtrancl_into_rtrancl,
      rule rtranclp.rtrancl_refl, rule st_claim, rule st_open, rule st_setup, rule st_register,
      rule st_publish, rule st_finally)

lemma one_turn_reachable: "prov_step\<^sup>*\<^sup>* new_provider one_turn"
  unfolding one_turn_def using booted_reachable st_sync by (rule rtranclp.rtrancl_into_rtrancl)

lemma busy_reachable: "prov_step\<^sup>*\<^sup>* new_provider busy"
  unfolding busy_def using one_turn_reachable run_worker_reachable by (rule rtranclp_trans)

lemmas boot_defs = booted_def initialize_finally_def initialize_publish_def initialize_register_def
  initialize_setup_def setup_load_def setup_bind_def setup_identity_def and_then_def check_def
  good_setup_def broken_config_def initialize_open_def initialize_claim_def new_provider_def
  set_health_locked_def publish_health_def

lemma booted_fields:
  "pv_config booted = Some (config_of_payload DEFAULTS)" "pv_write_enabled booted"
  "pv_identity_ready booted" "\<not> pv_initializing booted" "\<not> pv_shutdown_started booted"
  "pv_sync_queue booted \<noteq> None" "pq_items booted = []" "th_worker booted = W_get"
  "\<not> pv_shutdown_flag booted" "pv_session_id booted = ''s''" "pv_outcomes booted = new_ledger"
  by (simp_all add: boot_defs Let_def)

lemma booted_admissible: "sync_admissible booted"
proof -
  have "cfg_auto_extraction (config_of_payload DEFAULTS)" by code_simp
  then show ?thesis
    using booted_fields by (simp add: sync_admissible_def)
qed

lemma one_turn_fields:
  "pq_items one_turn = [Turn (''hi'', ''hello'', ''s'')]" "th_worker one_turn = W_get"
  "pv_config one_turn = Some (config_of_payload DEFAULTS)" "\<not> pv_shutdown_started one_turn"
  "pv_sync_queue one_turn \<noteq> None" "\<not> pv_initializing one_turn" "pv_identity_ready one_turn"
  "\<not> pv_shutdown_flag one_turn" "pv_outcomes one_turn = admit new_ledger"
  using booted_admissible booted_fields
  by (simp_all add: one_turn_def sync_turn_def put_nowait_def QUEUE_MAXSIZE_def upd_outcomes_def Let_def)

lemma no_batch: "pv_config p = Some (config_of_payload DEFAULTS) \<Longrightarrow> \<not> batch_enabled p"
proof -
  have "\<not> is_feature_enabled (config_of_payload DEFAULTS) ''experimental_batch_sync''" by code_simp
  then show "pv_config p = Some (config_of_payload DEFAULTS) \<Longrightarrow> \<not> batch_enabled p"
    by (simp add: batch_enabled_def)
qed

lemma busy_fields:
  "th_worker busy = W_turn (''hi'', ''hello'', ''s'') (pv_ledger busy, pv_health_generation busy) []"
  "pv_identity_ready busy" "\<not> pv_shutdown_flag busy" "\<not> pv_shutdown_started busy"
  "pv_outcomes busy = start (admit new_ledger)" "pq_items busy = []"
  using one_turn_fields no_batch [OF one_turn_fields(3)]
  by (simp_all add: busy_def run_worker_def worker_step_def worker_get_def upd_outcomes_def)


theorem queue_bounded_sentinel_last_witness:
  "\<exists>p. prov_step\<^sup>*\<^sup>* new_provider p \<and> pq_items p = [Turn (''hi'', ''hello'', ''s''), SHUTDOWN] \<and>
     length (pq_items p) \<le> 16"
proof -
  let ?p = "shutdown_post (shutdown_begin False False one_turn)"
  have r: "prov_step\<^sup>*\<^sup>* new_provider ?p"
    by (rule rtranclp.rtrancl_into_rtrancl, rule rtranclp.rtrancl_into_rtrancl,
        rule one_turn_reachable, rule st_shutdown, rule st_post)
  have "pq_items ?p = [Turn (''hi'', ''hello'', ''s''), SHUTDOWN]"
    using one_turn_fields
    by (simp add: shutdown_post_def shutdown_begin_def put_nowait_def set_health_locked_def
        QUEUE_MAXSIZE_def Let_def del: not_None_eq)
  then show ?thesis
    using queue_bounded_sentinel_last [OF r] r by blast
qed


theorem turn_outcome_classified_witness:
  "ol_completed (pv_outcomes (worker_step calm_env busy)) = 1 \<and>
   ol_partial (pv_outcomes (worker_step (calm_env\<lparr>de_end_session := return False\<rparr>) busy)) = 1"
proof -
  have "pv_outcomes (worker_step calm_env busy) = complete (pv_outcomes busy)"
    using turn_outcome_classified [OF busy_reachable busy_fields(1-3), of calm_env]
    by (simp add: calm_env_def)
  moreover have "pv_outcomes (worker_step (calm_env\<lparr>de_end_session := return False\<rparr>) busy) =
      fail True False (pv_outcomes busy)"
    using turn_outcome_classified [OF busy_reachable busy_fields(1-3), of "calm_env\<lparr>de_end_session := return False\<rparr>"]
    by (simp add: calm_env_def persisted_evidence_def)
  ultimately show ?thesis
    using busy_fields(5) by (simp add: step_simps new_ledger_def)
qed

theorem admission_error_counts_as_failure_witness:
  "\<exists>env. de_admission env = Some (mk_exn C_OperationAdmissionError ''deadline'') \<and>
     ol_failed (pv_outcomes (worker_step env busy)) = 1 \<and> ol_rejected (pv_outcomes (worker_step env busy)) = 0"
proof -
  let ?e = "mk_exn C_OperationAdmissionError ''deadline''"
  let ?env = "calm_env\<lparr>de_admission := Some ?e\<rparr>"
  have "\<not> py_contains ATEXIT_MESSAGE (exn_msg ?e)" by code_simp
  then have "pv_outcomes (worker_step ?env busy) = fail False False (pv_outcomes busy)"
    using admission_error_counts_as_failure [OF busy_reachable busy_fields(1-3), of ?env ?e] by simp
  then show ?thesis
    using busy_fields(5) by (intro exI [of _ ?env]) (simp add: step_simps new_ledger_def)
qed

text \<open>The same provider, shut down after its turn.\<close>

definition stopping :: provider where
  "stopping = shutdown_post (shutdown_begin False False one_turn)"

definition stopped :: provider where
  "stopped = shutdown_join False False (run_worker (replicate 11 calm_env) stopping)"

lemma stopping_reachable: "prov_step\<^sup>*\<^sup>* new_provider stopping"
  unfolding stopping_def
  by (rule rtranclp.rtrancl_into_rtrancl, rule rtranclp.rtrancl_into_rtrancl,
      rule one_turn_reachable, rule st_shutdown, rule st_post)

lemma stopping_fields:
  "pv_shutdown_started stopping" "drain_steps stopping = 11" "th_shutdown stopping = Sd_join"
  "pv_sync_queue stopping \<noteq> None"
  using one_turn_fields
  by (simp_all add: stopping_def shutdown_post_def shutdown_begin_def put_nowait_def
      set_health_locked_def QUEUE_MAXSIZE_def drain_steps_def Let_def del: not_None_eq)

lemma run_worker_frame:
  "pv_sync_queue (run_worker envs p) = pv_sync_queue p"
  unfolding run_worker_def by (induction envs arbitrary: p) simp_all

lemma th_shutdown_step: "th_shutdown (worker_step env p) = th_shutdown p"
  by (auto simp: worker_step_def worker_get_def worker_turn_frame pipe_defs
      split: worker_state.split list.split qitem.split nat.split)


theorem cleared_runtime_owes_nothing_witness:
  "prov_step\<^sup>*\<^sup>* new_provider stopped \<and> ol_pending (pv_outcomes stopped) = 0"
proof -
  let ?w = "run_worker (replicate 11 calm_env) stopping"
  have r: "prov_step\<^sup>*\<^sup>* new_provider stopped"
    unfolding stopped_def
    by (rule rtranclp.rtrancl_into_rtrancl, rule rtranclp_trans, rule stopping_reachable,
        rule run_worker_reachable, rule st_join)
  have dead: "\<not> worker_alive ?w"
    using run_worker_exits [OF stopping_fields(1), of "replicate 11 calm_env"] stopping_fields(2) by simp
  have join: "th_shutdown ?w = Sd_join"
  proof -
    have "th_shutdown (fold worker_step envs p) = th_shutdown p" for envs p
      by (induction envs arbitrary: p) (simp_all add: th_shutdown_step)
    then show ?thesis using stopping_fields(3) by (simp only: run_worker_def)
  qed
  obtain q where q: "pv_sync_queue ?w = Some q"
    using run_worker_frame stopping_fields(4) by (metis not_None_eq)
  have "pv_sync_queue stopped = None"
    using dead join q
    by (auto simp: stopped_def shutdown_join_def clear_runtime_state_def close_embedding_runtime_def
        finish_embedding_runtime_close_def set_health_locked_def worker_alive_def Let_def
        split: option.split)
  then show ?thesis
    using cleared_runtime_owes_nothing [OF r] r by simp
qed

end
