(* ===== verification/Store.thy ===== *)
theory Store
  imports Prelude
begin

text \<open>
  Transactions on a SQLite database. A database is a durable content and, inside a
  transaction, a working copy, beside the backup directory with its finished and
  temporary files; the type of the content is left open. The locale \<open>txn_store\<close> is
  the contract of transactions that the repair workflow, the identity record, the
  embedding migration and the think claim rest on.
\<close>

section \<open>Transactions\<close>

record 'db store =
  st_durable :: 'db
  st_work :: "'db option"
  st_backups :: "(string \<times> 'db) list"
  st_temporary :: nat

definition st_begin :: "'db store \<Rightarrow> 'db store" where
  "st_begin s = s\<lparr>st_work := Some (st_durable s)\<rparr>"

definition st_rollback :: "'db store \<Rightarrow> 'db store" where
  "st_rollback s = s\<lparr>st_work := None\<rparr>"

definition st_write :: "('db \<Rightarrow> 'db) \<Rightarrow> 'db store \<Rightarrow> 'db store" where
  "st_write f s = s\<lparr>st_work := map_option f (st_work s)\<rparr>"

text \<open>
  A commit succeeds; or it raises and the transaction stays open; or it raises and
  the transaction is over, and then the changes are durable or not.
\<close>

datatype commit_outcome = Commit_ok | Commit_kept exn | Commit_over exn bool

definition st_publish :: "'db store \<Rightarrow> 'db store" where
  "st_publish s = (case st_work s of None \<Rightarrow> s | Some w \<Rightarrow> s\<lparr>st_durable := w, st_work := None\<rparr>)"

definition st_commit :: "commit_outcome \<Rightarrow> 'db store \<Rightarrow> 'db store \<times> exn option" where
  "st_commit c s =
     (case c of
        Commit_ok \<Rightarrow> (st_publish s, None)
      | Commit_kept e \<Rightarrow> (s, Some e)
      | Commit_over e durable \<Rightarrow> (if durable then st_publish s else st_rollback s, Some e))"

section \<open>What transactions promise\<close>

locale txn_store =
  fixes durable :: "'s \<Rightarrow> 'db"
    and work :: "'s \<Rightarrow> 'db option"
    and s_begin s_rollback s_publish :: "'s \<Rightarrow> 's"
    and s_write :: "('db \<Rightarrow> 'db) \<Rightarrow> 's \<Rightarrow> 's"
  assumes durable_begin: "durable (s_begin s) = durable s"
    and work_begin: "work (s_begin s) = Some (durable s)"
    and durable_write: "durable (s_write f s) = durable s"
    and work_write: "work (s_write f s) = map_option f (work s)"
    and durable_rollback: "durable (s_rollback s) = durable s"
    and work_rollback: "work (s_rollback s) = None"
    and publish: "work s = Some w \<Longrightarrow> durable (s_publish s) = w \<and> work (s_publish s) = None"
begin

lemma abandoned: "durable (s_rollback (s_write f (s_begin s))) = durable s"
  by (simp add: durable_begin durable_write durable_rollback)

lemma committed:
  "durable (s_publish (s_write f (s_begin s))) = f (durable s) \<and> work (s_publish (s_write f (s_begin s))) = None"
  by (rule publish) (simp add: work_begin work_write)

end

interpretation store: txn_store st_durable st_work st_begin st_rollback st_publish st_write
  by unfold_locales (simp_all add: st_begin_def st_write_def st_rollback_def st_publish_def)

section \<open>One transaction with faults\<close>

text \<open>
  The statements between \<^verbatim>\<open>BEGIN IMMEDIATE\<close> and \<^verbatim>\<open>commit\<close>: \<open>tf_begin\<close> and \<open>tf_body\<close> are
  the exceptions SQLite raises at the first and at a later statement, \<open>tf_commit\<close> what
  the commit does, \<open>tf_rollback\<close> what an explicit rollback raises.
\<close>

record txn_faults =
  tf_connect :: "exn option"
  tf_begin :: "exn option"
  tf_body :: "exn option"
  tf_commit :: commit_outcome
  tf_rollback :: "exn option"

definition no_txn_faults :: txn_faults where
  "no_txn_faults = \<lparr>tf_connect = None, tf_begin = None, tf_body = None, tf_commit = Commit_ok,
     tf_rollback = None\<rparr>"

text \<open>
  \<^verbatim>\<open>conn = connect(); try: BEGIN; body; commit finally: conn.close()\<close>. The body sees the
  content and either raises, or gives its result with the content to commit, or
  with \<open>None\<close> when it rolls back itself. Closing the connection ends a transaction
  that is still open.
\<close>

definition transact ::
    "txn_faults \<Rightarrow> ('db \<Rightarrow> ('db option \<times> 'a) res) \<Rightarrow> 'db store \<Rightarrow> 'db store \<times> 'a res" where
  "transact flt body s =
     (case tf_connect flt of
        Some e \<Rightarrow> (s, Inl e)
      | None \<Rightarrow>
          (case tf_begin flt of
             Some e \<Rightarrow> (st_rollback s, Inl e)
           | None \<Rightarrow>
               (case tf_body flt of
                  Some e \<Rightarrow> (st_rollback (st_begin s), Inl e)
                | None \<Rightarrow>
                    (case body (st_durable s) of
                       Inl e \<Rightarrow> (st_rollback (st_begin s), Inl e)
                     | Inr (None, x) \<Rightarrow> (st_rollback (st_begin s), Inr x)
                     | Inr (Some db, x) \<Rightarrow>
                         (case st_commit (tf_commit flt) (st_write (\<lambda>_. db) (st_begin s)) of
                            (s1, None) \<Rightarrow> (st_rollback s1, Inr x)
                          | (s1, Some e) \<Rightarrow> (st_rollback s1, Inl e))))))"

text \<open>
  A transaction leaves the content as it was or makes it what the body computed;
  a regular result means exactly what the body said.
\<close>

lemma transact_cases:
  assumes "transact flt body s = (s', r)"
  shows "st_backups s' = st_backups s"
    and "\<And>x. r = Inr x \<Longrightarrow> \<exists>d. body (st_durable s) = Inr (d, x) \<and>
           st_durable s' = (case d of None \<Rightarrow> st_durable s | Some db \<Rightarrow> db)"
    and "st_durable s' \<noteq> st_durable s \<Longrightarrow> \<exists>x. body (st_durable s) = Inr (Some (st_durable s'), x)"
  using assms
  by (auto simp: transact_def st_commit_def store.durable_begin store.durable_rollback store.durable_write
      st_publish_def st_rollback_def st_begin_def st_write_def
      split: option.splits sum.splits commit_outcome.splits prod.splits if_splits)

lemma transact_ok:
  assumes "body (st_durable s) = Inr (Some db, x)"
  shows "transact no_txn_faults body s =
    (s\<lparr>st_durable := db, st_work := None\<rparr>, Inr x)"
  using assms
  by (simp add: transact_def no_txn_faults_def st_commit_def st_publish_def st_rollback_def st_begin_def
      st_write_def)

end
