(* ===== verification/Repair.thy ===== *)
theory Repair
  imports Store
begin

text \<open>
  The operator's repair workflow of \<^verbatim>\<open>integrity.py\<close>: explicit confirmation, a
  verified backup, one write-excluding transaction around the upstream repair,
  verification before and after the commit, and a report that says what became of
  the database.

  The database is a \<open>store\<close> whose content's type is left open. \<open>repair_env\<close> has what the calls of the workflow answer: the
  upstream repair and inspection functions (code outside this repository's own
  sources) and every failure of the admission, of SQLite and of the backup. The
  proofs rest on the contract \<open>txn_store\<close> of transactions.
\<close>

section \<open>Reports\<close>

definition repair_unavailable :: "bool \<Rightarrow> pydict" where
  "repair_unavailable confirm =
     [(''schema_version'', PInt 1), (''status'', PStr ''unavailable''), (''mutated'', PBool False),
      (''confirmed'', PBool confirm), (''reason'', PStr ''stable_targeted_repair_api_unavailable''),
      (''message'', PStr (''Cashew repair remains unavailable because this installed Cashew '' @
                          ''does not provide the connection-aware targeted repair API.'')),
      (''repairs'', PList [])]"

definition backup_entry :: "string \<Rightarrow> pyval" where
  "backup_entry p = PDict [(''path'', PStr p), (''verified'', PBool True)]"

definition repair_failure ::
    "string \<Rightarrow> string option \<Rightarrow> bool \<Rightarrow> bool option \<Rightarrow> bool \<Rightarrow> bool \<Rightarrow> bool \<Rightarrow> pydict" where
  "repair_failure reason backup_path rolled_back committed mutated mutation_uncertain recovery_required =
     [(''schema_version'', PInt 1), (''status'', PStr ''unavailable''), (''mutated'', PBool mutated),
      (''confirmed'', PBool True),
      (''committed'', case committed of None \<Rightarrow> PNone | Some b \<Rightarrow> PBool b),
      (''rolled_back'', PBool rolled_back), (''reason'', PStr reason)]
     @ (if mutation_uncertain then [(''mutation_uncertain'', PBool True)] else [])
     @ (if recovery_required then [(''recovery_required'', PBool True)] else [])
     @ (case backup_path of None \<Rightarrow> [] | Some p \<Rightarrow> [(''backup'', backup_entry p)])"

definition simple_failure :: "string \<Rightarrow> pydict" where
  "simple_failure reason = repair_failure reason None False (Some False) False False False"

section \<open>Verification of the declared outcome\<close>

text \<open>Equality of Python values, in which a number equals its other representations.\<close>

fun num_of :: "pyval \<Rightarrow> real option" where
  "num_of (PBool b) = Some (if b then 1 else 0)"
| "num_of (PInt i) = Some (real_of_int i)"
| "num_of (PFloat (Fin r)) = Some r"
| "num_of _ = None"

definition py_eq :: "pyval \<Rightarrow> pyval \<Rightarrow> bool" where
  "py_eq a b =
     (case (num_of a, num_of b) of
        (Some x, Some y) \<Rightarrow> x = y
      | (None, None) \<Rightarrow> a = b
      | _ \<Rightarrow> False)"

definition DEFAULT_ACTIONS :: "string list" where
  "DEFAULT_ACTIONS = [''repair_vec'', ''repair_embeddings'', ''remove_orphan_embeddings'',
     ''remove_orphan_edges'']"

definition ACTION_COUNT_KEYS :: "(string \<times> string list) list" where
  "ACTION_COUNT_KEYS =
     [(''repair_vec'', [''missing_vec'', ''stale_vec'', ''invalid_vec'', ''vec_mismatched'']),
      (''repair_embeddings'', [''missing_embeddings'', ''invalid_embeddings'']),
      (''remove_orphan_embeddings'', [''orphan_embeddings'']),
      (''remove_orphan_edges'', [''orphan_edges'']),
      (''remove_self_edges'', [''self_edges'']),
      (''promote_core_memories'', [''core_memory_not_permanent''])]"

definition actionable_count_keys :: "string list option \<Rightarrow> string \<Rightarrow> string list" where
  "actionable_count_keys actions permanence_policy =
     (let selected = (case actions of None \<Rightarrow> DEFAULT_ACTIONS | Some xs \<Rightarrow> xs)
      in concat (map (\<lambda>a. case map_of ACTION_COUNT_KEYS a of None \<Rightarrow> [] | Some ks \<Rightarrow> ks) selected)
         @ (if permanence_policy \<noteq> ''report'' then [''permanent_and_decayed''] else []))"

text \<open>\<^verbatim>\<open>{key: d[key] for key in keys if d.get(key, 0)}\<close>, looked up at one key.\<close>

definition selected_count :: "pydict \<Rightarrow> string \<Rightarrow> pyval option" where
  "selected_count d k =
     (case map_of d k of None \<Rightarrow> None | Some v \<Rightarrow> if truthy v then Some v else None)"

definition same_counts :: "string list \<Rightarrow> pydict \<Rightarrow> pydict \<Rightarrow> bool" where
  "same_counts keys a b =
     list_all (\<lambda>k. case (selected_count a k, selected_count b k) of
                     (None, None) \<Rightarrow> True
                   | (Some x, Some y) \<Rightarrow> py_eq x y
                   | _ \<Rightarrow> False) keys"

definition repair_verification_matches ::
    "pydict \<Rightarrow> pydict \<Rightarrow> string list option \<Rightarrow> string \<Rightarrow> bool" where
  "repair_verification_matches repair inspection actions permanence_policy =
     (if dict_get inspection ''status'' \<notin> {PStr ''ok'', PStr ''findings''} then False
      else
        let keys = actionable_count_keys actions permanence_policy
        in case (dict_get inspection ''counts'', dict_get repair ''remaining'') of
             (PDict counts, PDict remaining) \<Rightarrow>
               if \<not> same_counts keys counts remaining then False
               else
                 let actual = list_ex (\<lambda>k. selected_count counts k \<noteq> None) keys;
                     status = dict_get repair ''status''
                 in if status = PStr ''completed'' then \<not> actual
                    else if status = PStr ''partial'' then
                      actual \<or> truthy (dict_get repair ''skipped'') \<or> truthy (dict_get repair ''failures'')
                    else False
           | _ \<Rightarrow> False)"

definition profile_repair_request_error ::
    "pyfloat \<Rightarrow> int \<Rightarrow> int \<Rightarrow> string \<Rightarrow> string option" where
  "profile_repair_request_error deadline_seconds batch_size max_items permanence_policy =
     (if (case deadline_seconds of Fin d \<Rightarrow> d < 0 | _ \<Rightarrow> True) then Some ''invalid_deadline''
      else if batch_size \<le> 0 \<or> max_items \<le> 0 then Some ''invalid_repair_bounds''
      else if permanence_policy \<notin> {''report'', ''preserve_permanent'', ''preserve_decay''}
        then Some ''invalid_permanence_policy''
      else None)"

text \<open>
  \<^verbatim>\<open>_profile_identity\<close> on the rows of the provider table: \<open>str_of\<close> is \<^verbatim>\<open>str\<close>; \<open>None\<close> rows
  stand for a failing query.
\<close>

definition profile_identity :: "(pyval \<Rightarrow> string) \<Rightarrow> pydict option \<Rightarrow> (string \<times> int) option" where
  "profile_identity str_of rows =
     (case rows of
        None \<Rightarrow> None
      | Some r \<Rightarrow>
          (case (map_of (rev r) ''embedding_model'', map_of (rev r) ''embedding_dim'') of
             (Some m, Some d) \<Rightarrow>
               (case int_of_str (str_of d) of
                  None \<Rightarrow> None
                | Some dimension \<Rightarrow>
                    let model = py_strip (str_of m)
                    in if model = [] \<or> dimension \<le> 0 then None else Some (model, dimension))
           | _ \<Rightarrow> None))"

section \<open>Delegation to the upstream functions\<close>

text \<open>\<^verbatim>\<open>inspect_integrity\<close>: \<open>api\<close> is whether the upstream module has both functions.\<close>

definition inspect_integrity :: "bool \<Rightarrow> pydict res \<Rightarrow> pydict" where
  "inspect_integrity api upstream =
     (let refused = (\<lambda>reason. [(''schema_version'', PInt 1), (''status'', PStr ''unavailable''),
             (''read_only'', PBool True), (''mutated'', PBool False), (''reason'', PStr reason)])
      in if \<not> api then refused ''stable_targeted_integrity_api_unavailable''
         else case upstream of
           Inl _ \<Rightarrow> refused ''upstream_integrity_inspection_failed''
         | Inr report \<Rightarrow>
             dict_merge (filter (\<lambda>(k, _). k \<noteq> ''expected_model'') report)
               [(''read_only'', PBool True), (''mutated'', PBool False),
                (''adapter'', PDict [(''delegated_to'', PStr ''core.integrity.inspect_integrity'')])])"

definition rejected :: "bool \<Rightarrow> string \<Rightarrow> pydict" where
  "rejected confirmed reason =
     [(''schema_version'', PInt 1), (''status'', PStr ''rejected''), (''mutated'', PBool False),
      (''confirmed'', PBool confirmed), (''reason'', PStr reason)]"

text \<open>
  \<^verbatim>\<open>apply_integrity_repairs\<close> in its connection-owned mode, on a store; \<open>repair_fn\<close> may
  change the working copy also when it raises.
\<close>

definition apply_connection_repairs ::
    "bool \<Rightarrow> ('db \<Rightarrow> 'db \<times> pydict res) \<Rightarrow> 'db store \<Rightarrow> 'db store \<times> pydict" where
  "apply_connection_repairs api repair_fn s =
     (case st_work s of
        None \<Rightarrow> (s, rejected True ''outer_transaction_required'')
      | Some w \<Rightarrow>
          if \<not> api then (s, repair_unavailable True)
          else
            let s' = st_write (\<lambda>x. fst (repair_fn x)) s
            in case snd (repair_fn w) of
                 Inl _ \<Rightarrow>
                   (s', [(''schema_version'', PInt 1), (''status'', PStr ''unavailable''),
                         (''mutated'', PNone), (''mutation_uncertain'', PBool True),
                         (''confirmed'', PBool True),
                         (''reason'', PStr ''upstream_integrity_repair_failed'')])
               | Inr result \<Rightarrow>
                   (s', AList.update ''adapter''
                          (PDict [(''delegated_to'', PStr ''core.integrity.repair_integrity'')])
                          (filter (\<lambda>(k, _). k \<noteq> ''expected_model'')
                             (AList.update ''confirmed'' (PBool True) result))))"

section \<open>The backup\<close>

text \<open>The statement of \<^verbatim>\<open>_create_verified_backup\<close> that fails, if one does.\<close>

datatype backup_stage = Bk_mkdir | Bk_tempfile | Bk_connect | Bk_copy | Bk_check | Bk_chmod | Bk_replace

definition create_verified_backup ::
    "backup_stage option \<Rightarrow> string \<Rightarrow> 'db store \<Rightarrow> 'db store \<times> string res" where
  "create_verified_backup fault target s =
     (if fault = Some Bk_mkdir \<or> fault = Some Bk_tempfile then
        (s, raise C_OSError ''backup directory'')
      else
        let s1 = s\<lparr>st_temporary := Suc (st_temporary s)\<rparr>;
            unlinked = s1\<lparr>st_temporary := st_temporary s1 - 1\<rparr>
        in if fault = Some Bk_check then (unlinked, raise C_SqliteError ''backup_integrity_check_failed'')
           else if fault \<noteq> None then (unlinked, raise C_SqliteError ''backup'')
           else (unlinked\<lparr>st_backups := (target, st_durable s) # st_backups s\<rparr>, return target))"

section \<open>The workflow\<close>

record 'db repair_env =
  re_is_file :: bool
  re_api :: bool
  re_admission :: "exn option"
  re_connect :: "exn option"
  re_rows :: "'db \<Rightarrow> pydict option"
  re_begin :: "exn option"
  re_backup :: "backup_stage option"
  re_backup_name :: string
  re_repair :: "'db \<Rightarrow> 'db \<times> pydict res"
  re_inspect :: "'db \<Rightarrow> pydict res"
  re_rollback :: "exn option"
  re_commit :: commit_outcome
  re_handler_rollback :: "exn option"
  re_release :: "exn option"

record repair_request =
  rr_expected_model :: "string option"
  rr_expected_dimension :: "int option"
  rr_actions :: "string list option"
  rr_permanence_policy :: string
  rr_batch_size :: int
  rr_max_items :: int
  rr_deadline_seconds :: pyfloat

text \<open>The local variables the exception handler reads.\<close>

record repair_progress =
  rp_connected :: bool
  rp_backup :: "string option"
  rp_result :: "pydict option"
  rp_commit_attempted :: bool
  rp_commit_succeeded :: bool

definition no_progress :: repair_progress where
  "no_progress = \<lparr>rp_connected = False, rp_backup = None, rp_result = None,
     rp_commit_attempted = False, rp_commit_succeeded = False\<rparr>"

text \<open>What the body of the admission ends with: a report to return, or an exception.\<close>

datatype body_end = Returned pydict | Raised exn

definition finish_repair :: "'db repair_env \<Rightarrow> repair_request \<Rightarrow> repair_progress \<Rightarrow> pydict \<Rightarrow>
     'db store \<Rightarrow> 'db store \<times> repair_progress \<times> body_end" where
  "finish_repair env rq pr result s =
     (let actions = rr_actions rq; policy = rr_permanence_policy rq;
          inspect = (\<lambda>s. inspect_integrity (re_api env)
                        (re_inspect env (case st_work s of None \<Rightarrow> st_durable s | Some w \<Rightarrow> w)));
          before_commit = inspect s
      in if \<not> repair_verification_matches result before_commit actions policy then
           (case re_rollback env of
              Some e \<Rightarrow> (s, pr, Raised e)
            | None \<Rightarrow>
                (st_rollback s, pr, Returned (repair_failure ''precommit_verification_failed''
                   (rp_backup pr) True (Some False) False False False)))
         else
           let pr = pr\<lparr>rp_commit_attempted := True\<rparr>
           in case st_commit (re_commit env) s of
                (s, Some e) \<Rightarrow> (s, pr, Raised e)
              | (s, None) \<Rightarrow>
                  let pr = pr\<lparr>rp_commit_succeeded := True\<rparr>;
                      after_commit = inspect s
                  in if \<not> repair_verification_matches result after_commit actions policy then
                       (s, pr, Returned (repair_failure ''postcommit_verification_failed'' (rp_backup pr)
                          False (Some True) (truthy (dict_get result ''mutated'')) True True))
                     else
                       (s, pr, Returned (dict_merge result
                          [(''committed'', PBool True), (''rolled_back'', PBool False),
                           (''backup'', case rp_backup pr of None \<Rightarrow> PNone | Some p \<Rightarrow> backup_entry p),
                           (''verification'', PDict [(''before_commit'', PDict before_commit),
                                                  (''after_commit'', PDict after_commit)]),
                           (''operator_workflow'', PDict
                             [(''exclusive_admission'', PBool True),
                              (''sqlite_write_exclusion'', PStr ''BEGIN IMMEDIATE''),
                              (''embedding_cache'', PStr ''unchanged_same_model_content_cache''),
                              (''maintenance_epoch'', PStr ''preserved_same_identity'')])])))"

definition repair_in_transaction :: "(pyval \<Rightarrow> string) \<Rightarrow> 'db repair_env \<Rightarrow> repair_request \<Rightarrow>
     repair_progress \<Rightarrow> 'db store \<Rightarrow> 'db store \<times> repair_progress \<times> body_end" where
  "repair_in_transaction str_of env rq pr s =
     (case create_verified_backup (re_backup env) (re_backup_name env) s of
        (s, Inl e) \<Rightarrow> (s, pr, Raised e)
      | (s, Inr backup_path) \<Rightarrow>
          (case apply_connection_repairs (re_api env) (re_repair env) s of
             (s, result) \<Rightarrow>
               let pr = pr\<lparr>rp_backup := Some backup_path, rp_result := Some result\<rparr>
               in if dict_get result ''status'' \<notin> {PStr ''completed'', PStr ''partial''} then
                    (case re_rollback env of
                       Some e \<Rightarrow> (s, pr, Raised e)
                     | None \<Rightarrow>
                         (st_rollback s, pr, Returned
                            (repair_failure
                               (str_of (dict_get_default result ''reason'' (PStr ''repair_failed'')))
                               (rp_backup pr) True (Some False) False False False
                             @ [(''repair'', PDict result)])))
                  else finish_repair env rq pr result s))"

definition repair_body :: "(pyval \<Rightarrow> string) \<Rightarrow> 'db repair_env \<Rightarrow> repair_request \<Rightarrow> 'db store \<Rightarrow>
     'db store \<times> repair_progress \<times> body_end" where
  "repair_body str_of env rq s =
     (case re_connect env of
        Some e \<Rightarrow> (s, no_progress, Raised e)
      | None \<Rightarrow>
          let pr = no_progress\<lparr>rp_connected := True\<rparr>
          in case profile_identity str_of (re_rows env (st_durable s)) of
               None \<Rightarrow> (s, pr, Returned (simple_failure ''provider_identity_unavailable''))
             | Some (stored_model, stored_dimension) \<Rightarrow>
                 if rr_expected_model rq \<noteq> None \<and> rr_expected_model rq \<noteq> Some stored_model then
                   (s, pr, Returned (simple_failure ''embedding_model_mismatch''))
                 else if rr_expected_dimension rq \<noteq> None \<and>
                         rr_expected_dimension rq \<noteq> Some stored_dimension then
                   (s, pr, Returned (simple_failure ''embedding_dimension_mismatch''))
                 else (case re_begin env of
                    Some e \<Rightarrow> (s, pr, Raised e)
                  | None \<Rightarrow> repair_in_transaction str_of env rq pr (st_begin s)))"

text \<open>The exception handler; the rollback in it may itself raise.\<close>

definition repair_handler ::
    "'db repair_env \<Rightarrow> repair_progress \<Rightarrow> 'db store \<Rightarrow> 'db store \<times> pydict res" where
  "repair_handler env pr s =
     (let report = (\<lambda>rolled_back committed uncertain.
            repair_failure ''operator_repair_failed'' (rp_backup pr) rolled_back committed
              (committed = Some True \<and>
                 (case rp_result pr of None \<Rightarrow> False | Some r \<Rightarrow> truthy (dict_get r ''mutated'')))
              uncertain (committed \<noteq> Some False))
      in if rp_connected pr \<and> st_work s \<noteq> None then
           (case re_handler_rollback env of
              Some e \<Rightarrow> (s, Inl e)
            | None \<Rightarrow> (st_rollback s, return (report True (Some False) False)))
         else
           (s, return (report False
              (if rp_commit_succeeded pr then Some True
               else if rp_commit_attempted pr then None else Some False)
              (rp_commit_attempted pr \<and> \<not> rp_commit_succeeded pr))))"

text \<open>
  The whole workflow. Leaving the admission may raise when the body returned;
  closing the connection at the end ends an open transaction without effect.
\<close>

definition apply_profile_repairs ::
    "(pyval \<Rightarrow> string) \<Rightarrow> 'db repair_env \<Rightarrow> repair_request \<Rightarrow> 'db store \<Rightarrow> 'db store \<times> pydict res" where
  "apply_profile_repairs str_of env rq s =
     (case profile_repair_request_error (rr_deadline_seconds rq) (rr_batch_size rq) (rr_max_items rq)
             (rr_permanence_policy rq) of
        Some reason \<Rightarrow> (s, return (simple_failure reason))
      | None \<Rightarrow>
          if \<not> re_is_file env then (s, return (simple_failure ''profile_not_found''))
          else if \<not> re_api env then (s, return (repair_unavailable True))
          else
            case (case re_admission env of
                    Some e \<Rightarrow> repair_handler env no_progress s
                  | None \<Rightarrow>
                      (case repair_body str_of env rq s of
                         (s, pr, Raised e) \<Rightarrow> repair_handler env pr s
                       | (s, pr, Returned report) \<Rightarrow>
                           (case re_release env of
                              Some e \<Rightarrow> repair_handler env pr s
                            | None \<Rightarrow> (s, return report)))) of
              (s, r) \<Rightarrow> (st_rollback s, r))"

text \<open>\<^verbatim>\<open>apply_integrity_repairs\<close> as an operator calls it, with a path or with a connection.\<close>

datatype 'db repair_target = Target_none | Target_both | Target_path | Target_connection bool

definition apply_integrity_repairs ::
    "(pyval \<Rightarrow> string) \<Rightarrow> bool \<Rightarrow> 'db repair_target \<Rightarrow> 'db repair_env \<Rightarrow> repair_request \<Rightarrow> 'db store \<Rightarrow>
     'db store \<times> pydict res" where
  "apply_integrity_repairs str_of confirm target env rq s =
     (if \<not> confirm then (s, return (rejected False ''explicit_confirmation_required''))
      else case target of
        Target_both \<Rightarrow> (s, return (rejected True ''choose_connection_or_path''))
      | Target_none \<Rightarrow> (s, return (rejected True ''connection_or_path_required''))
      | Target_path \<Rightarrow> apply_profile_repairs str_of env rq s
      | Target_connection is_connection \<Rightarrow>
          if \<not> is_connection then (s, return (rejected True ''caller_connection_required''))
          else (case apply_connection_repairs (re_api env) (re_repair env) s of
                  (s, report) \<Rightarrow> (s, return report)))"

section \<open>The report is true\<close>

definition repaired :: "'db repair_env \<Rightarrow> 'db store \<Rightarrow> 'db" where
  "repaired env s = fst (re_repair env (st_durable s))"

definition backed_up :: "'db repair_env \<Rightarrow> 'db store \<Rightarrow> 'db store \<Rightarrow> bool" where
  "backed_up env s s' \<longleftrightarrow> (re_backup_name env, st_durable s) \<in> set (st_backups s')"

text \<open>What a report claims about the database, against what happened to it.\<close>

definition truthful :: "'db repair_env \<Rightarrow> 'db store \<Rightarrow> 'db store \<Rightarrow> pydict \<Rightarrow> bool" where
  "truthful env s s' report \<longleftrightarrow>
     (case map_of report ''committed'' of
        Some (PBool True) \<Rightarrow> st_durable s' = repaired env s \<and> backed_up env s s' \<and>
          map_of report ''backup'' = Some (backup_entry (re_backup_name env))
      | Some PNone \<Rightarrow> st_durable s' \<in> {st_durable s, repaired env s} \<and> backed_up env s s' \<and>
          map_of report ''backup'' = Some (backup_entry (re_backup_name env)) \<and>
          map_of report ''mutation_uncertain'' = Some (PBool True) \<and>
          map_of report ''recovery_required'' = Some (PBool True)
      | _ \<Rightarrow> st_durable s' = st_durable s)"

definition progress_ok :: "'db repair_env \<Rightarrow> 'db store \<Rightarrow> 'db store \<Rightarrow> repair_progress \<Rightarrow> bool" where
  "progress_ok env s s' pr \<longleftrightarrow>
     (rp_commit_succeeded pr \<longrightarrow> rp_commit_attempted pr) \<and>
     (rp_commit_attempted pr \<longrightarrow> rp_connected pr \<and> rp_backup pr = Some (re_backup_name env) \<and>
        backed_up env s s') \<and>
     (st_work s' \<noteq> None \<longrightarrow> rp_connected pr \<and> \<not> rp_commit_succeeded pr \<and> st_durable s' = st_durable s) \<and>
     (if rp_commit_succeeded pr then st_durable s' = repaired env s
      else if rp_commit_attempted pr then st_durable s' \<in> {st_durable s, repaired env s}
      else st_durable s' = st_durable s)"

definition body_ok :: "'db repair_env \<Rightarrow> 'db store \<Rightarrow> 'db store \<times> repair_progress \<times> body_end \<Rightarrow> bool" where
  "body_ok env s r \<longleftrightarrow>
     (case r of (s', pr, fin) \<Rightarrow> progress_ok env s s' pr \<and>
        (case fin of Returned report \<Rightarrow> st_work s' = None \<and> truthful env s s' report | Raised _ \<Rightarrow> True))"

lemma failure_committed [simp]:
  "map_of (repair_failure r b rb c m u q) ''committed'' =
     Some (case c of None \<Rightarrow> PNone | Some x \<Rightarrow> PBool x)"
  "map_of (repair_failure r b rb c m u q) ''backup'' = map_option backup_entry b"
  "map_of (repair_failure r b rb c m u q) ''mutation_uncertain'' = (if u then Some (PBool True) else None)"
  "map_of (repair_failure r b rb c m u q) ''recovery_required'' = (if q then Some (PBool True) else None)"
  by (simp_all add: repair_failure_def split: option.split)

lemma truthful_simple: "truthful env s s' (simple_failure reason) \<longleftrightarrow> st_durable s' = st_durable s"
  by (simp add: truthful_def simple_failure_def)

lemma truthful_unavailable: "truthful env s s' (repair_unavailable b) \<longleftrightarrow> st_durable s' = st_durable s"
  by (simp add: truthful_def repair_unavailable_def)

lemma truthful_rolled_back:
  "truthful env s s' (repair_failure r b rb (Some False) m u q) \<longleftrightarrow> st_durable s' = st_durable s"
  by (simp add: truthful_def)

text \<open>The state in which the transaction has been written and backed up.\<close>

definition written :: "'db repair_env \<Rightarrow> 'db store \<Rightarrow> 'db store \<Rightarrow> repair_progress \<Rightarrow> bool" where
  "written env s s' pr \<longleftrightarrow> st_durable s' = st_durable s \<and> st_work s' = Some (repaired env s) \<and>
     backed_up env s s' \<and> rp_connected pr \<and> rp_backup pr = Some (re_backup_name env) \<and>
     \<not> rp_commit_attempted pr \<and> \<not> rp_commit_succeeded pr"

lemma map_of_merge_last:
  "distinct (map fst b) \<Longrightarrow> map_of b k = Some v \<Longrightarrow> map_of (dict_merge a b) k = Some v"
  by (simp add: map_of_dict_merge)

lemma written_rollback:
  assumes "written env s s' pr"
  shows "progress_ok env s (st_rollback s') pr" "st_durable (st_rollback s') = st_durable s"
    "st_work (st_rollback s') = None" "progress_ok env s s' pr"
  using assms store.durable_rollback [of s'] store.work_rollback [of s']
  by (auto simp: written_def progress_ok_def st_rollback_def backed_up_def)

lemma written_publish:
  assumes "written env s s' pr"
  shows "st_durable (st_publish s') = repaired env s" "st_work (st_publish s') = None"
    "backed_up env s (st_publish s')"
  using store.publish [of s' "repaired env s"] assms
  by (simp_all add: written_def st_publish_def backed_up_def)

lemma finish_repair_ok:
  assumes w: "written env s s' pr"
  shows "body_ok env s (finish_repair env rq pr result s')"
proof -
  note defs = finish_repair_def body_ok_def Let_def
  let ?m = "\<lambda>x. repair_verification_matches result (inspect_integrity (re_api env) (re_inspect env x))
     (rr_actions rq) (rr_permanence_policy rq)"
  have wk: "st_work s' = Some (repaired env s)" and bk: "rp_backup pr = Some (re_backup_name env)"
    using w by (simp_all add: written_def)
  show ?thesis
  proof (cases "?m (repaired env s)")
    case False
    then show ?thesis
      using wk written_rollback [OF w] by (simp add: defs truthful_rolled_back split: option.split)
  next
    case True
    show ?thesis
    proof (cases "re_commit env")
      case Commit_ok
      have pr: "progress_ok env s (st_publish s') (pr\<lparr>rp_commit_attempted := True, rp_commit_succeeded := True\<rparr>)"
        using w written_publish [OF w] by (simp add: progress_ok_def written_def)
      have backup: "map_of (dict_merge result
          [(''committed'', PBool True), (''rolled_back'', PBool False), (''backup'', backup_entry b),
           (''verification'', v), (''operator_workflow'', ow)]) ''backup'' = Some (backup_entry b)"
        "map_of (dict_merge result
          [(''committed'', PBool True), (''rolled_back'', PBool False), (''backup'', backup_entry b),
           (''verification'', v), (''operator_workflow'', ow)]) ''committed'' = Some (PBool True)" for b v ow
        by (simp_all add: map_of_dict_merge del: dict_merge.simps)
      show ?thesis
        using True Commit_ok wk bk pr written_publish [OF w]
        by (simp add: defs st_commit_def truthful_def backup del: dict_merge.simps)
    next
      case (Commit_kept e)
      then show ?thesis
        using True wk w by (auto simp: defs st_commit_def progress_ok_def written_def)
    next
      case (Commit_over e durable)
      then show ?thesis
        using True wk w written_publish [OF w]
        by (auto simp: defs st_commit_def progress_ok_def written_def st_rollback_def backed_up_def)
    qed
  qed
qed

lemma backup_frame:
  assumes "create_verified_backup fault target s = (s', r)"
  shows "st_durable s' = st_durable s" "st_work s' = st_work s" "st_temporary s' = st_temporary s"
    "r = Inr p \<Longrightarrow> p = target \<and> (target, st_durable s) \<in> set (st_backups s')"
  using assms by (auto simp: create_verified_backup_def Let_def split: if_splits)

lemma connection_repairs_written:
  assumes "apply_connection_repairs api repair_fn s = (s', result)" "st_work s = Some w"
  shows "st_durable s' = st_durable s" "st_backups s' = st_backups s"
    "dict_get result ''status'' \<in> {PStr ''completed'', PStr ''partial''} \<Longrightarrow> st_work s' = Some (fst (repair_fn w))"
    "\<exists>v. st_work s' = Some v"
proof -
  have "st_durable s' = st_durable s \<and> st_backups s' = st_backups s \<and> (\<exists>v. st_work s' = Some v)"
    using assms by (auto simp: apply_connection_repairs_def Let_def st_write_def split: if_splits sum.splits)
  then show "st_durable s' = st_durable s" "st_backups s' = st_backups s" "\<exists>v. st_work s' = Some v"
    by simp_all
  assume "dict_get result ''status'' \<in> {PStr ''completed'', PStr ''partial''}"
  then have api
    using assms by (auto simp: apply_connection_repairs_def repair_unavailable_def dict_get_def split: if_splits)
  then show "st_work s' = Some (fst (repair_fn w))"
    using assms by (auto simp: apply_connection_repairs_def Let_def st_write_def split: sum.splits)
qed

lemma repair_in_transaction_ok:
  assumes "rp_connected pr" "\<not> rp_commit_attempted pr" "\<not> rp_commit_succeeded pr"
  shows "body_ok env s (repair_in_transaction str_of env rq pr (st_begin s))"
proof -
  obtain s1 r where b: "create_verified_backup (re_backup env) (re_backup_name env) (st_begin s) = (s1, r)"
    by fastforce
  have s1: "st_durable s1 = st_durable s" "st_work s1 = Some (st_durable s)"
    using backup_frame(1,2) [OF b] by (simp_all add: store.durable_begin store.work_begin)
  show ?thesis
  proof (cases r)
    case (Inl e)
    then show ?thesis
      using b s1 assms by (simp add: repair_in_transaction_def body_ok_def progress_ok_def)
  next
    case (Inr path)
    have path: "path = re_backup_name env" "(re_backup_name env, st_durable s) \<in> set (st_backups s1)"
      using backup_frame(4) [OF b Inr] by (simp_all add: store.durable_begin)
    obtain s2 result where c: "apply_connection_repairs (re_api env) (re_repair env) s1 = (s2, result)"
      by fastforce
    note s2 = connection_repairs_written [OF c s1(2)]
    let ?pr = "pr\<lparr>rp_backup := Some path, rp_result := Some result\<rparr>"
    show ?thesis
    proof (cases "dict_get result ''status'' \<in> {PStr ''completed'', PStr ''partial''}")
      case True
      then have "written env s s2 ?pr"
        using s1 s2 path assms by (simp add: written_def repaired_def backed_up_def)
      then show ?thesis
        using finish_repair_ok [of env s s2 ?pr rq result] True b c Inr
        by (auto simp: repair_in_transaction_def Let_def)
    next
      case False
      have "progress_ok env s s2 ?pr" "progress_ok env s (st_rollback s2) ?pr"
        using s1 s2(1,4) assms by (auto simp: progress_ok_def st_rollback_def)
      moreover have "truthful env s (st_rollback s2)
          (repair_failure x (rp_backup ?pr) True (Some False) False False False @ y)" for x y
        using s1 s2(1) by (simp add: truthful_def store.durable_rollback map_add_Some_iff)
      ultimately show ?thesis
        using False b c Inr
        by (auto simp: repair_in_transaction_def Let_def body_ok_def store.work_rollback split: option.split)
    qed
  qed
qed

lemma repair_body_ok:
  assumes "st_work s = None"
  shows "body_ok env s (repair_body str_of env rq s)"
proof -
  let ?pr = "no_progress\<lparr>rp_connected := True\<rparr>"
  have 1: "progress_ok env s s no_progress" "progress_ok env s s ?pr"
    using assms by (simp_all add: progress_ok_def no_progress_def)
  have 2: "body_ok env s (repair_in_transaction str_of env rq ?pr (st_begin s))"
    by (rule repair_in_transaction_ok) (simp_all add: no_progress_def)
  show ?thesis
    using 1 2 assms
    by (auto simp: repair_body_def body_ok_def truthful_simple Let_def split: option.split)
qed

lemma repair_handler_ok:
  assumes "progress_ok env s s' pr" "repair_handler env pr s' = (s'', r)"
  shows "case r of Inl _ \<Rightarrow> st_durable s'' = st_durable s | Inr report \<Rightarrow> truthful env s s'' report"
proof (cases "rp_connected pr \<and> st_work s' \<noteq> None")
  case True
  then show ?thesis
    using assms
    by (auto simp: repair_handler_def Let_def progress_ok_def truthful_rolled_back store.durable_rollback
        split: option.splits)
next
  case False
  then have w: "st_work s' = None" using assms(1) by (auto simp: progress_ok_def)
  show ?thesis
    using assms w
    by (cases "rp_commit_succeeded pr"; cases "rp_commit_attempted pr")
      (auto simp: repair_handler_def Let_def truthful_def progress_ok_def)
qed

lemma truthful_close: "truthful env s (st_rollback s') report = truthful env s s' report"
  by (simp add: truthful_def st_rollback_def backed_up_def split: option.split pyval.split bool.split)

text \<open>
  C12: The repair report says what became of the database. Whatever fails, the
  admission, SQLite, the backup, the upstream repair or inspection, the commit
  or a rollback: a report with \<^verbatim>\<open>committed\<close> false, or without that entry, and an
  exception that escapes mean the durable content is unchanged; \<^verbatim>\<open>committed\<close> true
  means it is exactly what the upstream repair produced; and an unknown commit is
  reported as uncertain with recovery required. In the last two cases the content
  from before is in the backup directory under the reported name. No transaction
  is left open.
\<close>

theorem repair_report_truthful:
  assumes "st_work s = None" "apply_profile_repairs str_of env rq s = (s', r)"
  shows "st_work s' = None \<and>
    (case r of Inl _ \<Rightarrow> st_durable s' = st_durable s | Inr report \<Rightarrow> truthful env s s' report)"
proof -
  have start: "progress_ok env s s no_progress"
    using assms(1) by (simp add: progress_ok_def no_progress_def)
  obtain s1 pr fin where body: "repair_body str_of env rq s = (s1, pr, fin)"
    by (cases "repair_body str_of env rq s")
  have b: "progress_ok env s s1 pr" "\<And>rep. fin = Returned rep \<Longrightarrow> st_work s1 = None \<and> truthful env s s1 rep"
    using repair_body_ok [OF assms(1), of env str_of rq] body by (auto simp: body_ok_def)
  consider (request) reason where "s' = s" "r = return (simple_failure reason)"
    | (api) "s' = s" "r = return (repair_unavailable True)"
    | (handler) s2 pr' s3 where "progress_ok env s s2 pr'" "repair_handler env pr' s2 = (s3, r)" "s' = st_rollback s3"
    | (report) rep where "fin = Returned rep" "s' = st_rollback s1" "r = return rep"
    using assms(2) body b(1) start
    by (auto simp: apply_profile_repairs_def split: option.splits if_splits prod.splits body_end.splits)
  then show ?thesis
  proof cases
    case request
    then show ?thesis using assms(1) by (simp add: truthful_simple)
  next
    case api
    then show ?thesis using assms(1) by (simp add: truthful_unavailable)
  next
    case handler
    then show ?thesis
      using repair_handler_ok [OF handler(1,2)]
      by (simp add: truthful_close store.work_rollback store.durable_rollback split: sum.splits)
  next
    case report
    then show ?thesis
      using b(2) [OF report(1)] by (simp add: truthful_close store.work_rollback)
  qed
qed

section \<open>Success is verified\<close>

definition success :: "pydict \<Rightarrow> bool" where
  "success report \<longleftrightarrow> dict_get report ''status'' \<in> {PStr ''completed'', PStr ''partial''}"

lemma not_success [simp]:
  "\<not> success (repair_failure r b rb c m u q)" "\<not> success (repair_failure r b rb c m u q @ x)"
  "\<not> success (repair_unavailable y)" "\<not> success (simple_failure z)"
  by (simp_all add: success_def repair_failure_def repair_unavailable_def simple_failure_def dict_get_def)

text \<open>The fresh inspection of the durable content, and that a result agrees with it.\<close>

definition fresh_inspection :: "'db repair_env \<Rightarrow> 'db store \<Rightarrow> pydict" where
  "fresh_inspection env s = inspect_integrity (re_api env) (re_inspect env (st_durable s))"

definition verified :: "'db repair_env \<Rightarrow> repair_request \<Rightarrow> 'db store \<Rightarrow> pydict \<Rightarrow> bool" where
  "verified env rq s report \<longleftrightarrow> map_of report ''committed'' = Some (PBool True) \<and>
     (\<exists>counts. dict_get (fresh_inspection env s) ''counts'' = PDict counts \<and>
        (dict_get report ''status'' = PStr ''completed'' \<longrightarrow>
           (\<forall>k \<in> set (actionable_count_keys (rr_actions rq) (rr_permanence_policy rq)).
              selected_count counts k = None)))"

lemma verification_matches_counts:
  assumes "repair_verification_matches result inspection actions policy"
  shows "\<exists>counts. dict_get inspection ''counts'' = PDict counts \<and>
     (dict_get result ''status'' = PStr ''completed'' \<longrightarrow>
        (\<forall>k \<in> set (actionable_count_keys actions policy). selected_count counts k = None))"
  using assms
  by (auto simp: repair_verification_matches_def Let_def list_ex_iff split: if_splits pyval.splits)

lemma merge_status:
  "dict_get (dict_merge result
      [(''committed'', a), (''rolled_back'', b), (''backup'', c), (''verification'', d),
       (''operator_workflow'', e)]) ''status'' = dict_get result ''status''"
  "map_of (dict_merge result
      [(''committed'', a), (''rolled_back'', b), (''backup'', c), (''verification'', d),
       (''operator_workflow'', e)]) ''committed'' = Some a"
  by (simp_all add: dict_get_def map_of_dict_merge map_add_def del: dict_merge.simps)

lemma finish_repair_verified:
  assumes "finish_repair env rq pr result s = (s', pr', Returned report)" "st_work s = Some w" "success report"
  shows "verified env rq s' report"
proof -
  let ?m = "\<lambda>x. repair_verification_matches result (inspect_integrity (re_api env) (re_inspect env x))
     (rr_actions rq) (rr_permanence_policy rq)"
  have pub: "st_work (st_publish s) = None" "st_durable (st_publish s) = w"
    using store.publish [OF assms(2)] by simp_all
  have commit: "?m w" "re_commit env = Commit_ok" "s' = st_publish s" "?m (st_durable s')"
    "\<exists>v ow bk. report = dict_merge result [(''committed'', PBool True), (''rolled_back'', PBool False),
        (''backup'', bk), (''verification'', v), (''operator_workflow'', ow)]"
    using assms pub
    by (auto simp: finish_repair_def Let_def st_commit_def simp del: dict_merge.simps
        split: if_splits option.splits commit_outcome.splits)
  then obtain v ow bk where report: "report = dict_merge result [(''committed'', PBool True),
      (''rolled_back'', PBool False), (''backup'', bk), (''verification'', v), (''operator_workflow'', ow)]"
    by blast
  show ?thesis
    using verification_matches_counts [OF commit(4)]
    unfolding verified_def fresh_inspection_def report merge_status by blast
qed

lemma repair_body_verified:
  assumes "repair_body str_of env rq s = (s', pr, Returned report)" "success report"
  shows "verified env rq s' report"
proof -
  have "repair_in_transaction str_of env rq (no_progress\<lparr>rp_connected := True\<rparr>) (st_begin s) = (s', pr, Returned report)"
    using assms by (auto simp: repair_body_def Let_def split: option.splits if_splits prod.splits)
  then obtain s1 path s2 result pr' where
    b: "create_verified_backup (re_backup env) (re_backup_name env) (st_begin s) = (s1, Inr path)"
    and c: "apply_connection_repairs (re_api env) (re_repair env) s1 = (s2, result)"
    and f: "finish_repair env rq pr' result s2 = (s', pr, Returned report)"
    using assms(2)
    by (auto simp: repair_in_transaction_def Let_def split: prod.splits sum.splits if_splits option.splits)
  have "st_work s1 = Some (st_durable s)"
    using backup_frame(2) [OF b] by (simp add: store.work_begin)
  then obtain w where "st_work s2 = Some w"
    using connection_repairs_written(4) [OF c] by blast
  then show ?thesis
    using finish_repair_verified [OF f] assms(2) by blast
qed


section \<open>Witnesses\<close>

text \<open>A database of defects, counted by a number, that the upstream repair brings to zero.\<close>

fun plain_str :: "pyval \<Rightarrow> string" where
  "plain_str (PStr s) = s"
| "plain_str _ = ''3''"

definition good_env :: "nat repair_env" where
  "good_env = \<lparr>re_is_file = True, re_api = True, re_admission = None, re_connect = None,
     re_rows = (\<lambda>_. Some [(''embedding_model'', PStr ''m''), (''embedding_dim'', PStr ''3'')]),
     re_begin = None, re_backup = None, re_backup_name = ''b'',
     re_repair = (\<lambda>_. (0, return [(''status'', PStr ''completed''), (''mutated'', PBool True),
                                   (''remaining'', PDict [])])),
     re_inspect = (\<lambda>n. return [(''status'', PStr ''ok''),
                                (''counts'', PDict [(''orphan_edges'', PInt (int n))])]),
     re_rollback = None, re_commit = Commit_ok, re_handler_rollback = None, re_release = None\<rparr>"

definition default_request :: repair_request where
  "default_request = \<lparr>rr_expected_model = None, rr_expected_dimension = None, rr_actions = None,
     rr_permanence_policy = ''report'', rr_batch_size = 100, rr_max_items = 1000,
     rr_deadline_seconds = Fin 5\<rparr>"

definition damaged :: "nat store" where
  "damaged = \<lparr>st_durable = 5, st_work = None, st_backups = [], st_temporary = 0\<rparr>"

lemma good_repair:
  "\<exists>report. apply_profile_repairs plain_str good_env default_request damaged =
     (\<lparr>st_durable = 0, st_work = None, st_backups = [(''b'', 5)], st_temporary = 0\<rparr>, Inr report) \<and>
     dict_get report ''status'' = PStr ''completed''"
proof -
  have "snd (apply_profile_repairs plain_str good_env default_request damaged) \<noteq> Inl e" for e
    by code_simp
  then obtain report where r: "snd (apply_profile_repairs plain_str good_env default_request damaged) = Inr report"
    by (metis old.sum.exhaust)
  have "fst (apply_profile_repairs plain_str good_env default_request damaged) =
      \<lparr>st_durable = 0, st_work = None, st_backups = [(''b'', 5)], st_temporary = 0\<rparr>"
    by code_simp
  moreover have "(case snd (apply_profile_repairs plain_str good_env default_request damaged) of
      Inl _ \<Rightarrow> False | Inr rep \<Rightarrow> dict_get rep ''status'' = PStr ''completed'')"
    by code_simp
  ultimately show ?thesis
    using r by (intro exI [of _ report]) (simp add: prod_eq_iff)
qed

theorem repair_report_truthful_witness:
  "\<exists>s' report. apply_profile_repairs plain_str good_env default_request damaged = (s', Inr report) \<and>
     st_work s' = None \<and> truthful good_env damaged s' report"
proof -
  obtain report where "apply_profile_repairs plain_str good_env default_request damaged =
     (\<lparr>st_durable = 0, st_work = None, st_backups = [(''b'', 5)], st_temporary = 0\<rparr>, Inr report)"
    using good_repair by blast
  then show ?thesis
    using repair_report_truthful [of damaged plain_str good_env default_request] by (auto simp: damaged_def)
qed


end
