(* ===== verification/GraphDb.thy ===== *)
theory GraphDb
  imports Store
begin

text \<open>
  The part of the graph database that \<^verbatim>\<open>__init__.py\<close> reads and writes itself: the
  provider's key/value table, the thought nodes and their embeddings as far as the
  queries look at them, and the schema and rows of the vector table; and the
  queries. A missing provider table is \<open>None\<close>.
\<close>

section \<open>Tables\<close>

record thought_node =
  tn_id :: string
  tn_decayed :: "int option"
  tn_content :: "string option"

record embedding_row =
  er_node_id :: string
  er_model :: "string option"
  er_bytes :: "nat option"

record vec_table =
  vt_sql :: string
  vt_node_id_column :: bool
  vt_node_ids :: "string list"

type_synonym meta_rows = "(string \<times> string) list"

record graph_db =
  gd_meta :: "meta_rows option"
  gd_nodes :: "thought_node list"
  gd_embeddings :: "embedding_row list"
  gd_vec :: "vec_table option"

text \<open>\<^verbatim>\<open>INSERT OR REPLACE\<close> of several rows.\<close>

definition upsert :: "(string \<times> string) list \<Rightarrow> meta_rows \<Rightarrow> meta_rows" where
  "upsert kvs m = dict_merge m kvs"

lemma map_of_upsert:
  "distinct (map fst kvs) \<Longrightarrow>
   map_of (upsert kvs m) k = (case map_of kvs k of None \<Rightarrow> map_of m k | Some v \<Rightarrow> Some v)"
  by (simp add: upsert_def map_of_dict_merge map_add_def)

section \<open>The dimension in a vector table's schema\<close>

text \<open>\<^verbatim>\<open>re.search(r"float\[(\d+)\]", sql, re.IGNORECASE)\<close> and the \<^verbatim>\<open>int\<close> of its group.\<close>

definition match_float :: "string \<Rightarrow> int option" where
  "match_float s =
     (if py_lower (take 6 s) = ''float['' then
        let ds = takeWhile is_digit (drop 6 s)
        in if ds \<noteq> [] \<and> take 1 (dropWhile is_digit (drop 6 s)) = '']''
           then map_option int (int_digits False 0 ds) else None
      else None)"

fun search_float :: "string \<Rightarrow> int option" where
  "search_float [] = None"
| "search_float (c # cs) =
     (case match_float (c # cs) of Some d \<Rightarrow> Some d | None \<Rightarrow> search_float cs)"

section \<open>Queries\<close>

text \<open>\<^verbatim>\<open>(decayed IS NULL OR decayed = 0) AND content IS NOT NULL AND TRIM(content) != ''\<close>.\<close>

definition sql_trim :: "string \<Rightarrow> string" where
  "sql_trim s = rev (dropWhile (\<lambda>c. c = CHR '' '') (rev (dropWhile (\<lambda>c. c = CHR '' '') s)))"

definition active_node :: "thought_node \<Rightarrow> bool" where
  "active_node n \<longleftrightarrow> (tn_decayed n = None \<or> tn_decayed n = Some 0) \<and>
     (case tn_content n of None \<Rightarrow> False | Some c \<Rightarrow> sql_trim c \<noteq> [])"

definition embedding_dimensions :: "graph_db \<Rightarrow> int set \<times> int option" where
  "embedding_dimensions db =
     ((\<lambda>n. int (n div 4)) ` set (List.map_filter er_bytes (gd_embeddings db)),
      case gd_vec db of None \<Rightarrow> None | Some v \<Rightarrow> search_float (vt_sql v))"

definition active_embedding_ids :: "graph_db \<Rightarrow> string set" where
  "active_embedding_ids db = set (map tn_id (filter active_node (gd_nodes db)))"

text \<open>The join of the embeddings with the active nodes.\<close>

definition active_embeddings :: "graph_db \<Rightarrow> embedding_row list" where
  "active_embeddings db =
     concat (map (\<lambda>e. map (\<lambda>_. e) (filter (\<lambda>n. tn_id n = er_node_id e \<and> active_node n) (gd_nodes db)))
       (gd_embeddings db))"

definition active_embedding_models :: "graph_db \<Rightarrow> string set" where
  "active_embedding_models db = set (List.map_filter er_model (active_embeddings db))"

lemma set_active_embeddings:
  "set (active_embeddings db) =
     {e \<in> set (gd_embeddings db). \<exists>n \<in> set (gd_nodes db). tn_id n = er_node_id e \<and> active_node n}"
  by (auto simp: active_embeddings_def)

text \<open>
  \<^verbatim>\<open>_runtime_metadata\<close>: \<open>mf_connect\<close> is what opening the database raises, \<open>mf_select\<close> what
  the query raises; an operational error of the query, the missing table among
  them, gives an empty dictionary.
\<close>

record meta_faults =
  mf_connect :: "exn option"
  mf_select :: "exn option"

definition no_meta_faults :: meta_faults where
  "no_meta_faults = \<lparr>mf_connect = None, mf_select = None\<rparr>"

definition runtime_metadata :: "meta_faults \<Rightarrow> graph_db \<Rightarrow> meta_rows res" where
  "runtime_metadata flt db =
     (case mf_connect flt of
        Some e \<Rightarrow> Inl e
      | None \<Rightarrow>
          (case mf_select flt of
             Some e \<Rightarrow> if isinstance e C_SqliteOperationalError then return [] else Inl e
           | None \<Rightarrow> return (case gd_meta db of None \<Rightarrow> [] | Some m \<Rightarrow> m)))"

end
