(* ===== verification/Identity.thy ===== *)
theory Identity
  imports GraphDb Admission Provider
begin

text \<open>
  The persisted runtime identity of \<^verbatim>\<open>__init__.py\<close>: the embedding model, the
  dimensions and the maintenance epoch that a provider publishes, and the check of
  an admission against them that comes before every call into the engine.

  \<open>dims\<close> is the \<^verbatim>\<open>dimension\<close> attribute of each embedding supervisor. The locale
  \<open>fenced_register\<close> is what the epoch promises: it moves exactly when the identity
  does, so that a reader who finds its own epoch knows that nothing changed since.
\<close>

section \<open>Publication\<close>

definition active_embedding_dimension :: "(nat \<Rightarrow> int) \<Rightarrow> provider \<Rightarrow> int option" where
  "active_embedding_dimension dims p =
     (case pv_supervisor p of
        None \<Rightarrow> None
      | Some s \<Rightarrow> if dims s \<le> 0 then None else Some (dims s))"

definition IDENTITY_KEYS :: "string list" where
  "IDENTITY_KEYS = [''embedding_model'', ''embedding_dim'', ''vec_dim'', ''maintenance_epoch'']"

type_synonym ident = "string \<times> string \<times> string"

fun identity_values :: "ident \<Rightarrow> (string \<times> string) list" where
  "identity_values (model, edim, vec) =
     [(''embedding_model'', model), (''embedding_dim'', edim), (''vec_dim'', vec)]"

definition old_epoch :: "meta_rows \<Rightarrow> int" where
  "old_epoch previous =
     (case int_of_str (case map_of previous ''maintenance_epoch'' of None \<Rightarrow> ''0'' | Some v \<Rightarrow> v) of
        None \<Rightarrow> 0 | Some i \<Rightarrow> i)"

definition next_epoch :: "ident \<Rightarrow> meta_rows \<Rightarrow> int" where
  "next_epoch i rows =
     (let previous = filter (\<lambda>(k, _). k \<in> set IDENTITY_KEYS) rows;
          identity_changed = list_ex (\<lambda>(k, v). map_of previous k \<noteq> Some v) (identity_values i)
      in if previous = [] \<or> identity_changed then old_epoch previous + 1 else old_epoch previous)"

definition publish_identity :: "ident \<Rightarrow> meta_rows \<Rightarrow> meta_rows" where
  "publish_identity i rows =
     upsert (identity_values i @ [(''maintenance_epoch'', str_of_int (next_epoch i rows))]) rows"

definition identity_of :: "CashewConfig \<Rightarrow> int \<Rightarrow> int option \<Rightarrow> ident" where
  "identity_of cfg edim vec_dim =
     (cfg_embedding_model cfg, str_of_int edim, str_of_int (case vec_dim of None \<Rightarrow> edim | Some d \<Rightarrow> d))"

text \<open>
  \<^verbatim>\<open>_write_runtime_identity\<close>: \<open>dims_fault\<close> is what reading the stored dimensions raises.
  A rollback that raises replaces the exception that led to it.
\<close>

definition write_runtime_identity ::
    "(nat \<Rightarrow> int) \<Rightarrow> exn option \<Rightarrow> txn_faults \<Rightarrow> provider \<Rightarrow> graph_db store \<Rightarrow>
     provider \<times> graph_db store \<times> unit res" where
  "write_runtime_identity dims dims_fault flt p s =
     (case pv_config p of
        None \<Rightarrow> (p, s, return ())
      | Some cfg \<Rightarrow>
          (case active_embedding_dimension dims p of
             None \<Rightarrow> (p, s, raise C_OperationAdmissionError ''embedding dimension is unavailable'')
           | Some edim \<Rightarrow>
               (case dims_fault of
                  Some e \<Rightarrow> (p, s, Inl e)
                | None \<Rightarrow>
                    let i = identity_of cfg edim (snd (embedding_dimensions (st_durable s)));
                        body = (\<lambda>db. case gd_meta db of
                           None \<Rightarrow> raise C_SqliteOperationalError ''no such table: hermes_provider_meta''
                         | Some rows \<Rightarrow>
                             return (Some (db\<lparr>gd_meta := Some (publish_identity i rows)\<rparr>), next_epoch i rows))
                    in case transact flt body s of
                         (s1, Inr epoch) \<Rightarrow> (p\<lparr>pv_runtime_epoch := Some epoch\<rparr>, s1, return ())
                       | (s1, Inl e) \<Rightarrow>
                           (p, s1, Inl (if tf_connect flt = None then
                                          (case tf_rollback flt of None \<Rightarrow> e | Some r \<Rightarrow> r)
                                        else e)))))"

section \<open>Validation\<close>

definition str_of_opt :: "int option \<Rightarrow> string" where
  "str_of_opt d = (case d of None \<Rightarrow> ''None'' | Some i \<Rightarrow> str_of_int i)"

definition stale :: "string option \<Rightarrow> string \<Rightarrow> bool" where
  "stale stored expected \<longleftrightarrow> stored \<noteq> None \<and> stored \<noteq> Some expected"

text \<open>The checks against the persisted record, unless the caller tolerates a mismatch.\<close>

definition metadata_error ::
    "provider \<Rightarrow> OperationAdmission \<Rightarrow> CashewConfig \<Rightarrow> int option \<Rightarrow> meta_rows \<Rightarrow> string option" where
  "metadata_error p token cfg expected_dim metadata =
     (if (oa_epoch token \<noteq> None \<or> pv_runtime_epoch p \<noteq> None) \<and>
         int_of_str (case map_of metadata ''maintenance_epoch'' of None \<Rightarrow> [] | Some v \<Rightarrow> v) = None
      then Some ''persisted maintenance epoch is invalid''
      else if (oa_epoch token \<noteq> None \<or> pv_runtime_epoch p \<noteq> None) \<and>
         (let persisted = int_of_str (case map_of metadata ''maintenance_epoch'' of None \<Rightarrow> [] | Some v \<Rightarrow> v)
          in oa_epoch token \<noteq> persisted \<or> pv_runtime_epoch p \<noteq> persisted)
      then Some ''persisted maintenance epoch is stale''
      else if stale (map_of metadata ''embedding_model'') (cfg_embedding_model cfg)
      then Some ''persisted embedding model is stale''
      else if stale (map_of metadata ''embedding_dim'') (str_of_opt expected_dim)
      then Some ''persisted embedding dimension is stale''
      else if stale (map_of metadata ''vec_dim'') (str_of_opt expected_dim)
      then Some ''persisted vector dimension is stale''
      else None)"

text \<open>The checks before the record is read; the dimension the later ones expect.\<close>

definition token_error ::
    "(nat \<Rightarrow> int) \<Rightarrow> provider \<Rightarrow> OperationAdmission \<Rightarrow> path \<Rightarrow> CashewConfig \<Rightarrow> string option" where
  "token_error dims p token graph cfg =
     (if oa_graph_path token \<noteq> Some graph then Some ''graph admission path mismatch''
      else if oa_model token \<noteq> Some (cfg_embedding_model cfg) then Some ''graph admission model mismatch''
      else if pv_supervisor p \<noteq> None \<and>
              (active_embedding_dimension dims p = None \<or>
               oa_embedding_dim token \<notin> {None, active_embedding_dimension dims p})
      then Some ''graph admission dimension mismatch''
      else if pv_supervisor p \<noteq> None \<and> oa_supervisor token \<noteq> pv_supervisor p
      then Some ''embedding supervisor generation mismatch''
      else if pv_runtime_epoch p \<noteq> None \<and> oa_epoch token \<notin> {None, pv_runtime_epoch p}
      then Some ''maintenance epoch mismatch''
      else None)"

definition expected_dimension :: "(nat \<Rightarrow> int) \<Rightarrow> provider \<Rightarrow> OperationAdmission \<Rightarrow> int option" where
  "expected_dimension dims p token =
     (if pv_supervisor p \<noteq> None then active_embedding_dimension dims p else oa_embedding_dim token)"

definition validate_runtime_identity ::
    "(path \<Rightarrow> path res) \<Rightarrow> (nat \<Rightarrow> int) \<Rightarrow> meta_faults \<Rightarrow> bool \<Rightarrow> provider \<Rightarrow>
     OperationAdmission option \<Rightarrow> graph_db \<Rightarrow> unit res" where
  "validate_runtime_identity fs_resolve dims flt allow_mismatch p token db =
     (case (token, pv_db_path p, pv_config p) of
        (Some token, Some db_path, Some cfg) \<Rightarrow>
          bind_res (fs_resolve db_path) (\<lambda>graph.
            case token_error dims p token graph cfg of
              Some msg \<Rightarrow> raise C_OperationAdmissionError msg
            | None \<Rightarrow>
                bind_res (runtime_metadata flt db) (\<lambda>metadata.
                  case (if allow_mismatch then None
                        else metadata_error p token cfg (expected_dimension dims p token) metadata) of
                    Some msg \<Rightarrow> raise C_OperationAdmissionError msg
                  | None \<Rightarrow>
                      if oa_vec_dim token \<notin> {None, expected_dimension dims p token}
                      then raise C_OperationAdmissionError ''admitted vector dimension mismatch''
                      else return ()))
      | _ \<Rightarrow> raise C_OperationAdmissionError ''operation has no active identity'')"

section \<open>Admission of a provider operation\<close>

text \<open>
  \<^verbatim>\<open>_operation_admission\<close> up to its \<^verbatim>\<open>yield\<close>: the flag says that the admission in force
  was reused. \<open>cache_path\<close> is \<^verbatim>\<open>_embedding_cache_path\<close>.
\<close>

definition admission_reusable ::
    "(nat \<Rightarrow> int) \<Rightarrow> provider \<Rightarrow> bool \<Rightarrow> path \<Rightarrow> path option \<Rightarrow> CashewConfig \<Rightarrow> OperationAdmission \<Rightarrow> bool" where
  "admission_reusable dims p exclusive graph cache cfg current \<longleftrightarrow>
     oa_graph_path current = Some graph \<and> oa_cache_path current = cache \<and>
     oa_model current = Some (cfg_embedding_model cfg) \<and>
     oa_embedding_dim current = active_embedding_dimension dims p \<and>
     oa_vec_dim current = active_embedding_dimension dims p \<and>
     oa_supervisor current = pv_supervisor p \<and>
     oa_embedding_generation current = map_option (\<lambda>g. PInt (int g)) (pv_embedding_generation p) \<and>
     (pv_runtime_epoch p \<noteq> None \<longrightarrow> oa_epoch current = pv_runtime_epoch p) \<and>
     (exclusive \<longrightarrow> oa_exclusive current) \<and>
     (cache \<noteq> None \<longrightarrow> oa_cache_lease current \<noteq> None)"

definition operation_request ::
    "(nat \<Rightarrow> int) \<Rightarrow> provider \<Rightarrow> bool \<Rightarrow> path \<Rightarrow> path option \<Rightarrow> CashewConfig \<Rightarrow> adm_request" where
  "operation_request dims p exclusive db_path cache_path cfg =
     \<lparr>rq_graph_path = Some db_path, rq_cache_path = cache_path, rq_model = Some (cfg_embedding_model cfg),
      rq_embedding_dim = active_embedding_dimension dims p,
      rq_vec_dim = active_embedding_dimension dims p, rq_epoch = pv_runtime_epoch p,
      rq_supervisor = pv_supervisor p,
      rq_embedding_generation = map_option (\<lambda>g. PInt (int g)) (pv_embedding_generation p),
      rq_exclusive = exclusive, rq_cache_exclusive = exclusive, rq_deadline = 3 / 2\<rparr>"

definition operation_admission ::
    "(path \<Rightarrow> path res) \<Rightarrow> (nat \<Rightarrow> int) \<Rightarrow> (nat \<Rightarrow> lock_faults) \<Rightarrow> meta_faults \<Rightarrow> schedule \<Rightarrow> bool \<Rightarrow> nat \<Rightarrow>
     path option \<Rightarrow> bool \<Rightarrow> provider \<Rightarrow> graph_db \<Rightarrow> adm_world \<Rightarrow>
     (adm_world \<times> (bool \<times> OperationAdmission) res) option" where
  "operation_admission fs_resolve dims flt mflt sc ambient fuel cache_attr exclusive p db w =
     (case (pv_db_path p, pv_config p) of
        (Some db_path, Some cfg) \<Rightarrow>
          let cache_path = (if pv_cache_writes_disabled p then None else cache_attr)
          in (case aw_current w of
                Some current \<Rightarrow>
                  Some (w,
                    bind_res (fs_resolve db_path) (\<lambda>graph.
                      bind_res (canonical fs_resolve cache_path) (\<lambda>cache.
                        if admission_reusable dims p exclusive graph cache cfg current
                        then return (True, current)
                        else raise C_OperationAdmissionError ''operation admission identity mismatch'')))
              | None \<Rightarrow>
                  (case admit_operation fs_resolve flt sc ambient fuel
                          (operation_request dims p exclusive db_path cache_path cfg) w of
                     None \<Rightarrow> None
                   | Some (w1, Inl e) \<Rightarrow> Some (w1, Inl e)
                   | Some (w1, Inr token) \<Rightarrow>
                       (case validate_runtime_identity fs_resolve dims mflt False p (Some token) db of
                          Inr _ \<Rightarrow> Some (w1, return (False, token))
                        | Inl e \<Rightarrow>
                            (case admit_exit flt ambient False token (Some e) w1 of
                               (w2, Some e') \<Rightarrow> Some (w2, Inl e')
                             | (w2, None) \<Rightarrow> Some (w2, Inl e)))))
      | _ \<Rightarrow> Some (w, raise C_OperationAdmissionError ''provider is not initialized''))"

section \<open>What the epoch promises\<close>

locale fenced_register =
  fixes publish :: "'i \<Rightarrow> 'r \<Rightarrow> 'r" and epoch :: "'r \<Rightarrow> int" and ident :: "'r \<Rightarrow> 'i option"
  assumes ident_publish: "ident (publish i r) = Some i"
    and epoch_kept: "ident r = Some i \<Longrightarrow> epoch (publish i r) = epoch r"
    and epoch_moved: "ident r \<noteq> Some i \<Longrightarrow> epoch (publish i r) = epoch r + 1"
begin

text \<open>A step publishes some identity or leaves both the epoch and the identity alone.\<close>

definition reg_step :: "'r \<Rightarrow> 'r \<Rightarrow> bool" where
  "reg_step r r' \<longleftrightarrow> (\<exists>i. r' = publish i r) \<or> epoch r' = epoch r \<and> ident r' = ident r"

lemma reg_step_epoch: "reg_step r r' \<Longrightarrow> epoch r < epoch r' \<or> epoch r' = epoch r \<and> ident r' = ident r"
  unfolding reg_step_def using ident_publish epoch_kept epoch_moved by (metis less_add_one)

lemma reg_steps_epoch:
  "reg_step\<^sup>*\<^sup>* r r' \<Longrightarrow> epoch r < epoch r' \<or> epoch r' = epoch r \<and> ident r' = ident r"
  by (induction rule: rtranclp_induct) (auto dest: reg_step_epoch)

text \<open>Who finds its epoch again knows that the identity was the same all along.\<close>

lemma unchanged_throughout:
  assumes "reg_step\<^sup>*\<^sup>* r1 r2" "reg_step\<^sup>*\<^sup>* r2 r3" "epoch r3 = epoch r1"
  shows "epoch r2 = epoch r1 \<and> ident r2 = ident r1"
  using reg_steps_epoch [OF assms(1)] reg_steps_epoch [OF assms(2)] assms(3) by auto

end

definition stored_identity :: "meta_rows \<Rightarrow> ident option" where
  "stored_identity m =
     (case (map_of m ''embedding_model'', map_of m ''embedding_dim'', map_of m ''vec_dim'') of
        (Some model, Some d, Some v) \<Rightarrow> Some (model, d, v)
      | _ \<Rightarrow> None)"

lemma map_of_identity_filter:
  "k \<in> set IDENTITY_KEYS \<Longrightarrow> map_of (filter (\<lambda>(k, _). k \<in> set IDENTITY_KEYS) m) k = map_of m k"
  by (induction m) auto

lemma identity_key [simp]:
  "''embedding_model'' \<in> set IDENTITY_KEYS" "''embedding_dim'' \<in> set IDENTITY_KEYS"
  "''vec_dim'' \<in> set IDENTITY_KEYS" "''maintenance_epoch'' \<in> set IDENTITY_KEYS"
  by (simp_all add: IDENTITY_KEYS_def)

lemma next_epoch_eq:
  "next_epoch i m = old_epoch m + (if stored_identity m = Some i then 0 else 1)"
proof -
  let ?p = "filter (\<lambda>(k, _). k \<in> set IDENTITY_KEYS) m"
  have e: "old_epoch ?p = old_epoch m"
    by (simp add: old_epoch_def map_of_identity_filter)
  obtain a b c where i: "i = (a, b, c)" by (cases i)
  have ch: "list_ex (\<lambda>(k, v). map_of ?p k \<noteq> Some v) (identity_values i) \<longleftrightarrow> stored_identity m \<noteq> Some i"
    by (auto simp: i stored_identity_def map_of_identity_filter split: option.splits)
  have "stored_identity m = None" if "?p = []"
    using map_of_identity_filter [of "''embedding_model''" m] that by (simp add: stored_identity_def)
  then show ?thesis
    using ch e by (auto simp: next_epoch_def Let_def)
qed

lemma map_of_publish:
  "map_of (publish_identity (a, b, c) m) k =
     (if k = ''embedding_model'' then Some a else if k = ''embedding_dim'' then Some b
      else if k = ''vec_dim'' then Some c
      else if k = ''maintenance_epoch'' then Some (str_of_int (next_epoch (a, b, c) m))
      else map_of m k)"
  unfolding publish_identity_def by (subst map_of_upsert) auto

lemma old_epoch_publish: "old_epoch (publish_identity i m) = next_epoch i m"
  by (cases i) (simp add: old_epoch_def map_of_publish int_of_str_of_int)

lemma stored_identity_publish: "stored_identity (publish_identity i m) = Some i"
  by (cases i) (simp add: stored_identity_def map_of_publish)

interpretation epochs: fenced_register publish_identity old_epoch stored_identity
  by unfold_locales (simp_all add: stored_identity_publish old_epoch_publish next_epoch_eq)

section \<open>Publication refines the register\<close>

definition meta_of :: "graph_db store \<Rightarrow> meta_rows" where
  "meta_of s = (case gd_meta (st_durable s) of None \<Rightarrow> [] | Some m \<Rightarrow> m)"

text \<open>The abstract register: the identity, if one is published, and the epoch.\<close>

definition abs_register :: "meta_rows \<Rightarrow> ident option \<times> int" where
  "abs_register m = (stored_identity m, old_epoch m)"

definition spec_publish :: "ident \<Rightarrow> ident option \<times> int \<Rightarrow> ident option \<times> int" where
  "spec_publish i r = (Some i, if fst r = Some i then snd r else snd r + 1)"

lemma abs_publish: "abs_register (publish_identity i m) = spec_publish i (abs_register m)"
  by (simp add: abs_register_def spec_publish_def stored_identity_publish old_epoch_publish next_epoch_eq)

lemma write_identity_cases:
  assumes "write_runtime_identity dims df flt p s = (p', s', r)"
    and "pv_config p = Some cfg" "active_embedding_dimension dims p = Some d"
  defines "i \<equiv> identity_of cfg d (snd (embedding_dimensions (st_durable s)))"
  shows "(st_durable s' = st_durable s \<or>
      (\<exists>m. gd_meta (st_durable s) = Some m \<and> st_durable s' = (st_durable s)\<lparr>gd_meta := Some (publish_identity i m)\<rparr>)) \<and>
    (case r of
       Inl _ \<Rightarrow> p' = p
     | Inr _ \<Rightarrow> \<exists>m. gd_meta (st_durable s) = Some m \<and>
         st_durable s' = (st_durable s)\<lparr>gd_meta := Some (publish_identity i m)\<rparr> \<and>
         p' = p\<lparr>pv_runtime_epoch := Some (next_epoch i m)\<rparr>)"
proof (cases df)
  case None
  let ?b = "\<lambda>db. case gd_meta db of
      None \<Rightarrow> raise C_SqliteOperationalError ''no such table: hermes_provider_meta''
    | Some rows \<Rightarrow> return (Some (db\<lparr>gd_meta := Some (publish_identity i rows)\<rparr>), next_epoch i rows)"
  obtain s1 q where t: "transact flt ?b s = (s1, q)" by fastforce
  show ?thesis
    using assms(1-3) None t transact_cases(2,3) [OF t]
    by (cases q) (fastforce simp: write_runtime_identity_def i_def [symmetric] Let_def split: option.splits)+
qed (use assms in \<open>auto simp: write_runtime_identity_def\<close>)

text \<open>
  C14: Publishing the runtime identity implements the abstract register. Under every
  fault of SQLite the stored record is the old one or the published one, where the
  epoch moves by one exactly when the identity is not the stored one. If the call
  returns, the record is published and the provider holds the epoch in it; if it
  raises, the provider's epoch is as before. No other row and no other table is
  touched.
\<close>

theorem write_identity_refines_register:
  assumes "write_runtime_identity dims df flt p s = (p', s', r)"
    and "pv_config p = Some cfg" "active_embedding_dimension dims p = Some d"
    and "gd_meta (st_durable s) \<noteq> None"
  shows "(let i = identity_of cfg d (snd (embedding_dimensions (st_durable s)));
              old = abs_register (meta_of s); new = abs_register (meta_of s')
          in (case r of
                Inr _ \<Rightarrow> new = spec_publish i old \<and> p' = p\<lparr>pv_runtime_epoch := Some (snd new)\<rparr>
              | Inl _ \<Rightarrow> (new = old \<or> new = spec_publish i old) \<and> p' = p)) \<and>
    (\<forall>k. k \<notin> set IDENTITY_KEYS \<longrightarrow> map_of (meta_of s') k = map_of (meta_of s) k) \<and>
    (st_durable s')\<lparr>gd_meta := None\<rparr> = (st_durable s)\<lparr>gd_meta := None\<rparr>"
proof -
  let ?i = "identity_of cfg d (snd (embedding_dimensions (st_durable s)))"
  obtain m where m: "gd_meta (st_durable s) = Some m" using assms(4) by auto
  have other: "map_of (publish_identity ?i m) k = map_of m k" if "k \<notin> set IDENTITY_KEYS" for k
    using that by (cases ?i) (auto simp: map_of_publish IDENTITY_KEYS_def)
  have epoch: "next_epoch ?i m = snd (spec_publish ?i (abs_register m))"
    by (simp add: spec_publish_def abs_register_def next_epoch_eq)
  show ?thesis
    using write_identity_cases [OF assms(1-3)] m
    by (auto simp: meta_of_def abs_publish other epoch Let_def split: sum.splits)
qed

section \<open>The epoch fences stale providers\<close>

text \<open>
  What happens to the record while a provider is not looking: any provider
  publishes its identity, with any outcome, or something that leaves the identity
  rows alone happens to the database.
\<close>

inductive identity_step :: "graph_db store \<Rightarrow> graph_db store \<Rightarrow> bool" where
  id_publish: "write_runtime_identity dims df flt q s = (q', s', r) \<Longrightarrow> identity_step s s'"
| id_other: "(\<And>k. k \<in> set IDENTITY_KEYS \<Longrightarrow> map_of (meta_of s') k = map_of (meta_of s) k) \<Longrightarrow>
     identity_step s s'"

lemma identity_step_register:
  "identity_step s s' \<Longrightarrow> epochs.reg_step (meta_of s) (meta_of s')"
proof (induction rule: identity_step.induct)
  case (id_publish dims df flt q s q' s' r)
  show ?case
  proof (cases "pv_config q = None \<or> active_embedding_dimension dims q = None")
    case True
    then have "s' = s"
      using id_publish by (auto simp: write_runtime_identity_def split: option.splits)
    then show ?thesis by (simp add: epochs.reg_step_def)
  next
    case False
    then obtain cfg d where "pv_config q = Some cfg" "active_embedding_dimension dims q = Some d" by auto
    from write_identity_cases [OF id_publish this] show ?thesis
      unfolding epochs.reg_step_def by (auto simp: meta_of_def simp del: split_paired_Ex)
  qed
next
  case (id_other s' s)
  then have "old_epoch (meta_of s') = old_epoch (meta_of s)" "stored_identity (meta_of s') = stored_identity (meta_of s)"
    by (simp_all add: old_epoch_def stored_identity_def)
  then show ?case by (simp add: epochs.reg_step_def)
qed

lemma identity_steps_register:
  "identity_step\<^sup>*\<^sup>* s s' \<Longrightarrow> epochs.reg_step\<^sup>*\<^sup>* (meta_of s) (meta_of s')"
  by (induction rule: rtranclp_induct)
    (auto dest: identity_step_register intro: rtranclp.rtrancl_into_rtrancl)

text \<open>A validated provider found its own epoch in the record.\<close>

lemma validated_epoch:
  assumes "validate_runtime_identity fs_resolve dims flt False p (Some token) (st_durable s) = Inr ()"
    and "pv_runtime_epoch p = Some e"
  shows "old_epoch (meta_of s) = e" "oa_epoch token = Some e"
proof -
  obtain cfg metadata where md: "runtime_metadata flt (st_durable s) = Inr metadata"
    "metadata_error p token cfg (expected_dimension dims p token) metadata = None"
    using assms(1)
    by (auto simp: validate_runtime_identity_def res_simps split: option.splits if_splits prod.splits)
  have ep: "int_of_str (case map_of metadata ''maintenance_epoch'' of None \<Rightarrow> [] | Some v \<Rightarrow> v) = Some e"
    "oa_epoch token = Some e"
    using md(2) assms(2) by (auto simp: metadata_error_def Let_def split: if_splits)
  then obtain v where v: "map_of metadata ''maintenance_epoch'' = Some v" "int_of_str v = Some e"
    by (auto simp: int_of_str_def split: option.splits)
  then have "metadata = meta_of s"
    using md(1) by (auto simp: runtime_metadata_def meta_of_def split: option.splits if_splits)
  then show "old_epoch (meta_of s) = e" using v by (simp add: old_epoch_def)
  show "oa_epoch token = Some e" by (rule ep(2))
qed

text \<open>
  C15: The epoch fences stale providers. Let a provider publish its identity and
  later pass the validation that comes before every engine call. Then at no point
  in between, whatever other providers published and however their transactions
  ended, did the record hold another identity or another epoch; in particular a
  change that was undone again does not go unnoticed.
\<close>

theorem epoch_fences_stale_providers:
  assumes "write_runtime_identity dims df flt p s0 = (p', s1, Inr ())" "pv_config p = Some cfg"
    and "identity_step\<^sup>*\<^sup>* s1 s2" "identity_step\<^sup>*\<^sup>* s2 s3"
    and "validate_runtime_identity fs_resolve dims' mflt False p' (Some token) (st_durable s3) = Inr ()"
  shows "\<exists>d. active_embedding_dimension dims p = Some d \<and>
    stored_identity (meta_of s2) = Some (identity_of cfg d (snd (embedding_dimensions (st_durable s0)))) \<and>
    oa_epoch token = Some (old_epoch (meta_of s2))"
proof -
  obtain d where d: "active_embedding_dimension dims p = Some d"
    using assms(1,2) by (auto simp: write_runtime_identity_def split: option.splits)
  let ?i = "identity_of cfg d (snd (embedding_dimensions (st_durable s0)))"
  obtain m where m: "meta_of s1 = publish_identity ?i m" "pv_runtime_epoch p' = Some (next_epoch ?i m)"
    using write_identity_cases [OF assms(1,2) d] by (auto simp: meta_of_def)
  have e: "old_epoch (meta_of s3) = old_epoch (meta_of s1)" "oa_epoch token = Some (old_epoch (meta_of s1))"
    using validated_epoch [OF assms(5) m(2)] m(1) by (simp_all add: old_epoch_publish)
  have "old_epoch (meta_of s2) = old_epoch (meta_of s1) \<and> stored_identity (meta_of s2) = stored_identity (meta_of s1)"
    by (rule epochs.unchanged_throughout [OF identity_steps_register [OF assms(3)]
          identity_steps_register [OF assms(4)] e(1)])
  then show ?thesis
    using d e(2) m(1) by (simp add: stored_identity_publish)
qed

section \<open>An admitted operation has the provider's identity\<close>

definition carries_identity ::
    "(path \<Rightarrow> path res) \<Rightarrow> (nat \<Rightarrow> int) \<Rightarrow> bool \<Rightarrow> provider \<Rightarrow> OperationAdmission \<Rightarrow> bool" where
  "carries_identity fs_resolve dims exclusive p token \<longleftrightarrow>
     (\<exists>db_path graph cfg. pv_db_path p = Some db_path \<and> fs_resolve db_path = Inr graph \<and>
        pv_config p = Some cfg \<and> oa_graph_path token = Some graph \<and>
        oa_model token = Some (cfg_embedding_model cfg) \<and>
        oa_embedding_dim token = active_embedding_dimension dims p \<and>
        oa_vec_dim token = active_embedding_dimension dims p \<and>
        oa_supervisor token = pv_supervisor p \<and>
        (pv_runtime_epoch p \<noteq> None \<longrightarrow> oa_epoch token = pv_runtime_epoch p) \<and>
        (exclusive \<longrightarrow> oa_exclusive token))"

lemma operation_admission_cases:
  assumes "operation_admission fs_resolve dims flt mflt sc ambient fuel cache_attr exclusive p db w = Some (w', r)"
  obtains (refused) e where "r = Inl e" "w' = w"
  | (reused) token where "r = Inr (True, token)" "w' = w" "aw_current w = Some token"
      "carries_identity fs_resolve dims exclusive p token"
  | (failed) e rq where "aw_current w = None" "r = Inl e"
      "admit_operation fs_resolve flt sc ambient fuel rq w = Some (w', Inl e)"
  | (stale) e e' rq token w1 where "aw_current w = None" "r = Inl e"
      "admit_operation fs_resolve flt sc ambient fuel rq w = Some (w1, Inr token)"
      "admit_exit flt ambient False token (Some e') w1 = (w', Some e)"
  | (fresh) token rq cfg db_path cache where "aw_current w = None" "r = Inr (False, token)"
      "pv_db_path p = Some db_path" "pv_config p = Some cfg"
      "rq = operation_request dims p exclusive db_path cache cfg"
      "admit_operation fs_resolve flt sc ambient fuel rq w = Some (w', Inr token)"
      "validate_runtime_identity fs_resolve dims mflt False p (Some token) db = Inr ()"
proof (cases "(pv_db_path p, pv_config p)")
  case (Pair a b)
  show ?thesis
  proof (cases "a = None \<or> b = None")
    case True
    then show ?thesis
      using assms Pair refused by (auto simp: operation_admission_def split: option.splits)
  next
    case False
    then obtain db_path cfg where pc: "pv_db_path p = Some db_path" "pv_config p = Some cfg"
      using Pair by auto
    let ?cache = "if pv_cache_writes_disabled p then None else cache_attr"
    let ?rq = "operation_request dims p exclusive db_path ?cache cfg"
    show ?thesis
    proof (cases "aw_current w")
      case (Some current)
      then show ?thesis
        using assms pc refused reused
        by (auto simp: operation_admission_def Let_def bind_res_def admission_reusable_def carries_identity_def
            split: sum.splits if_splits)
    next
      case None
      then obtain w1 q where q: "admit_operation fs_resolve flt sc ambient fuel ?rq w = Some (w1, q)"
        using assms pc by (auto simp: operation_admission_def Let_def split: option.splits)
      show ?thesis
      proof (cases q)
        case (Inl e)
        then show ?thesis
          using assms pc None q failed by (auto simp: operation_admission_def Let_def)
      next
        case (Inr token)
        show ?thesis
        proof (cases "validate_runtime_identity fs_resolve dims mflt False p (Some token) db")
          case (Inr u)
          then have "w' = w1" "r = Inr (False, token)"
            using assms pc None q \<open>q = Inr token\<close> by (simp_all add: operation_admission_def Let_def)
          then show ?thesis
            using fresh [OF None _ pc refl] q \<open>q = Inr token\<close> Inr by simp
        next
          case (Inl e)
          obtain w2 x where x: "admit_exit flt ambient False token (Some e) w1 = (w2, x)" by fastforce
          then obtain e' where "x = Some e'"
            by (auto simp: admit_exit_def Let_def split: option.splits prod.splits if_splits)
          then have "w' = w2" "r = Inl e'"
            using assms pc None q \<open>q = Inr token\<close> Inl x by (simp_all add: operation_admission_def Let_def)
          then show ?thesis
            using stale [OF None] q \<open>q = Inr token\<close> x \<open>x = Some e'\<close> by blast
        qed
      qed
    qed
  qed
qed

lemma canonical_Some: "canonical fs_resolve (Some x) = Inr g \<longleftrightarrow> (\<exists>y. fs_resolve x = Inr y \<and> g = Some y)"
  by (auto simp: canonical_def res_simps)


section \<open>Witnesses\<close>

definition bare_graph :: "graph_db store" where
  "bare_graph = \<lparr>st_durable = \<lparr>gd_meta = Some [], gd_nodes = [], gd_embeddings = [], gd_vec = None\<rparr>,
     st_work = None, st_backups = [], st_temporary = 0\<rparr>"

definition bound_provider :: provider where
  "bound_provider = new_provider\<lparr>pv_config := Some (config_of_payload DEFAULTS),
     pv_db_path := Some [''home'', ''brain.db''], pv_supervisor := Some 0\<rparr>"

abbreviation ones_dims :: "nat \<Rightarrow> int" where
  "ones_dims \<equiv> \<lambda>_. 384"

definition default_identity :: ident where
  "default_identity = identity_of (config_of_payload DEFAULTS) 384 None"

definition published_graph :: "graph_db store" where
  "published_graph = bare_graph\<lparr>st_durable := (st_durable bare_graph)
     \<lparr>gd_meta := Some (publish_identity default_identity [])\<rparr>\<rparr>"

lemma bare_fields [simp]:
  "gd_meta (st_durable bare_graph) = Some []" "st_work bare_graph = None"
  "snd (embedding_dimensions (st_durable bare_graph)) = None"
  by (simp_all add: bare_graph_def embedding_dimensions_def)

lemma bound_fields [simp]:
  "pv_config bound_provider = Some (config_of_payload DEFAULTS)"
  "active_embedding_dimension ones_dims bound_provider = Some 384"
  "pv_supervisor bound_provider = Some 0" "pv_runtime_epoch bound_provider = None"
  "pv_db_path bound_provider = Some [''home'', ''brain.db'']"
  by (simp_all add: bound_provider_def active_embedding_dimension_def new_provider_def)

lemma old_epoch_Nil: "old_epoch [] = 0"
  by code_simp

lemma first_epoch: "next_epoch i [] = 1"
  by (simp add: next_epoch_eq stored_identity_def old_epoch_Nil)

lemma first_publication:
  "write_runtime_identity ones_dims None no_txn_faults bound_provider bare_graph =
     (bound_provider\<lparr>pv_runtime_epoch := Some 1\<rparr>, published_graph, Inr ())"
proof -
  let ?b = "\<lambda>db. case gd_meta db of
      None \<Rightarrow> raise C_SqliteOperationalError ''no such table: hermes_provider_meta''
    | Some rows \<Rightarrow> return (Some (db\<lparr>gd_meta := Some (publish_identity default_identity rows)\<rparr>),
        next_epoch default_identity rows)"
  have "transact no_txn_faults ?b bare_graph = (published_graph, Inr 1)"
    by (subst transact_ok) (simp_all add: first_epoch published_graph_def bare_graph_def)
  then show ?thesis
    by (simp add: write_runtime_identity_def Let_def flip: default_identity_def)
qed

theorem write_identity_refines_register_witness:
  "\<exists>p s. write_runtime_identity ones_dims None no_txn_faults bound_provider bare_graph = (p, s, Inr ()) \<and>
     abs_register (meta_of s) = (Some default_identity, 1)"
proof -
  have "abs_register (meta_of published_graph) = spec_publish default_identity (abs_register (meta_of bare_graph))"
    using write_identity_refines_register [OF first_publication bound_fields(1,2)]
    by (simp add: default_identity_def [symmetric] Let_def)
  then show ?thesis
    using first_publication by (simp add: spec_publish_def abs_register_def meta_of_def stored_identity_def old_epoch_Nil)
qed

definition bound_token :: OperationAdmission where
  "bound_token = make_token (Some [''home'', ''brain.db'']) None
     (operation_request ones_dims (bound_provider\<lparr>pv_runtime_epoch := Some 1\<rparr>) False [''home'', ''brain.db''] None
        (config_of_payload DEFAULTS)) (Some \<lparr>cm_fd = 0, cm_acquired = True\<rparr>, None) 0"

lemma published_validates:
  "validate_runtime_identity return ones_dims no_meta_faults False (bound_provider\<lparr>pv_runtime_epoch := Some 1\<rparr>)
     (Some bound_token) (st_durable published_graph) = Inr ()"
proof -
  have d: "active_embedding_dimension ones_dims (bound_provider\<lparr>pv_runtime_epoch := Some 1\<rparr>) = Some 384"
    by (simp add: active_embedding_dimension_def)
  obtain a b c where i: "default_identity = (a, b, c)" "a = cfg_embedding_model (config_of_payload DEFAULTS)"
    "b = str_of_int 384" "c = str_of_int 384"
    by (simp add: default_identity_def identity_of_def)
  have m: "map_of (publish_identity default_identity []) ''maintenance_epoch'' = Some (str_of_int 1)"
    "map_of (publish_identity default_identity []) ''embedding_model'' = Some a"
    "map_of (publish_identity default_identity []) ''embedding_dim'' = Some (str_of_int 384)"
    "map_of (publish_identity default_identity []) ''vec_dim'' = Some (str_of_int 384)"
    unfolding i by (simp_all add: map_of_publish first_epoch)
  show ?thesis
    by (simp add: validate_runtime_identity_def token_error_def bound_token_def make_token_def operation_request_def
        d expected_dimension_def runtime_metadata_def no_meta_faults_def published_graph_def metadata_error_def
        m i(2) int_of_str_of_int stale_def str_of_opt_def)
qed

theorem epoch_fences_stale_providers_witness:
  "identity_step\<^sup>*\<^sup>* bare_graph published_graph \<and>
   stored_identity (meta_of published_graph) = Some default_identity \<and> oa_epoch bound_token = Some 1"
proof -
  have "identity_step bare_graph published_graph"
    by (rule id_publish [OF first_publication])
  moreover have "stored_identity (meta_of published_graph) = Some default_identity \<and>
      oa_epoch bound_token = Some (old_epoch (meta_of published_graph))"
    using epoch_fences_stale_providers [OF first_publication bound_fields(1) _ _ published_validates]
    by (simp add: default_identity_def)
  ultimately show ?thesis
    by (auto simp: published_graph_def meta_of_def old_epoch_publish first_epoch)
qed

lemma bound_admits:
  "\<exists>w. operation_admission return ones_dims no_faults no_meta_faults quiet False 1 None False
     (bound_provider\<lparr>pv_runtime_epoch := Some 1\<rparr>) (st_durable published_graph) idle_world =
     Some (w, Inr (False, bound_token))"
proof -
  let ?p = "bound_provider\<lparr>pv_runtime_epoch := Some 1\<rparr>"
  let ?rq = "operation_request ones_dims ?p False [''home'', ''brain.db''] None (config_of_payload DEFAULTS)"
  have "\<exists>w. admit_operation return no_faults quiet False 1 ?rq idle_world = Some (w, Inr bound_token)"
    by (simp add: admit_operation_def canonical_def operation_request_def idle_world_def quiet_def
        acquire_leases_def lease_enter_def lock_enter_def lock_path_for_db_def no_faults_def no_locks_def
        open_lock_file_def set_lock_def flock_grant_def Let_def grant_def stack_of_def bound_token_def)
  then show ?thesis
    using published_validates idle_ok(2) by (auto simp: operation_admission_def Let_def)
qed


end
