(* ===== verification/Migration.thy ===== *)
theory Migration
  imports Identity
begin

text \<open>
  The embedding migration at start-up: inspection of the stored vectors, the
  mandatory backup, the engine's destructive re-embedding, the postconditions and
  the restore of the backup when one of them fails; and the schema of the vector
  table.

  \<open>migration_env\<close> has what each read of the database raises, how the backup goes
  (\<^verbatim>\<open>core/backup.py\<close>) and what \<^verbatim>\<open>migrate_embeddings\<close> does to the database, which is left
  open: the statements hold whatever it does.
\<close>

section \<open>Backup\<close>

text \<open>
  \<open>be_main_file\<close> is what the database file alone holds, which is the content less
  whatever is only in the write-ahead log: the copy that replaces a failing
  \<^verbatim>\<open>VACUUM INTO\<close> takes that file.
\<close>

record backup_env =
  be_exists :: bool
  be_nonempty :: bool
  be_mkdir :: "exn option"
  be_vacuum :: "exn option"
  be_copy :: "exn option"
  be_main_file :: "graph_db \<Rightarrow> graph_db"
  be_name :: string

definition create_backup :: "backup_env \<Rightarrow> graph_db store \<Rightarrow> graph_db store \<times> string option res" where
  "create_backup env s =
     (if \<not> be_exists env \<or> \<not> be_nonempty env then (s, return None)
      else case be_mkdir env of
        Some e \<Rightarrow> (s, Inl e)
      | None \<Rightarrow>
          (case be_vacuum env of
             None \<Rightarrow>
               (s\<lparr>st_backups := (be_name env, st_durable s) # st_backups s\<rparr>, return (Some (be_name env)))
           | Some e \<Rightarrow>
               if isinstance e C_SqliteError then
                 (case be_copy env of
                    None \<Rightarrow>
                      (s\<lparr>st_backups := (be_name env, be_main_file env (st_durable s)) # st_backups s\<rparr>,
                       return (Some (be_name env)))
                  | Some c \<Rightarrow> if isinstance c C_OSError then (s, return None) else (s, Inl c))
               else if isinstance e C_Exception then (s, return None)
               else (s, Inl e)))"

section \<open>Inspection\<close>

record migration_env =
  mg_dims :: "exn option"
  mg_models :: "exn option"
  mg_meta :: meta_faults
  mg_backup :: backup_env
  mg_ids :: "exn option"
  mg_migrate :: "graph_db \<Rightarrow> graph_db \<times> pydict res"
  mg_dims_after :: "exn option"
  mg_rows_after :: "exn option"
  mg_extension :: "exn option"
  mg_restore :: "exn option"

definition read_or :: "exn option \<Rightarrow> 'a \<Rightarrow> 'a res" where
  "read_or fault x = (case fault of Some e \<Rightarrow> Inl e | None \<Rightarrow> Inr x)"

text \<open>The three reads at the head of both functions.\<close>

definition inspect_embeddings ::
    "migration_env \<Rightarrow> graph_db \<Rightarrow> ((int set \<times> int option) \<times> string set \<times> meta_rows) res" where
  "inspect_embeddings env db =
     bind_res (read_or (mg_dims env) (embedding_dimensions db)) (\<lambda>ds.
       bind_res (read_or (mg_models env) (active_embedding_models db)) (\<lambda>models.
         bind_res (runtime_metadata (mg_meta env) db) (\<lambda>metadata. return (ds, models, metadata))))"

definition embedding_migration_required ::
    "migration_env \<Rightarrow> (nat \<Rightarrow> int) \<Rightarrow> provider \<Rightarrow> graph_db \<Rightarrow> bool res" where
  "embedding_migration_required env dims p db =
     (case pv_config p of
        None \<Rightarrow> return True
      | Some cfg \<Rightarrow>
          (case active_embedding_dimension dims p of
             None \<Rightarrow> return True
           | Some expected_dim \<Rightarrow>
               (case inspect_embeddings env db of
                  Inl e \<Rightarrow> if isinstance e C_Exception then return True else Inl e
                | Inr ((stored_dims, vec_dim), stored_models, metadata) \<Rightarrow>
                    let stored_mismatch = stored_dims \<noteq> {} \<and> stored_dims \<noteq> {expected_dim};
                        vec_mismatch = vec_dim \<noteq> None \<and> vec_dim \<noteq> Some expected_dim;
                        model_mismatch = stored_models \<noteq> {} \<and> stored_models \<noteq> {cfg_embedding_model cfg};
                        persisted_model_mismatch =
                          map_of metadata ''embedding_model'' \<notin> {None, Some (cfg_embedding_model cfg)};
                        persisted_dim_mismatch =
                          map_of metadata ''embedding_dim'' \<notin> {None, Some (str_of_int expected_dim)}
                    in return (stored_mismatch \<or> vec_mismatch \<or> model_mismatch \<or> persisted_model_mismatch
                               \<or> persisted_dim_mismatch))))"

section \<open>Postconditions\<close>

text \<open>\<^verbatim>\<open>any(row[1] != expected_model or int(row[2]) != expected_dimension for row in rows)\<close>.\<close>

fun any_row_bad :: "string \<Rightarrow> int \<Rightarrow> embedding_row list \<Rightarrow> bool res" where
  "any_row_bad model d [] = return False"
| "any_row_bad model d (e # es) =
     (if er_model e \<noteq> Some model then return True
      else case er_bytes e of
        None \<Rightarrow> raise C_TypeError ''int() argument must be a string or a number''
      | Some n \<Rightarrow> if int (n div 4) \<noteq> d then return True else any_row_bad model d es)"

definition migration_postconditions ::
    "migration_env \<Rightarrow> string set \<Rightarrow> string \<Rightarrow> int \<Rightarrow> int option \<Rightarrow> graph_db \<Rightarrow> unit res" where
  "migration_postconditions env expected_ids model d vec_dimension db =
     bind_res (read_or (mg_rows_after env) (active_embeddings db)) (\<lambda>rows.
       if er_node_id ` set rows \<noteq> expected_ids
       then raise C_RuntimeError ''migration postcondition active node IDs mismatch''
       else bind_res (any_row_bad model d rows) (\<lambda>bad.
         if bad then raise C_RuntimeError ''migration postcondition model or dimension mismatch''
         else if vec_dimension = None then return ()
         else case mg_extension env of
           Some e \<Rightarrow> if isinstance e C_Exception then return () else Inl e
         | None \<Rightarrow>
             (case gd_vec db of
                None \<Rightarrow> raise C_SqliteOperationalError ''no such table: vec_embeddings''
              | Some v \<Rightarrow>
                  if \<not> vt_node_id_column v
                  then raise C_SqliteOperationalError ''no such column: node_id''
                  else if set (vt_node_ids v) \<noteq> expected_ids
                  then raise C_RuntimeError ''migration postcondition vec node IDs mismatch''
                  else return ())))"

section \<open>The migration under the exclusive lease\<close>

text \<open>\<^verbatim>\<open>summary.get("nodes_embedded")\<close> is an integer, not a boolean, and the expected one.\<close>

definition count_ok :: "pydict \<Rightarrow> nat \<Rightarrow> bool" where
  "count_ok summary n \<longleftrightarrow> dict_get summary ''nodes_embedded'' = PInt (int n)"

text \<open>The statements of the \<^verbatim>\<open>try\<close> block, on the database after the engine ran.\<close>

definition migration_check ::
    "migration_env \<Rightarrow> CashewConfig \<Rightarrow> int \<Rightarrow> string set \<Rightarrow> pydict \<Rightarrow> graph_db \<Rightarrow> unit res" where
  "migration_check env cfg expected_dim expected_ids summary db =
     (if \<not> count_ok summary (card expected_ids)
      then raise C_RuntimeError ''migration embedded an unexpected number of nodes''
      else bind_res (read_or (mg_dims_after env) (embedding_dimensions db)) (\<lambda>(stored_after, vec_after).
        if stored_after \<noteq> {} \<and> stored_after \<noteq> {expected_dim}
        then raise C_RuntimeError ''stored embeddings remain at dimensions''
        else if vec_after \<noteq> None \<and> vec_after \<noteq> Some expected_dim
        then raise C_RuntimeError ''vec_embeddings remains at dimension''
        else migration_postconditions env expected_ids (cfg_embedding_model cfg) expected_dim vec_after db))"

definition restore_embedding_backup ::
    "exn option \<Rightarrow> string \<Rightarrow> graph_db store \<Rightarrow> graph_db store \<times> unit res" where
  "restore_embedding_backup fault name s =
     (case (fault, map_of (st_backups s) name) of
        (None, Some db) \<Rightarrow> (s\<lparr>st_durable := db\<rparr>, return ())
      | (None, None) \<Rightarrow> (s, raise C_SqliteOperationalError ''unable to open database file'')
      | (Some e, _) \<Rightarrow> (s, Inl e))"

text \<open>Re-embed, check, and restore the backup \<open>name\<close> when anything fails.\<close>

definition migrate_or_restore ::
    "migration_env \<Rightarrow> CashewConfig \<Rightarrow> int \<Rightarrow> string set \<Rightarrow> string \<Rightarrow> graph_db store \<Rightarrow> graph_db store \<times> bool res" where
  "migrate_or_restore env cfg expected_dim expected_ids name s =
     (let m = mg_migrate env (st_durable s);
          s1 = s\<lparr>st_durable := fst m\<rparr>
      in case bind_res (snd m) (\<lambda>summary. migration_check env cfg expected_dim expected_ids summary (fst m)) of
           Inr _ \<Rightarrow> (s1, return True)
         | Inl e \<Rightarrow>
             if \<not> isinstance e C_Exception then (s1, Inl e)
             else (case restore_embedding_backup (mg_restore env) name s1 of
                     (s2, Inr _) \<Rightarrow> (s2, return False)
                   | (s2, Inl e') \<Rightarrow> if isinstance e' C_Exception then (s2, return False) else (s2, Inl e')))"

definition repair_embedding_dimension_locked ::
    "migration_env \<Rightarrow> (nat \<Rightarrow> int) \<Rightarrow> provider \<Rightarrow> graph_db store \<Rightarrow> graph_db store \<times> bool res" where
  "repair_embedding_dimension_locked env dims p s =
     (case pv_config p of
        None \<Rightarrow> (s, return False)
      | Some cfg \<Rightarrow>
          (case active_embedding_dimension dims p of
             None \<Rightarrow> (s, return False)
           | Some expected_dim \<Rightarrow>
               (case inspect_embeddings env (st_durable s) of
                  Inl e \<Rightarrow> if isinstance e C_Exception then (s, return False) else (s, Inl e)
                | Inr ((stored_dims, vec_dim), stored_models, metadata) \<Rightarrow>
                    if (stored_dims = {} \<or> stored_dims = {expected_dim}) \<and>
                       (vec_dim = None \<or> vec_dim = Some expected_dim) \<and>
                       (stored_models = {} \<or> stored_models = {cfg_embedding_model cfg}) \<and>
                       \<not> stale (map_of metadata ''embedding_model'') (cfg_embedding_model cfg) \<and>
                       \<not> stale (map_of metadata ''embedding_dim'') (str_of_int expected_dim)
                    then (s, return True)
                    else
                      (case create_backup (mg_backup env) s of
                         (s1, Inl e) \<Rightarrow> (s1, Inl e)
                       | (s1, Inr None) \<Rightarrow> (s1, return False)
                       | (s1, Inr (Some name)) \<Rightarrow>
                           (case read_or (mg_ids env) (active_embedding_ids (st_durable s1)) of
                              Inl e \<Rightarrow> (s1, Inl e)
                            | Inr expected_ids \<Rightarrow>
                                migrate_or_restore env cfg expected_dim expected_ids name s1)))))"

section \<open>The migration with its admission\<close>

definition migration_request ::
    "(nat \<Rightarrow> int) \<Rightarrow> provider \<Rightarrow> path \<Rightarrow> path option \<Rightarrow> adm_request" where
  "migration_request dims p db_path cache_attr =
     \<lparr>rq_graph_path = Some db_path,
      rq_cache_path = (if pv_cache_writes_disabled p then None else cache_attr),
      rq_model = map_option cfg_embedding_model (pv_config p),
      rq_embedding_dim = active_embedding_dimension dims p, rq_vec_dim = None,
      rq_epoch = pv_runtime_epoch p, rq_supervisor = pv_supervisor p,
      rq_embedding_generation = map_option (\<lambda>g. PInt (int g)) (pv_embedding_generation p),
      rq_exclusive = True, rq_cache_exclusive = True, rq_deadline = 1 / 10\<rparr>"

definition migration_deferred :: "exn \<Rightarrow> bool" where
  "migration_deferred e \<longleftrightarrow> isinstance e C_MaintenanceLockAcquisitionError \<or> isinstance e C_OperationAdmissionError"

definition repair_embedding_dimension ::
    "(path \<Rightarrow> path res) \<Rightarrow> (nat \<Rightarrow> lock_faults) \<Rightarrow> schedule \<Rightarrow> bool \<Rightarrow> nat \<Rightarrow> path option \<Rightarrow>
     migration_env \<Rightarrow> (nat \<Rightarrow> int) \<Rightarrow> provider \<Rightarrow> path \<Rightarrow> adm_world \<Rightarrow> graph_db store \<Rightarrow>
     (adm_world \<times> graph_db store \<times> bool res) option" where
  "repair_embedding_dimension fs_resolve flt sc ambient fuel cache_attr env dims p db_path w s =
     (let handler = (\<lambda>w s e.
            if migration_deferred e then
              (case embedding_migration_required env dims p (st_durable s) of
                 Inl e' \<Rightarrow> (w, s, Inl e')
               | Inr _ \<Rightarrow> (w, s, return False))
            else (w, s, Inl e))
      in case admit_operation fs_resolve flt sc ambient fuel (migration_request dims p db_path cache_attr) w of
           None \<Rightarrow> None
         | Some (w1, Inl e) \<Rightarrow> Some (handler w1 s e)
         | Some (w1, Inr token) \<Rightarrow>
             (case repair_embedding_dimension_locked env dims p s of
                (s1, r) \<Rightarrow>
                  (case admit_exit flt ambient (aw_current w \<noteq> None) token
                          (case r of Inl e \<Rightarrow> Some e | Inr _ \<Rightarrow> None) w1 of
                     (w2, Some e) \<Rightarrow> Some (handler w2 s1 e)
                   | (w2, None) \<Rightarrow> Some (w2, s1, r))))"

section \<open>The schema of the vector table\<close>

text \<open>
  \<open>ve_loaded\<close> is whether the extension could be loaded into the connection, and
  \<open>ve_reload\<close> whether loading it a second time works; without it every statement on
  the virtual table raises.
\<close>

record vec_env =
  ve_loaded :: bool
  ve_reload :: bool

definition migrate_vec_embeddings :: "vec_env \<Rightarrow> graph_db \<Rightarrow> graph_db" where
  "migrate_vec_embeddings env db =
     (case gd_vec db of
        None \<Rightarrow> db
      | Some v \<Rightarrow>
          let has_node_id = ve_loaded env \<and> vt_node_id_column v
          in if has_node_id then db
             else if ve_loaded env then db\<lparr>gd_vec := None\<rparr> else db)"

definition vec_schema_sql :: "int \<Rightarrow> string" where
  "vec_schema_sql d =
     ''CREATE VIRTUAL TABLE vec_embeddings'' @ [char_of (10 :: nat)] @
     ''                USING vec0(node_id TEXT primary key, embedding float['' @ str_of_int d @
     ''] distance_metric=cosine)''"

definition create_vec_embeddings ::
    "vec_env \<Rightarrow> (nat \<Rightarrow> int) \<Rightarrow> provider \<Rightarrow> graph_db \<Rightarrow> graph_db" where
  "create_vec_embeddings env dims p db =
     (if gd_vec db \<noteq> None then db
      else if \<not> ve_reload env then db
      else case active_embedding_dimension dims p of
        None \<Rightarrow> db
      | Some d \<Rightarrow>
          db\<lparr>gd_vec := Some \<lparr>vt_sql = vec_schema_sql d, vt_node_id_column = True, vt_node_ids = []\<rparr>\<rparr>)"

definition finalize_vec_schema ::
    "vec_env \<Rightarrow> (nat \<Rightarrow> int) \<Rightarrow> provider \<Rightarrow> graph_db \<Rightarrow> provider \<times> graph_db" where
  "finalize_vec_schema env dims p db =
     (let p1 = p\<lparr>pv_vector_available := Some (ve_loaded env)\<rparr>
      in (p1, create_vec_embeddings env dims p1 (migrate_vec_embeddings env db)))"

section \<open>Both inspections agree\<close>

lemma not_stale: "\<not> stale x v \<longleftrightarrow> x = None \<or> x = Some v"
  by (auto simp: stale_def)

lemma create_backup_cases:
  assumes "create_backup be s = (s1, r)"
  shows "st_durable s1 = st_durable s"
    and "\<And>n. r = Inr (Some n) \<Longrightarrow> \<exists>db. st_backups s1 = (n, db) # st_backups s \<and>
           (db = st_durable s \<or> be_vacuum be \<noteq> None \<and> db = be_main_file be (st_durable s))"
  using assms by (auto simp: create_backup_def split: if_splits option.splits)

lemma migrate_or_restore_backups:
  "st_backups (fst (migrate_or_restore env cfg d ids name s)) = st_backups s"
  by (auto simp: migrate_or_restore_def restore_embedding_backup_def Let_def
      split: sum.splits option.splits prod.splits if_splits)

text \<open>
  The read-only inspection and the migration decide alike. The inspection says
  that no migration is needed exactly when the migration, run on the same
  database with the same outcomes of its reads, reports success without having
  made a backup or touched anything.
\<close>

theorem migration_inspection_agrees:
  "embedding_migration_required env dims p (st_durable s) = Inr False \<longleftrightarrow>
   repair_embedding_dimension_locked env dims p s = (s, Inr True)"
proof (cases "pv_config p = None \<or> active_embedding_dimension dims p = None")
  case True
  then show ?thesis
    by (auto simp: embedding_migration_required_def repair_embedding_dimension_locked_def split: option.splits)
next
  case False
  then obtain cfg d where cd: "pv_config p = Some cfg" "active_embedding_dimension dims p = Some d" by auto
  have not_backed: "fst x \<noteq> s" if "st_backups (fst x) = b # st_backups s" for x :: "graph_db store \<times> bool res" and b
    using that by (metis not_Cons_self2)
  have backs: "(case create_backup (mg_backup env) s of
      (s1, Inl e) \<Rightarrow> (s1, Inl e) | (s1, Inr None) \<Rightarrow> (s1, return False)
    | (s1, Inr (Some name)) \<Rightarrow>
        (case read_or (mg_ids env) (active_embedding_ids (st_durable s1)) of
           Inl e \<Rightarrow> (s1, Inl e)
         | Inr expected_ids \<Rightarrow> migrate_or_restore env cfg d expected_ids name s1)) \<noteq> (s, Inr True)"
  proof -
    obtain s1 r where c: "create_backup (mg_backup env) s = (s1, r)" by fastforce
    show ?thesis
    proof (cases "\<exists>n. r = Inr (Some n)")
      case True
      then obtain n db where n: "r = Inr (Some n)" "st_backups s1 = (n, db) # st_backups s"
        using create_backup_cases(2) [OF c] by blast
      have "fst (migrate_or_restore env cfg d ids n s1) \<noteq> s" for ids
        by (rule not_backed) (simp add: migrate_or_restore_backups n(2))
      then show ?thesis
        using c n(1) by (auto split: sum.splits) (metis fst_conv)
    qed (use c in \<open>auto split: sum.splits option.splits\<close>)
  qed
  show ?thesis
  proof (cases "inspect_embeddings env (st_durable s)")
    case (Inl e)
    then show ?thesis
      by (simp add: embedding_migration_required_def repair_embedding_dimension_locked_def cd)
  next
    case (Inr x)
    obtain sd vd ms md where x: "x = ((sd, vd), ms, md)" by (metis surj_pair)
    show ?thesis
      using backs
      by (auto simp: embedding_migration_required_def repair_embedding_dimension_locked_def cd Inr x Let_def
          not_stale)
  qed
qed

section \<open>A failed migration is undone\<close>

text \<open>The vectors of the active nodes are those of the configured model, one and all.\<close>

definition embeddings_consistent :: "string \<Rightarrow> int \<Rightarrow> string set \<Rightarrow> graph_db \<Rightarrow> bool" where
  "embeddings_consistent model d ids db \<longleftrightarrow>
     er_node_id ` set (active_embeddings db) = ids \<and>
     (\<forall>e \<in> set (active_embeddings db). er_model e = Some model \<and> (\<exists>n. er_bytes e = Some n \<and> int (n div 4) = d)) \<and>
     fst (embedding_dimensions db) \<subseteq> {d} \<and> snd (embedding_dimensions db) \<in> {None, Some d}"

lemma any_row_bad_False:
  "any_row_bad model d rows = Inr False \<longleftrightarrow>
     (\<forall>e \<in> set rows. er_model e = Some model \<and> (\<exists>n. er_bytes e = Some n \<and> int (n div 4) = d))"
  by (induction model d rows rule: any_row_bad.induct) (auto split: option.splits)

lemma migration_check_consistent:
  assumes "migration_check env cfg d ids summary db = Inr ()"
  shows "embeddings_consistent (cfg_embedding_model cfg) d ids db"
proof -
  have dims: "fst (embedding_dimensions db) \<subseteq> {d}" "snd (embedding_dimensions db) \<in> {None, Some d}"
    and post: "migration_postconditions env ids (cfg_embedding_model cfg) d (snd (embedding_dimensions db)) db = Inr ()"
    using assms by (auto simp: migration_check_def read_or_def split: if_splits option.splits prod.splits)
  have "er_node_id ` set (active_embeddings db) = ids"
    "any_row_bad (cfg_embedding_model cfg) d (active_embeddings db) = Inr False"
    using post by (auto simp: migration_postconditions_def read_or_def res_simps split: if_splits option.splits)
  then show ?thesis
    using dims by (simp add: embeddings_consistent_def any_row_bad_False)
qed

lemma migrate_or_restore_cases:
  assumes "migrate_or_restore env cfg d ids name s = (s', r)" "map_of (st_backups s) name = Some db"
  shows "r = Inr True \<Longrightarrow> embeddings_consistent (cfg_embedding_model cfg) d ids (st_durable s')"
    and "r = Inr False \<Longrightarrow> mg_restore env = None \<Longrightarrow> st_durable s' = db"
proof -
  let ?m = "mg_migrate env (st_durable s)"
  let ?c = "bind_res (snd ?m) (\<lambda>summary. migration_check env cfg d ids summary (fst ?m))"
  show "embeddings_consistent (cfg_embedding_model cfg) d ids (st_durable s')" if "r = Inr True"
  proof (cases ?c)
    case (Inl e)
    then show ?thesis
      using assms(1) that
      by (simp add: migrate_or_restore_def Let_def split: if_splits sum.splits prod.splits)
  next
    case (Inr u)
    then obtain summary where "migration_check env cfg d ids summary (fst ?m) = Inr ()"
      by (auto simp: res_simps)
    then show ?thesis
      using assms(1) Inr migration_check_consistent by (auto simp: migrate_or_restore_def Let_def)
  qed
  show "st_durable s' = db" if "r = Inr False" "mg_restore env = None"
    using assms that
    by (cases ?c) (auto simp: migrate_or_restore_def restore_embedding_backup_def Let_def split: if_splits)
qed


section \<open>The migration runs under its lease\<close>

text \<open>
  Only the holder of the exclusive graph lease migrates. After the call, however
  it ends, the process holds the leases it held before and no admission is in
  force; the database or its backups changed only if the exclusive admission was
  granted, and then by the migration. A contended or failing lock gives the
  answer that the identity is not ready, with the database untouched.
\<close>

theorem migration_under_exclusive_lease:
  assumes "fair_schedule sc" "locks_ok (aw_kernel w)" "aw_current w = None"
    and run: "repair_embedding_dimension fs_resolve flt sc ambient fuel cache_attr env dims p db_path w s =
      Some (w', s', r)"
  shows "own_locks (aw_kernel w') = own_locks (aw_kernel w) \<and> aw_current w' = None \<and>
    (\<exists>w1 q. admit_operation fs_resolve flt sc ambient fuel (migration_request dims p db_path cache_attr) w =
       Some (w1, q) \<and>
       (case q of
          Inl e \<Rightarrow> s' = s \<and> (migration_deferred e \<longrightarrow> r \<noteq> Inr True) \<and> (\<not> migration_deferred e \<longrightarrow> r = Inl e)
        | Inr token \<Rightarrow> oa_exclusive token \<and> s' = fst (repair_embedding_dimension_locked env dims p s) \<and>
            (r = Inr True \<longrightarrow> snd (repair_embedding_dimension_locked env dims p s) = Inr True)))"
proof -
  let ?rq = "migration_request dims p db_path cache_attr"
  obtain w1 q where q: "admit_operation fs_resolve flt sc ambient fuel ?rq w = Some (w1, q)"
    using run by (auto simp: repair_embedding_dimension_def Let_def split: option.splits)
  obtain s1 x where l: "repair_embedding_dimension_locked env dims p s = (s1, x)" by fastforce
  show ?thesis
  proof (cases q)
    case (Inl e)
    then have "own_locks (aw_kernel w1) = own_locks (aw_kernel w)" "aw_current w1 = None"
      using admit_outermost [OF assms(1-3) q] assms(3) by (simp_all add: refused_def)
    then show ?thesis
      using run q Inl
      by (auto simp: repair_embedding_dimension_def Let_def split: if_splits sum.splits)
  next
    case (Inr token)
    obtain graph cache where adm: "canonical fs_resolve (rq_graph_path ?rq) = Inr graph"
      "admitted fs_resolve graph cache ?rq w w1 token"
      using admit_outermost [OF assms(1-3) q] Inr by auto
    then have ex: "oa_exclusive token"
      by (auto simp: admitted_def make_token_def migration_request_def canonical_Some)
    obtain w2 e where x: "admit_exit flt ambient (aw_current w \<noteq> None) token
        (case x of Inl e \<Rightarrow> Some e | Inr _ \<Rightarrow> None) w1 = (w2, e)" by fastforce
    have w2: "own_locks (aw_kernel w2) = own_locks (aw_kernel w)" "aw_current w2 = None"
      using admit_then_exit [OF assms(1-3) q [unfolded Inr] refl refl] x assms(3) by auto
    have "w' = w2 \<and> s' = s1 \<and> (r = Inr True \<longrightarrow> x = Inr True)"
      using run q Inr l x assms(3)
      by (auto simp: repair_embedding_dimension_def Let_def split: option.splits if_splits sum.splits)
    then show ?thesis using q Inr ex l w2 by auto
  qed
qed

section \<open>The vector table has the dimension it was made with\<close>

lemma is_digit_bracket [simp]: "\<not> is_digit CHR '']''"
  by (simp add: is_digit_def)

lemma match_float_schema:
  assumes "0 < d"
  shows "match_float (''float['' @ str_of_int d @ CHR '']'' # rest) = Some d"
proof -
  have s: "str_of_int d = digits_of (nat d)" using assms by (simp add: str_of_int_def)
  have dig: "\<forall>c \<in> set (digits_of (nat d)). is_digit c" by (simp add: digits_of_digits)
  have t: "takeWhile is_digit (digits_of (nat d) @ CHR '']'' # rest) = digits_of (nat d)"
    "dropWhile is_digit (digits_of (nat d) @ CHR '']'' # rest) = CHR '']'' # rest"
    using dig by (simp_all add: takeWhile_append2 dropWhile_append2)
  have low: "py_lower ''float['' = ''float[''" by code_simp
  show ?thesis
    using assms by (simp add: match_float_def s t low Let_def digits_of_neq_Nil int_digits_digits_of)
qed

lemma match_float_head: "py_lower_char c \<noteq> CHR ''f'' \<Longrightarrow> match_float (c # cs) = None"
  by (simp add: match_float_def py_lower_def)

lemma search_float_skip:
  "list_all (\<lambda>c. py_lower_char c \<noteq> CHR ''f'') pre \<Longrightarrow> search_float (pre @ s) = search_float s"
  by (induction pre) (simp_all add: match_float_head)

text \<open>The text before the dimension has no letter f.\<close>

lemma schema_prefix:
  "list_all (\<lambda>c. py_lower_char c \<noteq> CHR ''f'')
     (''CREATE VIRTUAL TABLE vec_embeddings'' @ [char_of (10 :: nat)] @
      ''                USING vec0(node_id TEXT primary key, embedding '')"
  by code_simp

lemma search_float_schema:
  assumes "0 < d"
  shows "search_float (vec_schema_sql d) = Some d"
proof -
  let ?pre = "''CREATE VIRTUAL TABLE vec_embeddings'' @ [char_of (10 :: nat)] @
      ''                USING vec0(node_id TEXT primary key, embedding ''"
  let ?rest = "''float['' @ str_of_int d @ CHR '']'' # '' distance_metric=cosine)''"
  have split: "vec_schema_sql d = ?pre @ ?rest"
    by (simp add: vec_schema_sql_def)
  have "search_float ?rest = Some d"
    using match_float_schema [OF assms, of "'' distance_metric=cosine)''"] by simp
  then show ?thesis
    unfolding split using search_float_skip [OF schema_prefix] by metis
qed

text \<open>
  The vector table is readable back. With the extension loaded, finalizing the
  schema leaves a vector table keyed by node; a table that already was one is kept
  with its rows, and otherwise the dimension that a later inspection reads out of
  the stored schema is the one of the embedding worker that the table was made
  with. Without the extension the database is not touched.
\<close>

theorem vec_schema_roundtrip:
  assumes "finalize_vec_schema env dims p db = (p', db')" "active_embedding_dimension dims p = Some d"
    and "ve_reload env \<longleftrightarrow> ve_loaded env"
  shows "pv_vector_available p' = Some (ve_loaded env) \<and>
    (if ve_loaded env
     then (\<exists>v. gd_vec db' = Some v \<and> vt_node_id_column v) \<and>
          (if \<exists>v. gd_vec db = Some v \<and> vt_node_id_column v then db' = db
           else snd (embedding_dimensions db') = Some d)
     else db' = db)"
proof -
  have pos: "0 < d"
    using assms(2) by (auto simp: active_embedding_dimension_def split: option.splits if_splits)
  have act: "active_embedding_dimension dims (p\<lparr>pv_vector_available := x\<rparr>) = Some d" for x
    using assms(2) by (simp add: active_embedding_dimension_def)
  show ?thesis
    using assms(1,3) act
    by (cases "gd_vec db")
      (auto simp: finalize_vec_schema_def create_vec_embeddings_def migrate_vec_embeddings_def Let_def
        embedding_dimensions_def search_float_schema [OF pos])
qed

section \<open>Witnesses\<close>

text \<open>One active node with a vector of another model, and an engine that fails after deleting it.\<close>

definition stale_graph :: "graph_db store" where
  "stale_graph = bare_graph\<lparr>st_durable :=
     \<lparr>gd_meta = None,
      gd_nodes = [\<lparr>tn_id = ''n1'', tn_decayed = None, tn_content = Some ''thought''\<rparr>],
      gd_embeddings = [\<lparr>er_node_id = ''n1'', er_model = Some ''old'', er_bytes = Some 12\<rparr>],
      gd_vec = None\<rparr>\<rparr>"

definition failing_engine :: migration_env where
  "failing_engine =
     \<lparr>mg_dims = None, mg_models = None, mg_meta = no_meta_faults,
      mg_backup = \<lparr>be_exists = True, be_nonempty = True, be_mkdir = None, be_vacuum = None, be_copy = None,
        be_main_file = id, be_name = ''graph.db.2026''\<rparr>,
      mg_ids = None, mg_migrate = \<lambda>db. (db\<lparr>gd_embeddings := []\<rparr>, raise C_RuntimeError ''worker died''),
      mg_dims_after = None, mg_rows_after = None, mg_extension = None, mg_restore = None\<rparr>"

lemma stale_migration:
  "\<exists>s. repair_embedding_dimension_locked failing_engine ones_dims bound_provider stale_graph = (s, Inr False) \<and>
     st_backups s = [(''graph.db.2026'', st_durable stale_graph)]"
  by (simp add: repair_embedding_dimension_locked_def inspect_embeddings_def failing_engine_def stale_graph_def
      bare_graph_def read_or_def embedding_dimensions_def runtime_metadata_def no_meta_faults_def
      List.map_filter_def create_backup_def migrate_or_restore_def restore_embedding_backup_def isinstance_def Let_def)


theorem migration_under_exclusive_lease_witness:
  "\<exists>w s. repair_embedding_dimension return no_faults quiet False 1 None failing_engine ones_dims bound_provider
       [''home'', ''brain.db''] idle_world stale_graph = Some (w, s, Inr False) \<and>
     own_locks (aw_kernel w) = []"
proof -
  obtain s where s: "repair_embedding_dimension_locked failing_engine ones_dims bound_provider stale_graph =
      (s, Inr False)"
    using stale_migration by blast
  let ?rq = "migration_request ones_dims bound_provider [''home'', ''brain.db''] None"
  have "\<exists>w1 t. admit_operation return no_faults quiet False 1 ?rq idle_world = Some (w1, Inr t) \<and>
      snd (admit_exit no_faults False False t None w1) = None"
    by (simp add: admit_operation_def canonical_def migration_request_def idle_world_def quiet_def
        acquire_leases_def lease_enter_def lock_enter_def lock_path_for_db_def no_faults_def no_locks_def
        open_lock_file_def set_lock_def flock_grant_def Let_def grant_def stack_of_def make_token_def
        admit_exit_def close_owner_def new_owner_def lock_exit_def split: prod.splits)
  then obtain w1 t w2 where a: "admit_operation return no_faults quiet False 1 ?rq idle_world = Some (w1, Inr t)"
    "admit_exit no_faults False False t None w1 = (w2, None)"
    by (metis prod.collapse)
  have run: "repair_embedding_dimension return no_faults quiet False 1 None failing_engine ones_dims bound_provider
       [''home'', ''brain.db''] idle_world stale_graph = Some (w2, s, Inr False)"
    using a s idle_ok(2) by (simp add: repair_embedding_dimension_def Let_def)
  then show ?thesis
    using migration_under_exclusive_lease [OF quiet_fair idle_ok(1,2) run]
    by (auto simp: idle_world_def no_locks_def own_locks_def)
qed

theorem vec_schema_roundtrip_witness:
  "\<exists>p db. finalize_vec_schema \<lparr>ve_loaded = True, ve_reload = True\<rparr> ones_dims bound_provider
       (st_durable stale_graph) = (p, db) \<and> snd (embedding_dimensions db) = Some 384"
proof -
  obtain p db where f: "finalize_vec_schema \<lparr>ve_loaded = True, ve_reload = True\<rparr> ones_dims bound_provider
       (st_durable stale_graph) = (p, db)" by fastforce
  then show ?thesis
    using vec_schema_roundtrip [OF f bound_fields(2)] by (simp add: stale_graph_def)
qed

end
