(* ===== verification/Think.thy ===== *)
theory Think
  imports GraphDb Provider
begin

text \<open>
  The think cycle of \<^verbatim>\<open>__init__.py\<close>: the persistent turn counter, the claim that a
  provider takes before it calls the engine, and what becomes of the claim.

  A call of \<open>run_think_cycle_if_due\<close> is one step, because it runs under the exclusive
  graph lease; a process that dies between its two transactions leaves the claim
  behind. \<open>think_env\<close> has the failures of the admission and of both transactions
  and what the engine answers.
\<close>

section \<open>Operations\<close>

definition BLOCKING_STATES :: "string list" where
  "BLOCKING_STATES = [''in_flight'', ''failed'', ''partial'', ''uncertain'']"

definition meta_get :: "meta_rows \<Rightarrow> string \<Rightarrow> string \<Rightarrow> string" where
  "meta_get m k d = (case map_of m k of None \<Rightarrow> d | Some v \<Rightarrow> v)"

definition meta_rows_of :: "graph_db \<Rightarrow> meta_rows" where
  "meta_rows_of db = (case gd_meta db of None \<Rightarrow> [] | Some m \<Rightarrow> m)"

text \<open>
  The first transaction: the claim taken and the counter it was taken at, or
  \<open>None\<close>. It creates the table when there is none.
\<close>

definition claim_body ::
    "int \<Rightarrow> string \<Rightarrow> graph_db \<Rightarrow> (graph_db option \<times> (string \<times> int) option) res" where
  "claim_body interval claim_epoch db =
     (let rows = meta_rows_of db;
          store = (\<lambda>kvs. db\<lparr>gd_meta := Some (upsert kvs rows)\<rparr>)
      in if meta_get rows ''think_claim_state'' ''none'' \<in> set BLOCKING_STATES then return (None, None)
         else case int_of_str (meta_get rows ''think_counter'' ''0'') of
           None \<Rightarrow> return (Some (store [(''think_counter'', ''0'')]), None)
         | Some n \<Rightarrow>
             let counter = n + 1
             in if counter < interval then
                  return (Some (store [(''think_counter'', str_of_int counter)]), None)
                else
                  return (Some (store [(''think_counter'', str_of_int counter),
                                       (''think_claim_epoch'', claim_epoch),
                                       (''think_claim_state'', ''in_flight'')]),
                          Some (claim_epoch, counter)))"

text \<open>\<^verbatim>\<open>UPDATE hermes_provider_meta SET value=? WHERE key=?\<close>.\<close>

definition meta_update :: "string \<Rightarrow> string \<Rightarrow> meta_rows \<Rightarrow> meta_rows" where
  "meta_update k v m = map (\<lambda>(k', v'). if k' = k then (k', v) else (k', v')) m"

text \<open>The second transaction: the outcome is recorded if the claim is still this one; the flag says so.\<close>

definition finish_body ::
    "int \<Rightarrow> string \<Rightarrow> int \<Rightarrow> string \<Rightarrow> graph_db \<Rightarrow> (graph_db option \<times> bool) res" where
  "finish_body interval claim_epoch counter terminal db =
     (case gd_meta db of
        None \<Rightarrow> raise C_SqliteOperationalError ''no such table: hermes_provider_meta''
      | Some rows \<Rightarrow>
          if map_of rows ''think_claim_epoch'' = Some claim_epoch \<and>
             map_of rows ''think_claim_state'' = Some ''in_flight'' then
            let rows1 = (if terminal = ''completed''
                         then meta_update ''think_counter'' (str_of_int (max 0 (counter - interval))) rows
                         else rows)
            in return (Some (db\<lparr>gd_meta := Some (meta_update ''think_claim_state'' terminal rows1)\<rparr>), True)
          else return (Some db, False))"

record think_env =
  te_admission :: "exn option"
  te_claim_epoch :: string
  te_claim :: txn_faults
  te_result :: "bool res"
  te_finish :: txn_faults
  te_release :: "exn option"

text \<open>
  What a call leaves: the database, the provider's \<^verbatim>\<open>_think_claim_state\<close>, whether the
  engine was called, and the exception that leaves.
\<close>

record think_out =
  to_store :: "graph_db store"
  to_state :: string
  to_called :: bool
  to_raised :: "exn option"

definition think_deferred :: "exn option \<Rightarrow> exn option" where
  "think_deferred x =
     (case x of
        None \<Rightarrow> None
      | Some e \<Rightarrow> if isinstance e C_OperationAdmissionError \<or> isinstance e C_SqliteError then None else Some e)"

definition think_enabled :: "provider \<Rightarrow> bool" where
  "think_enabled p \<longleftrightarrow> pv_model_fn p \<and> pv_identity_ready p \<and> pv_db_path p \<noteq> None \<and>
     (case pv_config p of None \<Rightarrow> False | Some cfg \<Rightarrow> cfg_think_cycles cfg \<and> 0 < cfg_think_interval cfg)"

text \<open>
  The state the claim ends in: the engine's answer is whether it made nodes or
  edges; an exception that is no \<^verbatim>\<open>Exception\<close> is not caught.
\<close>

definition terminal_state :: "bool res \<Rightarrow> string res" where
  "terminal_state r =
     (case r of
        Inr progress \<Rightarrow> return (if progress then ''completed'' else ''failed'')
      | Inl e \<Rightarrow> if isinstance e C_Exception then return ''uncertain'' else Inl e)"

definition finish_claim ::
    "think_env \<Rightarrow> int \<Rightarrow> string \<Rightarrow> int \<Rightarrow> string \<Rightarrow> graph_db store \<Rightarrow> think_out" where
  "finish_claim env interval claim_epoch counter state s =
     (case terminal_state (te_result env) of
        Inl e \<Rightarrow> \<lparr>to_store = s, to_state = state, to_called = True, to_raised = Some e\<rparr>
      | Inr terminal \<Rightarrow>
          (case transact (te_finish env) (finish_body interval claim_epoch counter terminal) s of
             (s1, Inl e) \<Rightarrow> \<lparr>to_store = s1, to_state = state, to_called = True, to_raised = Some e\<rparr>
           | (s1, Inr mine) \<Rightarrow>
               \<lparr>to_store = s1, to_state = (if mine then terminal else state), to_called = True,
                to_raised = None\<rparr>))"

text \<open>The body of the \<^verbatim>\<open>with\<close> statement.\<close>

definition think_admitted :: "think_env \<Rightarrow> int \<Rightarrow> string \<Rightarrow> graph_db store \<Rightarrow> think_out" where
  "think_admitted env interval state s =
     (let reached = (tf_connect (te_claim env) = None \<and> tf_begin (te_claim env) = None \<and>
                     tf_body (te_claim env) = None);
          claims = (case claim_body interval (te_claim_epoch env) (st_durable s) of
                      Inr (_, Some _) \<Rightarrow> True | _ \<Rightarrow> False);
          state1 = (if reached \<and> claims then ''in_flight'' else state)
      in case transact (te_claim env) (claim_body interval (te_claim_epoch env)) s of
           (s1, Inl e) \<Rightarrow> \<lparr>to_store = s1, to_state = state1, to_called = False, to_raised = Some e\<rparr>
         | (s1, Inr None) \<Rightarrow> \<lparr>to_store = s1, to_state = state1, to_called = False, to_raised = None\<rparr>
         | (s1, Inr (Some (claim_epoch, counter))) \<Rightarrow>
             finish_claim env interval claim_epoch counter state1 s1)"

definition run_think_cycle_if_due ::
    "think_env \<Rightarrow> provider \<Rightarrow> string \<Rightarrow> graph_db store \<Rightarrow> think_out" where
  "run_think_cycle_if_due env p state s =
     (let out = \<lparr>to_store = s, to_state = state, to_called = False, to_raised = None\<rparr>
      in if \<not> think_enabled p then out
         else case te_admission env of
           Some e \<Rightarrow> out\<lparr>to_raised := think_deferred (Some e)\<rparr>
         | None \<Rightarrow>
             let r = think_admitted env (case pv_config p of None \<Rightarrow> 0 | Some cfg \<Rightarrow> cfg_think_interval cfg) state s
             in r\<lparr>to_raised := think_deferred (case to_raised r of Some e \<Rightarrow> Some e | None \<Rightarrow> te_release env)\<rparr>)"

definition recover_body :: "graph_db \<Rightarrow> (graph_db option \<times> unit) res" where
  "recover_body db =
     (case gd_meta db of
        None \<Rightarrow> raise C_SqliteOperationalError ''no such table: hermes_provider_meta''
      | Some rows \<Rightarrow>
          if map_of rows ''think_claim_state'' = Some ''in_flight''
          then return (Some (db\<lparr>gd_meta := Some (meta_update ''think_claim_state'' ''uncertain'' rows)\<rparr>), ())
          else return (Some db, ()))"

definition recover_think_claim :: "txn_faults \<Rightarrow> graph_db store \<Rightarrow> graph_db store \<times> exn option" where
  "recover_think_claim flt s =
     (case transact flt recover_body s of
        (s1, Inr _) \<Rightarrow> (s1, None)
      | (s1, Inl e) \<Rightarrow>
          if tf_connect flt = None \<and> isinstance e C_SqliteOperationalError then (s1, tf_rollback flt)
          else (s1, Some e))"

definition load_think_counter :: "exn option \<Rightarrow> graph_db \<Rightarrow> int" where
  "load_think_counter fault db =
     (case fault of
        Some _ \<Rightarrow> 0
      | None \<Rightarrow>
          (case gd_meta db of
             None \<Rightarrow> 0
           | Some rows \<Rightarrow>
               (case map_of rows ''think_counter'' of
                  None \<Rightarrow> 0
                | Some v \<Rightarrow> (case int_of_str v of None \<Rightarrow> 0 | Some n \<Rightarrow> n))))"

definition save_think_counter :: "txn_faults \<Rightarrow> bool \<Rightarrow> int \<Rightarrow> graph_db store \<Rightarrow> graph_db store" where
  "save_think_counter flt ready v s =
     (if \<not> ready then s
      else fst (transact flt (\<lambda>db. case gd_meta db of
                  None \<Rightarrow> raise C_SqliteOperationalError ''no such table: hermes_provider_meta''
                | Some rows \<Rightarrow>
                    return (Some (db\<lparr>gd_meta := Some (upsert [(''think_counter'', str_of_int v)] rows)\<rparr>), ())) s))"

section \<open>The think system\<close>

text \<open>
  The database with three counts of what happened: turns that asked for a cycle,
  calls of the engine, and cycles recorded as completed. A step is such a turn of
  any provider whose configuration has the interval, the death of a process while
  it holds a claim, the recovery at the start of a provider, or anything that
  leaves the three rows of the claim alone.
\<close>

record think_sys =
  ts_store :: "graph_db store"
  ts_turns :: nat
  ts_calls :: nat
  ts_done :: nat

definition claim_state :: "graph_db \<Rightarrow> string" where
  "claim_state db = meta_get (meta_rows_of db) ''think_claim_state'' ''none''"

definition blocked :: "graph_db \<Rightarrow> bool" where
  "blocked db \<longleftrightarrow> claim_state db \<in> set BLOCKING_STATES"

definition counter_of :: "graph_db \<Rightarrow> int option" where
  "counter_of db = int_of_str (meta_get (meta_rows_of db) ''think_counter'' ''0'')"

definition THINK_KEYS :: "string list" where
  "THINK_KEYS = [''think_counter'', ''think_claim_epoch'', ''think_claim_state'']"

inductive think_step :: "int \<Rightarrow> think_sys \<Rightarrow> think_sys \<Rightarrow> bool" for interval :: int where
  turn: "pv_config p = Some cfg \<Longrightarrow> cfg_think_interval cfg = interval \<Longrightarrow>
    out = run_think_cycle_if_due env p state (ts_store t) \<Longrightarrow>
    think_step interval t (t\<lparr>ts_store := to_store out, ts_turns := ts_turns t + 1,
      ts_calls := ts_calls t + (if to_called out then 1 else 0),
      ts_done := ts_done t + (if to_called out \<and> claim_state (st_durable (to_store out)) = ''completed'' then 1 else 0)\<rparr>)"
| death: "transact flt (claim_body interval epoch) (ts_store t) = (s, Inr (Some c)) \<Longrightarrow>
    think_step interval t (t\<lparr>ts_store := s, ts_turns := ts_turns t + 1, ts_calls := ts_calls t + 1\<rparr>)"
| recovery: "think_step interval t (t\<lparr>ts_store := fst (recover_think_claim flt (ts_store t))\<rparr>)"
| other: "(\<And>k. k \<in> set THINK_KEYS \<Longrightarrow>
      map_of (meta_rows_of (st_durable s)) k = map_of (meta_rows_of (st_durable (ts_store t))) k) \<Longrightarrow>
    think_step interval t (t\<lparr>ts_store := s\<rparr>)"

definition think_init :: "think_sys \<Rightarrow> bool" where
  "think_init t \<longleftrightarrow> ts_turns t = 0 \<and> ts_calls t = 0 \<and> ts_done t = 0 \<and>
     (\<forall>k \<in> set THINK_KEYS. map_of (meta_rows_of (st_durable (ts_store t))) k = None)"

section \<open>Invariant\<close>

definition think_ok :: "int \<Rightarrow> graph_db \<Rightarrow> nat \<Rightarrow> nat \<Rightarrow> nat \<Rightarrow> bool" where
  "think_ok interval db turns calls compl \<longleftrightarrow>
     (\<exists>n. counter_of db = Some n \<and> 0 \<le> n \<and> int compl * interval + n \<le> int turns \<and>
        (if blocked db then calls \<le> compl + 1 \<and> interval \<le> n else calls \<le> compl))"

definition think_inv :: "int \<Rightarrow> think_sys \<Rightarrow> bool" where
  "think_inv interval t \<longleftrightarrow>
     think_ok interval (st_durable (ts_store t)) (ts_turns t) (ts_calls t) (ts_done t)"

lemma meta_get_upsert:
  "distinct (map fst kvs) \<Longrightarrow>
   meta_get (upsert kvs m) k d = (case map_of kvs k of None \<Rightarrow> meta_get m k d | Some v \<Rightarrow> v)"
  by (simp add: meta_get_def map_of_upsert split: option.split)

lemma map_of_meta_update:
  "map_of (meta_update k v m) j = (if j = k then map_option (\<lambda>_. v) (map_of m k) else map_of m j)"
  by (induction m) (auto simp: meta_update_def)

lemma meta_rows_of_upd [simp]: "meta_rows_of (db\<lparr>gd_meta := Some m\<rparr>) = m"
  by (simp add: meta_rows_of_def)

text \<open>What the two transactions do to the counter and the claim.\<close>

lemma claim_body_cases:
  assumes "claim_body interval epoch db = Inr (d, r)" "counter_of db = Some n"
  obtains (skip) "blocked db" "d = None" "r = None"
  | (wait) db' where "\<not> blocked db" "d = Some db'" "r = None" "counter_of db' = Some (n + 1)"
      "claim_state db' = claim_state db"
  | (claim) db' where "\<not> blocked db" "d = Some db'" "r = Some (epoch, n + 1)" "interval \<le> n + 1"
      "counter_of db' = Some (n + 1)" "claim_state db' = ''in_flight''"
      "\<exists>rows. gd_meta db' = Some rows \<and> map_of rows ''think_claim_epoch'' = Some epoch \<and>
         map_of rows ''think_claim_state'' = Some ''in_flight'' \<and> map_of rows ''think_counter'' \<noteq> None"
  using assms
  by (auto simp: claim_body_def Let_def blocked_def claim_state_def counter_of_def meta_get_upsert
      int_of_str_of_int map_of_upsert split: if_splits)

lemma finish_claimed:
  assumes "gd_meta db = Some rows" "map_of rows ''think_claim_epoch'' = Some epoch"
    "map_of rows ''think_claim_state'' = Some ''in_flight''" "map_of rows ''think_counter'' \<noteq> None"
    and "finish_body interval epoch n terminal db = Inr (d, x)"
  shows "\<exists>db'. d = Some db' \<and> claim_state db' = terminal \<and>
    counter_of db' = (if terminal = ''completed'' then Some (max 0 (n - interval)) else counter_of db)"
  using assms
  by (auto simp: finish_body_def Let_def claim_state_def counter_of_def meta_get_def map_of_meta_update
      int_of_str_of_int meta_rows_of_def)

lemma finish_claim_called: "to_called (finish_claim env interval e n state s)"
  by (auto simp: finish_claim_def split: sum.splits prod.splits)

lemma finish_claim_store:
  "to_store (finish_claim env interval e n state s) = s \<or>
   (\<exists>terminal \<in> {''completed'', ''failed'', ''uncertain''}.
      to_store (finish_claim env interval e n state s) =
        fst (transact (te_finish env) (finish_body interval e n terminal) s))"
  by (auto simp: finish_claim_def terminal_state_def split: sum.splits prod.splits if_splits)

text \<open>A turn leaves the database alone, writes the first transaction, or writes both.\<close>

lemma think_admitted_cases:
  obtains (none) "st_durable (to_store (think_admitted env interval state s)) = st_durable s"
      "\<not> to_called (think_admitted env interval state s)"
  | (first) db r where "claim_body interval (te_claim_epoch env) (st_durable s) = Inr (Some db, r)"
      "st_durable (to_store (think_admitted env interval state s)) = db"
      "to_called (think_admitted env interval state s) \<longrightarrow> r \<noteq> None"
  | (both) db c n terminal d x db' where
      "claim_body interval (te_claim_epoch env) (st_durable s) = Inr (Some db, Some (c, n))"
      "finish_body interval c n terminal db = Inr (d, x)"
      "st_durable (to_store (think_admitted env interval state s)) = db'"
      "to_called (think_admitted env interval state s)"
      "terminal \<in> {''completed'', ''failed'', ''uncertain''}" "d = Some db' \<or> d = None \<and> db' = db"
proof -
  let ?o = "think_admitted env interval state s"
  let ?b = "claim_body interval (te_claim_epoch env)"
  obtain s1 r where t: "transact (te_claim env) ?b s = (s1, r)" by fastforce
  note c = transact_cases(2,3) [OF t]
  show ?thesis
  proof (cases "\<exists>e n. r = Inr (Some (e, n))")
    case False
    then have o: "to_store ?o = s1" "\<not> to_called ?o"
      using t by (auto simp: think_admitted_def Let_def split: sum.splits option.splits)
    show ?thesis
      using none first c(2) o by (cases "st_durable s1 = st_durable s") auto
  next
    case True
    then obtain e n where r: "r = Inr (Some (e, n))" by blast
    then obtain d where d: "?b (st_durable s) = Inr (d, Some (e, n))"
      "st_durable s1 = (case d of None \<Rightarrow> st_durable s | Some db \<Rightarrow> db)"
      using c(1) by blast
    then have db: "?b (st_durable s) = Inr (Some (st_durable s1), Some (e, n))"
      by (auto simp: claim_body_def Let_def split: if_splits option.splits)
    have "\<exists>state. ?o = finish_claim env interval e n state s1"
      using t r by (simp add: think_admitted_def Let_def) blast
    then obtain state' where o: "?o = finish_claim env interval e n state' s1" by blast
    have called: "to_called ?o" unfolding o by (rule finish_claim_called)
    have st: "to_store ?o = s1 \<or> (\<exists>terminal \<in> {''completed'', ''failed'', ''uncertain''}.
        to_store ?o = fst (transact (te_finish env) (finish_body interval e n terminal) s1))"
      unfolding o by (rule finish_claim_store)
    show ?thesis
    proof (cases "st_durable (to_store ?o) = st_durable s1")
      case True
      then show ?thesis using first [OF db] by simp
    next
      case False
      then obtain terminal where tm: "terminal \<in> {''completed'', ''failed'', ''uncertain''}"
        "to_store ?o = fst (transact (te_finish env) (finish_body interval e n terminal) s1)"
        using st by auto
      obtain s2 q where f: "transact (te_finish env) (finish_body interval e n terminal) s1 = (s2, q)" by fastforce
      then obtain x where "finish_body interval e n terminal (st_durable s1) = Inr (Some (st_durable s2), x)"
        using transact_cases(3) [OF f] False tm(2) by auto
      then show ?thesis using both [OF db _ _ called tm(1)] tm(2) f by auto
    qed
  qed
qed

lemma blocked_not_completed: "claim_state db = ''completed'' \<Longrightarrow> \<not> blocked db"
  by (simp add: blocked_def BLOCKING_STATES_def)

lemma claimed_blocked: "claim_state db = ''in_flight'' \<Longrightarrow> blocked db"
  by (simp add: blocked_def BLOCKING_STATES_def)

lemma blocked_cong: "claim_state db = claim_state db' \<Longrightarrow> blocked db = blocked db'"
  by (simp add: blocked_def)

lemma think_ok_turn_mono: "think_ok i db turns calls d \<Longrightarrow> think_ok i db (turns + 1) calls d"
  by (auto simp: think_ok_def)

lemma think_ok_claim:
  assumes "think_ok i db turns calls d" "claim_body i epoch db = Inr (Some db', r)"
  shows "think_ok i db' (turns + 1) (calls + (if r = None then 0 else 1)) d"
    and "r \<noteq> None \<Longrightarrow> think_ok i db' (turns + 1) calls d"
    and "r \<noteq> None \<Longrightarrow> claim_state db' = ''in_flight''"
proof -
  obtain n where n: "counter_of db = Some n" "0 \<le> n" "int d * i + n \<le> int turns"
    "if blocked db then calls \<le> d + 1 \<and> i \<le> n else calls \<le> d"
    using assms(1) by (auto simp: think_ok_def)
  show "think_ok i db' (turns + 1) (calls + (if r = None then 0 else 1)) d"
    using assms(2) n(1)
  proof (cases rule: claim_body_cases)
    case (wait db1)
    then show ?thesis using n blocked_cong [OF wait(5)] by (simp add: think_ok_def)
  next
    case (claim db1)
    then show ?thesis using n claimed_blocked [OF claim(6)] by (simp add: think_ok_def)
  qed simp
  show "think_ok i db' (turns + 1) calls d" if "r \<noteq> None"
    using assms(2) n(1)
  proof (cases rule: claim_body_cases)
    case (claim db1)
    then show ?thesis using n claimed_blocked [OF claim(6)] by (simp add: think_ok_def)
  qed (use that in simp_all)
  show "claim_state db' = ''in_flight''" if "r \<noteq> None"
    using assms(2) n(1) by (cases rule: claim_body_cases) (use that in simp_all)
qed

lemma think_ok_finish:
  assumes "think_ok i db turns calls d" "0 < i"
    and "claim_body i epoch db = Inr (Some db1, Some (c, n))"
    and "finish_body i c n terminal db1 = Inr (x, y)"
    and "terminal \<in> {''completed'', ''failed'', ''uncertain''}" "x = Some db2 \<or> x = None \<and> db2 = db1"
  shows "think_ok i db2 (turns + 1) (calls + 1) (d + (if claim_state db2 = ''completed'' then 1 else 0))"
proof -
  obtain m where m: "counter_of db = Some m" "0 \<le> m" "int d * i + m \<le> int turns"
    "if blocked db then calls \<le> d + 1 \<and> i \<le> m else calls \<le> d"
    using assms(1) by (auto simp: think_ok_def)
  show ?thesis
    using assms(3) m(1)
  proof (cases rule: claim_body_cases)
    case (claim db')
    obtain rows where rows: "gd_meta db1 = Some rows" "map_of rows ''think_claim_epoch'' = Some c"
      "map_of rows ''think_claim_state'' = Some ''in_flight''" "map_of rows ''think_counter'' \<noteq> None"
      using claim by auto
    have f: "claim_state db2 = terminal"
      "counter_of db2 = (if terminal = ''completed'' then Some (max 0 (n - i)) else counter_of db1)"
      using finish_claimed [OF rows assms(4)] assms(6) by auto
    show ?thesis
    proof (cases "terminal = ''completed''")
      case True
      then have "counter_of db2 = Some (n - i)" "n = m + 1" "i \<le> n" "\<not> blocked db2" "calls \<le> d"
        using f claim m(4) blocked_not_completed [of db2] by auto
      then show ?thesis
        using m(3) True f(1) unfolding think_ok_def by (intro exI [of _ "n - i"]) (simp add: algebra_simps)
    next
      case False
      then have "blocked db2" using f(1) assms(5) by (auto simp: blocked_def BLOCKING_STATES_def)
      then show ?thesis
        using f m claim False by (auto simp: think_ok_def)
    qed
  qed simp_all
qed

lemma run_think_store:
  "(\<not> to_called (run_think_cycle_if_due env p state s) \<and> to_store (run_think_cycle_if_due env p state s) = s) \<or>
   (\<exists>cfg. pv_config p = Some cfg \<and> 0 < cfg_think_interval cfg \<and>
      to_called (run_think_cycle_if_due env p state s) =
        to_called (think_admitted env (cfg_think_interval cfg) state s) \<and>
      to_store (run_think_cycle_if_due env p state s) =
        to_store (think_admitted env (cfg_think_interval cfg) state s))"
  by (auto simp: run_think_cycle_if_due_def Let_def think_enabled_def split: option.splits)

lemma think_ok_admitted:
  fixes env state
  assumes "think_ok i (st_durable s) turns calls d" "0 < i"
  defines "out \<equiv> think_admitted env i state s"
  shows "think_ok i (st_durable (to_store out)) (turns + 1) (calls + (if to_called out then 1 else 0))
    (d + (if to_called out \<and> claim_state (st_durable (to_store out)) = ''completed'' then 1 else 0))"
proof (cases rule: think_admitted_cases [of env i state s])
  case none
  then show ?thesis using think_ok_turn_mono [OF assms(1)] by (simp add: out_def)
next
  case (first db r)
  note c = think_ok_claim [OF assms(1) first(1)]
  show ?thesis
  proof (cases "r = None")
    case True
    then show ?thesis using c(1) first by (simp add: out_def)
  next
    case False
    then show ?thesis
      using c(1,2,3) first by (cases "to_called out") (auto simp: out_def)
  qed
next
  case (both db c n terminal x y db')
  show ?thesis
    using think_ok_finish [OF assms(1,2) both(1,2,5,6)] both(3,4) by (simp add: out_def)
qed

lemma think_ok_cong:
  assumes "think_ok i db turns calls d" "counter_of db' = counter_of db" "blocked db' = blocked db"
  shows "think_ok i db' turns calls d"
  using assms by (simp add: think_ok_def)

lemma recover_think:
  "counter_of (st_durable (fst (recover_think_claim flt s))) = counter_of (st_durable s) \<and>
   blocked (st_durable (fst (recover_think_claim flt s))) = blocked (st_durable s)"
proof -
  obtain s1 r where t: "transact flt recover_body s = (s1, r)" by fastforce
  have "fst (recover_think_claim flt s) = s1"
    using t by (auto simp: recover_think_claim_def split: sum.splits)
  moreover have "counter_of (st_durable s1) = counter_of (st_durable s) \<and>
      blocked (st_durable s1) = blocked (st_durable s)"
  proof (cases "st_durable s1 = st_durable s")
    case False
    then obtain x where "recover_body (st_durable s) = Inr (Some (st_durable s1), x)"
      using transact_cases(3) [OF t] by blast
    then obtain rows where rows: "gd_meta (st_durable s) = Some rows"
      "map_of rows ''think_claim_state'' = Some ''in_flight''"
      "st_durable s1 = (st_durable s)\<lparr>gd_meta := Some (meta_update ''think_claim_state'' ''uncertain'' rows)\<rparr>"
      using False by (auto simp: recover_body_def split: option.splits if_splits)
    then have "counter_of (st_durable s1) = counter_of (st_durable s)"
      by (simp add: counter_of_def meta_get_def map_of_meta_update meta_rows_of_def)
    moreover have "claim_state (st_durable s) = ''in_flight''" "claim_state (st_durable s1) = ''uncertain''"
      using rows by (simp_all add: claim_state_def meta_get_def map_of_meta_update meta_rows_of_def)
    ultimately show ?thesis by (simp add: blocked_def BLOCKING_STATES_def)
  qed simp
  ultimately show ?thesis by simp
qed

lemma think_step_inv:
  assumes "0 < interval" "think_step interval t t'" "think_inv interval t"
  shows "think_inv interval t'"
  using assms(2,3)
proof (induction rule: think_step.induct)
  case (turn p cfg out env state t)
  note ok = turn(4) [unfolded think_inv_def]
  consider (idle) "\<not> to_called out" "to_store out = ts_store t"
    | (ran) "to_called out = to_called (think_admitted env interval state (ts_store t))"
        "to_store out = to_store (think_admitted env interval state (ts_store t))"
    using run_think_store [of env p state "ts_store t"] turn(1-3) by auto
  then show ?case
  proof cases
    case idle
    then show ?thesis using think_ok_turn_mono [OF ok] by (simp add: think_inv_def)
  next
    case ran
    then show ?thesis
      using think_ok_admitted [OF ok assms(1), of env state] by (simp add: think_inv_def)
  qed
next
  case (death flt epoch t s c)
  then obtain d where d: "claim_body interval epoch (st_durable (ts_store t)) = Inr (d, Some c)"
    "st_durable s = (case d of None \<Rightarrow> st_durable (ts_store t) | Some db \<Rightarrow> db)"
    using transact_cases(2) [OF death(1)] by blast
  then have c: "claim_body interval epoch (st_durable (ts_store t)) = Inr (Some (st_durable s), Some c)"
    by (auto simp: claim_body_def Let_def split: if_splits option.splits)
  show ?case
    using think_ok_claim(1) [OF death(2) [unfolded think_inv_def] c] by (simp add: think_inv_def)
next
  case (recovery t flt)
  then show ?case
    using think_ok_cong recover_think by (simp add: think_inv_def)
next
  case (other s t)
  then show ?case
    by (intro think_inv_def [THEN iffD2], simp, intro think_ok_cong [OF other(2) [unfolded think_inv_def]])
      (simp_all add: counter_of_def blocked_def claim_state_def meta_get_def THINK_KEYS_def)
qed

interpretation think: invariant_system think_init "\<lambda>t t'. 0 < interval \<and> think_step interval t t'"
  "think_inv interval" for interval
proof (unfold_locales)
  show "think_inv interval t" if "think_init t" for t
  proof -
    have z: "int_of_str ''0'' = Some 0" by code_simp
    show ?thesis
      using that
      by (auto simp: think_init_def think_inv_def think_ok_def counter_of_def blocked_def claim_state_def
          meta_get_def THINK_KEYS_def BLOCKING_STATES_def z)
  qed
qed (auto intro: think_step_inv)

lemma think_steps:
  assumes "0 < interval" "(think_step interval)\<^sup>*\<^sup>* t t'"
  shows "(\<lambda>t t'. 0 < interval \<and> think_step interval t t')\<^sup>*\<^sup>* t t'"
  using assms(2) by (induction rule: rtranclp_induct) (auto simp: assms(1) intro: rtranclp.rtrancl_into_rtrancl)

text \<open>
  C18: The engine thinks at most once per interval. Starting from a database without
  a claim, after any number of turns of any providers, failing transactions,
  deaths of processes and recoveries, the calls of the think cycle times the
  interval do not exceed the turns, and the completed cycles and the counter
  together account for no more turns than there were.
\<close>

theorem think_calls_bounded:
  assumes "0 < interval" "think_init t0" "(think_step interval)\<^sup>*\<^sup>* t0 t"
  shows "int (ts_calls t) * interval \<le> int (ts_turns t) \<and>
    (\<exists>n. counter_of (st_durable (ts_store t)) = Some n \<and> 0 \<le> n \<and> int (ts_done t) * interval + n \<le> int (ts_turns t))"
proof -
  obtain n where n: "counter_of (st_durable (ts_store t)) = Some n" "0 \<le> n"
    "int (ts_done t) * interval + n \<le> int (ts_turns t)"
    "if blocked (st_durable (ts_store t)) then ts_calls t \<le> ts_done t + 1 \<and> interval \<le> n
     else ts_calls t \<le> ts_done t"
    using think.inv_reachable [OF assms(2) think_steps [OF assms(1,3)]]
    by (auto simp: think_inv_def think_ok_def)
  have le: "int (ts_calls t) * interval \<le> int k * interval" if "ts_calls t \<le> k" for k
    using that assms(1) by (intro mult_right_mono) auto
  have "int (ts_calls t) * interval \<le> int (ts_turns t)"
  proof (cases "blocked (st_durable (ts_store t))")
    case True
    then have "int (ts_calls t) * interval \<le> int (ts_done t + 1) * interval"
      using n(4) by (intro le) simp
    also have "\<dots> \<le> int (ts_turns t)"
      using True n(3,4) by (simp add: algebra_simps)
    finally show ?thesis .
  next
    case False
    then show ?thesis using le [of "ts_done t"] n by auto
  qed
  then show ?thesis using n(1-3) by blast
qed

section \<open>A claim that did not complete blocks for good\<close>

lemma blocked_turn:
  assumes "blocked (st_durable s)"
  shows "\<not> to_called (think_admitted env i state s)"
    and "st_durable (to_store (think_admitted env i state s)) = st_durable s"
proof -
  have b: "claim_body i e (st_durable s) = Inr (None, None)" for e
    using assms by (simp add: claim_body_def Let_def blocked_def claim_state_def)
  show "\<not> to_called (think_admitted env i state s)"
    by (rule think_admitted_cases [of env i state s]) (simp_all add: b)
  show "st_durable (to_store (think_admitted env i state s)) = st_durable s"
    by (rule think_admitted_cases [of env i state s]) (simp_all add: b)
qed

lemma blocked_step:
  assumes "think_step i t t'" "blocked (st_durable (ts_store t))"
  shows "blocked (st_durable (ts_store t')) \<and> ts_calls t' = ts_calls t \<and>
    counter_of (st_durable (ts_store t')) = counter_of (st_durable (ts_store t))"
  using assms
proof (induction rule: think_step.induct)
  case (turn p cfg out env state t)
  then show ?case
    using run_think_store [of env p state "ts_store t"] blocked_turn [OF turn(4)] by auto
next
  case (death flt epoch t s c)
  have "claim_body i epoch (st_durable (ts_store t)) = Inr (None, None)"
    using death(2) by (simp add: claim_body_def Let_def blocked_def claim_state_def)
  then show ?case using transact_cases(2) [OF death(1)] by auto
next
  case (recovery t flt)
  then show ?case using recover_think by simp
next
  case (other s t)
  then show ?case
    by (simp add: counter_of_def blocked_def claim_state_def meta_get_def THINK_KEYS_def)
qed

text \<open>
  A think cycle that did not complete is the last one. Once the claim is in
  flight, failed, partial or uncertain, no sequence of turns, deaths, recoveries
  and other uses of the database calls the engine again, and the turn counter
  stands still: a cycle that merely found nothing new records a failure, and
  nothing in the program ever clears it.
\<close>

theorem think_claim_blocks_forever:
  assumes "(think_step interval)\<^sup>*\<^sup>* t t'" "blocked (st_durable (ts_store t))"
  shows "ts_calls t' = ts_calls t \<and> blocked (st_durable (ts_store t')) \<and>
    counter_of (st_durable (ts_store t')) = counter_of (st_durable (ts_store t))"
  using assms by (induction rule: rtranclp_induct) (auto dest: blocked_step)

section \<open>Witnesses\<close>

definition thinking_provider :: provider where
  "thinking_provider = new_provider\<lparr>pv_model_fn := True, pv_identity_ready := True,
     pv_db_path := Some [''brain.db''],
     pv_config := Some ((config_of_payload DEFAULTS)\<lparr>cfg_think_cycles := True, cfg_think_interval := 1\<rparr>)\<rparr>"

definition nothing_new :: think_env where
  "nothing_new = \<lparr>te_admission = None, te_claim_epoch = ''1:1'', te_claim = no_txn_faults,
     te_result = return False, te_finish = no_txn_faults, te_release = None\<rparr>"

definition empty_brain :: think_sys where
  "empty_brain = \<lparr>ts_store = \<lparr>st_durable = \<lparr>gd_meta = None, gd_nodes = [], gd_embeddings = [], gd_vec = None\<rparr>,
     st_work = None, st_backups = [], st_temporary = 0\<rparr>, ts_turns = 0, ts_calls = 0, ts_done = 0\<rparr>"

definition after_one_turn :: think_sys where
  "after_one_turn = empty_brain\<lparr>ts_store := (ts_store empty_brain)\<lparr>st_durable :=
       (st_durable (ts_store empty_brain))\<lparr>gd_meta := Some
         [(''think_counter'', ''1''), (''think_claim_epoch'', ''1:1''), (''think_claim_state'', ''failed'')]\<rparr>\<rparr>,
     ts_turns := 1, ts_calls := 1\<rparr>"

lemma first_think:
  "run_think_cycle_if_due nothing_new thinking_provider ''none'' (ts_store empty_brain) =
     \<lparr>to_store = ts_store after_one_turn, to_state = ''failed'', to_called = True, to_raised = None\<rparr>"
proof -
  have z: "int_of_str ''0'' = Some 0" "str_of_int 1 = ''1''" by code_simp+
  have en: "think_enabled thinking_provider"
    "pv_config thinking_provider =
       Some ((config_of_payload DEFAULTS)\<lparr>cfg_think_cycles := True, cfg_think_interval := 1\<rparr>)"
    by (simp_all add: think_enabled_def thinking_provider_def)
  let ?rows = "[(''think_counter'', ''1''), (''think_claim_epoch'', ''1:1''), (''think_claim_state'', ''in_flight'')]"
  let ?s = "ts_store empty_brain"
  let ?db1 = "(st_durable ?s)\<lparr>gd_meta := Some ?rows\<rparr>"
  have c: "claim_body 1 ''1:1'' (st_durable ?s) = Inr (Some ?db1, Some (''1:1'', 1))"
    by (simp add: claim_body_def Let_def empty_brain_def meta_rows_of_def meta_get_def BLOCKING_STATES_def z upsert_def)
  have t: "transact no_txn_faults (claim_body 1 ''1:1'') ?s =
      (?s\<lparr>st_durable := ?db1, st_work := None\<rparr>, Inr (Some (''1:1'', 1)))"
    by (rule transact_ok [of "claim_body 1 ''1:1''", OF c])
  have f: "finish_body 1 ''1:1'' 1 ''failed'' ?db1 =
      Inr (Some (st_durable (ts_store after_one_turn)), True)"
    by (simp add: finish_body_def Let_def meta_update_def after_one_turn_def empty_brain_def)
  have t2: "transact no_txn_faults (finish_body 1 ''1:1'' 1 ''failed'') (?s\<lparr>st_durable := ?db1, st_work := None\<rparr>) =
      (ts_store after_one_turn, Inr True)"
    using transact_ok [of "finish_body 1 ''1:1'' 1 ''failed''" "?s\<lparr>st_durable := ?db1, st_work := None\<rparr>"] f
    by (simp add: after_one_turn_def empty_brain_def)
  show ?thesis
    by (simp add: run_think_cycle_if_due_def en Let_def nothing_new_def think_admitted_def t c finish_claim_def
        terminal_state_def t2 think_deferred_def)
qed

lemma first_think_step: "think_step 1 empty_brain after_one_turn"
proof -
  have "think_step 1 empty_brain (empty_brain\<lparr>ts_store := ts_store after_one_turn, ts_turns := ts_turns empty_brain + 1,
      ts_calls := ts_calls empty_brain + 1, ts_done := ts_done empty_brain + 0\<rparr>)"
    using think_step.turn [of thinking_provider _ 1 _ nothing_new "''none''" empty_brain, OF _ _ refl, unfolded first_think]
    by (simp add: thinking_provider_def claim_state_def after_one_turn_def meta_rows_of_def meta_get_def)
  then show ?thesis by (simp add: after_one_turn_def empty_brain_def)
qed

theorem think_calls_bounded_witness:
  "(think_step 1)\<^sup>*\<^sup>* empty_brain after_one_turn \<and> ts_calls after_one_turn = 1 \<and>
   int (ts_calls after_one_turn) * 1 \<le> int (ts_turns after_one_turn)"
proof -
  have i: "think_init empty_brain"
    by (simp add: think_init_def empty_brain_def meta_rows_of_def)
  have s: "(think_step 1)\<^sup>*\<^sup>* empty_brain after_one_turn"
    using first_think_step by blast
  show ?thesis
    using think_calls_bounded [OF _ i s] s by (simp add: after_one_turn_def)
qed

theorem think_claim_blocks_forever_witness:
  "blocked (st_durable (ts_store after_one_turn)) \<and>
   ts_calls (after_one_turn\<lparr>ts_store := fst (recover_think_claim no_txn_faults (ts_store after_one_turn))\<rparr>) = 1 \<and>
   blocked (st_durable (fst (recover_think_claim no_txn_faults (ts_store after_one_turn))))"
proof -
  have b: "blocked (st_durable (ts_store after_one_turn))"
    by (simp add: blocked_def claim_state_def after_one_turn_def meta_rows_of_def meta_get_def BLOCKING_STATES_def)
  have s: "(think_step 1)\<^sup>*\<^sup>* after_one_turn
      (after_one_turn\<lparr>ts_store := fst (recover_think_claim no_txn_faults (ts_store after_one_turn))\<rparr>)"
    by (blast intro: think_step.recovery)
  show ?thesis
    using think_claim_blocks_forever [OF s b] b by (simp add: after_one_turn_def)
qed

end
