(* ===== verification/AuditBudget.thy ===== *)
theory AuditBudget
  imports Prelude
begin

text \<open>
  The work budget of the integrity audit (\<^verbatim>\<open>_AuditBudget\<close> of \<^verbatim>\<open>integrity.py\<close>): a deadline
  and caps on rows and bytes that every scan shares, and the loops that read a
  query's rows in batches under it.

  The clock is a sequence of readings, one per call of \<^verbatim>\<open>time.monotonic\<close>. A computation
  of the audit passes the budget and the counted reasons on and may raise;
  \<open>audit_comp\<close> is what every one of them keeps: the caps hold, and a reason once
  recorded stays.
\<close>

section \<open>Budget\<close>

definition MAX_AUDIT_ROWS :: nat where
  "MAX_AUDIT_ROWS = 100000"

definition MAX_AUDIT_BYTES :: int where
  "MAX_AUDIT_BYTES = 64 * 1024 * 1024"

definition MAX_VECTOR_BYTES :: int where
  "MAX_VECTOR_BYTES = 4 * 1024 * 1024"

definition AUDIT_BATCH_SIZE :: nat where
  "AUDIT_BATCH_SIZE = 256"

record audit_budget =
  ab_deadline :: real
  ab_rows :: nat
  ab_bytes :: int
  ab_reasons :: "string list"
  ab_scans :: "(string \<times> bool) list"
  ab_clock :: "nat \<Rightarrow> real"
  ab_tick :: nat

definition add_incomplete :: "string \<Rightarrow> audit_budget \<Rightarrow> audit_budget" where
  "add_incomplete r b = (if r \<in> set (ab_reasons b) then b else b\<lparr>ab_reasons := ab_reasons b @ [r]\<rparr>)"

definition budget_check :: "audit_budget \<Rightarrow> audit_budget \<times> bool" where
  "budget_check b =
     (let b1 = b\<lparr>ab_tick := Suc (ab_tick b)\<rparr>
      in if ab_clock b (ab_tick b) \<ge> ab_deadline b then (add_incomplete ''audit_deadline'' b1, False)
         else (b1, True))"

definition budget_ready :: "audit_budget \<Rightarrow> audit_budget \<times> bool" where
  "budget_ready b = (case budget_check b of (b1, ok) \<Rightarrow> (b1, ok \<and> ab_reasons b1 = []))"

definition reserve_bytes :: "int \<Rightarrow> audit_budget \<Rightarrow> audit_budget \<times> bool" where
  "reserve_bytes n b =
     (case budget_ready b of
        (b1, False) \<Rightarrow> (b1, False)
      | (b1, True) \<Rightarrow>
          if n < 0 \<or> ab_bytes b1 + n > MAX_AUDIT_BYTES then (add_incomplete ''audit_byte_cap'' b1, False)
          else (b1\<lparr>ab_bytes := ab_bytes b1 + n\<rparr>, True))"

definition consume :: "int \<Rightarrow> audit_budget \<Rightarrow> audit_budget \<times> bool" where
  "consume n b =
     (case budget_ready b of
        (b1, False) \<Rightarrow> (b1, False)
      | (b1, True) \<Rightarrow>
          if ab_rows b1 \<ge> MAX_AUDIT_ROWS then (add_incomplete ''audit_row_cap'' b1, False)
          else (case reserve_bytes n b1 of
                  (b2, False) \<Rightarrow> (b2, False)
                | (b2, True) \<Rightarrow> (b2\<lparr>ab_rows := Suc (ab_rows b2)\<rparr>, True)))"

text \<open>\<^verbatim>\<open>progress\<close>: the callback SQLite polls; a nonzero result interrupts the statement.\<close>

definition budget_progress :: "audit_budget \<Rightarrow> audit_budget \<times> int" where
  "budget_progress b =
     (case budget_check b of (b1, ok) \<Rightarrow> (b1, if ok then 0 else 1))"

section \<open>Scans\<close>

text \<open>
  Reading rows under the budget. \<open>cost\<close> is what a row takes from the byte cap, \<open>None\<close> for
  a row too big to look at. The result has the rows that were taken and how the
  loop ended: no row was left, a row was refused, or the budget was not ready for
  the next batch.
\<close>

datatype scan_end = Exhausted | Refused | Not_ready

fun take_batch :: "('r \<Rightarrow> int option) \<Rightarrow> 'r list \<Rightarrow> audit_budget \<Rightarrow> audit_budget \<times> 'r list \<times> bool" where
  "take_batch cost [] b = (b, [], True)"
| "take_batch cost (r # rs) b =
     (case cost r of
        None \<Rightarrow> (add_incomplete ''audit_byte_cap'' b, [], False)
      | Some n \<Rightarrow>
          (case consume n b of
             (b1, False) \<Rightarrow> (b1, [], False)
           | (b1, True) \<Rightarrow> (case take_batch cost rs b1 of (b2, xs, ok) \<Rightarrow> (b2, r # xs, ok))))"

function scan_rows ::
    "('r \<Rightarrow> int option) \<Rightarrow> 'r list \<Rightarrow> audit_budget \<Rightarrow> audit_budget \<times> 'r list \<times> scan_end" where
  "scan_rows cost rows b =
     (case budget_ready b of
        (b1, False) \<Rightarrow> (b1, [], Not_ready)
      | (b1, True) \<Rightarrow>
          if rows = [] then (b1, [], Exhausted)
          else (case take_batch cost (take AUDIT_BATCH_SIZE rows) b1 of
                  (b2, xs, False) \<Rightarrow> (b2, xs, Refused)
                | (b2, xs, True) \<Rightarrow>
                    (case scan_rows cost (drop AUDIT_BATCH_SIZE rows) b2 of
                       (b3, ys, e) \<Rightarrow> (b3, xs @ ys, e))))"
  by pat_completeness auto

termination
  by (relation "measure (\<lambda>(_, rows, _). length rows)") (auto simp: AUDIT_BATCH_SIZE_def)

declare scan_rows.simps [simp del]

section \<open>Computations of the audit\<close>

record au_state =
  as_budget :: audit_budget
  as_reasons :: "(string \<times> nat) list"

type_synonym 'a au = "au_state \<Rightarrow> au_state \<times> 'a res"

definition au_ret :: "'a \<Rightarrow> 'a au" where
  "au_ret x s = (s, Inr x)"

definition au_raise :: "exc_class \<Rightarrow> string \<Rightarrow> 'a au" where
  "au_raise c m s = (s, raise c m)"

definition au_bind :: "'a au \<Rightarrow> ('a \<Rightarrow> 'b au) \<Rightarrow> 'b au" where
  "au_bind m f s = (case m s of (s1, Inl e) \<Rightarrow> (s1, Inl e) | (s1, Inr x) \<Rightarrow> f x s1)"

text \<open>\<^verbatim>\<open>try: m except c: h\<close>.\<close>

definition au_catch :: "exc_class \<Rightarrow> 'a au \<Rightarrow> 'a au \<Rightarrow> 'a au" where
  "au_catch c m h s =
     (case m s of
        (s1, Inl e) \<Rightarrow> if isinstance e c then h s1 else (s1, Inl e)
      | (s1, Inr x) \<Rightarrow> (s1, Inr x))"

definition on_budget :: "(audit_budget \<Rightarrow> audit_budget \<times> 'a) \<Rightarrow> 'a au" where
  "on_budget f s = (case f (as_budget s) of (b, x) \<Rightarrow> (s\<lparr>as_budget := b\<rparr>, Inr x))"

definition set_scan :: "string \<Rightarrow> bool \<Rightarrow> unit au" where
  "set_scan label v = on_budget (\<lambda>b. (b\<lparr>ab_scans := AList.update label v (ab_scans b)\<rparr>, ()))"

definition get_incomplete :: "string list au" where
  "get_incomplete = on_budget (\<lambda>b. (b, ab_reasons b))"

definition add_reason :: "string \<Rightarrow> nat \<Rightarrow> unit au" where
  "add_reason reason n s =
     (if reason \<noteq> [] \<and> n > 0 then
        (s\<lparr>as_reasons := AList.update reason
             (n + (case map_of (as_reasons s) reason of None \<Rightarrow> 0 | Some k \<Rightarrow> k)) (as_reasons s)\<rparr>, Inr ())
      else (s, Inr ()))"

section \<open>What every computation keeps\<close>

definition budget_ok :: "audit_budget \<Rightarrow> bool" where
  "budget_ok b \<longleftrightarrow> ab_rows b \<le> MAX_AUDIT_ROWS \<and> 0 \<le> ab_bytes b \<and> ab_bytes b \<le> MAX_AUDIT_BYTES \<and>
     (\<forall>r \<in> set (ab_reasons b). py_startswith ''audit_'' r)"

lemma audit_reason [simp]:
  "py_startswith ''audit_'' ''audit_deadline''" "py_startswith ''audit_'' ''audit_byte_cap''"
  "py_startswith ''audit_'' ''audit_row_cap''"
  by code_simp+

definition budget_grows :: "audit_budget \<Rightarrow> audit_budget \<Rightarrow> bool" where
  "budget_grows b b' \<longleftrightarrow> set (ab_reasons b) \<subseteq> set (ab_reasons b') \<and> (budget_ok b \<longrightarrow> budget_ok b')"

definition audit_comp :: "'a au \<Rightarrow> bool" where
  "audit_comp m \<longleftrightarrow> (\<forall>s. budget_grows (as_budget s) (as_budget (fst (m s))) \<and>
     fst ` set (as_reasons s) \<subseteq> fst ` set (as_reasons (fst (m s))))"

text \<open>A run that recorded nothing: neither a reason nor an incomplete scan.\<close>

definition clean :: "au_state \<Rightarrow> bool" where
  "clean s \<longleftrightarrow> ab_reasons (as_budget s) = [] \<and> as_reasons s = []"

named_theorems comp_intros \<open>computations of the audit\<close>

lemma grows_refl [simp]: "budget_grows b b"
  by (simp add: budget_grows_def)

lemma grows_trans: "budget_grows a b \<Longrightarrow> budget_grows b c \<Longrightarrow> budget_grows a c"
  by (auto simp: budget_grows_def)

lemma grows_add: "py_startswith ''audit_'' r \<Longrightarrow> budget_grows b (add_incomplete r b)"
  by (auto simp: budget_grows_def add_incomplete_def budget_ok_def)

lemma add_incomplete_simps [simp]:
  "ab_reasons (add_incomplete r b) \<noteq> []" "ab_rows (add_incomplete r b) = ab_rows b"
  by (auto simp: add_incomplete_def)

lemma grows_check: "budget_grows b (fst (budget_check b))"
  by (auto simp: budget_check_def budget_grows_def add_incomplete_def budget_ok_def Let_def)

lemma fst_ready: "fst (budget_ready b) = fst (budget_check b)"
  by (simp add: budget_ready_def split: prod.split)

lemma grows_ready: "budget_grows b (fst (budget_ready b))"
  by (simp add: fst_ready grows_check)

lemma ready_cases:
  assumes "budget_ready b = (b1, ok)"
  shows "budget_grows b b1" "ok \<longleftrightarrow> ab_reasons b1 = []" "ab_rows b1 = ab_rows b" "ab_bytes b1 = ab_bytes b"
proof -
  show "budget_grows b b1" using grows_ready [of b] assms by simp
  show "ok \<longleftrightarrow> ab_reasons b1 = []" "ab_rows b1 = ab_rows b" "ab_bytes b1 = ab_bytes b"
    using assms by (auto simp: budget_ready_def budget_check_def Let_def add_incomplete_def split: if_splits)
qed

lemma grows_progress: "budget_grows b (fst (budget_progress b))"
  using grows_check by (simp add: budget_progress_def split: prod.split) (metis fst_conv)

lemma reserve_cases:
  assumes "reserve_bytes n b = (b1, ok)"
  shows "budget_grows b b1" "ok \<longleftrightarrow> ab_reasons b1 = []" "ab_rows b1 = ab_rows b"
proof -
  obtain b0 r where r: "budget_ready b = (b0, r)" by fastforce
  note rc = ready_cases [OF r]
  show "ab_rows b1 = ab_rows b"
    using assms r rc(3) by (auto simp: reserve_bytes_def add_incomplete_def split: if_splits bool.splits)
  show "budget_grows b b1"
    using assms r rc by (auto simp: reserve_bytes_def budget_grows_def budget_ok_def add_incomplete_def split: if_splits bool.splits)
  show "ok \<longleftrightarrow> ab_reasons b1 = []"
    using assms r rc by (auto simp: reserve_bytes_def split: if_splits bool.splits)
qed

lemma consume_cases:
  assumes "consume n b = (b1, ok)"
  shows "budget_grows b b1" "ok \<longleftrightarrow> ab_reasons b1 = []" "ok \<Longrightarrow> ab_rows b < MAX_AUDIT_ROWS"
    "ok \<Longrightarrow> ab_rows b1 = Suc (ab_rows b)"
proof -
  obtain b0 r where r: "budget_ready b = (b0, r)" by fastforce
  obtain b2 q where q: "reserve_bytes n b0 = (b2, q)" by fastforce
  note rc = ready_cases [OF r] and qc = reserve_cases [OF q]
  note rows = qc(3)
  show "budget_grows b b1"
  proof -
    consider "b1 = b0" | "b1 = add_incomplete ''audit_row_cap'' b0" | "b1 = b2"
      | "b1 = b2\<lparr>ab_rows := Suc (ab_rows b2)\<rparr>" "ab_rows b0 < MAX_AUDIT_ROWS"
      using assms r q by (auto simp: consume_def split: if_splits bool.splits)
    then have "budget_grows b0 b1"
    proof cases
      case 4
      have "budget_grows b2 b1" using 4 rows by (auto simp: budget_grows_def budget_ok_def)
      then show ?thesis by (rule grows_trans [OF qc(1)])
    qed (use qc(1) grows_add in auto)
    then show ?thesis by (rule grows_trans [OF rc(1)])
  qed
  show "ok \<longleftrightarrow> ab_reasons b1 = []"
    using assms r q rc(2) qc(2) by (auto simp: consume_def split: if_splits bool.splits)
  show "ab_rows b < MAX_AUDIT_ROWS" "ab_rows b1 = Suc (ab_rows b)" if ok
    using assms r q that rc(3) rows by (auto simp: consume_def split: if_splits bool.splits)
qed

lemma take_batch_cases:
  assumes "take_batch cost rs b = (b1, xs, ok)"
  shows "budget_grows b b1 \<and> (ok \<longrightarrow> xs = rs) \<and> (\<not> ok \<longrightarrow> ab_reasons b1 \<noteq> []) \<and>
    ab_rows b \<le> ab_rows b1 \<and> (ok \<longrightarrow> ab_rows b1 = ab_rows b + length rs) \<and>
    (ok \<longrightarrow> budget_ok b \<longrightarrow> ab_rows b + length rs \<le> MAX_AUDIT_ROWS)"
  using assms
proof (induction cost rs b arbitrary: b1 xs ok rule: take_batch.induct)
  case (2 cost r rs b)
  show ?case
  proof (cases "cost r")
    case None
    then show ?thesis
      using 2(2) grows_add [of "''audit_byte_cap''" b] by auto
  next
    case (Some n)
    obtain b0 q where c: "consume n b = (b0, q)" by fastforce
    note cc = consume_cases [OF c]
    show ?thesis
    proof (cases q)
      case False
      have "ab_rows b \<le> ab_rows b0"
        using c False ready_cases(3) reserve_cases(3)
        by (fastforce simp: consume_def add_incomplete_def split: if_splits bool.splits prod.splits)
      then show ?thesis using 2(2) Some c False cc by auto
    next
      case True
      obtain b2 ys ok' where t: "take_batch cost rs b0 = (b2, ys, ok')" by (metis prod_cases3)
      then have ih: "budget_grows b0 b2 \<and> (ok' \<longrightarrow> ys = rs) \<and> (\<not> ok' \<longrightarrow> ab_reasons b2 \<noteq> []) \<and>
        ab_rows b0 \<le> ab_rows b2 \<and> (ok' \<longrightarrow> ab_rows b2 = ab_rows b0 + length rs) \<and>
        (ok' \<longrightarrow> budget_ok b0 \<longrightarrow> ab_rows b0 + length rs \<le> MAX_AUDIT_ROWS)"
        using 2(1) [OF Some _ refl t] c True by simp
      have "budget_ok b \<longrightarrow> budget_ok b0" using cc(1) by (simp add: budget_grows_def)
      then show ?thesis
        using 2(2) Some c True t ih cc grows_trans [OF cc(1)] by auto
    qed
  qed
qed (simp add: budget_ok_def)

text \<open>
  A scan that ends without a recorded reason has read every row, and the rows of
  all scans together are within the cap.
\<close>

lemma scan_rows_cases:
  assumes "scan_rows cost rows b = (b1, xs, e)"
  shows "budget_grows b b1 \<and> (ab_reasons b1 = [] \<longrightarrow> e = Exhausted \<and> xs = rows) \<and>
    (e = Exhausted \<longrightarrow> xs = rows \<and> ab_reasons b1 = []) \<and>
    (e = Exhausted \<longrightarrow> budget_ok b \<longrightarrow> ab_rows b + length rows \<le> MAX_AUDIT_ROWS)"
  using assms
proof (induction cost rows b arbitrary: b1 xs e rule: scan_rows.induct)
  case (1 cost rows b)
  obtain b0 q where r: "budget_ready b = (b0, q)" by fastforce
  note rc = ready_cases [OF r]
  show ?case
  proof (cases "q \<and> rows \<noteq> []")
    case False
    then show ?thesis
      using 1(2) r rc by (subst (asm) scan_rows.simps) (auto simp: budget_ok_def split: bool.splits)
  next
    case True
    obtain b2 ys ok where t: "take_batch cost (take AUDIT_BATCH_SIZE rows) b0 = (b2, ys, ok)"
      by (metis prod_cases3)
    note tc = take_batch_cases [OF t]
    show ?thesis
    proof (cases ok)
      case False
      then have "b1 = b2 \<and> xs = ys \<and> e = Refused"
        using 1(2) r True t by (subst (asm) scan_rows.simps) simp
      then show ?thesis using False tc grows_trans [OF rc(1)] by auto
    next
      case ok: True
      obtain b3 zs e' where s: "scan_rows cost (drop AUDIT_BATCH_SIZE rows) b2 = (b3, zs, e')"
        by (metis prod_cases3)
      have eq: "b1 = b3 \<and> xs = ys @ zs \<and> e = e'"
        using 1(2) r True t ok s by (subst (asm) scan_rows.simps) simp
      have q: "q = True" and ok': "ok = True" using True ok by simp_all
      have ih: "budget_grows b2 b3 \<and> (ab_reasons b3 = [] \<longrightarrow> e' = Exhausted \<and> zs = drop AUDIT_BATCH_SIZE rows) \<and>
        (e' = Exhausted \<longrightarrow> zs = drop AUDIT_BATCH_SIZE rows \<and> ab_reasons b3 = []) \<and>
        (e' = Exhausted \<longrightarrow> budget_ok b2 \<longrightarrow> ab_rows b2 + length (drop AUDIT_BATCH_SIZE rows) \<le> MAX_AUDIT_ROWS)"
      proof (rule 1(1) [OF r [symmetric] q _ t [symmetric] refl ok' s])
        show "rows \<noteq> []" using True by simp
      qed
      have g: "budget_grows b b2" using grows_trans [OF rc(1)] tc by blast
      then have w: "budget_ok b \<longrightarrow> budget_ok b2" by (simp add: budget_grows_def)
      have "ab_rows b2 = ab_rows b + length (take AUDIT_BATCH_SIZE rows)"
        using tc ok rc(3) by auto
      moreover have "length (take AUDIT_BATCH_SIZE rows) + length (drop AUDIT_BATCH_SIZE rows) = length rows"
        by simp
      ultimately have rows: "ab_rows b2 + length (drop AUDIT_BATCH_SIZE rows) = ab_rows b + length rows"
        by linarith
      have "ys = take AUDIT_BATCH_SIZE rows" using tc ok by blast
      then have all: "xs = rows" if "zs = drop AUDIT_BATCH_SIZE rows" using eq that by simp
      show ?thesis
        using eq ih all w rows grows_trans [OF g] by auto
    qed
  qed
qed

section \<open>Composition\<close>

lemma comp_ret [comp_intros]: "audit_comp (au_ret x)"
  by (simp add: audit_comp_def au_ret_def)

lemma comp_raise [comp_intros]: "audit_comp (au_raise c m)"
  by (simp add: audit_comp_def au_raise_def)

definition grows :: "au_state \<Rightarrow> au_state \<Rightarrow> bool" where
  "grows s s' \<longleftrightarrow> budget_grows (as_budget s) (as_budget s') \<and>
     fst ` set (as_reasons s) \<subseteq> fst ` set (as_reasons s')"

lemma audit_comp_grows: "audit_comp m \<longleftrightarrow> (\<forall>s. grows s (fst (m s)))"
  by (simp add: audit_comp_def grows_def)

lemma state_grows_trans: "grows a b \<Longrightarrow> grows b c \<Longrightarrow> grows a c"
  unfolding grows_def by (blast intro: grows_trans)

lemma comp_bind [comp_intros]:
  assumes "audit_comp m" "\<And>x. audit_comp (f x)"
  shows "audit_comp (au_bind m f)"
  unfolding audit_comp_grows
proof
  fix s
  obtain s1 r where m: "m s = (s1, r)" by fastforce
  have 1: "grows s s1" using assms(1) m unfolding audit_comp_grows by (metis fst_conv)
  show "grows s (fst (au_bind m f s))"
  proof (cases r)
    case (Inl e)
    then show ?thesis using m 1 by (simp add: au_bind_def)
  next
    case (Inr x)
    have "grows s1 (fst (f x s1))" using assms(2) unfolding audit_comp_grows by blast
    then show ?thesis using m Inr state_grows_trans [OF 1] by (simp add: au_bind_def)
  qed
qed

lemma comp_catch [comp_intros]:
  assumes "audit_comp m" "audit_comp h"
  shows "audit_comp (au_catch c m h)"
  unfolding audit_comp_grows
proof
  fix s
  obtain s1 r where m: "m s = (s1, r)" by fastforce
  have 1: "grows s s1" using assms(1) m unfolding audit_comp_grows by (metis fst_conv)
  have "grows s1 (fst (h s1))" using assms(2) unfolding audit_comp_grows by blast
  then show "grows s (fst (au_catch c m h s))"
    using m 1 state_grows_trans [OF 1] by (cases r) (simp_all add: au_catch_def)
qed

lemma comp_on_budget:
  assumes "\<And>b. budget_grows b (fst (f b))"
  shows "audit_comp (on_budget f)"
  unfolding audit_comp_def on_budget_def using assms
  by (auto split: prod.split) (metis fst_conv)

lemma comp_ready [comp_intros]: "audit_comp (on_budget budget_ready)"
  by (rule comp_on_budget) (rule grows_ready)

lemma comp_consume [comp_intros]: "audit_comp (on_budget (consume n))"
  by (rule comp_on_budget) (metis consume_cases(1) prod.collapse)

lemma comp_scan [comp_intros]: "audit_comp (on_budget (scan_rows cost rows))"
  by (rule comp_on_budget) (metis scan_rows_cases prod_cases3 fst_conv)

lemma comp_take_batch [comp_intros]: "audit_comp (on_budget (take_batch cost rows))"
  by (rule comp_on_budget) (metis take_batch_cases prod_cases3 fst_conv)

lemma comp_set_scan [comp_intros]: "audit_comp (set_scan l v)"
  unfolding set_scan_def by (rule comp_on_budget) (simp add: budget_grows_def budget_ok_def)

lemma comp_get_incomplete [comp_intros]: "audit_comp get_incomplete"
  unfolding get_incomplete_def by (rule comp_on_budget) simp

lemma comp_add_reason [comp_intros]: "audit_comp (add_reason r n)"
proof -
  have "fst ` set xs \<subseteq> fst ` set (AList.update k v xs)" for k :: string and v :: nat and xs
    by (metis dom_map_of_conv_image_fst update_conv' dom_fun_upd option.distinct(1) subset_insertI)
  then show ?thesis by (auto simp: audit_comp_def add_reason_def)
qed

text \<open>A clean end means that every stage ended cleanly.\<close>

lemma comp_clean:
  assumes "audit_comp m" "m s = (s', r)" "clean s'"
  shows "clean s"
  using assms unfolding audit_comp_def clean_def budget_grows_def by (metis fst_conv image_is_empty set_empty subset_empty)

lemma clean_bind:
  assumes "au_bind m f s = (s', Inr y)" "clean s'" "\<And>x. audit_comp (f x)"
  obtains s1 x where "m s = (s1, Inr x)" "clean s1" "f x s1 = (s', Inr y)"
proof -
  obtain s1 r where m: "m s = (s1, r)" by fastforce
  then obtain x where x: "r = Inr x" "f x s1 = (s', Inr y)"
    using assms(1) by (cases r) (auto simp: au_bind_def)
  then show ?thesis using that m comp_clean [OF assms(3) x(2) assms(2)] by blast
qed

lemma clean_add_reason:
  assumes "add_reason r n s = (s', Inr ())" "clean s'"
  shows "r = [] \<or> n = 0" "s' = s"
  using assms by (auto simp: add_reason_def clean_def split: if_splits)

end
