(* ===== verification/Readonly.thy ===== *)
theory Readonly
  imports AuditBudget GraphDb Locking
begin

text \<open>
  The read-only verification of a profile (\<^verbatim>\<open>locking.py\<close>): the accepted declaration of
  the vector table, the bounded reading of rows, and the checks that must pass
  before a profile is served from a runtime that must not write it.

  \<open>profile_db\<close> is what the queries of the verification and of the audit see of a
  database. \<open>rf\<close> gives the exception a statement raises, with a flag that says the
  audit's progress callback interrupted it.
\<close>

section \<open>What the queries see\<close>

datatype blob = Blob "nat list" | NotBlob

record audit_node =
  an_id :: "string option"
  an_permanent :: "int option"
  an_decayed :: "int option"
  an_type :: "string option"

record embedding_entry =
  ee_node_id :: "string option"
  ee_vector :: blob
  ee_model :: "string option"

record profile_db =
  pd_query_only :: bool
  pd_user_version :: int
  pd_integrity :: string
  pd_tables :: "string list"
  pd_columns :: "string \<Rightarrow> string list"
  pd_meta :: "(string \<times> string) list"
  pd_embeddings :: "embedding_entry list"
  pd_nodes :: "audit_node list"
  pd_edges :: "(string option \<times> string option) list"
  pd_vec_sql :: "string option"
  pd_vec_rows :: "(string option \<times> nat option) list"
  pd_source_id :: string

datatype stmt =
    S_query_only | S_user_version | S_integrity | S_tables | S_exists string | S_columns string
  | S_meta | S_meta_keys | S_embeddings | S_vec_master | S_vec_ids | S_vec_lengths | S_source_id
  | S_orphan_embeddings | S_missing_embeddings | S_permanent_decayed | S_permanent_core
  | S_orphan_edges | S_self_edges

type_synonym stmt_faults = "stmt \<Rightarrow> (exn \<times> bool) option"

section \<open>The declaration of the vector table\<close>

text \<open>
  Matching from the left: a literal without regard to case, optional and required
  white space; each gives the rest of the input.
\<close>

definition re_lit :: "string \<Rightarrow> string \<Rightarrow> string option" where
  "re_lit w s = (if py_lower (take (length w) s) = py_lower w then Some (drop (length w) s) else None)"

definition re_ws0 :: "string \<Rightarrow> string option" where
  "re_ws0 s = Some (dropWhile py_isspace s)"

definition re_ws1 :: "string \<Rightarrow> string option" where
  "re_ws1 s = (case s of c # cs \<Rightarrow> if py_isspace c then Some (dropWhile py_isspace cs) else None | [] \<Rightarrow> None)"

fun re_seq :: "(string \<Rightarrow> string option) list \<Rightarrow> string \<Rightarrow> string option" where
  "re_seq [] s = Some s"
| "re_seq (f # fs) s = (case f s of None \<Rightarrow> None | Some t \<Rightarrow> re_seq fs t)"

fun re_alt :: "(string \<Rightarrow> string option) list \<Rightarrow> string \<Rightarrow> string option" where
  "re_alt [] s = None"
| "re_alt (f # fs) s = (case f s of None \<Rightarrow> re_alt fs s | Some t \<Rightarrow> Some t)"

definition re_opt :: "(string \<Rightarrow> string option) \<Rightarrow> string \<Rightarrow> string option" where
  "re_opt f s = (case f s of None \<Rightarrow> Some s | Some t \<Rightarrow> Some t)"

definition re_one :: "(char \<Rightarrow> bool) \<Rightarrow> string \<Rightarrow> string option" where
  "re_one p s = (case s of [] \<Rightarrow> None | c # cs \<Rightarrow> if p c then Some cs else None)"

definition VEC_DDL_RE :: "string \<Rightarrow> string option" where
  "VEC_DDL_RE = re_seq
     [re_ws0, re_lit ''CREATE'', re_ws1, re_lit ''VIRTUAL'', re_ws1, re_lit ''TABLE'', re_ws1,
      re_opt (re_seq [re_lit ''IF'', re_ws1, re_lit ''NOT'', re_ws1, re_lit ''EXISTS'', re_ws1]),
      re_alt [re_lit ''vec_embeddings'', re_lit [CHR 0x22, CHR ''v'', CHR ''e'', CHR ''c'', CHR ''_'',
                CHR ''e'', CHR ''m'', CHR ''b'', CHR ''e'', CHR ''d'', CHR ''d'', CHR ''i'', CHR ''n'', CHR ''g'',
                CHR ''s'', CHR 0x22],
              re_lit (CHR 0x60 # ''vec_embeddings'' @ [CHR 0x60]), re_lit ''[vec_embeddings]''],
      re_ws1, re_lit ''USING'', re_ws1, re_lit ''vec0'',
      re_one (\<lambda>c. py_isspace c \<or> c = CHR ''('')]"

definition is_supported_vec_ddl :: "string \<Rightarrow> bool" where
  "is_supported_vec_ddl sql \<longleftrightarrow> VEC_DDL_RE sql \<noteq> None"

text \<open>\<^verbatim>\<open>re.search(r"(?:float|int8)\s*\[\s*(\d+)\s*\]", sql, re.IGNORECASE)\<close>.\<close>

definition match_dimension :: "string \<Rightarrow> int option" where
  "match_dimension s =
     (case re_seq [re_alt [re_lit ''float'', re_lit ''int8''], re_ws0, re_lit ''['', re_ws0] s of
        None \<Rightarrow> None
      | Some t \<Rightarrow>
          let ds = takeWhile is_digit t
          in if ds \<noteq> [] \<and> re_seq [re_ws0, re_lit '']''] (dropWhile is_digit t) \<noteq> None
             then map_option int (int_digits False 0 ds) else None)"

fun search_dimension :: "string \<Rightarrow> int option" where
  "search_dimension [] = None"
| "search_dimension (c # cs) =
     (case match_dimension (c # cs) of Some d \<Rightarrow> Some d | None \<Rightarrow> search_dimension cs)"

section \<open>Statements and bounded rows\<close>

text \<open>
  A computation with an optional budget. A statement that fails raises before it
  yields a row; when the progress callback interrupted it, the deadline is on
  record.
\<close>

type_synonym 'a rd = "audit_budget option \<Rightarrow> audit_budget option \<times> 'a res"

definition rd_ret :: "'a \<Rightarrow> 'a rd" where
  "rd_ret x b = (b, Inr x)"

definition rd_fail :: "string \<Rightarrow> 'a rd" where
  "rd_fail m b = (b, raise C_SQLiteWALUnsupportedError m)"

definition rd_bind :: "'a rd \<Rightarrow> ('a \<Rightarrow> 'b rd) \<Rightarrow> 'b rd" where
  "rd_bind m f b = (case m b of (b1, Inl e) \<Rightarrow> (b1, Inl e) | (b1, Inr x) \<Rightarrow> f x b1)"

definition rd_require :: "bool \<Rightarrow> string \<Rightarrow> unit rd" where
  "rd_require c m = (if c then rd_ret () else rd_fail m)"

definition rd_stmt :: "stmt_faults \<Rightarrow> stmt \<Rightarrow> 'a \<Rightarrow> 'a rd" where
  "rd_stmt rf st x b =
     (case rf st of
        None \<Rightarrow> (b, Inr x)
      | Some (e, interrupted) \<Rightarrow>
          ((if interrupted then map_option (add_incomplete ''audit_deadline'') b else b), Inl e))"

definition READONLY_SCAN_ROW_CAP :: nat where
  "READONLY_SCAN_ROW_CAP = 100000"

definition bounded_rows :: "'r list \<Rightarrow> 'r list rd" where
  "bounded_rows rows b =
     (case b of
        Some bud \<Rightarrow> (case take_batch (\<lambda>_. Some 0) rows bud of (b1, xs, _) \<Rightarrow> (Some b1, Inr xs))
      | None \<Rightarrow>
          if length rows > READONLY_SCAN_ROW_CAP
          then (None, raise C_SQLiteWALUnsupportedError ''read-only profile exceeds validation bound'')
          else (None, Inr rows))"

definition rd_rows :: "stmt_faults \<Rightarrow> stmt \<Rightarrow> 'r list \<Rightarrow> 'r list rd" where
  "rd_rows rf st rows = rd_bind (rd_stmt rf st rows) bounded_rows"

section \<open>Opening\<close>

text \<open>
  \<^verbatim>\<open>open_readonly_verified\<close>: \<open>fault\<close> is what opening or a pragma raises; the answer is the
  journal mode.
\<close>

definition open_readonly_verified :: "exn option \<Rightarrow> string \<Rightarrow> profile_db \<Rightarrow> string res" where
  "open_readonly_verified fault journal db =
     (case fault of
        Some e \<Rightarrow> Inl e
      | None \<Rightarrow>
          if \<not> pd_query_only db then raise C_SQLiteWALUnsupportedError ''query-only verification failed''
          else return (py_lower journal))"

definition sqlite_journal_report ::
    "exn option \<Rightarrow> string \<Rightarrow> string \<Rightarrow> profile_db \<Rightarrow> (string \<times> string) list res" where
  "sqlite_journal_report fault version journal db =
     bind_res (open_readonly_verified fault journal db) (\<lambda>mode.
       return [(''sqlite_version'', version), (''sqlite_source_id'', pd_source_id db),
               (''journal_mode'', mode)])"

section \<open>Verification\<close>

definition REQUIRED_TABLES :: "string list" where
  "REQUIRED_TABLES = [''thought_nodes'', ''embeddings'', ''derivation_edges'', ''hermes_provider_meta'']"

definition REQUIRED_NODE_COLUMNS :: "string list" where
  "REQUIRED_NODE_COLUMNS =
     [''id'', ''content'', ''node_type'', ''domain'', ''timestamp'', ''access_count'', ''last_accessed'',
      ''source_file'', ''decayed'', ''metadata'', ''last_updated'', ''mood_state'', ''permanent'', ''tags'',
      ''referent_time'']"

definition REQUIRED_EMBEDDING_COLUMNS :: "string list" where
  "REQUIRED_EMBEDDING_COLUMNS = [''node_id'', ''vector'', ''model'', ''updated_at'']"

definition REQUIRED_EDGE_COLUMNS :: "string list" where
  "REQUIRED_EDGE_COLUMNS = [''parent_id'', ''child_id'', ''weight'', ''reasoning'', ''timestamp'']"

definition REQUIRED_META :: "string list" where
  "REQUIRED_META = [''embedding_model'', ''embedding_dim'', ''vec_dim'', ''maintenance_epoch'']"

definition blob_length :: "blob \<Rightarrow> nat option" where
  "blob_length v = (case v of Blob bs \<Rightarrow> Some (length bs) | NotBlob \<Rightarrow> None)"

text \<open>The rows of the provider's identity; the table's key makes them at most four.\<close>

definition meta_rows :: "profile_db \<Rightarrow> (string \<times> string) list" where
  "meta_rows db = filter (\<lambda>(k, _). k \<in> set REQUIRED_META) (pd_meta db)"

definition embedding_rows :: "profile_db \<Rightarrow> (string option \<times> string option \<times> nat option) list" where
  "embedding_rows db =
     take (READONLY_SCAN_ROW_CAP + 1)
       (map (\<lambda>e. (ee_node_id e, ee_model e, blob_length (ee_vector e))) (pd_embeddings db))"

text \<open>One pass of the loop over the embedding rows.\<close>

definition falsy_text :: "string option \<Rightarrow> bool" where
  "falsy_text x \<longleftrightarrow> x = None \<or> x = Some []"

fun check_embedding_rows :: "int \<Rightarrow> string \<Rightarrow> (string option \<times> string option \<times> nat option) list \<Rightarrow> unit rd" where
  "check_embedding_rows d model [] = rd_ret ()"
| "check_embedding_rows d model ((node_id, m, n) # rows) =
     (if falsy_text node_id \<or> falsy_text m \<or> n = None \<or> map_option int n \<noteq> Some (d * 4)
      then rd_fail ''read-only embedding identity is inconsistent''
      else if m \<noteq> Some model then rd_fail ''read-only embedding model is stale''
      else check_embedding_rows d model rows)"

definition str_of_text :: "string option \<Rightarrow> string" where
  "str_of_text x = (case x of None \<Rightarrow> ''None'' | Some s \<Rightarrow> s)"

text \<open>
  The checks of the vector table; \<open>loads\<close> is whether the extension can be loaded. A
  statement that fails here counts as a failed parity check.
\<close>

definition vec_limit :: "'r list \<Rightarrow> 'r list" where
  "vec_limit = take (READONLY_SCAN_ROW_CAP + 1)"

definition rd_parity :: "'a rd \<Rightarrow> 'a rd" where
  "rd_parity m b =
     (case m b of
        (b1, Inl e) \<Rightarrow>
          if isinstance e C_Exception
          then (b1, raise C_SQLiteWALUnsupportedError ''read-only vec parity could not be verified'')
          else (b1, Inl e)
      | (b1, Inr x) \<Rightarrow> (b1, Inr x))"

definition verify_vec ::
    "stmt_faults \<Rightarrow> bool \<Rightarrow> profile_db \<Rightarrow> int \<Rightarrow> (string option \<times> string option \<times> nat option) list \<Rightarrow>
     string \<Rightarrow> unit rd" where
  "verify_vec rf loads db expected_vec_dim rows sql =
     rd_bind (rd_require (is_supported_vec_ddl sql) ''read-only vec declaration is invalid'') (\<lambda>_.
     rd_bind (rd_require loads ''read-only vec parity could not be verified'') (\<lambda>_.
     rd_bind (rd_rows rf (S_columns ''vec_embeddings'') (pd_columns db ''vec_embeddings'')) (\<lambda>cols.
     case search_dimension sql of
       None \<Rightarrow> rd_fail ''read-only vec dimension is unavailable''
     | Some declared \<Rightarrow>
         if declared \<noteq> expected_vec_dim then rd_fail ''read-only vec dimension is inconsistent''
         else if ''node_id'' \<notin> set cols then rd_ret ()
         else
           rd_bind (rd_parity
             (rd_bind (rd_rows rf S_vec_ids (vec_limit (map fst (pd_vec_rows db)))) (\<lambda>ids.
              rd_bind (rd_rows rf S_vec_lengths (vec_limit (pd_vec_rows db))) (\<lambda>lens.
              rd_ret (ids, lens))))) (\<lambda>(ids, lens).
           rd_bind (rd_require (str_of_text ` set ids = str_of_text ` fst ` set rows)
                      ''read-only vec and ordinary IDs differ'') (\<lambda>_.
           rd_require (list_all (\<lambda>(k, _). map_option int (snd (last (filter (\<lambda>(k', _).
                         str_of_text k' = str_of_text k) lens))) = Some (expected_vec_dim * 4)) lens)
             ''read-only vec blob dimensions differ'')))))"

text \<open>The three parts of \<^verbatim>\<open>verify_readonly_profile\<close>: schema, provider identity, vectors.\<close>

definition require_columns :: "stmt_faults \<Rightarrow> profile_db \<Rightarrow> string \<Rightarrow> string list \<Rightarrow> string \<Rightarrow> unit rd" where
  "require_columns rf db table required msg =
     rd_bind (rd_rows rf (S_columns table) (pd_columns db table)) (\<lambda>columns.
     rd_require (set required \<subseteq> set columns) msg)"

definition verify_schema :: "stmt_faults \<Rightarrow> profile_db \<Rightarrow> unit rd" where
  "verify_schema rf db =
     rd_bind (rd_stmt rf S_query_only (pd_query_only db)) (\<lambda>q.
     rd_bind (rd_require q ''query-only verification failed'') (\<lambda>_.
     rd_bind (rd_stmt rf S_user_version (pd_user_version db)) (\<lambda>version.
     rd_bind (rd_require (version = 3)
       (''read-only Cashew schema version '' @ str_of_int version @ '' is unsupported'')) (\<lambda>_.
     rd_bind (rd_stmt rf S_integrity (py_lower (pd_integrity db))) (\<lambda>integrity.
     rd_bind (rd_require (integrity = ''ok'') ''read-only integrity check failed'') (\<lambda>_.
     rd_bind (rd_rows rf S_tables (pd_tables db)) (\<lambda>tables.
     rd_bind (rd_require (set REQUIRED_TABLES \<subseteq> set tables) ''read-only Cashew schema is incomplete'') (\<lambda>_.
     rd_bind (require_columns rf db ''thought_nodes'' REQUIRED_NODE_COLUMNS
                ''read-only keyword columns are incomplete'') (\<lambda>_.
     rd_bind (require_columns rf db ''embeddings'' REQUIRED_EMBEDDING_COLUMNS
                ''read-only embedding columns are incomplete'') (\<lambda>_.
     require_columns rf db ''derivation_edges'' REQUIRED_EDGE_COLUMNS
                ''read-only derivation columns are incomplete''))))))))))"

record provider_identity =
  pi_model :: string
  pi_dim :: int
  pi_vec_dim :: int
  pi_epoch :: string

definition verify_identity :: "stmt_faults \<Rightarrow> profile_db \<Rightarrow> provider_identity rd" where
  "verify_identity rf db =
     rd_bind (rd_rows rf S_meta (meta_rows db)) (\<lambda>meta.
     case (map_of meta ''embedding_model'', map_of meta ''embedding_dim'', map_of meta ''vec_dim'',
           map_of meta ''maintenance_epoch'') of
       (Some model, Some d, Some v, Some epoch) \<Rightarrow>
         (case (int_of_str d, int_of_str v, int_of_str epoch) of
            (Some expected_dim, Some expected_vec_dim, Some _) \<Rightarrow>
              if expected_dim \<le> 0 \<or> expected_vec_dim \<le> 0 \<or> expected_dim \<noteq> expected_vec_dim \<or> model = []
              then rd_fail ''read-only provider identity is invalid''
              else rd_ret \<lparr>pi_model = model, pi_dim = expected_dim, pi_vec_dim = expected_vec_dim,
                           pi_epoch = epoch\<rparr>
          | _ \<Rightarrow> rd_fail ''read-only provider identity is invalid'')
     | _ \<Rightarrow> rd_fail ''read-only provider identity is incomplete'')"

definition verify_readonly_profile ::
    "stmt_faults \<Rightarrow> bool \<Rightarrow> profile_db \<Rightarrow> (string \<times> string) list rd" where
  "verify_readonly_profile rf loads db =
     rd_bind (verify_schema rf db) (\<lambda>_.
     rd_bind (verify_identity rf db) (\<lambda>ident.
     rd_bind (rd_rows rf S_embeddings (embedding_rows db)) (\<lambda>rows.
     rd_bind (check_embedding_rows (pi_dim ident) (pi_model ident) rows) (\<lambda>_.
     rd_bind (rd_stmt rf S_vec_master (pd_vec_sql db)) (\<lambda>vec.
     rd_bind (case vec of None \<Rightarrow> rd_ret ()
              | Some sql \<Rightarrow> verify_vec rf loads db (pi_vec_dim ident) rows sql) (\<lambda>_.
     rd_bind (rd_stmt rf S_source_id (pd_source_id db)) (\<lambda>source_id.
     rd_ret
       [(''sqlite_source_id'', source_id), (''user_version'', ''3''), (''provider_model'', pi_model ident),
        (''provider_embedding_dim'', str_of_int (pi_dim ident)),
        (''provider_vec_dim'', str_of_int (pi_vec_dim ident)), (''provider_epoch'', pi_epoch ident)])))))))"

section \<open>Inverting a verification\<close>

definition rd_le :: "audit_budget option \<Rightarrow> audit_budget option \<Rightarrow> bool" where
  "rd_le a b \<longleftrightarrow> (case (a, b) of (None, None) \<Rightarrow> True | (Some x, Some y) \<Rightarrow> budget_grows x y | _ \<Rightarrow> False)"

definition rd_comp :: "'a rd \<Rightarrow> bool" where
  "rd_comp m \<longleftrightarrow> (\<forall>b. rd_le b (fst (m b)))"

text \<open>No budget, or one that is within its caps and has nothing on record.\<close>

definition rd_good :: "audit_budget option \<Rightarrow> bool" where
  "rd_good b \<longleftrightarrow> (case b of None \<Rightarrow> True | Some x \<Rightarrow> ab_reasons x = [] \<and> budget_ok x)"

definition rd_caps :: "audit_budget option \<Rightarrow> bool" where
  "rd_caps b \<longleftrightarrow> (case b of None \<Rightarrow> True | Some x \<Rightarrow> budget_ok x)"

named_theorems rd_intros \<open>computations of the verification\<close>

lemma rd_le_refl [simp]: "rd_le b b"
  by (cases b) (simp_all add: rd_le_def)

lemma rd_le_trans: "rd_le a b \<Longrightarrow> rd_le b c \<Longrightarrow> rd_le a c"
  by (auto simp: rd_le_def intro: grows_trans split: option.splits)

lemma rd_caps_le: "rd_le a b \<Longrightarrow> rd_caps a \<Longrightarrow> rd_caps b"
  by (auto simp: rd_le_def rd_caps_def budget_grows_def split: option.splits)

lemma rd_good_le: "rd_le a b \<Longrightarrow> rd_good b \<Longrightarrow> rd_caps a \<Longrightarrow> rd_good a"
  by (auto simp: rd_le_def rd_good_def rd_caps_def budget_grows_def split: option.splits)

lemma rd_comp_ret [rd_intros]: "rd_comp (rd_ret x)"
  and rd_comp_fail [rd_intros]: "rd_comp (rd_fail m)"
  by (simp_all add: rd_comp_def rd_ret_def rd_fail_def)

lemma rd_comp_bind [rd_intros]:
  assumes "rd_comp m" "\<And>x. rd_comp (f x)"
  shows "rd_comp (rd_bind m f)"
  unfolding rd_comp_def
proof
  fix b
  obtain b1 r where m: "m b = (b1, r)" by fastforce
  have 1: "rd_le b b1" using assms(1) m unfolding rd_comp_def by (metis fst_conv)
  show "rd_le b (fst (rd_bind m f b))"
  proof (cases r)
    case (Inl e)
    then show ?thesis using m 1 by (simp add: rd_bind_def)
  next
    case (Inr x)
    have "rd_le b1 (fst (f x b1))" using assms(2) unfolding rd_comp_def by blast
    then show ?thesis using m Inr rd_le_trans [OF 1] by (simp add: rd_bind_def)
  qed
qed

lemma rd_comp_require [rd_intros]: "rd_comp (rd_require c m)"
  by (simp add: rd_require_def rd_comp_ret rd_comp_fail)

lemma rd_comp_stmt [rd_intros]: "rd_comp (rd_stmt rf st x)"
  by (auto simp: rd_comp_def rd_stmt_def rd_le_def grows_add split: option.splits prod.splits)

lemma rd_comp_rows [rd_intros]: "rd_comp (rd_rows rf st rows)"
proof -
  have "rd_comp (bounded_rows xs)" for xs :: "'a list"
  proof -
    have "rd_le b (fst (bounded_rows xs b))" for b
      by (cases b) (auto simp: bounded_rows_def rd_le_def split: prod.split dest: take_batch_cases)
    then show ?thesis by (simp add: rd_comp_def)
  qed
  then show ?thesis by (auto simp: rd_rows_def intro!: rd_intros)
qed

lemma rd_comp_check [rd_intros]: "rd_comp (check_embedding_rows d model rows)"
  by (induction d model rows rule: check_embedding_rows.induct) (auto intro!: rd_intros)

lemma rd_comp_parity [rd_intros]: "rd_comp m \<Longrightarrow> rd_comp (rd_parity m)"
  by (auto simp: rd_comp_def rd_parity_def split: prod.splits sum.splits) (metis fst_conv)+

lemma rd_comp_columns [rd_intros]: "rd_comp (require_columns rf db t req m)"
  by (auto simp: require_columns_def intro!: rd_intros)

lemma rd_comp_vec [rd_intros]: "rd_comp (verify_vec rf loads db d rows sql)"
  by (auto simp: verify_vec_def intro!: rd_intros split: option.splits prod.splits)

lemma rd_comp_schema [rd_intros]: "rd_comp (verify_schema rf db)"
  by (auto simp: verify_schema_def intro!: rd_intros)

lemma rd_comp_identity [rd_intros]: "rd_comp (verify_identity rf db)"
  by (auto simp: verify_identity_def intro!: rd_intros split: option.splits)

lemma rd_bindE:
  assumes "rd_bind m f b = (b', Inr y)" "rd_good b'" "rd_caps b" "rd_comp m" "\<And>x. rd_comp (f x)"
  obtains b1 x where "m b = (b1, Inr x)" "rd_good b1" "rd_caps b1" "f x b1 = (b', Inr y)"
proof -
  obtain b1 r where m: "m b = (b1, r)" by fastforce
  then obtain x where x: "r = Inr x" "f x b1 = (b', Inr y)"
    using assms(1) by (cases r) (auto simp: rd_bind_def)
  have caps: "rd_caps b1"
    using assms(3,4) m rd_caps_le unfolding rd_comp_def by (metis fst_conv)
  moreover have "rd_good b1"
    using assms(2,5) x(2) rd_good_le caps unfolding rd_comp_def by (metis fst_conv)
  ultimately show ?thesis using that m x by blast
qed

lemma rd_stmt_Inr: "rd_stmt rf st x b = (b', Inr y) \<Longrightarrow> y = x \<and> b' = b"
  by (auto simp: rd_stmt_def split: option.splits prod.splits)

lemma rd_require_Inr: "rd_require c m b = (b', Inr y) \<Longrightarrow> c \<and> b' = b"
  by (auto simp: rd_require_def rd_ret_def rd_fail_def split: if_splits)

lemma rd_rows_Inr:
  assumes "rd_rows rf st rows b = (b', Inr xs)" "rd_good b'" "rd_caps b"
  shows "xs = rows \<and> length rows \<le> 100000"
proof -
  have b: "bounded_rows rows b = (b', Inr xs)"
    using assms(1) by (auto simp: rd_rows_def rd_bind_def rd_stmt_def split: option.splits prod.splits)
  show ?thesis
  proof (cases b)
    case None
    then show ?thesis using b by (auto simp: bounded_rows_def READONLY_SCAN_ROW_CAP_def split: if_splits)
  next
    case (Some bud)
    obtain b1 ys ok where t: "take_batch (\<lambda>_. Some 0) rows bud = (b1, ys, ok)" by (metis prod_cases3)
    note tc = take_batch_cases [OF t]
    have "b' = Some b1" "xs = ys" using b Some t by (auto simp: bounded_rows_def)
    then show ?thesis
      using tc assms(2,3) Some by (auto simp: rd_good_def rd_caps_def MAX_AUDIT_ROWS_def)
  qed
qed

section \<open>A verified profile is sound\<close>

definition schema_sound :: "profile_db \<Rightarrow> bool" where
  "schema_sound db \<longleftrightarrow> pd_query_only db \<and> pd_user_version db = 3 \<and> py_lower (pd_integrity db) = ''ok'' \<and>
     set REQUIRED_TABLES \<subseteq> set (pd_tables db) \<and>
     set REQUIRED_NODE_COLUMNS \<subseteq> set (pd_columns db ''thought_nodes'') \<and>
     set REQUIRED_EMBEDDING_COLUMNS \<subseteq> set (pd_columns db ''embeddings'') \<and>
     set REQUIRED_EDGE_COLUMNS \<subseteq> set (pd_columns db ''derivation_edges'')"

definition identity_sound :: "profile_db \<Rightarrow> string \<Rightarrow> int \<Rightarrow> bool" where
  "identity_sound db model d \<longleftrightarrow> model \<noteq> [] \<and> 0 < d \<and> map_of (pd_meta db) ''embedding_model'' = Some model \<and>
     (\<exists>s. map_of (pd_meta db) ''embedding_dim'' = Some s \<and> int_of_str s = Some d) \<and>
     (\<exists>s. map_of (pd_meta db) ''vec_dim'' = Some s \<and> int_of_str s = Some d) \<and>
     (\<exists>s i. map_of (pd_meta db) ''maintenance_epoch'' = Some s \<and> int_of_str s = Some i)"

text \<open>Every embedding, not only the ones a bounded query returns.\<close>

definition vectors_sound :: "profile_db \<Rightarrow> string \<Rightarrow> int \<Rightarrow> bool" where
  "vectors_sound db model d \<longleftrightarrow> (\<forall>e \<in> set (pd_embeddings db).
     \<not> falsy_text (ee_node_id e) \<and> ee_model e = Some model \<and>
     map_option int (blob_length (ee_vector e)) = Some (d * 4))"

definition vec_table_sound :: "profile_db \<Rightarrow> int \<Rightarrow> bool" where
  "vec_table_sound db d \<longleftrightarrow> (\<forall>sql. pd_vec_sql db = Some sql \<longrightarrow>
     is_supported_vec_ddl sql \<and> search_dimension sql = Some d \<and>
     (''node_id'' \<in> set (pd_columns db ''vec_embeddings'') \<longrightarrow>
        (str_of_text \<circ> fst) ` set (pd_vec_rows db) = (str_of_text \<circ> ee_node_id) ` set (pd_embeddings db) \<and>
        (distinct (map (str_of_text \<circ> fst) (pd_vec_rows db)) \<longrightarrow>
           (\<forall>(k, n) \<in> set (pd_vec_rows db). map_option int n = Some (d * 4)))))"

lemma take_cap: "length (take (READONLY_SCAN_ROW_CAP + 1) xs) \<le> 100000 \<Longrightarrow> take (READONLY_SCAN_ROW_CAP + 1) xs = xs"
  by (simp add: READONLY_SCAN_ROW_CAP_def min_def split: if_splits)

lemma require_columns_sound:
  assumes "require_columns rf db t req m b = (b', Inr u)" "rd_good b'" "rd_caps b"
  shows "set req \<subseteq> set (pd_columns db t)"
proof -
  obtain b1 cols where 1: "rd_rows rf (S_columns t) (pd_columns db t) b = (b1, Inr cols)" "rd_good b1"
    "rd_require (set req \<subseteq> set cols) m b1 = (b', Inr u)"
    using assms unfolding require_columns_def by (elim rd_bindE) (auto intro!: rd_intros)
  show ?thesis
    using rd_rows_Inr [OF 1(1,2) assms(3)] rd_require_Inr [OF 1(3)] by simp
qed

lemma verify_schema_sound:
  assumes "verify_schema rf db b = (b', Inr u)" "rd_good b'" "rd_caps b"
  shows "schema_sound db"
  using assms unfolding verify_schema_def schema_sound_def
  by (elim rd_bindE; (intro rd_intros)?;
      auto dest!: rd_stmt_Inr rd_require_Inr rd_rows_Inr dest: require_columns_sound)

lemma map_of_filter_in: "k \<in> S \<Longrightarrow> map_of (filter (\<lambda>(k, _). k \<in> S) m) k = map_of m k"
  by (induction m) auto

lemma map_of_meta_rows: "k \<in> set REQUIRED_META \<Longrightarrow> map_of (meta_rows db) k = map_of (pd_meta db) k"
  unfolding meta_rows_def by (rule map_of_filter_in)

lemma verify_identity_sound:
  assumes "verify_identity rf db b = (b', Inr ident)" "rd_good b'" "rd_caps b"
  shows "identity_sound db (pi_model ident) (pi_dim ident)" "pi_vec_dim ident = pi_dim ident"
proof -
  obtain b1 meta where 1: "rd_rows rf S_meta (meta_rows db) b = (b1, Inr meta)" "rd_good b1"
    and 2: "(case (map_of meta ''embedding_model'', map_of meta ''embedding_dim'', map_of meta ''vec_dim'',
           map_of meta ''maintenance_epoch'') of
       (Some model, Some d, Some v, Some epoch) \<Rightarrow>
         (case (int_of_str d, int_of_str v, int_of_str epoch) of
            (Some expected_dim, Some expected_vec_dim, Some _) \<Rightarrow>
              if expected_dim \<le> 0 \<or> expected_vec_dim \<le> 0 \<or> expected_dim \<noteq> expected_vec_dim \<or> model = []
              then rd_fail ''read-only provider identity is invalid''
              else rd_ret \<lparr>pi_model = model, pi_dim = expected_dim, pi_vec_dim = expected_vec_dim,
                           pi_epoch = epoch\<rparr>
          | _ \<Rightarrow> rd_fail ''read-only provider identity is invalid'')
     | _ \<Rightarrow> rd_fail ''read-only provider identity is incomplete'') b1 = (b', Inr ident)"
    using assms unfolding verify_identity_def
    by (elim rd_bindE) (auto intro!: rd_intros split: option.splits)
  have m: "meta = meta_rows db" using rd_rows_Inr [OF 1 assms(3)] by simp
  have keys: "''embedding_model'' \<in> set REQUIRED_META" "''embedding_dim'' \<in> set REQUIRED_META"
    "''vec_dim'' \<in> set REQUIRED_META" "''maintenance_epoch'' \<in> set REQUIRED_META"
    by (simp_all add: REQUIRED_META_def)
  show "identity_sound db (pi_model ident) (pi_dim ident)" "pi_vec_dim ident = pi_dim ident"
    using 2 unfolding m keys [THEN map_of_meta_rows]
    by (auto simp: identity_sound_def rd_fail_def rd_ret_def split: option.splits if_splits)
qed

lemma check_embedding_rows_Inr:
  assumes "check_embedding_rows d model rows b = (b', Inr u)"
  shows "\<forall>(node_id, m, n) \<in> set rows. \<not> falsy_text node_id \<and> m = Some model \<and> map_option int n = Some (d * 4)"
  using assms
  by (induction d model rows arbitrary: b rule: check_embedding_rows.induct)
    (auto simp: rd_fail_def rd_ret_def split: if_splits)

lemma rd_parity_Inr: "rd_parity m b = (b', Inr x) \<Longrightarrow> m b = (b', Inr x)"
  by (auto simp: rd_parity_def split: prod.splits sum.splits if_splits)

lemma vec_limit_all: "length (vec_limit xs) \<le> 100000 \<Longrightarrow> vec_limit xs = xs"
  unfolding vec_limit_def by (rule take_cap)

lemma last_of_unique:
  assumes "distinct (map f xs)" "x \<in> set xs"
  shows "last (filter (\<lambda>y. f y = f x) xs) = x"
proof -
  have "filter (\<lambda>y. f y = f x) xs = [x]"
    using assms
  proof (induction xs)
    case (Cons a xs)
    show ?case
    proof (cases "x = a")
      case True
      then show ?thesis using Cons.prems(1) by (auto simp: filter_empty_conv image_iff)
    next
      case False
      then have "x \<in> set xs" "f a \<noteq> f x" using Cons.prems by auto
      then show ?thesis using Cons by simp
    qed
  qed simp
  then show ?thesis by simp
qed

lemma verify_vec_sound:
  assumes "verify_vec rf loads db d rows sql b = (b', Inr u)" "rd_good b'" "rd_caps b"
  shows "is_supported_vec_ddl sql \<and> search_dimension sql = Some d \<and>
     (''node_id'' \<in> set (pd_columns db ''vec_embeddings'') \<longrightarrow>
        (str_of_text \<circ> fst) ` set (pd_vec_rows db) = str_of_text ` fst ` set rows \<and>
        (distinct (map (str_of_text \<circ> fst) (pd_vec_rows db)) \<longrightarrow>
           (\<forall>(k, n) \<in> set (pd_vec_rows db). map_option int n = Some (d * 4))))"
proof -
  let ?rest = "\<lambda>cols. case search_dimension sql of
       None \<Rightarrow> rd_fail ''read-only vec dimension is unavailable''
     | Some declared \<Rightarrow>
         if declared \<noteq> d then rd_fail ''read-only vec dimension is inconsistent''
         else if ''node_id'' \<notin> set cols then rd_ret ()
         else
           rd_bind (rd_parity
             (rd_bind (rd_rows rf S_vec_ids (vec_limit (map fst (pd_vec_rows db)))) (\<lambda>ids.
              rd_bind (rd_rows rf S_vec_lengths (vec_limit (pd_vec_rows db))) (\<lambda>lens.
              rd_ret (ids, lens))))) (\<lambda>(ids, lens).
           rd_bind (rd_require (str_of_text ` set ids = str_of_text ` fst ` set rows)
                      ''read-only vec and ordinary IDs differ'') (\<lambda>_.
           rd_require (list_all (\<lambda>(k, _). map_option int (snd (last (filter (\<lambda>(k', _).
                         str_of_text k' = str_of_text k) lens))) = Some (d * 4)) lens)
             ''read-only vec blob dimensions differ''))"
  have comp: "rd_comp (?rest cols)" for cols :: "string list"
    by (auto intro!: rd_intros split: option.splits prod.splits)
  obtain b1 cols where 1: "is_supported_vec_ddl sql"
    "rd_rows rf (S_columns ''vec_embeddings'') (pd_columns db ''vec_embeddings'') b = (b1, Inr cols)"
    "rd_good b1" "rd_caps b1" "?rest cols b1 = (b', Inr u)"
    using assms unfolding verify_vec_def
    by (elim rd_bindE; (intro rd_intros comp)?; auto dest!: rd_require_Inr)
  have cols: "cols = pd_columns db ''vec_embeddings''" using rd_rows_Inr [OF 1(2,3) assms(3)] by simp
  have dim: "search_dimension sql = Some d"
    using 1(5) by (auto simp: rd_fail_def split: option.splits if_splits)
  show ?thesis
  proof (cases "''node_id'' \<in> set cols")
    case True
    obtain b2 ids lens where 2: "rd_bind (rd_rows rf S_vec_ids (vec_limit (map fst (pd_vec_rows db)))) (\<lambda>ids.
              rd_bind (rd_rows rf S_vec_lengths (vec_limit (pd_vec_rows db))) (\<lambda>lens.
              rd_ret (ids, lens))) b1 = (b2, Inr (ids, lens))" "rd_good b2"
      "str_of_text ` set ids = str_of_text ` fst ` set rows"
      "list_all (\<lambda>(k, _). map_option int (snd (last (filter (\<lambda>(k', _).
                         str_of_text k' = str_of_text k) lens))) = Some (d * 4)) lens"
    proof -
      let ?m = "rd_bind (rd_rows rf S_vec_ids (vec_limit (map fst (pd_vec_rows db)))) (\<lambda>ids.
              rd_bind (rd_rows rf S_vec_lengths (vec_limit (pd_vec_rows db))) (\<lambda>lens.
              rd_ret (ids, lens)))"
      let ?f = "\<lambda>(ids, lens).
           rd_bind (rd_require (str_of_text ` set ids = str_of_text ` fst ` set rows)
                      ''read-only vec and ordinary IDs differ'') (\<lambda>_.
           rd_require (list_all (\<lambda>(k, _). map_option int (snd (last (filter (\<lambda>(k', _).
                         str_of_text k' = str_of_text k) lens))) = Some (d * 4)) lens)
             ''read-only vec blob dimensions differ'')"
      have run: "rd_bind (rd_parity ?m) ?f b1 = (b', Inr u)" using 1(5) dim True by simp
      have cm: "rd_comp (rd_parity ?m)" by (intro rd_intros)
      have cf: "rd_comp (?f x)" for x by (cases x) (auto intro!: rd_intros)
      obtain b2 x where x: "rd_parity ?m b1 = (b2, Inr x)" "rd_good b2" "rd_caps b2" "?f x b2 = (b', Inr u)"
        by (rule rd_bindE [OF run assms(2) 1(4) cm cf])
      obtain ids lens where p: "x = (ids, lens)" by (cases x)
      obtain b4 where q: "rd_require (str_of_text ` set ids = str_of_text ` fst ` set rows)
                      ''read-only vec and ordinary IDs differ'' b2 = (b4, Inr ())"
        "rd_require (list_all (\<lambda>(k, _). map_option int (snd (last (filter (\<lambda>(k', _).
                         str_of_text k' = str_of_text k) lens))) = Some (d * 4)) lens)
             ''read-only vec blob dimensions differ'' b4 = (b', Inr u)"
        using x(4) unfolding p prod.case by (rule rd_bindE [OF _ assms(2) x(3)]) (auto intro: rd_intros)
      show ?thesis
        by (rule that [OF rd_parity_Inr [OF x(1) [unfolded p]] x(2)])
          (use rd_require_Inr [OF q(1)] rd_require_Inr [OF q(2)] in blast)+
    qed
    obtain b3 where 3: "rd_rows rf S_vec_ids (vec_limit (map fst (pd_vec_rows db))) b1 = (b3, Inr ids)" "rd_good b3"
      "rd_caps b3" "rd_rows rf S_vec_lengths (vec_limit (pd_vec_rows db)) b3 = (b2, Inr lens)"
      using 2(1,2) 1(4) by (elim rd_bindE; (intro rd_intros)?; auto simp: rd_ret_def)
    have ids: "ids = map fst (pd_vec_rows db)"
      using rd_rows_Inr [OF 3(1,2) 1(4)] vec_limit_all [of "map fst (pd_vec_rows db)"] by simp
    have lens: "lens = pd_vec_rows db"
      using rd_rows_Inr [OF 3(4) 2(2) 3(3)] vec_limit_all [of "pd_vec_rows db"] by simp
    have "map_option int n = Some (d * 4)"
      if "distinct (map (str_of_text \<circ> fst) (pd_vec_rows db))" "(k, n) \<in> set (pd_vec_rows db)" for k n
    proof -
      have "last (filter (\<lambda>(k', _). str_of_text k' = str_of_text k) (pd_vec_rows db)) = (k, n)"
        using last_of_unique [OF that] by (simp add: case_prod_unfold)
      then show ?thesis using 2(4) that(2) unfolding lens list_all_iff by fastforce
    qed
    then show ?thesis
      using 1(1) dim 2(3) ids by (auto simp: image_comp)
  qed (use 1(1) dim cols in simp)
qed

lemma verify_profile_sound:
  assumes "verify_readonly_profile rf loads db b = (b', Inr report)" "rd_good b'" "rd_caps b"
  shows "\<exists>model d. schema_sound db \<and> identity_sound db model d \<and> vectors_sound db model d \<and> vec_table_sound db d \<and>
    map_of report ''provider_model'' = Some model \<and> map_of report ''provider_embedding_dim'' = Some (str_of_int d)"
proof -
  have cv: "rd_comp (case vec of None \<Rightarrow> rd_ret () | Some sql \<Rightarrow> verify_vec rf loads db d rows sql)" for vec d rows
    by (auto intro!: rd_intros split: option.split)
  let ?vec = "\<lambda>ident rows vec. case vec of None \<Rightarrow> rd_ret ()
      | Some sql \<Rightarrow> verify_vec rf loads db (pi_vec_dim ident) rows sql"
  let ?report = "\<lambda>ident source_id. rd_ret
       [(''sqlite_source_id'', source_id), (''user_version'', ''3''), (''provider_model'', pi_model ident),
        (''provider_embedding_dim'', str_of_int (pi_dim ident)),
        (''provider_vec_dim'', str_of_int (pi_vec_dim ident)), (''provider_epoch'', pi_epoch ident)]"
  let ?k5 = "\<lambda>ident rows vec. rd_bind (?vec ident rows vec) (\<lambda>_.
      rd_bind (rd_stmt rf S_source_id (pd_source_id db)) (?report ident))"
  let ?k4 = "\<lambda>ident rows. rd_bind (rd_stmt rf S_vec_master (pd_vec_sql db)) (?k5 ident rows)"
  let ?k3 = "\<lambda>ident rows. rd_bind (check_embedding_rows (pi_dim ident) (pi_model ident) rows) (\<lambda>_. ?k4 ident rows)"
  let ?k2 = "\<lambda>ident. rd_bind (rd_rows rf S_embeddings (embedding_rows db)) (?k3 ident)"
  have c: "rd_comp (?k5 ident rows vec)" "rd_comp (?k4 ident rows)" "rd_comp (?k3 ident rows)" "rd_comp (?k2 ident)"
    for ident rows vec by (intro rd_intros cv)+
  obtain b1 b2 ident where A: "verify_schema rf db b = (b1, Inr ())" "rd_good b1" "rd_caps b1"
    "verify_identity rf db b1 = (b2, Inr ident)" "rd_good b2" "rd_caps b2" "?k2 ident b2 = (b', Inr report)"
  proof -
    obtain b1 u where a: "verify_schema rf db b = (b1, Inr u)" "rd_good b1" "rd_caps b1"
      "rd_bind (verify_identity rf db) ?k2 b1 = (b', Inr report)"
      by (rule rd_bindE [OF assms(1) [unfolded verify_readonly_profile_def] assms(2,3)]) (intro rd_intros c cv)+
    have v: "verify_schema rf db b = (b1, Inr ())" using a(1) by simp
    show ?thesis
      by (rule rd_bindE [OF a(4) assms(2) a(3)], (intro rd_intros c)+) (rule that [OF v a(2,3)])
  qed
  obtain b3 b4 rows u where B: "rd_rows rf S_embeddings (embedding_rows db) b2 = (b3, Inr rows)" "rd_good b3" "rd_caps b3"
    "check_embedding_rows (pi_dim ident) (pi_model ident) rows b3 = (b4, Inr u)" "rd_good b4" "rd_caps b4"
    "?k4 ident rows b4 = (b', Inr report)"
  proof -
    obtain b3 rows where a: "rd_rows rf S_embeddings (embedding_rows db) b2 = (b3, Inr rows)" "rd_good b3" "rd_caps b3"
      "?k3 ident rows b3 = (b', Inr report)"
      by (rule rd_bindE [OF A(7) assms(2) A(6)]) (intro rd_intros c)+
    show ?thesis
      by (rule rd_bindE [OF a(4) assms(2) a(3)], (intro rd_intros c)+) (rule that [OF a(1-3)])
  qed
  obtain b5 vec where C: "rd_stmt rf S_vec_master (pd_vec_sql db) b4 = (b5, Inr vec)" "rd_good b5" "rd_caps b5"
    "?k5 ident rows vec b5 = (b', Inr report)"
    by (rule rd_bindE [OF B(7) assms(2) B(6)]) (intro rd_intros c)+
  obtain b6 w where D: "?vec ident rows vec b5 = (b6, Inr w)" "rd_good b6" "rd_caps b6"
    "rd_bind (rd_stmt rf S_source_id (pd_source_id db)) (?report ident) b6 = (b', Inr report)"
    by (rule rd_bindE [OF C(4) assms(2) C(3)]) (intro rd_intros cv)+
  have vec: "vec = pd_vec_sql db" using rd_stmt_Inr [OF C(1)] by simp
  have rep: "map_of report ''provider_model'' = Some (pi_model ident)"
    "map_of report ''provider_embedding_dim'' = Some (str_of_int (pi_dim ident))"
    using D(4) by (auto simp: rd_bind_def rd_stmt_def rd_ret_def split: option.splits prod.splits)
  note 1 = A(1-6) B(1-4) C(3) D(1) [unfolded vec] D(2) rep
  have ids: "identity_sound db (pi_model ident) (pi_dim ident)" "pi_vec_dim ident = pi_dim ident"
    using verify_identity_sound [OF 1(4,5,3)] by simp_all
  have rows: "rows = map (\<lambda>e. (ee_node_id e, ee_model e, blob_length (ee_vector e))) (pd_embeddings db)"
    using rd_rows_Inr [OF 1(7,8,6)] take_cap
      [of "map (\<lambda>e. (ee_node_id e, ee_model e, blob_length (ee_vector e))) (pd_embeddings db)"]
    by (simp only: embedding_rows_def)
  have vec: "vectors_sound db (pi_model ident) (pi_dim ident)"
    using check_embedding_rows_Inr [OF 1(10)] by (auto simp: vectors_sound_def rows)
  have "vec_table_sound db (pi_dim ident)"
    unfolding vec_table_sound_def
  proof (intro allI impI)
    fix sql assume "pd_vec_sql db = Some sql"
    then have "verify_vec rf loads db (pi_dim ident) rows sql b5 = (b6, Inr ())" using 1(12) ids(2) by simp
    from verify_vec_sound [OF this 1(13,11)]
    show "is_supported_vec_ddl sql \<and> search_dimension sql = Some (pi_dim ident) \<and>
     (''node_id'' \<in> set (pd_columns db ''vec_embeddings'') \<longrightarrow>
        (str_of_text \<circ> fst) ` set (pd_vec_rows db) = (str_of_text \<circ> ee_node_id) ` set (pd_embeddings db) \<and>
        (distinct (map (str_of_text \<circ> fst) (pd_vec_rows db)) \<longrightarrow>
           (\<forall>(k, n) \<in> set (pd_vec_rows db). map_option int n = Some (pi_dim ident * 4))))"
      by (simp add: rows image_comp comp_def)
  qed
  then show ?thesis
    using verify_schema_sound [OF 1(1,2) assms(3)] ids(1) vec 1(14,15) by blast
qed

end
