(* ===== verification/Profile.thy ===== *)
theory Profile
  imports Readonly Migration
begin

text \<open>
  The decisions about a profile's two databases before anything is written
  (\<^verbatim>\<open>__init__.py\<close>): whether the graph may be written at all on this SQLite, the journal
  bootstrap of graph and cache, and the dimension that the embedding cache records
  for each model.
\<close>

section \<open>Policy\<close>

text \<open>
  \<^verbatim>\<open>_sqlite_profile_policy\<close>: the answer is read-only mode, a disabled cache, and the
  reason. \<open>db\<close> is the existing database, if there is one.
\<close>

definition sqlite_profile_policy ::
    "stmt_faults \<Rightarrow> bool \<Rightarrow> int \<times> int \<times> int \<Rightarrow> exn option \<Rightarrow> string \<Rightarrow> profile_db option \<Rightarrow>
     (bool \<times> bool \<times> string option) res" where
  "sqlite_profile_policy rf loads version open_fault journal db =
     (let unreadable = (\<lambda>e. if isinstance e C_Exception
            then raise C_SQLiteWALUnsupportedError ''read-only WAL profile verification failed'' else Inl e)
      in if \<not> sqlite_wal_reset_vulnerable version then return (False, False, None)
         else case db of
           None \<Rightarrow> return (False, True, Some ''wal_runtime_unsupported_fresh_cache'')
         | Some d \<Rightarrow>
             (case open_readonly_verified open_fault journal d of
                Inl e \<Rightarrow> unreadable e
              | Inr mode \<Rightarrow>
                  if mode = ''wal'' then
                    (case snd (verify_readonly_profile rf loads d None) of
                       Inl e \<Rightarrow> unreadable e
                     | Inr _ \<Rightarrow> return (True, True, Some ''wal_runtime_unsupported''))
                  else return (False, True, Some ''wal_runtime_unsupported_fresh_cache'')))"

section \<open>The cache's record of dimensions\<close>

type_synonym cache_meta = "(string \<times> int) list"

text \<open>\<^verbatim>\<open>INSERT OR IGNORE\<close>.\<close>

definition insert_or_ignore :: "string \<Rightarrow> int \<Rightarrow> cache_meta \<Rightarrow> cache_meta" where
  "insert_or_ignore k v m = (if map_of m k = None then (k, v) # m else m)"

definition cache_identity_body :: "string \<Rightarrow> int \<Rightarrow> cache_meta \<Rightarrow> (cache_meta option \<times> unit) res" where
  "cache_identity_body model d meta =
     (case map_of meta model of
        Some prior \<Rightarrow>
          if prior \<noteq> d
          then raise C_OperationAdmissionError ''embedding cache model dimension metadata mismatch''
          else return (Some (insert_or_ignore model d meta), ())
      | None \<Rightarrow> return (Some (insert_or_ignore model d meta), ()))"

text \<open>\<^verbatim>\<open>_persist_cache_identity\<close>.\<close>

definition persist_cache_identity ::
    "txn_faults \<Rightarrow> bool \<Rightarrow> string option \<Rightarrow> int option \<Rightarrow> cache_meta store \<Rightarrow> cache_meta store \<times> unit res" where
  "persist_cache_identity flt has_path model embedding_dim s =
     (case (model, embedding_dim) of
        (Some m, Some d) \<Rightarrow>
          if \<not> has_path \<or> m = [] \<or> d \<le> 0
          then (s, raise C_OperationAdmissionError ''embedding cache identity is unavailable'')
          else transact flt (cache_identity_body m d) s
      | _ \<Rightarrow> (s, raise C_OperationAdmissionError ''embedding cache identity is unavailable''))"

text \<open>
  \<^verbatim>\<open>_bootstrap_sqlite_profile\<close>, with the journals of the two databases: \<open>bf_graph\<close> and
  \<open>bf_cache\<close> are the failures of directories, admissions and connections.
\<close>

record boot_world =
  bw_graph :: journal_conn
  bw_cache :: journal_conn
  bw_cache_meta :: "cache_meta store"

record boot_faults =
  bf_graph :: "exn option"
  bf_cache :: "exn option"
  bf_txn :: txn_faults

definition journal_policy :: "int \<times> int \<times> int \<Rightarrow> journal_conn \<Rightarrow> journal_conn \<times> string res" where
  "journal_policy version c =
     (if sqlite_wal_reset_vulnerable version then guard_sqlite_journal version c
      else bootstrap_sqlite_journal version c)"

definition bootstrap_sqlite_profile ::
    "boot_faults \<Rightarrow> int \<times> int \<times> int \<Rightarrow> bool \<Rightarrow> string option \<Rightarrow> int option \<Rightarrow> boot_world \<Rightarrow>
     boot_world \<times> unit res" where
  "bootstrap_sqlite_profile flt version cache_disabled model embedding_dim w =
     (case bf_graph flt of
        Some e \<Rightarrow> (w, Inl e)
      | None \<Rightarrow>
          (case journal_policy version (bw_graph w) of
             (g, Inl e) \<Rightarrow> (w\<lparr>bw_graph := g\<rparr>, Inl e)
           | (g, Inr _) \<Rightarrow>
               let w1 = w\<lparr>bw_graph := g\<rparr>
               in if cache_disabled then (w1, return ())
                  else case bf_cache flt of
                    Some e \<Rightarrow> (w1, Inl e)
                  | None \<Rightarrow>
                      (case journal_policy version (bw_cache w1) of
                         (c, Inl e) \<Rightarrow> (w1\<lparr>bw_cache := c\<rparr>, Inl e)
                       | (c, Inr _) \<Rightarrow>
                           let w2 = w1\<lparr>bw_cache := c\<rparr>
                           in (case (model, embedding_dim) of
                                 (Some m, Some d) \<Rightarrow>
                                   if m \<noteq> [] \<and> 0 < d then
                                     (case transact (bf_txn flt) (cache_identity_body m d) (bw_cache_meta w2) of
                                        (s, r) \<Rightarrow> (w2\<lparr>bw_cache_meta := s\<rparr>, r))
                                   else (w2, return ())
                               | _ \<Rightarrow> (w2, return ())))))"

text \<open>
  \<^verbatim>\<open>_open_profile_embedding_cache\<close>: try the lease until the deadline. \<open>granted i\<close> is whether
  the lease is free in round \<open>i\<close>, \<open>now i\<close> the clock after it.
\<close>

fun open_cache_loop :: "(nat \<Rightarrow> bool) \<Rightarrow> (nat \<Rightarrow> real) \<Rightarrow> real \<Rightarrow> nat \<Rightarrow> nat \<Rightarrow> nat res option" where
  "open_cache_loop granted now deadline 0 i = None"
| "open_cache_loop granted now deadline (Suc fuel) i =
     (if granted i then Some (return i)
      else if now i \<ge> deadline then Some (raise C_EmbeddingUnavailable ''busy'')
      else open_cache_loop granted now deadline fuel (Suc i))"

definition open_profile_embedding_cache :: "(nat \<Rightarrow> bool) \<Rightarrow> (nat \<Rightarrow> real) \<Rightarrow> real \<Rightarrow> nat \<Rightarrow> nat res option" where
  "open_profile_embedding_cache granted now t0 fuel = open_cache_loop granted now (t0 + 5) fuel 0"

section \<open>What is served read-only was verified\<close>

lemma bounded_rows_None: "fst (bounded_rows rows None) = None"
  by (simp add: bounded_rows_def)

lemma rd_None: "rd_comp m \<Longrightarrow> fst (m None) = None"
  by (auto simp: rd_comp_def rd_le_def split: option.splits dest!: spec [of _ None])

lemma rd_comp_verify: "rd_comp (verify_readonly_profile rf loads db)"
  unfolding verify_readonly_profile_def by (auto intro!: rd_intros split: option.split)


section \<open>The cache keeps its dimensions\<close>

text \<open>The two operations that write the record, with any model, dimension and fault.\<close>

inductive cache_step :: "cache_meta store \<Rightarrow> cache_meta store \<Rightarrow> bool" where
  persist: "persist_cache_identity flt has_path model d s = (s', r) \<Longrightarrow> cache_step s s'"
| bootstrap: "bootstrap_sqlite_profile flt v disabled model d w = (w', r) \<Longrightarrow>
    cache_step (bw_cache_meta w) (bw_cache_meta w')"

lemma cache_body_keeps:
  assumes "transact flt (cache_identity_body m d) s = (s', r)"
  shows "map_of (st_durable s) k = Some n \<Longrightarrow> map_of (st_durable s') k = Some n"
    and "r = Inr () \<Longrightarrow> map_of (st_durable s') m = Some d"
proof -
  note c = transact_cases(2,3) [OF assms]
  show "map_of (st_durable s') k = Some n" if "map_of (st_durable s) k = Some n"
  proof (cases "st_durable s' = st_durable s")
    case False
    then obtain x where "cache_identity_body m d (st_durable s) = Inr (Some (st_durable s'), x)"
      using c(2) by blast
    then have "st_durable s' = insert_or_ignore m d (st_durable s)"
      by (auto simp: cache_identity_body_def split: option.splits if_splits)
    then show ?thesis using that by (auto simp: insert_or_ignore_def)
  qed (use that in simp)
  show "map_of (st_durable s') m = Some d" if r: "r = Inr ()"
  proof -
    obtain x where x: "cache_identity_body m d (st_durable s) = Inr (x, ())"
      "st_durable s' = (case x of None \<Rightarrow> st_durable s | Some db \<Rightarrow> db)"
      using c(1) [OF r] by blast
    then have "x = Some (insert_or_ignore m d (st_durable s))" "map_of (st_durable s) m \<in> {None, Some d}"
      by (auto simp: cache_identity_body_def split: option.splits if_splits)
    then show ?thesis using x(2) by (auto simp: insert_or_ignore_def)
  qed
qed

lemma cache_step_keeps:
  assumes "cache_step s s'" "map_of (st_durable s) k = Some n"
  shows "map_of (st_durable s') k = Some n"
  using assms(1)
proof (cases rule: cache_step.cases)
  case (persist flt has_path model d r)
  then show ?thesis
    using assms(2) cache_body_keeps(1)
    by (auto simp: persist_cache_identity_def split: option.splits if_splits)
next
  case (bootstrap flt v disabled model d w w' r)
  then show ?thesis
    using assms(2) cache_body_keeps(1)
    by (auto simp: bootstrap_sqlite_profile_def Let_def split: option.splits sum.splits if_splits prod.splits)
qed

text \<open>
  The cache never mixes dimensions. Once a dimension is recorded for a model,
  no sequence of publications and bootstraps, with whatever faults, changes it;
  and a publication returns only when the record holds its own dimension.
\<close>

theorem cache_dimension_write_once:
  assumes "cache_step\<^sup>*\<^sup>* s s'" "map_of (st_durable s) model = Some d"
    and "persist_cache_identity flt has_path (Some model) (Some d') s' = (s'', Inr ())"
  shows "d' = d \<and> map_of (st_durable s'') model = Some d"
proof -
  have "map_of (st_durable s') model = Some d"
    using assms(1,2) by (induction rule: rtranclp_induct) (auto intro: cache_step_keeps)
  moreover have t: "transact flt (cache_identity_body model d') s' = (s'', Inr ())"
    using assms(3) by (auto simp: persist_cache_identity_def split: if_splits)
  ultimately show ?thesis
    using cache_body_keeps [OF t] by force
qed

section \<open>The wait for the cache ends\<close>

text \<open>With the clock at least 10 ms further at each look, the loop is over after 501 rounds.\<close>

lemma open_cache_loop_returns:
  assumes "\<And>j. now (Suc j) \<ge> now j + 1 / 100" "deadline \<le> now i + real fuel / 100"
  shows "\<exists>r. open_cache_loop granted now deadline (Suc fuel) i = Some r"
  using assms(2)
proof (induction fuel arbitrary: i)
  case (Suc n)
  then have "deadline \<le> now (Suc i) + real n / 100"
    using assms(1) [of i] by (simp add: field_simps)
  then show ?case using Suc.IH by auto
qed simp

section \<open>What is created is accepted\<close>

lemma vec_schema_supported: "is_supported_vec_ddl (vec_schema_sql d)"
proof -
  let ?rest = "''node_id TEXT primary key, embedding float['' @ str_of_int d @ ''] distance_metric=cosine)''"
  have "\<exists>t. VEC_DDL_RE (vec_schema_sql d) = Some t"
    by (simp add: VEC_DDL_RE_def vec_schema_sql_def re_lit_def re_ws0_def re_ws1_def re_opt_def re_one_def
        py_lower_def py_lower_char_def py_isspace_def Let_def)
  then show ?thesis by (auto simp: is_supported_vec_ddl_def)
qed

lemma match_dimension_schema:
  assumes "0 < d"
  shows "match_dimension (''float['' @ str_of_int d @ CHR '']'' # rest) = Some d"
proof -
  have s: "str_of_int d = digits_of (nat d)" using assms by (simp add: str_of_int_def)
  obtain c cs where c: "digits_of (nat d) = c # cs" "is_digit c"
    using digits_of_neq_Nil [of "nat d"] digits_of_digits by (metis list.set_intros(1) neq_Nil_conv)
  have dig: "\<forall>c \<in> set (digits_of (nat d)). is_digit c" by (simp add: digits_of_digits)
  have t: "takeWhile is_digit (digits_of (nat d) @ CHR '']'' # rest) = digits_of (nat d)"
    "dropWhile is_digit (digits_of (nat d) @ CHR '']'' # rest) = CHR '']'' # rest"
    using dig by (simp_all add: takeWhile_append2 dropWhile_append2)
  have w: "dropWhile py_isspace (digits_of (nat d) @ CHR '']'' # rest) = digits_of (nat d) @ CHR '']'' # rest"
    using c is_digit_nonspace by simp
  have b: "py_isspace CHR ''['' = False" "py_isspace CHR '']'' = False" by (simp_all add: py_isspace_def)
  have l: "re_lit ''float'' (''float['' @ x) = Some (CHR ''['' # x)" "re_lit ''['' (CHR ''['' # x) = Some x"
    "re_lit '']'' (CHR '']'' # x) = Some x" for x
    by (simp_all add: re_lit_def py_lower_def)
  have h: "re_seq [re_alt [re_lit ''float'', re_lit ''int8''], re_ws0, re_lit ''['', re_ws0]
      (''float['' @ digits_of (nat d) @ CHR '']'' # rest) = Some (digits_of (nat d) @ CHR '']'' # rest)"
    using l w b by (simp add: re_ws0_def del: append_Cons)
  show ?thesis
    using assms unfolding match_dimension_def s h
    by (simp add: t Let_def digits_of_neq_Nil int_digits_digits_of re_ws0_def b l)
qed

lemma match_dimension_head:
  "py_lower_char c \<noteq> CHR ''f'' \<Longrightarrow> py_lower_char c \<noteq> CHR ''i'' \<or> py_lower_char c' \<noteq> CHR ''n'' \<or> py_lower_char c'' \<noteq> CHR ''t'' \<Longrightarrow>
   match_dimension (c # c' # c'' # cs) = None"
proof -
  assume h: "py_lower_char c \<noteq> CHR ''f''" "py_lower_char c \<noteq> CHR ''i'' \<or> py_lower_char c' \<noteq> CHR ''n'' \<or> py_lower_char c'' \<noteq> CHR ''t''"
  have l: "py_lower ''float'' = ''float''" "py_lower ''int8'' = ''int8''" by code_simp+
  have "re_alt [re_lit ''float'', re_lit ''int8''] (c # c' # c'' # cs) = None"
    using h unfolding re_lit_def l by (auto simp: py_lower_def)
  then show ?thesis by (simp add: match_dimension_def)
qed

fun no_dimension :: "string \<Rightarrow> bool" where
  "no_dimension (c # c' # c'' # cs) \<longleftrightarrow>
     py_lower_char c \<noteq> CHR ''f'' \<and>
     (py_lower_char c \<noteq> CHR ''i'' \<or> py_lower_char c' \<noteq> CHR ''n'' \<or> py_lower_char c'' \<noteq> CHR ''t'') \<and>
     no_dimension (c' # c'' # cs)"
| "no_dimension _ = True"

lemma search_dimension_skip:
  "no_dimension (pre @ [a, b]) \<Longrightarrow> search_dimension (pre @ a # b # s) = search_dimension (a # b # s)"
proof (induction pre)
  case (Cons c pre)
  obtain c' c'' cs where t: "pre @ a # b # s = c' # c'' # cs" "pre @ [a, b] = c' # c'' # take (length pre) cs"
    by (cases pre; cases "tl pre") auto
  then have "match_dimension (c # pre @ a # b # s) = None"
    using Cons.prems match_dimension_head by auto
  moreover have "no_dimension (pre @ [a, b])" using Cons.prems t by auto
  ultimately show ?case using Cons.IH by simp
qed simp

lemma vec_schema_matches:
  assumes "0 < d"
  shows "is_supported_vec_ddl (vec_schema_sql d) \<and> search_dimension (vec_schema_sql d) = Some d"
proof -
  let ?pre = "''CREATE VIRTUAL TABLE vec_embeddings'' @ [char_of (10 :: nat)] @
      ''                USING vec0(node_id TEXT primary key, embeddin''"
  let ?rest = "''oat['' @ str_of_int d @ '']'' @ '' distance_metric=cosine)''"
  have no: "no_dimension (?pre @ [CHR ''g'', CHR '' ''])" by code_simp
  have split: "vec_schema_sql d = ?pre @ CHR ''g'' # CHR '' '' # CHR ''f'' # CHR ''l'' # ?rest"
    by (simp add: vec_schema_sql_def)
  have low: "py_lower_char CHR ''g'' = CHR ''g''" "py_lower_char CHR '' '' = CHR '' ''" by code_simp+
  have "search_dimension (CHR ''f'' # CHR ''l'' # ?rest) = Some d"
    using match_dimension_schema [OF assms, of "'' distance_metric=cosine)''"] by simp
  then have "search_dimension (CHR ''g'' # CHR '' '' # CHR ''f'' # CHR ''l'' # ?rest) = Some d"
    using low by (simp add: match_dimension_head)
  then have "search_dimension (vec_schema_sql d) = Some d"
    unfolding split search_dimension_skip [OF no] .
  then show ?thesis using vec_schema_supported by blast
qed

text \<open>
  The vector table the provider creates passes the verification. For every
  dimension, the stored text of the schema it creates is an accepted declaration,
  and the dimension that the verification reads from it is the one it was created
  with.
\<close>

theorem vec_schema_accepted:
  assumes "0 < d"
  shows "is_supported_vec_ddl (vec_schema_sql d) \<and> search_dimension (vec_schema_sql d) = Some d"
  by (rule vec_schema_matches [OF assms])

section \<open>Witnesses\<close>

theorem vec_schema_accepted_witness:
  "is_supported_vec_ddl (vec_schema_sql 384) \<and> search_dimension (vec_schema_sql 384) = Some 384"
  using vec_schema_accepted [of 384] by simp

text \<open>A complete profile with one node and its vector, on a vulnerable SQLite in WAL mode.\<close>

definition small_profile :: profile_db where
  "small_profile =
     \<lparr>pd_query_only = True, pd_user_version = 3, pd_integrity = ''ok'', pd_tables = REQUIRED_TABLES,
      pd_columns = (\<lambda>t. if t = ''thought_nodes'' then REQUIRED_NODE_COLUMNS
                       else if t = ''embeddings'' then REQUIRED_EMBEDDING_COLUMNS else REQUIRED_EDGE_COLUMNS),
      pd_meta = [(''embedding_model'', ''m''), (''embedding_dim'', ''1''), (''vec_dim'', ''1''),
                 (''maintenance_epoch'', ''1'')],
      pd_embeddings = [\<lparr>ee_node_id = Some ''n'', ee_vector = Blob [0, 0, 128, 63], ee_model = Some ''m''\<rparr>],
      pd_nodes = [\<lparr>an_id = Some ''n'', an_permanent = None, an_decayed = None, an_type = None\<rparr>],
      pd_edges = [], pd_vec_sql = None, pd_vec_rows = [], pd_source_id = ''src''\<rparr>"

lemma small_profile_verifies:
  "\<exists>r. snd (verify_readonly_profile (\<lambda>_. None) True small_profile None) = Inr r"
proof -
  have one: "int_of_str ''1'' = Some 1" and ok: "py_lower ''ok'' = ''ok''" by code_simp+
  have len: "length REQUIRED_TABLES \<le> 100000" "length REQUIRED_NODE_COLUMNS \<le> 100000"
    "length REQUIRED_EMBEDDING_COLUMNS \<le> 100000" "length REQUIRED_EDGE_COLUMNS \<le> 100000"
    by (simp_all add: REQUIRED_TABLES_def REQUIRED_NODE_COLUMNS_def REQUIRED_EMBEDDING_COLUMNS_def
        REQUIRED_EDGE_COLUMNS_def)
  show ?thesis
    using len
    by (simp add: verify_readonly_profile_def verify_schema_def verify_identity_def require_columns_def rd_bind_def
        rd_stmt_def rd_require_def rd_ret_def rd_rows_def bounded_rows_def small_profile_def meta_rows_def
        REQUIRED_META_def embedding_rows_def blob_length_def falsy_text_def READONLY_SCAN_ROW_CAP_def one ok)
qed


definition empty_cache :: "cache_meta store" where
  "empty_cache = \<lparr>st_durable = [], st_work = None, st_backups = [], st_temporary = 0\<rparr>"

definition recorded_cache :: "cache_meta store" where
  "recorded_cache = empty_cache\<lparr>st_durable := [(''m'', 3)]\<rparr>"

theorem cache_dimension_write_once_witness:
  "persist_cache_identity no_txn_faults True (Some ''m'') (Some 3) empty_cache = (recorded_cache, Inr ()) \<and>
   (\<exists>s. persist_cache_identity no_txn_faults True (Some ''m'') (Some 3) recorded_cache = (s, Inr ()) \<and>
      map_of (st_durable s) ''m'' = Some 3)"
proof -
  have 1: "persist_cache_identity no_txn_faults True (Some ''m'') (Some 3) empty_cache = (recorded_cache, Inr ())"
    by (simp add: persist_cache_identity_def transact_ok cache_identity_body_def insert_or_ignore_def empty_cache_def
        recorded_cache_def)
  have 2: "persist_cache_identity no_txn_faults True (Some ''m'') (Some 3) recorded_cache = (recorded_cache, Inr ())"
    by (simp add: persist_cache_identity_def transact_ok cache_identity_body_def insert_or_ignore_def empty_cache_def
        recorded_cache_def)
  have "map_of (st_durable recorded_cache) ''m'' = Some 3" by (simp add: recorded_cache_def)
  then show ?thesis
    using cache_dimension_write_once [OF rtranclp.rtrancl_refl _ 2] 1 2 by blast
qed

end
