(* ===== verification/Floats.thy ===== *)
theory Floats
  imports Complex_Main
begin

text \<open>
  Single-precision numbers as \<^verbatim>\<open>struct.unpack("<f")\<close> and \<^verbatim>\<open>numpy.frombuffer(dtype="<f4")\<close> read
  them from bytes, the least significant byte first. \<open>None\<close> is an infinity or not a
  number.
\<close>

definition f32 :: "nat \<Rightarrow> nat \<Rightarrow> nat \<Rightarrow> nat \<Rightarrow> real option" where
  "f32 b0 b1 b2 b3 =
     (let frac = b0 + 256 * b1 + 65536 * (b2 mod 128);
          ex = (b3 mod 128) * 2 + b2 div 128;
          sign = (if b3 < 128 then 1 else - 1)
      in if ex = 255 then None
         else if ex = 0 then Some (sign * real frac / 2 ^ 149)
         else Some (sign * (1 + real frac / 2 ^ 23) * 2 ^ ex / 2 ^ 127))"

fun unpack_floats :: "nat list \<Rightarrow> real option list" where
  "unpack_floats (b0 # b1 # b2 # b3 # bs) = f32 b0 b1 b2 b3 # unpack_floats bs"
| "unpack_floats _ = []"

lemma length_unpack_floats: "length (unpack_floats bs) = length bs div 4"
  by (induction bs rule: unpack_floats.induct) simp_all

end
