(* ===== verification/IntegrityAudit.thy ===== *)
theory IntegrityAudit
  imports Readonly Floats
begin

text \<open>
  The read-only integrity audit of \<^verbatim>\<open>integrity.py\<close>: the inspection of the schema, the
  embeddings, the vector table and the graph under one budget, and the report with
  its status.

  A report's hashes and the fields that only copy what is modelled here are left
  out; \<open>vnorm\<close> is the floating-point value of the root of the sum of squares.
\<close>

section \<open>Vectors\<close>

definition finite_vector ::
    "(real list \<Rightarrow> real) \<Rightarrow> blob \<Rightarrow> int option \<Rightarrow> string option \<times> int option" where
  "finite_vector vnorm v expected_dim =
     (case v of
        NotBlob \<Rightarrow> (Some ''embedding_blob_invalid'', None)
      | Blob raw \<Rightarrow>
          if length raw = 0 \<or> length raw mod 4 \<noteq> 0 then (Some ''embedding_blob_invalid'', None)
          else
            let d = int (length raw div 4); xs = unpack_floats raw
            in if d > 16384 then (Some ''embedding_dimension_invalid'', Some d)
               else if expected_dim \<noteq> None \<and> expected_dim \<noteq> Some d
               then (Some ''embedding_dimension_mismatch'', Some d)
               else if None \<in> set xs then (Some ''embedding_nonfinite'', Some d)
               else if vnorm (map the xs) \<le> 1 / 10 ^ 12 then (Some ''embedding_zero_norm'', Some d)
               else (None, Some d))"

definition positive_int :: "string option \<Rightarrow> int option" where
  "positive_int v =
     (case int_of_str (case v of None \<Rightarrow> ''None'' | Some s \<Rightarrow> s) of
        None \<Rightarrow> None
      | Some i \<Rightarrow> if i \<ge> 0 then Some i else None)"

section \<open>Statements\<close>

definition au_stmt :: "stmt_faults \<Rightarrow> stmt \<Rightarrow> 'a \<Rightarrow> 'a au" where
  "au_stmt rf st x s =
     (case rf st of
        None \<Rightarrow> (s, Inr x)
      | Some (e, interrupted) \<Rightarrow>
          ((if interrupted then s\<lparr>as_budget := add_incomplete ''audit_deadline'' (as_budget s)\<rparr> else s), Inl e))"

definition au_seq :: "'a au \<Rightarrow> 'b au \<Rightarrow> 'b au" where
  "au_seq m n = au_bind m (\<lambda>_. n)"

definition au_if_ready :: "'a au \<Rightarrow> 'a au \<Rightarrow> 'a au" where
  "au_if_ready m n = au_bind (on_budget budget_ready) (\<lambda>ok. if ok then m else n)"

definition free_cost :: "'r \<Rightarrow> int option" where
  "free_cost r = Some 0"

definition row_limit :: "'r list \<Rightarrow> 'r list" where
  "row_limit = take (MAX_AUDIT_ROWS + 1)"

section \<open>Tables and columns\<close>

definition table_exists :: "stmt_faults \<Rightarrow> profile_db \<Rightarrow> string \<Rightarrow> bool au" where
  "table_exists rf db t = au_if_ready (au_stmt rf (S_exists t) (t \<in> set (pd_tables db))) (au_ret False)"

fun au_map :: "('a \<Rightarrow> 'b au) \<Rightarrow> 'a list \<Rightarrow> 'b list au" where
  "au_map f [] = au_ret []"
| "au_map f (x # xs) = au_bind (f x) (\<lambda>y. au_bind (au_map f xs) (\<lambda>ys. au_ret (y # ys)))"

text \<open>\<^verbatim>\<open>name NOT LIKE 'sqlite_%' AND name NOT IN (...) ORDER BY name LIMIT n\<close>.\<close>

definition unexpected_tables :: "profile_db \<Rightarrow> string list" where
  "unexpected_tables db =
     row_limit (filter (\<lambda>t. \<not> (py_lower (take 6 t) = ''sqlite'' \<and> length t > 6) \<and> t \<notin> set REQUIRED_TABLES)
       (pd_tables db))"

record table_report =
  tr_present :: "string list"
  tr_unexpected :: "nat option"
  tr_complete :: bool

definition table_inventory :: "stmt_faults \<Rightarrow> profile_db \<Rightarrow> table_report au" where
  "table_inventory rf db =
     au_bind (au_map (\<lambda>t. au_bind (table_exists rf db t) (\<lambda>x. au_ret (t, x))) REQUIRED_TABLES) (\<lambda>known.
     au_bind (au_if_ready
       (au_bind (au_stmt rf S_tables (unexpected_tables db)) (\<lambda>rows.
        au_bind (on_budget (scan_rows (\<lambda>t. Some (utf8_length t + 1)) rows)) (\<lambda>(xs, e).
        au_ret (length xs, e \<noteq> Refused))))
       (au_ret (0, False))) (\<lambda>(count, complete).
     au_bind get_incomplete (\<lambda>inc.
     au_seq (set_scan ''table_inventory'' (complete \<and> inc = []))
     (au_ret \<lparr>tr_present = map fst (filter snd known),
              tr_unexpected = (if complete then Some count else None),
              tr_complete = (complete \<and> inc = [])\<rparr>))))"

definition columns :: "stmt_faults \<Rightarrow> profile_db \<Rightarrow> string \<Rightarrow> string list au" where
  "columns rf db t =
     au_if_ready
       (au_bind (au_stmt rf (S_columns t) (pd_columns db t)) (\<lambda>cols.
        au_bind (on_budget (take_batch free_cost cols)) (\<lambda>(xs, _). au_ret xs)))
       (au_ret [])"

section \<open>Provenance\<close>

record provenance =
  po_user_version :: "int option"
  po_model :: "string option"
  po_dim :: "int option"
  po_vec_dim :: "int option"
  po_epoch :: "string option"

definition no_provenance :: provenance where
  "no_provenance = \<lparr>po_user_version = None, po_model = None, po_dim = None, po_vec_dim = None, po_epoch = None\<rparr>"

definition int_of_opt :: "string option \<Rightarrow> int option" where
  "int_of_opt v = (case v of None \<Rightarrow> None | Some s \<Rightarrow> int_of_str s)"

definition provenance_of :: "stmt_faults \<Rightarrow> profile_db \<Rightarrow> provenance au" where
  "provenance_of rf db =
     au_seq (au_catch C_SqliteError (au_bind (au_stmt rf S_source_id (pd_source_id db))
               (\<lambda>v. au_ret (Some v))) (au_ret None))
     (au_bind (au_catch C_SqliteError (au_bind (au_stmt rf S_user_version (pd_user_version db))
                (\<lambda>v. au_ret (Some v))) (au_ret None)) (\<lambda>version.
     au_bind (table_exists rf db ''hermes_provider_meta'') (\<lambda>present.
     if \<not> present then au_ret (no_provenance\<lparr>po_user_version := version\<rparr>)
     else au_catch C_SqliteError
       (au_bind (au_stmt rf S_meta (meta_rows db)) (\<lambda>rows.
        au_bind (on_budget (take_batch free_cost rows)) (\<lambda>(meta, _).
        au_ret \<lparr>po_user_version = version, po_model = map_of meta ''embedding_model'',
                po_dim = int_of_opt (map_of meta ''embedding_dim''),
                po_vec_dim = int_of_opt (map_of meta ''vec_dim''),
                po_epoch = map_of meta ''maintenance_epoch''\<rparr>)))
       (au_ret (no_provenance\<lparr>po_user_version := version\<rparr>)))))"

text \<open>\<^verbatim>\<open>_safe_provenance\<close>, without the hashes: whether the epoch is there and whether it is valid.\<close>

definition safe_provenance :: "provenance \<Rightarrow> bool \<times> bool" where
  "safe_provenance p = (po_epoch p \<noteq> None, positive_int (po_epoch p) \<noteq> None)"

section \<open>Counting\<close>

definition bounded_count :: "stmt_faults \<Rightarrow> stmt \<Rightarrow> string \<Rightarrow> 'r list \<Rightarrow> nat au" where
  "bounded_count rf st label rows =
     au_if_ready
       (au_bind (au_stmt rf st (row_limit rows)) (\<lambda>rs.
        au_bind (on_budget (scan_rows free_cost rs)) (\<lambda>(xs, e).
        au_seq (set_scan label (e = Exhausted)) (au_ret (length xs)))))
       (au_seq (set_scan label False) (au_ret 0))"

text \<open>The rows the counting queries select.\<close>

definition has_node :: "profile_db \<Rightarrow> string option \<Rightarrow> bool" where
  "has_node db k \<longleftrightarrow> k \<noteq> None \<and> k \<in> an_id ` set (pd_nodes db)"

definition orphan_embeddings :: "profile_db \<Rightarrow> embedding_entry list" where
  "orphan_embeddings db = filter (\<lambda>e. \<not> has_node db (ee_node_id e)) (pd_embeddings db)"

definition nodes_without_embeddings :: "profile_db \<Rightarrow> audit_node list" where
  "nodes_without_embeddings db =
     filter (\<lambda>n. an_id n = None \<or> an_id n \<notin> ee_node_id ` set (pd_embeddings db)) (pd_nodes db)"

definition coalesce0 :: "int option \<Rightarrow> int" where
  "coalesce0 x = (case x of None \<Rightarrow> 0 | Some i \<Rightarrow> i)"

definition permanent_and_decayed :: "profile_db \<Rightarrow> audit_node list" where
  "permanent_and_decayed db =
     filter (\<lambda>n. coalesce0 (an_permanent n) \<noteq> 0 \<and> coalesce0 (an_decayed n) \<noteq> 0) (pd_nodes db)"

definition permanent_core :: "profile_db \<Rightarrow> audit_node list" where
  "permanent_core db =
     filter (\<lambda>n. an_type n = Some ''core_memory'' \<and> coalesce0 (an_permanent n) \<noteq> 0) (pd_nodes db)"

definition orphan_edges :: "profile_db \<Rightarrow> (string option \<times> string option) list" where
  "orphan_edges db = filter (\<lambda>(p, c). \<not> has_node db p \<or> \<not> has_node db c) (pd_edges db)"

definition self_edges :: "profile_db \<Rightarrow> (string option \<times> string option) list" where
  "self_edges db = filter (\<lambda>(p, c). p \<noteq> None \<and> p = c) (pd_edges db)"

definition graph_findings :: "stmt_faults \<Rightarrow> profile_db \<Rightarrow> (nat \<times> nat) au" where
  "graph_findings rf db =
     au_if_ready
       (au_bind (au_catch C_SqliteError
          (au_bind (bounded_count rf S_orphan_edges ''orphan_edges'' (orphan_edges db)) (\<lambda>orphan.
           au_bind (bounded_count rf S_self_edges ''self_edges'' (self_edges db)) (\<lambda>self.
           au_ret (Some (orphan, self)))))
          (au_ret None)) (\<lambda>r.
        case r of
          None \<Rightarrow> au_seq (set_scan ''graph'' False)
                   (au_seq (add_reason ''graph_unverifiable'' 1) (au_ret (0, 0)))
        | Some (orphan, self) \<Rightarrow>
            au_seq (add_reason ''orphan_edge'' orphan)
            (au_seq (add_reason ''self_edge'' self)
            (au_bind get_incomplete (\<lambda>inc.
             au_seq (set_scan ''graph'' (inc = [])) (au_ret (orphan, self)))))))
       (au_seq (set_scan ''graph'' False) (au_ret (0, 0)))"

section \<open>The vector table\<close>

record vec_report =
  vr_available :: bool
  vr_entries :: "nat option"
  vr_missing :: "nat option"
  vr_stale :: "nat option"
  vr_dimension :: "int option"

definition vec_unknown :: "int option \<Rightarrow> vec_report" where
  "vec_unknown d = \<lparr>vr_available = False, vr_entries = None, vr_missing = None, vr_stale = None, vr_dimension = d\<rparr>"

definition vec_unverifiable :: "int option \<Rightarrow> vec_report au" where
  "vec_unverifiable d =
     au_seq (set_scan ''vec_index'' False) (au_seq (add_reason ''vec_index_unverifiable'' 1) (au_ret (vec_unknown d)))"

text \<open>The scan of the entries; \<open>None\<close> when the table cannot be read.\<close>

definition vec_entries :: "stmt_faults \<Rightarrow> profile_db \<Rightarrow> (string option \<times> nat option) list option au" where
  "vec_entries rf db =
     au_catch C_SqliteError
       (au_bind (au_stmt rf S_vec_lengths (row_limit (pd_vec_rows db))) (\<lambda>rows.
        au_bind (on_budget (scan_rows (\<lambda>(_, n). Some (case n of None \<Rightarrow> 0 | Some k \<Rightarrow> int k)) rows))
          (\<lambda>(xs, _). au_ret (Some xs))))
       (au_ret None)"

definition check_vec_dimension :: "int option \<Rightarrow> int option \<Rightarrow> unit au" where
  "check_vec_dimension declared expected_dim =
     (if declared = None then add_reason ''vec_dimension_unavailable'' 1
      else if expected_dim \<noteq> None \<and> declared \<noteq> expected_dim then add_reason ''vec_dimension_mismatch'' 1
      else au_ret ())"

text \<open>The comparison with the ordinary embeddings, only after a complete scan.\<close>

definition compare_vec ::
    "string set \<Rightarrow> int option \<Rightarrow> int option \<Rightarrow> (string option \<times> nat option) list \<Rightarrow> vec_report au" where
  "compare_vec ordinary expected_dim declared rows =
     au_bind get_incomplete (\<lambda>inc.
     au_seq (set_scan ''vec_index'' (inc = []))
     (if inc \<noteq> [] then
        au_ret \<lparr>vr_available = True, vr_entries = Some (length rows), vr_missing = None,
                vr_stale = None, vr_dimension = declared\<rparr>
      else
        let vec_ids = set (List.map_filter fst rows);
            missing = ordinary - vec_ids; stale = vec_ids - ordinary;
            invalid = length (filter (\<lambda>(_, n). n = None \<or>
              (expected_dim \<noteq> None \<and> map_option int n \<noteq> map_option (\<lambda>d. d * 4) expected_dim)) rows)
        in au_seq (add_reason ''vec_entry_missing'' (card missing))
           (au_seq (add_reason ''vec_entry_stale'' (card stale))
           (au_seq (add_reason ''vec_blob_dimension_mismatch'' invalid)
           (au_ret \<lparr>vr_available = True, vr_entries = Some (length rows),
                    vr_missing = Some (card missing), vr_stale = Some (card stale),
                    vr_dimension = declared\<rparr>)))))"

definition inspect_vec ::
    "stmt_faults \<Rightarrow> bool \<Rightarrow> profile_db \<Rightarrow> string set \<Rightarrow> int option \<Rightarrow> vec_report au" where
  "inspect_vec rf loads db ordinary expected_dim =
     au_bind (au_stmt rf S_vec_master (pd_vec_sql db)) (\<lambda>vec.
     case vec of
       None \<Rightarrow>
         au_seq (set_scan ''vec_index'' True)
         (au_seq (add_reason ''vec_index_missing'' (card ordinary))
         (au_ret \<lparr>vr_available = False, vr_entries = Some 0, vr_missing = Some (card ordinary),
                  vr_stale = Some 0, vr_dimension = None\<rparr>))
     | Some sql \<Rightarrow>
         if \<not> is_supported_vec_ddl sql \<or> \<not> loads then vec_unverifiable None
         else
           au_seq (check_vec_dimension (search_dimension sql) expected_dim)
           (au_bind (vec_entries rf db) (\<lambda>r.
            case r of
              None \<Rightarrow> vec_unverifiable (search_dimension sql)
            | Some rows \<Rightarrow> compare_vec ordinary expected_dim (search_dimension sql) rows)))"

section \<open>The profile\<close>

definition vector_cost :: "embedding_entry \<Rightarrow> int option" where
  "vector_cost e =
     (let n = (case ee_vector e of Blob bs \<Rightarrow> int (length bs) | NotBlob \<Rightarrow> 0)
      in if n > MAX_VECTOR_BYTES then None else Some n)"

text \<open>The reasons that one embedding row adds.\<close>

definition embedding_reasons ::
    "(real list \<Rightarrow> real) \<Rightarrow> provenance \<Rightarrow> embedding_entry \<Rightarrow> unit au" where
  "embedding_reasons vnorm po e =
     au_seq (add_reason (case fst (finite_vector vnorm (ee_vector e) (po_dim po)) of None \<Rightarrow> [] | Some r \<Rightarrow> r) 1)
     (au_seq (if po_model po \<noteq> None \<and> ee_model e \<noteq> po_model po
              then add_reason ''embedding_model_mismatch'' 1 else au_ret ())
     (if ee_node_id e = None then add_reason ''embedding_node_id_invalid'' 1 else au_ret ()))"

definition scan_embeddings ::
    "stmt_faults \<Rightarrow> (real list \<Rightarrow> real) \<Rightarrow> profile_db \<Rightarrow> provenance \<Rightarrow> embedding_entry list au" where
  "scan_embeddings rf vnorm db po =
     au_bind (au_stmt rf S_embeddings (row_limit (pd_embeddings db))) (\<lambda>rows.
     au_bind (on_budget (scan_rows vector_cost rows)) (\<lambda>(xs, _).
     au_seq (au_map (embedding_reasons vnorm po) xs)
     (au_bind get_incomplete (\<lambda>inc.
      au_seq (set_scan ''embeddings'' (inc = [])) (au_ret xs)))))"

definition missing_columns_of ::
    "stmt_faults \<Rightarrow> profile_db \<Rightarrow> string list \<Rightarrow> string \<times> string list \<Rightarrow> (string \<times> string list) list au" where
  "missing_columns_of rf db tables tr =
     (if fst tr \<notin> set tables then au_ret []
      else au_bind (columns rf db (fst tr)) (\<lambda>cols.
        let missing = filter (\<lambda>c. c \<notin> set cols) (snd tr)
        in if missing = [] then au_ret []
           else au_seq (add_reason ''schema_column_missing'' (length missing)) (au_ret [(fst tr, missing)])))"

definition meta_keys :: "stmt_faults \<Rightarrow> profile_db \<Rightarrow> string list au" where
  "meta_keys rf db =
     au_catch C_SqliteError
       (au_bind (au_stmt rf S_meta_keys (take 4 (map fst (meta_rows db)))) (\<lambda>rows.
        au_bind (on_budget (take_batch free_cost rows)) (\<lambda>(xs, _). au_ret xs)))
       (au_ret [])"

record profile_report =
  ir_tables :: table_report
  ir_missing_tables :: "string list"
  ir_missing_columns :: "(string \<times> string list) list"
  ir_missing_meta :: "string list"
  ir_embeddings :: nat
  ir_orphans :: nat
  ir_unembedded :: nat
  ir_core :: nat
  ir_vec :: vec_report
  ir_graph :: "nat \<times> nat"
  ir_epoch :: "bool \<times> bool"

text \<open>The scans that run when the schema is complete and the budget allows.\<close>

definition orphan_counts :: "stmt_faults \<Rightarrow> profile_db \<Rightarrow> (nat \<times> nat) au" where
  "orphan_counts rf db =
     au_bind (au_if_ready
       (au_bind (bounded_count rf S_orphan_embeddings ''orphan_embeddings'' (orphan_embeddings db)) (\<lambda>a.
        au_bind (bounded_count rf S_missing_embeddings ''nodes_without_embeddings'' (nodes_without_embeddings db)) (\<lambda>b.
        au_ret (a, b))))
       (au_ret (0, 0))) (\<lambda>(a, b).
     au_seq (add_reason ''orphan_embedding'' a)
     (au_seq (add_reason ''node_embedding_missing'' b) (au_ret (a, b))))"

definition permanence_counts :: "stmt_faults \<Rightarrow> profile_db \<Rightarrow> nat au" where
  "permanence_counts rf db =
     au_bind (au_catch C_SqliteError
       (au_bind (bounded_count rf S_permanent_decayed ''permanent_and_decayed'' (permanent_and_decayed db)) (\<lambda>a.
        au_bind (bounded_count rf S_permanent_core ''permanent_core_nodes'' (permanent_core db)) (\<lambda>b.
        au_ret (a, b))))
       (au_seq (add_reason ''permanence_unverifiable'' 1) (au_ret (0, 0)))) (\<lambda>(a, b).
     au_seq (add_reason ''permanent_and_decayed'' a) (au_ret b))"

definition integrity_reason :: "stmt_faults \<Rightarrow> profile_db \<Rightarrow> unit au" where
  "integrity_reason rf db =
     au_bind (au_catch C_SqliteError (au_stmt rf S_integrity (py_lower (pd_integrity db)))
                (au_ret ''unavailable'')) (\<lambda>integrity.
     if integrity \<noteq> ''ok'' then add_reason ''sqlite_integrity_failed'' 1 else au_ret ())"

definition content_scans ::
    "stmt_faults \<Rightarrow> bool \<Rightarrow> (real list \<Rightarrow> real) \<Rightarrow> profile_db \<Rightarrow> provenance \<Rightarrow>
     (nat \<times> nat \<times> nat \<times> nat \<times> vec_report \<times> nat \<times> nat) au" where
  "content_scans rf loads vnorm db po =
     au_seq (integrity_reason rf db)
     (au_bind (scan_embeddings rf vnorm db po) (\<lambda>xs.
      au_bind (orphan_counts rf db) (\<lambda>(orphans, unembedded).
      au_bind (permanence_counts rf db) (\<lambda>core.
      au_bind (au_if_ready (inspect_vec rf loads db (set (List.map_filter ee_node_id xs)) (po_dim po))
                 (au_ret (vec_unknown None))) (\<lambda>vec.
      au_bind (au_if_ready (graph_findings rf db) (au_ret (0, 0))) (\<lambda>graph.
      au_ret (length xs, orphans, unembedded, core, vec, graph)))))))"

text \<open>\<^verbatim>\<open>for incomplete_reason in budget.incomplete_reasons: _add_reason(...)\<close>.\<close>

definition add_incomplete_reasons :: "unit au" where
  "add_incomplete_reasons =
     au_bind get_incomplete (\<lambda>inc. au_seq (au_map (\<lambda>r. add_reason r 1) inc) (au_ret ()))"

text \<open>The findings on the schema: missing tables, missing columns, missing identity keys.\<close>

definition schema_findings ::
    "stmt_faults \<Rightarrow> profile_db \<Rightarrow> provenance \<Rightarrow> string list \<Rightarrow>
     (string list \<times> (string \<times> string list) list \<times> string list) au" where
  "schema_findings rf db po present =
     (let missing_tables = filter (\<lambda>t. t \<notin> set present) REQUIRED_TABLES
      in au_seq (add_reason ''schema_table_missing'' (length missing_tables))
        (au_seq (if po_user_version po \<noteq> Some 3 then add_reason ''schema_version_unsupported'' 1 else au_ret ())
        (au_bind (au_map (missing_columns_of rf db present)
                    [(''thought_nodes'', REQUIRED_NODE_COLUMNS), (''embeddings'', REQUIRED_EMBEDDING_COLUMNS),
                     (''derivation_edges'', REQUIRED_EDGE_COLUMNS)]) (\<lambda>missing_columns.
         au_bind (meta_keys rf db) (\<lambda>keys.
         let missing_meta = (if ''hermes_provider_meta'' \<in> set present
                             then filter (\<lambda>k. k \<notin> set keys) REQUIRED_META else REQUIRED_META)
         in au_seq (add_reason ''provider_identity_missing'' (length missing_meta))
            (au_ret (missing_tables, concat missing_columns, missing_meta)))))))"

definition inspect_profile ::
    "stmt_faults \<Rightarrow> bool \<Rightarrow> (real list \<Rightarrow> real) \<Rightarrow> profile_db \<Rightarrow> profile_report au" where
  "inspect_profile rf loads vnorm db =
     au_bind (provenance_of rf db) (\<lambda>po.
     au_bind (table_inventory rf db) (\<lambda>tr.
     au_bind (schema_findings rf db po (tr_present tr)) (\<lambda>(missing_tables, missing_columns, missing_meta).
     au_bind (if missing_tables = [] \<and> missing_columns = [] then
                au_if_ready (content_scans rf loads vnorm db po) (au_ret (0, 0, 0, 0, vec_unknown None, 0, 0))
              else au_ret (0, 0, 0, 0, vec_unknown None, 0, 0)) (\<lambda>(n, orphans, unembedded, core, vec, graph).
     au_seq add_incomplete_reasons
     (au_ret \<lparr>ir_tables = tr, ir_missing_tables = missing_tables, ir_missing_columns = missing_columns,
        ir_missing_meta = missing_meta, ir_embeddings = n, ir_orphans = orphans,
        ir_unembedded = unembedded, ir_core = core, ir_vec = vec, ir_graph = graph,
        ir_epoch = safe_provenance po\<rparr>)))))"

section \<open>The audit\<close>

record audit_env =
  ae_admission :: "exn option"
  ae_release :: "exn option"
  ae_is_file :: bool
  ae_sizes :: "int list"
  ae_tempdir :: "exn option"
  ae_copy :: "nat \<Rightarrow> exn option"
  ae_open :: "exn option"
  ae_journal :: string
  ae_cleanup :: "exn option"
  ae_loads :: bool
  ae_fault :: stmt_faults
  ae_norm :: "real list \<Rightarrow> real"

text \<open>
  \<^verbatim>\<open>_source_snapshot\<close> up to its \<^verbatim>\<open>yield\<close>: reserve the sizes of the files, then copy each;
  the budget is asked before the first copy and after every one.
\<close>

definition ensure_ready :: "unit au" where
  "ensure_ready =
     au_bind (on_budget budget_ready) (\<lambda>ok.
     if ok then au_ret ()
     else au_bind get_incomplete (\<lambda>inc.
       au_raise C_AuditBudgetError (case inc of [] \<Rightarrow> ''audit_deadline'' | r # _ \<Rightarrow> r)))"

definition au_fault :: "exn option \<Rightarrow> unit au" where
  "au_fault f s = (case f of None \<Rightarrow> (s, Inr ()) | Some e \<Rightarrow> (s, Inl e))"

definition source_snapshot :: "audit_env \<Rightarrow> unit au" where
  "source_snapshot env =
     (if \<not> ae_is_file env then au_raise C_FileNotFoundError []
      else
        au_seq (au_map (\<lambda>n. au_bind (on_budget (reserve_bytes n)) (\<lambda>ok.
                  if ok then au_ret () else au_raise C_AuditBudgetError ''audit_byte_cap'')) (ae_sizes env))
        (au_seq (au_fault (ae_tempdir env))
        (au_seq ensure_ready
        (au_seq (au_map (\<lambda>i. au_seq (au_fault (ae_copy env i)) ensure_ready) [0..<length (ae_sizes env)])
        (au_ret ())))))"

record audit_report =
  rp_status :: string
  rp_reasons :: "(string \<times> nat) list"
  rp_limits :: "(nat \<times> int \<times> bool) option"
  rp_profile :: "profile_report option"

definition unavailable_report :: "string \<Rightarrow> audit_report" where
  "unavailable_report reason =
     \<lparr>rp_status = ''unavailable'', rp_reasons = [(reason, 1)], rp_limits = None, rp_profile = None\<rparr>"

definition incomplete_report :: "string \<Rightarrow> au_state \<Rightarrow> audit_report" where
  "incomplete_report reason s =
     (let b = add_incomplete reason (as_budget s)
      in \<lparr>rp_status = ''audit_incomplete'', rp_reasons = map (\<lambda>r. (r, 1)) (ab_reasons b),
          rp_limits = Some (ab_rows b, ab_bytes b, False), rp_profile = None\<rparr>)"

text \<open>The reason that stands for an interrupted verification.\<close>

definition interruption_reason :: "string list \<Rightarrow> string" where
  "interruption_reason inc =
     (case filter (\<lambda>r. r \<in> set inc) [''audit_deadline'', ''audit_row_cap'', ''audit_byte_cap''] of
        r # _ \<Rightarrow> r
      | [] \<Rightarrow> (case inc of r # _ \<Rightarrow> r | [] \<Rightarrow> []))"

definition status_of :: "(string \<times> nat) list \<Rightarrow> string" where
  "status_of reasons =
     (if list_ex (\<lambda>(r, _). py_startswith ''audit_'' r) reasons then ''audit_incomplete''
      else if reasons = [] then ''ok'' else ''findings'')"

definition inspect_with :: "audit_env \<Rightarrow> profile_db \<Rightarrow> string option \<Rightarrow> au_state \<Rightarrow> audit_report res" where
  "inspect_with env db profile_error s =
     (case inspect_profile (ae_fault env) (ae_loads env) (ae_norm env) db s of
        (s1, Inl e) \<Rightarrow>
          if isinstance e C_Exception then return (unavailable_report ''audit_failed'') else Inl e
      | (s1, Inr pr) \<Rightarrow>
          let reasons = (case profile_error of None \<Rightarrow> as_reasons s1
                         | Some r \<Rightarrow> AList.update r 1 (as_reasons s1))
          in return \<lparr>rp_status = status_of reasons, rp_reasons = reasons,
               rp_limits = Some (ab_rows (as_budget s1), ab_bytes (as_budget s1), ab_reasons (as_budget s1) = []),
               rp_profile = Some pr\<rparr>)"

definition au_verify :: "audit_env \<Rightarrow> profile_db \<Rightarrow> (string \<times> string) list au" where
  "au_verify env db s =
     (case verify_readonly_profile (ae_fault env) (ae_loads env) db (Some (as_budget s)) of
        (Some b, r) \<Rightarrow> (s\<lparr>as_budget := b\<rparr>, r)
      | (None, r) \<Rightarrow> (s, r))"

text \<open>The audit of the copy, and the removal of the copy, which may fail as well.\<close>

definition audit_snapshot :: "audit_env \<Rightarrow> profile_db \<Rightarrow> au_state \<Rightarrow> audit_report res" where
  "audit_snapshot env db s =
     (case open_readonly_verified (ae_open env) (ae_journal env) db of
        Inl e \<Rightarrow>
          if isinstance e C_Exception then return (unavailable_report ''readonly_open_failed'') else Inl e
      | Inr _ \<Rightarrow>
          (case au_verify env db s of
             (s1, Inr _) \<Rightarrow> inspect_with env db None s1
           | (s1, Inl e) \<Rightarrow>
               if isinstance e C_AuditBudgetError then return (incomplete_report (exn_msg e) s1)
               else if \<not> isinstance e C_Exception then Inl e
               else if ab_reasons (as_budget s1) \<noteq> [] then
                 return (incomplete_report (interruption_reason (ab_reasons (as_budget s1))) s1)
               else inspect_with env db (Some ''profile_verification_failed'') s1))"

definition audit_body :: "audit_env \<Rightarrow> profile_db \<Rightarrow> au_state \<Rightarrow> audit_report res" where
  "audit_body env db s =
     (let failed = (\<lambda>e. if isinstance e C_Exception then return (unavailable_report ''readonly_snapshot_failed'')
            else Inl e)
      in case source_snapshot env s of
           (s1, Inl e) \<Rightarrow>
             if isinstance e C_AuditBudgetError then return (incomplete_report (exn_msg e) s1) else failed e
         | (s1, Inr _) \<Rightarrow>
             (case ae_cleanup env of Some e \<Rightarrow> failed e | None \<Rightarrow> audit_snapshot env db s1))"

definition new_audit :: "(nat \<Rightarrow> real) \<Rightarrow> real \<Rightarrow> au_state" where
  "new_audit clock deadline_seconds =
     \<lparr>as_budget = \<lparr>ab_deadline = clock 0 + max 0 deadline_seconds, ab_rows = 0, ab_bytes = 0, ab_reasons = [],
        ab_scans = [], ab_clock = clock, ab_tick = 1\<rparr>, as_reasons = []\<rparr>"

definition audit_integrity ::
    "audit_env \<Rightarrow> (nat \<Rightarrow> real) \<Rightarrow> real \<Rightarrow> profile_db \<Rightarrow> audit_report res" where
  "audit_integrity env clock deadline_seconds db =
     (let refused = (\<lambda>e. if isinstance e C_Exception
            then return (unavailable_report ''readonly_admission_failed'') else Inl e)
      in case ae_admission env of
           Some e \<Rightarrow> refused e
         | None \<Rightarrow>
             (case audit_body env db (new_audit clock deadline_seconds) of
                Inl e \<Rightarrow> Inl e
              | Inr report \<Rightarrow> (case ae_release env of Some e \<Rightarrow> refused e | None \<Rightarrow> return report)))"

section \<open>Every stage is a computation of the audit\<close>

lemma comp_stmt [comp_intros]: "audit_comp (au_stmt rf st x)"
  by (auto simp: audit_comp_def au_stmt_def grows_add split: option.splits prod.splits)

lemma comp_seq [comp_intros]: "audit_comp m \<Longrightarrow> audit_comp n \<Longrightarrow> audit_comp (au_seq m n)"
  unfolding au_seq_def by (intro comp_intros)

lemma comp_if_ready [comp_intros]: "audit_comp m \<Longrightarrow> audit_comp n \<Longrightarrow> audit_comp (au_if_ready m n)"
  unfolding au_if_ready_def by (auto intro!: comp_intros)

lemma comp_map [comp_intros]: "(\<And>x. audit_comp (f x)) \<Longrightarrow> audit_comp (au_map f xs)"
  by (induction xs) (auto intro!: comp_intros)

lemma comp_fault [comp_intros]: "audit_comp (au_fault f)"
  by (auto simp: audit_comp_def au_fault_def split: option.split)

lemma comp_reserve [comp_intros]: "audit_comp (on_budget (reserve_bytes n))"
  by (rule comp_on_budget) (metis reserve_cases(1) prod.collapse)

lemma comp_table_exists [comp_intros]: "audit_comp (table_exists rf db t)"
  unfolding table_exists_def by (intro comp_intros)

lemma comp_inventory [comp_intros]: "audit_comp (table_inventory rf db)"
  unfolding table_inventory_def by (auto intro!: comp_intros)

lemma comp_columns [comp_intros]: "audit_comp (columns rf db t)"
  unfolding columns_def by (auto intro!: comp_intros)

lemma comp_provenance [comp_intros]: "audit_comp (provenance_of rf db)"
  unfolding provenance_of_def by (auto intro!: comp_intros)

lemma comp_count [comp_intros]: "audit_comp (bounded_count rf st l rows)"
  unfolding bounded_count_def by (auto intro!: comp_intros)

lemma comp_graph [comp_intros]: "audit_comp (graph_findings rf db)"
  unfolding graph_findings_def by (auto intro!: comp_intros split: option.splits)

lemma comp_unverifiable [comp_intros]: "audit_comp (vec_unverifiable d)"
  unfolding vec_unverifiable_def by (intro comp_intros)

lemma comp_vec_entries [comp_intros]: "audit_comp (vec_entries rf db)"
  unfolding vec_entries_def by (auto intro!: comp_intros)

lemma comp_vec_dimension [comp_intros]: "audit_comp (check_vec_dimension a b)"
  unfolding check_vec_dimension_def by (auto intro!: comp_intros)

lemma comp_compare_vec [comp_intros]: "audit_comp (compare_vec ids d k rows)"
  unfolding compare_vec_def Let_def by (auto intro!: comp_intros)

lemma comp_vec [comp_intros]: "audit_comp (inspect_vec rf loads db ids d)"
  unfolding inspect_vec_def by (auto intro!: comp_intros split: option.splits)

lemma comp_embedding_reasons [comp_intros]: "audit_comp (embedding_reasons vnorm po e)"
  unfolding embedding_reasons_def by (auto intro!: comp_intros)

lemma comp_embeddings [comp_intros]: "audit_comp (scan_embeddings rf vnorm db po)"
  unfolding scan_embeddings_def by (auto intro!: comp_intros)

lemma comp_missing_columns [comp_intros]: "audit_comp (missing_columns_of rf db ts tr)"
  unfolding missing_columns_of_def Let_def by (auto intro!: comp_intros)

lemma comp_meta_keys [comp_intros]: "audit_comp (meta_keys rf db)"
  unfolding meta_keys_def by (auto intro!: comp_intros)

lemma comp_orphans [comp_intros]: "audit_comp (orphan_counts rf db)"
  unfolding orphan_counts_def by (auto intro!: comp_intros)

lemma comp_permanence [comp_intros]: "audit_comp (permanence_counts rf db)"
  unfolding permanence_counts_def by (auto intro!: comp_intros)

lemma comp_integrity [comp_intros]: "audit_comp (integrity_reason rf db)"
  unfolding integrity_reason_def by (auto intro!: comp_intros)

lemma comp_content [comp_intros]: "audit_comp (content_scans rf loads vnorm db po)"
  unfolding content_scans_def by (auto intro!: comp_intros)

lemma comp_incomplete_reasons [comp_intros]: "audit_comp add_incomplete_reasons"
  unfolding add_incomplete_reasons_def by (auto intro!: comp_intros)

lemma comp_schema [comp_intros]: "audit_comp (schema_findings rf db po ts)"
  unfolding schema_findings_def Let_def by (auto intro!: comp_intros)

lemma comp_inspect [comp_intros]: "audit_comp (inspect_profile rf loads vnorm db)"
  unfolding inspect_profile_def by (auto intro!: comp_intros)

lemma comp_snapshot [comp_intros]: "audit_comp (source_snapshot env)"
  unfolding source_snapshot_def ensure_ready_def by (auto intro!: comp_intros)

lemma comp_verify [comp_intros]: "audit_comp (au_verify env db)"
proof -
  have "rd_comp (verify_readonly_profile (ae_fault env) (ae_loads env) db)"
    unfolding verify_readonly_profile_def by (auto intro!: rd_intros split: option.split)
  then have g: "rd_le (Some b) (fst (verify_readonly_profile (ae_fault env) (ae_loads env) db (Some b)))" for b
    unfolding rd_comp_def by blast
  show ?thesis
    unfolding audit_comp_def
  proof
    fix s
    show "budget_grows (as_budget s) (as_budget (fst (au_verify env db s))) \<and>
        fst ` set (as_reasons s) \<subseteq> fst ` set (as_reasons (fst (au_verify env db s)))"
      using g [of "as_budget s"] by (auto simp: au_verify_def rd_le_def split: option.splits prod.splits)
  qed
qed

end
