(* ===== verification/AuditProps.thy ===== *)
theory AuditProps
  imports IntegrityAudit Profile
begin

text \<open>
  What a report of the integrity audit guarantees: it stays within the budget, and
  a profile it calls ok satisfies every check, read to the end.
\<close>

section \<open>Reasons and limits\<close>

lemma au_bind_Inr:
  assumes "au_bind m f s = (s', Inr y)"
  obtains s1 x where "m s = (s1, Inr x)" "f x s1 = (s', Inr y)"
  using assms by (auto simp: au_bind_def split: prod.splits sum.splits)

lemma add_reason_run:
  "add_reason r n s = (s', q) \<Longrightarrow> q = Inr () \<and> as_budget s' = as_budget s \<and>
     fst ` set (as_reasons s) \<subseteq> fst ` set (as_reasons s') \<and> (r \<noteq> [] \<and> n > 0 \<longrightarrow> r \<in> fst ` set (as_reasons s'))"
proof -
  have u: "fst ` set (AList.update k v xs) = insert k (fst ` set xs)" for k :: string and v :: nat and xs
    by (metis dom_map_of_conv_image_fst update_conv' dom_fun_upd option.distinct(1))
  show "add_reason r n s = (s', q) \<Longrightarrow> ?thesis"
    by (auto simp: add_reason_def u split: if_splits) (force simp: image_iff)+
qed

lemma add_reasons_run:
  assumes "au_map (\<lambda>r. add_reason r 1) inc s = (s', q)"
  shows "as_budget s' = as_budget s \<and> fst ` set (as_reasons s) \<subseteq> fst ` set (as_reasons s') \<and>
    {r \<in> set inc. r \<noteq> []} \<subseteq> fst ` set (as_reasons s')"
  using assms
proof (induction inc arbitrary: s s' q)
  case (Cons r inc)
  obtain s1 x where 1: "add_reason r 1 s = (s1, x)" by fastforce
  note a = add_reason_run [OF 1]
  obtain s2 y where 2: "au_map (\<lambda>r. add_reason r 1) inc s1 = (s2, y)" by fastforce
  have "s' = s2"
    using Cons.prems 1 2 a by (auto simp: au_bind_def au_ret_def split: sum.splits)
  then show ?case using Cons.IH [OF 2] a by (simp, blast)
qed (simp add: au_ret_def)

lemma add_incomplete_reasons_run:
  assumes "add_incomplete_reasons s = (s', q)"
  shows "as_budget s' = as_budget s \<and> {r \<in> set (ab_reasons (as_budget s)). r \<noteq> []} \<subseteq> fst ` set (as_reasons s')"
proof -
  obtain s1 y where 1: "au_map (\<lambda>r. add_reason r 1) (ab_reasons (as_budget s)) s = (s1, y)" by fastforce
  have "s' = s1"
    using assms 1 by (auto simp: add_incomplete_reasons_def get_incomplete_def on_budget_def au_bind_def au_seq_def
        au_ret_def split: sum.splits)
  then show ?thesis using add_reasons_run [OF 1] by auto
qed

lemma inspect_profile_records:
  assumes "inspect_profile rf loads vnorm db s = (s', Inr pr)"
  shows "{r \<in> set (ab_reasons (as_budget s')). r \<noteq> []} \<subseteq> fst ` set (as_reasons s')"
proof -
  obtain s1 y where "add_incomplete_reasons s1 = (s', Inr y)"
    using assms unfolding inspect_profile_def au_seq_def
    by (elim au_bind_Inr) (auto simp: au_ret_def elim!: au_bind_Inr split: prod.splits)
  then show ?thesis using add_incomplete_reasons_run by metis
qed

lemma comp_budget_ok: "audit_comp m \<Longrightarrow> m s = (s', r) \<Longrightarrow> budget_ok (as_budget s) \<Longrightarrow> budget_ok (as_budget s')"
  unfolding audit_comp_def budget_grows_def by (metis fst_conv)

section \<open>Inverting a clean run\<close>

lemma au_bindE:
  assumes "au_bind m f s = (s', Inr y)" "clean s'" "budget_ok (as_budget s)" "audit_comp m" "\<And>x. audit_comp (f x)"
  obtains s1 x where "m s = (s1, Inr x)" "clean s1" "budget_ok (as_budget s1)" "f x s1 = (s', Inr y)"
proof -
  obtain s1 x where 1: "m s = (s1, Inr x)" "clean s1" "f x s1 = (s', Inr y)"
    by (rule clean_bind [OF assms(1,2,5)])
  show ?thesis by (rule that [OF 1(1,2) comp_budget_ok [OF assms(4) 1(1) assms(3)] 1(3)])
qed

lemma au_seqE:
  assumes "au_seq m n s = (s', Inr y)" "clean s'" "budget_ok (as_budget s)" "audit_comp m" "audit_comp n"
  obtains s1 x where "m s = (s1, Inr x)" "clean s1" "budget_ok (as_budget s1)" "n s1 = (s', Inr y)"
  using assms unfolding au_seq_def by (rule au_bindE)

lemma au_if_readyE:
  assumes "au_if_ready m n s = (s', Inr y)" "clean s'" "budget_ok (as_budget s)" "audit_comp m" "audit_comp n"
  obtains s1 where "budget_ok (as_budget s1)" "m s1 = (s', Inr y)"
proof -
  have c: "audit_comp (if ok then m else n)" for ok using assms(4,5) by simp
  obtain s1 ok where 1: "on_budget budget_ready s = (s1, Inr ok)" "clean s1" "budget_ok (as_budget s1)"
    "(if ok then m else n) s1 = (s', Inr y)"
    by (rule au_bindE [OF assms(1) [unfolded au_if_ready_def] assms(2,3) comp_ready c])
  obtain b r where r: "budget_ready (as_budget s) = (b, r)" by fastforce
  have "ok" using ready_cases(2) [OF r] r 1(1,2) by (auto simp: on_budget_def clean_def)
  then show ?thesis using that 1(3,4) by simp
qed

lemma au_stmtE: "au_stmt rf st x s = (s', Inr y) \<Longrightarrow> y = x \<and> s' = s"
  by (auto simp: au_stmt_def split: option.splits prod.splits)

lemma row_limit_all: "length (row_limit xs) \<le> MAX_AUDIT_ROWS \<Longrightarrow> row_limit xs = xs"
  by (auto simp: row_limit_def MAX_AUDIT_ROWS_def)

lemma scan_limitE:
  assumes "on_budget (scan_rows cost (row_limit rows)) s = (s', Inr (xs, e))" "clean s'" "budget_ok (as_budget s)"
  shows "xs = rows"
proof -
  obtain b ys e' where r: "scan_rows cost (row_limit rows) (as_budget s) = (b, ys, e')" by (metis prod_cases3)
  have "xs = ys" "ab_reasons b = []" using assms(1,2) r by (auto simp: on_budget_def clean_def)
  moreover have "e' = Exhausted" "ys = row_limit rows"
    "ab_rows (as_budget s) + length (row_limit rows) \<le> MAX_AUDIT_ROWS"
    using scan_rows_cases [OF r] \<open>ab_reasons b = []\<close> assms(3) by blast+
  ultimately show ?thesis using row_limit_all [OF add_leD2] by blast
qed

lemma add_reasonE: "add_reason r n s = (s', Inr y) \<Longrightarrow> clean s' \<Longrightarrow> (r = [] \<or> n = 0) \<and> s' = s"
  using clean_add_reason [of r n s s'] by simp

text \<open>Every stage, when it ends without a reason.\<close>

lemma bounded_count_clean:
  assumes "bounded_count rf st l rows s = (s', Inr n)" "clean s'" "budget_ok (as_budget s)"
  shows "n = length rows"
proof -
  let ?f = "\<lambda>(xs, e). au_seq (set_scan l (e = Exhausted)) (au_ret (length xs))"
  have cf: "audit_comp (?f p)" for p by (cases p) (auto intro!: comp_intros)
  have cb: "audit_comp (au_bind (on_budget (scan_rows free_cost rs)) ?f)" for rs
    by (intro comp_intros cf)
  obtain s1 where 1: "budget_ok (as_budget s1)"
    "au_bind (au_stmt rf st (row_limit rows)) (\<lambda>rs. au_bind (on_budget (scan_rows free_cost rs)) ?f) s1 = (s', Inr n)"
    by (rule au_if_readyE [OF assms(1) [unfolded bounded_count_def] assms(2,3)]) (intro comp_intros cf)+
  obtain s2 rs where 2: "au_stmt rf st (row_limit rows) s1 = (s2, Inr rs)" "clean s2" "budget_ok (as_budget s2)"
    "au_bind (on_budget (scan_rows free_cost rs)) ?f s2 = (s', Inr n)"
    by (rule au_bindE [OF 1(2) assms(2) 1(1) comp_stmt cb])
  have rs: "rs = row_limit rows" using au_stmtE [OF 2(1)] by simp
  obtain s3 p where 3: "on_budget (scan_rows free_cost rs) s2 = (s3, Inr p)" "clean s3" "budget_ok (as_budget s3)"
    "?f p s3 = (s', Inr n)"
    by (rule au_bindE [OF 2(4) assms(2) 2(3) comp_scan cf])
  obtain xs e where p: "p = (xs, e)" by fastforce
  have "xs = rows" using scan_limitE [OF 3(1) [unfolded rs p] 3(2) 2(3)] .
  then show ?thesis using 3(4) by (simp add: p au_seq_def au_bind_def set_scan_def on_budget_def au_ret_def)
qed

lemma orphan_counts_clean:
  assumes "orphan_counts rf db s = (s', Inr r)" "clean s'" "budget_ok (as_budget s)"
  shows "orphan_embeddings db = [] \<and> nodes_without_embeddings db = []"
proof -
  let ?m = "au_bind (bounded_count rf S_orphan_embeddings ''orphan_embeddings'' (orphan_embeddings db)) (\<lambda>a.
        au_bind (bounded_count rf S_missing_embeddings ''nodes_without_embeddings'' (nodes_without_embeddings db)) (\<lambda>b.
        au_ret (a, b)))"
  obtain s1 a b s2 s3 where 1: "au_if_ready ?m (au_ret (0, 0)) s = (s1, Inr (a, b))" "clean s1" "budget_ok (as_budget s1)"
    "add_reason ''orphan_embedding'' a s1 = (s2, Inr ())" "clean s2"
    "add_reason ''node_embedding_missing'' b s2 = (s3, Inr ())" "clean s3"
    using assms unfolding orphan_counts_def
    by (elim au_bindE au_seqE; (intro comp_intros)?; auto elim!: au_seqE intro!: comp_intros)
  have z: "a = 0" "b = 0" using add_reasonE [OF 1(4,5)] add_reasonE [OF 1(6,7)] by auto
  obtain s4 where 2: "budget_ok (as_budget s4)" "?m s4 = (s1, Inr (a, b))"
    by (rule au_if_readyE [OF 1(1,2) assms(3)]) (intro comp_intros)+
  obtain s5 where 3:
    "bounded_count rf S_orphan_embeddings ''orphan_embeddings'' (orphan_embeddings db) s4 = (s5, Inr a)"
    "clean s5" "budget_ok (as_budget s5)"
    "bounded_count rf S_missing_embeddings ''nodes_without_embeddings'' (nodes_without_embeddings db) s5 = (s1, Inr b)"
    using 2(2,1) 1(2) by (elim au_bindE; (intro comp_intros)?; auto simp: au_ret_def)
  show ?thesis
    using bounded_count_clean [OF 3(1,2) 2(1)] bounded_count_clean [OF 3(4) 1(2) 3(3)] z by simp
qed

lemma au_catchE:
  assumes "au_catch c m h s = (s', Inr x)" "budget_ok (as_budget s)" "audit_comp m"
  obtains "m s = (s', Inr x)" | s1 where "h s1 = (s', Inr x)" "budget_ok (as_budget s1)"
proof -
  obtain s1 r where m: "m s = (s1, r)" by fastforce
  have ok: "budget_ok (as_budget s1)" by (rule comp_budget_ok [OF assms(3) m assms(2)])
  show ?thesis
    using assms(1) m ok that by (cases r) (auto simp: au_catch_def split: if_splits)
qed

lemma permanence_counts_clean:
  assumes "permanence_counts rf db s = (s', Inr r)" "clean s'" "budget_ok (as_budget s)"
  shows "permanent_and_decayed db = []"
proof -
  let ?m = "au_bind (bounded_count rf S_permanent_decayed ''permanent_and_decayed'' (permanent_and_decayed db)) (\<lambda>a.
        au_bind (bounded_count rf S_permanent_core ''permanent_core_nodes'' (permanent_core db)) (\<lambda>b.
        au_ret (a, b)))"
  let ?h = "au_seq (add_reason ''permanence_unverifiable'' 1) (au_ret (0, 0))"
  obtain s1 a b s2 where 1: "au_catch C_SqliteError ?m ?h s = (s1, Inr (a, b))" "clean s1"
    "add_reason ''permanent_and_decayed'' a s1 = (s2, Inr ())" "clean s2"
    using assms unfolding permanence_counts_def
    by (elim au_bindE; (intro comp_intros)?; auto elim!: au_seqE intro!: comp_intros)
  have a: "a = 0" using add_reasonE [OF 1(3,4)] by auto
  have cm: "audit_comp ?m" by (intro comp_intros)
  show ?thesis
    using 1(1) assms(3) cm
  proof (cases rule: au_catchE)
    case 1
    then obtain s3 where
      "bounded_count rf S_permanent_decayed ''permanent_and_decayed'' (permanent_and_decayed db) s = (s3, Inr a)"
      "clean s3"
      using \<open>clean s1\<close> assms(3) by (elim au_bindE; (intro comp_intros)?; auto simp: au_ret_def)
    then show ?thesis using bounded_count_clean assms(3) a by fastforce
  next
    case (2 s3)
    then obtain s4 where "add_reason ''permanence_unverifiable'' 1 s3 = (s4, Inr ())" "clean s4"
      using \<open>clean s1\<close> by (elim au_seqE; (intro comp_intros)?; auto)
    then show ?thesis using add_reasonE by fastforce
  qed
qed

lemma graph_findings_clean:
  assumes "graph_findings rf db s = (s', Inr r)" "clean s'" "budget_ok (as_budget s)"
  shows "orphan_edges db = [] \<and> self_edges db = []"
proof -
  let ?m = "au_bind (bounded_count rf S_orphan_edges ''orphan_edges'' (orphan_edges db)) (\<lambda>orphan.
           au_bind (bounded_count rf S_self_edges ''self_edges'' (self_edges db)) (\<lambda>self.
           au_ret (Some (orphan, self))))"
  let ?k = "\<lambda>r. case r of
          None \<Rightarrow> au_seq (set_scan ''graph'' False)
                   (au_seq (add_reason ''graph_unverifiable'' 1) (au_ret (0, 0)))
        | Some (orphan, self) \<Rightarrow>
            au_seq (add_reason ''orphan_edge'' orphan)
            (au_seq (add_reason ''self_edge'' self)
            (au_bind get_incomplete (\<lambda>inc.
             au_seq (set_scan ''graph'' (inc = [])) (au_ret (orphan, self)))))"
  have ck: "audit_comp (?k x)" for x by (auto intro!: comp_intros split: option.split)
  have cm: "audit_comp (au_catch C_SqliteError ?m (au_ret None))" "audit_comp ?m" by (intro comp_intros)+
  obtain s1 where 1: "budget_ok (as_budget s1)" "au_bind (au_catch C_SqliteError ?m (au_ret None)) ?k s1 = (s', Inr r)"
    by (rule au_if_readyE [OF assms(1) [unfolded graph_findings_def] assms(2,3)]) (intro comp_intros ck)+
  obtain s2 x where 2: "au_catch C_SqliteError ?m (au_ret None) s1 = (s2, Inr x)" "clean s2" "budget_ok (as_budget s2)"
    "?k x s2 = (s', Inr r)"
    by (rule au_bindE [OF 1(2) assms(2) 1(1) cm(1) ck])
  show ?thesis
  proof (cases x)
    case None
    then obtain s3 s4 where "add_reason ''graph_unverifiable'' 1 s3 = (s4, Inr ())" "clean s4"
      using 2(4,3) assms(2) by (auto elim!: au_seqE intro!: comp_intros)
    then show ?thesis using add_reasonE by fastforce
  next
    case (Some p)
    obtain a b where p: "p = (a, b)" by fastforce
    obtain s3 s4 where 3: "add_reason ''orphan_edge'' a s2 = (s3, Inr ())" "clean s3"
      "add_reason ''self_edge'' b s3 = (s4, Inr ())" "clean s4"
      using 2(4,3) assms(2) unfolding Some p option.case prod.case by (elim au_seqE; (intro comp_intros)?; auto)
    have z: "a = 0" "b = 0" using add_reasonE [OF 3(1,2)] add_reasonE [OF 3(3,4)] by auto
    have "?m s1 = (s2, Inr (Some (a, b)))"
      using au_catchE [OF 2(1) 1(1) cm(2)] Some p by (auto simp: au_ret_def)
    then obtain s5 where 4: "bounded_count rf S_orphan_edges ''orphan_edges'' (orphan_edges db) s1 = (s5, Inr a)"
      "clean s5" "budget_ok (as_budget s5)"
      "bounded_count rf S_self_edges ''self_edges'' (self_edges db) s5 = (s2, Inr b)"
      using 1(1) 2(2) by (elim au_bindE; (intro comp_intros)?; auto simp: au_ret_def)
    show ?thesis
      using bounded_count_clean [OF 4(1,2) 1(1)] bounded_count_clean [OF 4(4) 2(2) 4(3)] z by simp
  qed
qed

text \<open>A vector without a reason is a finite one with a norm, whatever dimension was expected.\<close>

lemma finite_vector_reason: "fst (finite_vector vnorm v d) \<noteq> Some []"
  by (auto simp: finite_vector_def Let_def split: blob.split)

lemma finite_vector_any_dim: "fst (finite_vector vnorm v d) = None \<Longrightarrow> fst (finite_vector vnorm v None) = None"
  by (auto simp: finite_vector_def Let_def split: blob.splits if_splits)

lemma embedding_reasons_clean:
  assumes "embedding_reasons vnorm po e s = (s', Inr u)" "clean s'" "budget_ok (as_budget s)"
  shows "fst (finite_vector vnorm (ee_vector e) None) = None \<and> ee_node_id e \<noteq> None"
proof -
  let ?r = "case fst (finite_vector vnorm (ee_vector e) (po_dim po)) of None \<Rightarrow> [] | Some r \<Rightarrow> r"
  have ci: "audit_comp (if b then add_reason x n else au_ret ())" for b x n by (auto intro: comp_intros)
  obtain s1 s2 where 1: "add_reason ?r 1 s = (s1, Inr ())" "clean s1"
    "(if ee_node_id e = None then add_reason ''embedding_node_id_invalid'' 1 else au_ret ()) s2 = (s', Inr u)"
    using assms unfolding embedding_reasons_def by (elim au_seqE; (intro comp_intros ci)?; auto)
  have "?r = []" using add_reasonE [OF 1(1,2)] by simp
  then have "fst (finite_vector vnorm (ee_vector e) (po_dim po)) = None"
    using finite_vector_reason [of vnorm "ee_vector e" "po_dim po"]
    by (cases "fst (finite_vector vnorm (ee_vector e) (po_dim po))") auto
  then show ?thesis
    using finite_vector_any_dim 1(3) assms(2) add_reasonE by (fastforce split: if_splits)
qed

lemma embeddings_clean:
  assumes "au_map (embedding_reasons vnorm po) xs s = (s', Inr u)" "clean s'" "budget_ok (as_budget s)"
  shows "\<forall>e \<in> set xs. fst (finite_vector vnorm (ee_vector e) None) = None \<and> ee_node_id e \<noteq> None"
  using assms
proof (induction xs arbitrary: s u)
  case (Cons e xs)
  then obtain s1 v w where 1: "embedding_reasons vnorm po e s = (s1, Inr v)" "clean s1" "budget_ok (as_budget s1)"
    "au_map (embedding_reasons vnorm po) xs s1 = (s', Inr w)"
    unfolding au_map.simps by (elim au_bindE; (intro comp_intros)?; auto simp: au_ret_def)
  then show ?case using embedding_reasons_clean [OF 1(1,2) Cons.prems(3)] Cons.IH [OF 1(4) Cons.prems(2) 1(3)] by simp
qed simp

lemma scan_embeddings_clean:
  assumes "scan_embeddings rf vnorm db po s = (s', Inr ys)" "clean s'" "budget_ok (as_budget s)"
  shows "ys = pd_embeddings db \<and>
    (\<forall>e \<in> set (pd_embeddings db). fst (finite_vector vnorm (ee_vector e) None) = None \<and> ee_node_id e \<noteq> None)"
proof -
  let ?k = "\<lambda>(xs, _). au_seq (au_map (embedding_reasons vnorm po) xs)
     (au_bind get_incomplete (\<lambda>inc. au_seq (set_scan ''embeddings'' (inc = [])) (au_ret xs)))"
  have ck: "audit_comp (?k p)" for p by (cases p) (auto intro!: comp_intros)
  have cb: "audit_comp (au_bind (on_budget (scan_rows vector_cost rows)) ?k)" for rows by (intro comp_intros ck)
  obtain s1 rows where 1: "au_stmt rf S_embeddings (row_limit (pd_embeddings db)) s = (s1, Inr rows)" "clean s1"
    "budget_ok (as_budget s1)" "au_bind (on_budget (scan_rows vector_cost rows)) ?k s1 = (s', Inr ys)"
    by (rule au_bindE [OF assms(1) [unfolded scan_embeddings_def] assms(2,3) comp_stmt cb])
  have rows: "rows = row_limit (pd_embeddings db)" using au_stmtE [OF 1(1)] by simp
  obtain s2 p where 2: "on_budget (scan_rows vector_cost rows) s1 = (s2, Inr p)" "clean s2" "budget_ok (as_budget s2)"
    "?k p s2 = (s', Inr ys)"
    by (rule au_bindE [OF 1(4) assms(2) 1(3) comp_scan ck])
  obtain xs e where p: "p = (xs, e)" by fastforce
  have xs: "xs = pd_embeddings db" using scan_limitE [OF 2(1) [unfolded rows p] 2(2) 1(3)] .
  obtain s3 u where 3: "au_map (embedding_reasons vnorm po) xs s2 = (s3, Inr u)" "clean s3" "ys = xs"
    using 2(4,3) assms(2) unfolding p prod.case
    by (elim au_seqE au_bindE; (intro comp_intros)?; auto elim!: au_seqE au_bindE intro!: comp_intros simp: au_ret_def)
  show ?thesis using embeddings_clean [OF 3(1,2) 2(3)] 3(3) xs by simp
qed

lemma compare_vec_clean:
  assumes "compare_vec ordinary d k rows s = (s', Inr r)" "clean s'" "budget_ok (as_budget s)" "finite ordinary"
  shows "set (List.map_filter fst rows) = ordinary"
proof -
  let ?ids = "set (List.map_filter fst rows)"
  obtain s1 s2 s3 s4 inc where 1: "get_incomplete s = (s1, Inr inc)" "clean s1"
    "inc = [] \<longrightarrow> add_reason ''vec_entry_missing'' (card (ordinary - ?ids)) s2 = (s3, Inr ()) \<and> clean s3 \<and>
       add_reason ''vec_entry_stale'' (card (?ids - ordinary)) s3 = (s4, Inr ()) \<and> clean s4"
    using assms(1,2,3) unfolding compare_vec_def Let_def
    by (elim au_bindE au_seqE; (intro comp_intros)?; auto elim!: au_seqE intro!: comp_intros split: if_splits)
  have "inc = []" using 1(1,2) by (auto simp: get_incomplete_def on_budget_def clean_def)
  then have "card (ordinary - ?ids) = 0" "card (?ids - ordinary) = 0" using 1(3) add_reasonE by fastforce+
  then show ?thesis using assms(4) by auto
qed

lemma vec_unverifiable_clean:
  assumes "vec_unverifiable d s = (s', Inr r)" "clean s'" "budget_ok (as_budget s)"
  shows False
proof -
  obtain s1 s2 where "add_reason ''vec_index_unverifiable'' 1 s1 = (s2, Inr ())" "clean s2"
    using assms unfolding vec_unverifiable_def by (elim au_seqE; (intro comp_intros)?; auto elim!: au_seqE intro!: comp_intros)
  then show ?thesis using add_reasonE by fastforce
qed

lemma vec_entries_clean:
  assumes "vec_entries rf db s = (s', Inr (Some rows))" "clean s'" "budget_ok (as_budget s)"
  shows "rows = pd_vec_rows db"
proof -
  let ?k = "\<lambda>(xs, _). au_ret (Some xs)"
  let ?cost = "\<lambda>(_, n). Some (case n of None \<Rightarrow> 0 | Some k \<Rightarrow> int k)"
  let ?scan = "au_bind (au_stmt rf S_vec_lengths (row_limit (pd_vec_rows db))) (\<lambda>rows.
                 au_bind (on_budget (scan_rows ?cost rows)) ?k)"
  have "audit_comp ?scan" by (auto intro!: comp_intros)
  then have "?scan s = (s', Inr (Some rows))"
    using au_catchE [OF assms(1) [unfolded vec_entries_def] assms(3)] by (auto simp: au_ret_def)
  then obtain s3 s4 rs e where 2: "au_stmt rf S_vec_lengths (row_limit (pd_vec_rows db)) s = (s3, Inr rs)"
    "budget_ok (as_budget s3)" "on_budget (scan_rows ?cost rs) s3 = (s4, Inr (rows, e))" "clean s4"
    using assms(2,3) by (elim au_bindE; (intro comp_intros)?; auto elim!: au_bindE intro!: comp_intros simp: au_ret_def)
  show ?thesis
    using scan_limitE [OF 2(3) [unfolded au_stmtE [OF 2(1), THEN conjunct1]] 2(4,2)] .
qed

lemma inspect_vec_clean:
  assumes "inspect_vec rf loads db ordinary d s = (s', Inr r)" "clean s'" "budget_ok (as_budget s)" "finite ordinary"
  shows "case pd_vec_sql db of
      None \<Rightarrow> ordinary = {}
    | Some sql \<Rightarrow> set (List.map_filter fst (pd_vec_rows db)) = ordinary"
proof (cases "pd_vec_sql db")
  case None
  obtain s1 s2 where "add_reason ''vec_index_missing'' (card ordinary) s1 = (s2, Inr ())" "clean s2"
    using assms(1,2,3) unfolding inspect_vec_def None
    by (elim au_bindE; (intro comp_intros)?; auto elim!: au_seqE intro!: comp_intros dest!: au_stmtE split: option.splits)
  then show ?thesis using add_reasonE assms(4) None by fastforce
next
  case (Some sql)
  let ?d = "search_dimension sql"
  let ?k = "\<lambda>r. case r of None \<Rightarrow> vec_unverifiable ?d | Some rows \<Rightarrow> compare_vec ordinary d ?d rows"
  have ck: "audit_comp (?k x)" for x by (auto intro!: comp_intros split: option.split)
  have "\<exists>s0. budget_ok (as_budget s0) \<and> (if \<not> is_supported_vec_ddl sql \<or> \<not> loads then vec_unverifiable None
      else au_seq (check_vec_dimension ?d d) (au_bind (vec_entries rf db) ?k)) s0 = (s', Inr r)"
    using assms(1,3) Some by (auto simp: inspect_vec_def au_bind_def au_stmt_def split: option.splits prod.splits)
  then obtain s0 where 0: "budget_ok (as_budget s0)"
    "au_seq (check_vec_dimension ?d d) (au_bind (vec_entries rf db) ?k) s0 = (s', Inr r)"
    using vec_unverifiable_clean assms(2) by (auto split: if_splits)
  obtain s1 s2 x where 1: "budget_ok (as_budget s1)" "vec_entries rf db s1 = (s2, Inr x)" "clean s2"
    "budget_ok (as_budget s2)" "?k x s2 = (s', Inr r)"
    using 0(2,1) assms(2) by (elim au_bindE au_seqE; (intro comp_intros ck)?; auto elim!: au_bindE intro!: comp_intros ck)
  show ?thesis
  proof (cases x)
    case None
    then show ?thesis using vec_unverifiable_clean 1(5,4) assms(2) by fastforce
  next
    case x: (Some rows)
    show ?thesis
      using vec_entries_clean [OF 1(2) [unfolded x] 1(3,1)] compare_vec_clean [OF _ assms(2) 1(4) assms(4)] 1(5) Some x
      by simp
  qed
qed

text \<open>What the scans of the content establish.\<close>

definition content_sound :: "(real list \<Rightarrow> real) \<Rightarrow> profile_db \<Rightarrow> bool" where
  "content_sound vnorm db \<longleftrightarrow>
     (\<forall>e \<in> set (pd_embeddings db). fst (finite_vector vnorm (ee_vector e) None) = None \<and> ee_node_id e \<noteq> None) \<and>
     orphan_embeddings db = [] \<and> nodes_without_embeddings db = [] \<and> permanent_and_decayed db = [] \<and>
     orphan_edges db = [] \<and> self_edges db = [] \<and>
     (case pd_vec_sql db of
        None \<Rightarrow> pd_embeddings db = []
      | Some _ \<Rightarrow> set (List.map_filter fst (pd_vec_rows db)) = set (List.map_filter ee_node_id (pd_embeddings db)))"

lemma map_filter_ids_empty: "set (List.map_filter f xs) = {} \<Longrightarrow> \<forall>x \<in> set xs. f x \<noteq> None \<Longrightarrow> xs = []"
  by (cases xs) (auto simp: List.map_filter_def split: if_splits)

lemma content_scans_clean:
  assumes "content_scans rf loads vnorm db po s = (s', Inr r)" "clean s'" "budget_ok (as_budget s)"
  shows "content_sound vnorm db"
proof -
  let ?ids = "\<lambda>xs. set (List.map_filter ee_node_id xs)"
  let ?vec = "\<lambda>xs. au_if_ready (inspect_vec rf loads db (?ids xs) (po_dim po)) (au_ret (vec_unknown None))"
  let ?graph = "au_if_ready (graph_findings rf db) (au_ret (0, 0))"
  obtain s1 s2 s3 s4 s5 s6 xs p core v g where 1: "budget_ok (as_budget s1)"
    "scan_embeddings rf vnorm db po s1 = (s2, Inr xs)" "clean s2" "budget_ok (as_budget s2)"
    "orphan_counts rf db s2 = (s3, Inr p)" "clean s3" "budget_ok (as_budget s3)"
    "permanence_counts rf db s3 = (s4, Inr core)" "clean s4" "budget_ok (as_budget s4)"
    "?vec xs s4 = (s5, Inr v)" "clean s5" "budget_ok (as_budget s5)"
    "?graph s5 = (s6, Inr g)" "clean s6"
    using assms unfolding content_scans_def
    by (elim au_seqE au_bindE; (intro comp_intros)?; auto elim!: au_bindE intro!: comp_intros)
  have xs: "xs = pd_embeddings db"
    and fin: "\<forall>e \<in> set (pd_embeddings db). fst (finite_vector vnorm (ee_vector e) None) = None \<and> ee_node_id e \<noteq> None"
    using scan_embeddings_clean [OF 1(2,3,1)] by simp_all
  obtain s7 where 7: "budget_ok (as_budget s7)" "inspect_vec rf loads db (?ids xs) (po_dim po) s7 = (s5, Inr v)"
    by (rule au_if_readyE [OF 1(11,12,10)]) (intro comp_intros)+
  obtain s8 where 8: "budget_ok (as_budget s8)" "graph_findings rf db s8 = (s6, Inr g)"
    by (rule au_if_readyE [OF 1(14,15,13)]) (intro comp_intros)+
  have "case pd_vec_sql db of None \<Rightarrow> ?ids xs = {} | Some _ \<Rightarrow> set (List.map_filter fst (pd_vec_rows db)) = ?ids xs"
    using inspect_vec_clean [OF 7(2) 1(12) 7(1)] by simp
  then show ?thesis
    using fin xs map_filter_ids_empty [of ee_node_id "pd_embeddings db"] orphan_counts_clean [OF 1(5,6,4)]
      permanence_counts_clean [OF 1(8,9,7)] graph_findings_clean [OF 8(2) 1(15) 8(1)]
    by (auto simp: content_sound_def split: option.splits)
qed

lemma missing_columns_clean:
  assumes "missing_columns_of rf db ts tr s = (s', Inr r)" "clean s'" "budget_ok (as_budget s)"
  shows "r = []"
proof (cases "fst tr \<in> set ts")
  case True
  let ?k = "\<lambda>cols. let missing = filter (\<lambda>c. c \<notin> set cols) (snd tr)
        in if missing = [] then au_ret []
           else au_seq (add_reason ''schema_column_missing'' (length missing)) (au_ret [(fst tr, missing)])"
  have ck: "audit_comp (?k cols)" for cols unfolding Let_def by (auto intro!: comp_intros)
  have "au_bind (columns rf db (fst tr)) ?k s = (s', Inr r)"
    using assms(1) True by (simp add: missing_columns_of_def)
  then obtain s1 cols where 1: "budget_ok (as_budget s1)" "?k cols s1 = (s', Inr r)"
    by (rule au_bindE [OF _ assms(2,3) comp_columns ck])
  show ?thesis
  proof (cases "filter (\<lambda>c. c \<notin> set cols) (snd tr) = []")
    case True
    then show ?thesis using 1(2) by (simp add: au_ret_def)
  next
    case False
    then obtain s2 where "add_reason ''schema_column_missing'' (length (filter (\<lambda>c. c \<notin> set cols) (snd tr))) s1 =
        (s2, Inr ())" "clean s2"
      using 1 assms(2) by (simp add: Let_def, elim au_seqE; (intro comp_intros)?; auto)
    then show ?thesis using add_reasonE False by fastforce
  qed
qed (use assms(1) in \<open>simp add: missing_columns_of_def au_ret_def\<close>)

lemma au_map_nil:
  assumes "au_map f xs s = (s', Inr ys)" "clean s'" "budget_ok (as_budget s)" "\<And>x. audit_comp (f x)"
    "\<And>x s s' r. f x s = (s', Inr r) \<Longrightarrow> clean s' \<Longrightarrow> budget_ok (as_budget s) \<Longrightarrow> r = []"
  shows "concat ys = []"
  using assms(1-3)
proof (induction xs arbitrary: s ys)
  case (Cons x xs)
  then obtain s1 v w where 1: "f x s = (s1, Inr v)" "clean s1" "budget_ok (as_budget s1)"
    "au_map f xs s1 = (s', Inr w)" "ys = v # w"
    unfolding au_map.simps by (elim au_bindE; (intro comp_intros assms(4))?; auto simp: au_ret_def)
  then show ?case using assms(5) [OF 1(1,2) Cons.prems(3)] Cons.IH [OF 1(4) Cons.prems(2) 1(3)] by simp
qed (simp add: au_ret_def)

lemma schema_findings_clean:
  assumes "schema_findings rf db po ts s = (s', Inr (mt, mc, mm))" "clean s'" "budget_ok (as_budget s)"
  shows "mt = [] \<and> mc = []"
proof -
  have ci: "audit_comp (if b then add_reason x n else au_ret ())" for b x n by (auto intro: comp_intros)
  obtain s2 s3 s4 mcs where 1:
    "add_reason ''schema_table_missing'' (length mt) s = (s2, Inr ())" "clean s2"
    "au_map (missing_columns_of rf db ts)
       [(''thought_nodes'', REQUIRED_NODE_COLUMNS), (''embeddings'', REQUIRED_EMBEDDING_COLUMNS),
        (''derivation_edges'', REQUIRED_EDGE_COLUMNS)] s3 = (s4, Inr mcs)" "clean s4" "budget_ok (as_budget s3)"
    "mc = concat mcs"
    using assms unfolding schema_findings_def Let_def
    by (elim au_seqE au_bindE; (intro comp_intros ci)?; auto simp: au_ret_def)
  have "mt = []" using add_reasonE [OF 1(1,2)] by simp
  moreover have "concat mcs = []"
    using au_map_nil [OF 1(3,4,5) comp_missing_columns] missing_columns_clean by blast
  ultimately show ?thesis using 1(6) by simp
qed

lemma inspect_profile_clean:
  assumes "inspect_profile rf loads vnorm db s = (s', Inr pr)" "clean s'" "budget_ok (as_budget s)"
  shows "content_sound vnorm db"
proof -
  let ?none = "au_ret (0, 0, 0, 0, vec_unknown None, 0, 0)"
  let ?k = "\<lambda>mt mc po. if mt = [] \<and> mc = [] then au_if_ready (content_scans rf loads vnorm db po) ?none else ?none"
  have ck: "audit_comp (?k mt mc po)" for mt :: "string list" and mc :: "(string \<times> string list) list" and po
    by (auto intro!: comp_intros)
  obtain s1 s2 s3 ts mt mc mm po c where 1:
    "schema_findings rf db po ts s1 = (s2, Inr (mt, mc, mm))" "clean s2" "budget_ok (as_budget s1)"
    "?k mt mc po s2 = (s3, Inr c)" "clean s3" "budget_ok (as_budget s2)"
    using assms unfolding inspect_profile_def
    by (elim au_bindE; (intro comp_intros)?; auto elim!: au_bindE intro!: comp_intros ck split: prod.split)
  have "au_if_ready (content_scans rf loads vnorm db po) ?none s2 = (s3, Inr c)"
    using schema_findings_clean [OF 1(1,2,3)] 1(4) by simp
  then obtain s4 where "budget_ok (as_budget s4)" "content_scans rf loads vnorm db po s4 = (s3, Inr c)"
    by (rule au_if_readyE [OF _ 1(5,6)]) (intro comp_intros)+
  then show ?thesis using content_scans_clean 1(5) by blast
qed

section \<open>The budget\<close>

text \<open>What the limits of a report say.\<close>

definition limits_ok :: "audit_report \<Rightarrow> bool" where
  "limits_ok report \<longleftrightarrow>
     (case rp_limits report of
        None \<Rightarrow> rp_status report = ''unavailable''
      | Some (rows, bytes, full) \<Rightarrow> rows \<le> 100000 \<and> 0 \<le> bytes \<and> bytes \<le> 64 * 1024 * 1024 \<and>
          (rp_status report \<in> {''ok'', ''findings''} \<longrightarrow> full))"

lemma limits_unavailable [simp]: "limits_ok (unavailable_report r)"
  by (simp add: limits_ok_def unavailable_report_def)

lemma limits_incomplete: "budget_ok (as_budget s) \<Longrightarrow> limits_ok (incomplete_report r s)"
  by (auto simp: limits_ok_def incomplete_report_def budget_ok_def MAX_AUDIT_ROWS_def MAX_AUDIT_BYTES_def
      add_incomplete_def Let_def)

lemma status_complete:
  assumes "status_of reasons \<noteq> ''audit_incomplete''" "\<forall>r \<in> set inc. py_startswith ''audit_'' r"
    "{r \<in> set inc. r \<noteq> []} \<subseteq> fst ` set reasons"
  shows "inc = []"
proof (rule ccontr)
  assume "inc \<noteq> []"
  then obtain r where r: "r \<in> set inc" by (cases inc) auto
  then have p: "py_startswith ''audit_'' r" using assms(2) by blast
  then have "r \<noteq> []" by (auto simp: py_startswith_def)
  then obtain n where "(r, n) \<in> set reasons" using assms(3) r by fastforce
  then have "list_ex (\<lambda>(r, _). py_startswith ''audit_'' r) reasons" using p by (auto simp: list_ex_iff)
  then show False using assms(1) by (simp add: status_of_def)
qed

lemma keys_update: "fst ` set xs \<subseteq> fst ` set (AList.update k v xs)"
  by (metis dom_map_of_conv_image_fst update_conv' dom_fun_upd option.distinct(1) subset_insertI)

lemma inspect_with_limits:
  assumes "inspect_with env db err s = Inr report" "budget_ok (as_budget s)"
  shows "limits_ok report"
proof -
  obtain s1 r where i: "inspect_profile (ae_fault env) (ae_loads env) (ae_norm env) db s = (s1, r)" by fastforce
  have ok: "budget_ok (as_budget s1)" by (rule comp_budget_ok [OF comp_inspect i assms(2)])
  show ?thesis
  proof (cases r)
    case (Inl e)
    then show ?thesis using assms(1) i by (auto simp: inspect_with_def split: if_splits)
  next
    case (Inr pr)
    let ?rs = "case err of None \<Rightarrow> as_reasons s1 | Some r \<Rightarrow> AList.update r 1 (as_reasons s1)"
    have "{r \<in> set (ab_reasons (as_budget s1)). r \<noteq> []} \<subseteq> fst ` set ?rs"
      using inspect_profile_records [OF i [unfolded Inr]] keys_update [of "as_reasons s1"]
      by (cases err) (simp_all add: subset_trans)
    then have "ab_reasons (as_budget s1) = []" if "status_of ?rs \<noteq> ''audit_incomplete''"
      using status_complete [OF that] ok by (auto simp: budget_ok_def)
    then show ?thesis
      using assms(1) i Inr ok
      by (auto simp: inspect_with_def limits_ok_def budget_ok_def MAX_AUDIT_ROWS_def MAX_AUDIT_BYTES_def Let_def)
  qed
qed

lemma new_audit_ok: "budget_ok (as_budget (new_audit clock secs))" "clean (new_audit clock secs)"
  by (simp_all add: new_audit_def budget_ok_def clean_def MAX_AUDIT_ROWS_def MAX_AUDIT_BYTES_def)

text \<open>
  The audit stays within its budget. Whatever the profile holds and however its
  statements and the clock behave, a report never accounts for more than 100,000
  rows or 64 MiB, and one that says ok or findings comes from an inspection that
  was not cut short.
\<close>

theorem audit_within_budget:
  assumes "audit_integrity env clock secs db = Inr report"
  shows "limits_ok report"
proof (cases "report = unavailable_report ''readonly_admission_failed''")
  case False
  let ?s = "new_audit clock secs"
  have body: "audit_body env db ?s = Inr report"
    using assms False by (auto simp: audit_integrity_def Let_def split: option.splits sum.splits if_splits)
  obtain s1 r1 where 1: "source_snapshot env ?s = (s1, r1)" by fastforce
  have ok1: "budget_ok (as_budget s1)" by (rule comp_budget_ok [OF comp_snapshot 1 new_audit_ok(1)])
  obtain s2 r2 where 2: "au_verify env db s1 = (s2, r2)" by fastforce
  have ok2: "budget_ok (as_budget s2)" by (rule comp_budget_ok [OF comp_verify 2 ok1])
  show ?thesis
    using body 1 2 limits_incomplete [OF ok1] limits_incomplete [OF ok2] inspect_with_limits [OF _ ok2]
    by (auto simp: audit_body_def audit_snapshot_def Let_def split: sum.splits if_splits option.splits)
qed simp

section \<open>A profile that is ok\<close>

lemma status_ok: "status_of reasons = ''ok'' \<longleftrightarrow> reasons = []"
  by (auto simp: status_of_def)

lemma inspect_with_ok:
  assumes "inspect_with env db err s = Inr report" "rp_status report = ''ok''" "budget_ok (as_budget s)"
  shows "err = None \<and> clean s \<and> content_sound (ae_norm env) db"
proof -
  obtain s1 r where i: "inspect_profile (ae_fault env) (ae_loads env) (ae_norm env) db s = (s1, r)" by fastforce
  obtain pr where r: "r = Inr pr"
    using assms(1,2) i by (cases r) (auto simp: inspect_with_def unavailable_report_def split: if_splits)
  have ok: "budget_ok (as_budget s1)" by (rule comp_budget_ok [OF comp_inspect i assms(3)])
  have "(case err of None \<Rightarrow> as_reasons s1 | Some r \<Rightarrow> AList.update r 1 (as_reasons s1)) = []"
    using assms(1,2) i r by (auto simp: inspect_with_def status_ok Let_def)
  then have e: "err = None" and n: "as_reasons s1 = []" by (auto simp: AList.update_conv' split: option.splits)
  have "{r \<in> set (ab_reasons (as_budget s1)). r \<noteq> []} \<subseteq> {}"
    using inspect_profile_records [OF i [unfolded r]] n by simp
  moreover have "r \<noteq> []" if "r \<in> set (ab_reasons (as_budget s1))" for r
    using that ok by (auto simp: budget_ok_def py_startswith_def)
  ultimately have "ab_reasons (as_budget s1) = []" by (cases "ab_reasons (as_budget s1)") auto
  then have c: "clean s1" using n by (simp add: clean_def)
  show ?thesis
    using e comp_clean [OF comp_inspect i c] inspect_profile_clean [OF i [unfolded r] c assms(3)] by blast
qed

lemma au_verify_sound:
  assumes "au_verify env db s = (s', Inr r)" "clean s'" "budget_ok (as_budget s)"
  shows "\<exists>model d. schema_sound db \<and> identity_sound db model d \<and> vectors_sound db model d \<and> vec_table_sound db d"
proof -
  obtain b q where v: "verify_readonly_profile (ae_fault env) (ae_loads env) db (Some (as_budget s)) = (b, q)" by fastforce
  have "rd_comp (verify_readonly_profile (ae_fault env) (ae_loads env) db)"
    unfolding verify_readonly_profile_def by (auto intro!: rd_intros split: option.split)
  then have "rd_le (Some (as_budget s)) b" unfolding rd_comp_def using v by (metis fst_conv)
  then obtain b' where b: "b = Some b'" by (auto simp: rd_le_def split: option.splits)
  then have "q = Inr r" "s' = s\<lparr>as_budget := b'\<rparr>" using assms(1) v by (auto simp: au_verify_def)
  then show ?thesis
    using verify_profile_sound [OF v [unfolded b \<open>q = Inr r\<close>]] assms(2,3)
      comp_budget_ok [OF comp_verify assms(1,3)]
    by (auto simp: rd_good_def rd_caps_def clean_def)
qed

text \<open>
  C19: A profile that the audit calls ok is sound. Every table, column and identity
  key is there; every embedding is a finite vector of the recorded model and
  dimension with a nonzero norm and belongs to a node; every node has an embedding;
  no node is both permanent and decayed; no edge dangles or points to itself; the
  vector table, if there is one, has exactly the embedded nodes. All this holds of
  the whole profile, not only of the rows that the bounded queries return.
\<close>

theorem audit_ok_sound:
  assumes "audit_integrity env clock secs db = Inr report" "rp_status report = ''ok''"
  shows "content_sound (ae_norm env) db \<and> (\<exists>model d. schema_sound db \<and> identity_sound db model d \<and>
    vectors_sound db model d \<and> vec_table_sound db d)"
proof -
  let ?s = "new_audit clock secs"
  have nu: "report \<noteq> unavailable_report x" "report \<noteq> incomplete_report x y" for x y
    using assms(2) by (auto simp: unavailable_report_def incomplete_report_def Let_def)
  have body: "audit_body env db ?s = Inr report"
    using assms(1) nu by (auto simp: audit_integrity_def Let_def split: option.splits sum.splits if_splits)
  obtain s1 r1 where 1: "source_snapshot env ?s = (s1, r1)" by fastforce
  have ok1: "budget_ok (as_budget s1)" by (rule comp_budget_ok [OF comp_snapshot 1 new_audit_ok(1)])
  obtain s2 r2 where 2: "au_verify env db s1 = (s2, r2)" by fastforce
  have ok2: "budget_ok (as_budget s2)" by (rule comp_budget_ok [OF comp_verify 2 ok1])
  obtain err where i: "inspect_with env db err s2 = Inr report" "err = None \<longrightarrow> (\<exists>x. r2 = Inr x)"
    using body 1 2 nu by (auto simp: audit_body_def audit_snapshot_def Let_def split: sum.splits if_splits option.splits)
  note k = inspect_with_ok [OF i(1) assms(2) ok2]
  then obtain x where "r2 = Inr x" using i(2) by blast
  then show ?thesis using k au_verify_sound 2 ok1 by blast
qed

end
