(* ===== verification/AuditRuns.thy ===== *)
theory AuditRuns
  imports AuditProps
begin

text \<open>
  The audit accepts what it should: on a sound profile that fits the budget, with
  no fault and a deadline that does not pass, the report is ok.

  \<open>runs m x r n\<close> says that a computation answers \<open>x\<close> and records nothing, when the
  budget has room for \<open>r\<close> rows and \<open>n\<close> bytes, and that it uses no more; the rules of
  \<open>run_intros\<close> add up what the stages use.
\<close>

section \<open>Quiet runs\<close>

definition steady :: "audit_budget \<Rightarrow> bool" where
  "steady b \<longleftrightarrow> ab_reasons b = [] \<and> 0 \<le> ab_bytes b \<and> (\<forall>t. ab_clock b t < ab_deadline b)"

definition room :: "nat \<Rightarrow> int \<Rightarrow> audit_budget \<Rightarrow> bool" where
  "room r n b \<longleftrightarrow> ab_rows b + r \<le> MAX_AUDIT_ROWS \<and> ab_bytes b + n \<le> MAX_AUDIT_BYTES"

definition spent :: "nat \<Rightarrow> int \<Rightarrow> audit_budget \<Rightarrow> audit_budget \<Rightarrow> bool" where
  "spent r n b b' \<longleftrightarrow> steady b' \<and> ab_rows b' \<le> ab_rows b + r \<and> ab_bytes b' \<le> ab_bytes b + n"

text \<open>On a budget, in the audit, and in the verification.\<close>

definition bruns :: "(audit_budget \<Rightarrow> audit_budget \<times> 'a) \<Rightarrow> 'a \<Rightarrow> nat \<Rightarrow> int \<Rightarrow> bool" where
  "bruns f x r n \<longleftrightarrow> (\<forall>b. steady b \<longrightarrow> room r n b \<longrightarrow> (\<exists>b'. f b = (b', x) \<and> spent r n b b'))"

definition runs :: "'a au \<Rightarrow> 'a \<Rightarrow> nat \<Rightarrow> int \<Rightarrow> bool" where
  "runs m x r n \<longleftrightarrow> (\<forall>s. as_reasons s = [] \<longrightarrow> steady (as_budget s) \<longrightarrow> room r n (as_budget s) \<longrightarrow>
     (\<exists>b. m s = (s\<lparr>as_budget := b\<rparr>, Inr x) \<and> spent r n (as_budget s) b))"

definition vruns :: "'a rd \<Rightarrow> 'a \<Rightarrow> nat \<Rightarrow> int \<Rightarrow> bool" where
  "vruns m x r n \<longleftrightarrow> (\<forall>b. steady b \<longrightarrow> room r n b \<longrightarrow> (\<exists>b'. m (Some b) = (Some b', Inr x) \<and> spent r n b b'))"

named_theorems run_intros \<open>quiet runs\<close>

lemma spent_refl: "steady b \<Longrightarrow> 0 \<le> n \<Longrightarrow> spent r n b b"
  by (simp add: spent_def)

lemma spent_trans: "spent r n a b \<Longrightarrow> spent r' n' b c \<Longrightarrow> spent (r + r') (n + n') a c"
  by (auto simp: spent_def)

lemma room_left: "room (r + r') (n + n') b \<Longrightarrow> 0 \<le> n' \<Longrightarrow> room r n b"
  by (auto simp: room_def)

lemma room_spent: "room (r + r') (n + n') b \<Longrightarrow> spent r n b b' \<Longrightarrow> room r' n' b'"
  by (auto simp: room_def spent_def)

subsection \<open>Budget operations\<close>

lemma ready_runs: "bruns budget_ready True 0 0"
  by (auto simp: bruns_def budget_ready_def budget_check_def Let_def steady_def spent_def not_le [symmetric])

lemma reserve_runs: "0 \<le> n \<Longrightarrow> bruns (reserve_bytes n) True 0 n"
  by (fastforce simp: bruns_def reserve_bytes_def budget_ready_def budget_check_def Let_def steady_def spent_def
      room_def not_le [symmetric])

lemma consume_runs:
  assumes "0 \<le> n"
  shows "bruns (consume n) True 1 n"
  unfolding bruns_def
proof (intro allI impI)
  fix b
  assume b: "steady b" "room 1 n b"
  let ?b = "b\<lparr>ab_tick := Suc (ab_tick b)\<rparr>"
  have r: "budget_ready b = (?b, True)"
    using b(1) by (auto simp: budget_ready_def budget_check_def Let_def steady_def not_le [symmetric])
  have "steady ?b" "room 0 n ?b" using b by (auto simp: steady_def room_def)
  then obtain c where c: "reserve_bytes n ?b = (c, True)" "spent 0 n ?b c"
    using reserve_runs [OF assms] unfolding bruns_def by blast
  have "\<not> ab_rows ?b \<ge> MAX_AUDIT_ROWS" using b(2) by (simp add: room_def)
  then have "consume n b = (c\<lparr>ab_rows := Suc (ab_rows c)\<rparr>, True)" by (simp add: consume_def r c(1))
  moreover have "spent 1 n b (c\<lparr>ab_rows := Suc (ab_rows c)\<rparr>)" using c(2) by (auto simp: spent_def steady_def)
  ultimately show "\<exists>b'. consume n b = (b', True) \<and> spent 1 n b b'" by blast
qed

definition total_cost :: "('r \<Rightarrow> int option) \<Rightarrow> 'r list \<Rightarrow> int" where
  "total_cost cost rows = sum_list (map (\<lambda>x. case cost x of None \<Rightarrow> 0 | Some n \<Rightarrow> n) rows)"

definition costs_ok :: "('r \<Rightarrow> int option) \<Rightarrow> 'r list \<Rightarrow> bool" where
  "costs_ok cost rows \<longleftrightarrow> (\<forall>x \<in> set rows. \<exists>n. cost x = Some n \<and> 0 \<le> n)"

lemma total_cost_nonneg: "costs_ok cost rows \<Longrightarrow> 0 \<le> total_cost cost rows"
  by (induction rows) (auto simp: total_cost_def costs_ok_def)

lemma take_batch_runs:
  "costs_ok cost rows \<Longrightarrow> bruns (take_batch cost rows) (rows, True) (length rows) (total_cost cost rows)"
proof (induction rows)
  case Nil
  then show ?case by (simp add: bruns_def spent_refl total_cost_def)
next
  case (Cons x rows)
  obtain n where n: "cost x = Some n" "0 \<le> n" using Cons.prems by (auto simp: costs_ok_def)
  have ih: "bruns (take_batch cost rows) (rows, True) (length rows) (total_cost cost rows)"
    and nn: "0 \<le> total_cost cost rows"
    using Cons total_cost_nonneg by (auto simp: costs_ok_def)
  have t: "total_cost cost (x # rows) = n + total_cost cost rows" by (simp add: total_cost_def n)
  show ?case
    unfolding bruns_def t
  proof (intro allI impI)
    fix b
    assume b: "steady b" "room (length (x # rows)) (n + total_cost cost rows) b"
    then have rm: "room (1 + length rows) (n + total_cost cost rows) b" by simp
    obtain c where c: "consume n b = (c, True)" "spent 1 n b c"
      using consume_runs [OF n(2)] b(1) room_left [OF rm nn] unfolding bruns_def by blast
    obtain d where d: "take_batch cost rows c = (d, rows, True)" "spent (length rows) (total_cost cost rows) c d"
      using ih room_spent [OF rm c(2)] c(2) unfolding bruns_def spent_def by blast
    show "\<exists>b'. take_batch cost (x # rows) b = (b', x # rows, True) \<and>
        spent (length (x # rows)) (n + total_cost cost rows) b b'"
      using n(1) c(1) d(1) spent_trans [OF c(2) d(2)] by simp
  qed
qed

lemma total_cost_append: "total_cost cost (xs @ ys) = total_cost cost xs + total_cost cost ys"
  by (simp add: total_cost_def)

lemma scan_rows_runs:
  "costs_ok cost rows \<Longrightarrow> bruns (scan_rows cost rows) (rows, Exhausted) (length rows) (total_cost cost rows)"
proof (induction rows rule: length_induct)
  case (1 rows)
  let ?h = "take AUDIT_BATCH_SIZE rows" and ?t = "drop AUDIT_BATCH_SIZE rows"
  have ok: "costs_ok cost ?h" "costs_ok cost ?t"
    using 1(2) by (auto simp: costs_ok_def dest: in_set_takeD in_set_dropD)
  have len: "length rows = length ?h + length ?t" by simp
  have cost: "total_cost cost rows = total_cost cost ?h + total_cost cost ?t"
    by (metis append_take_drop_id total_cost_append)
  show ?case
    unfolding bruns_def
  proof (intro allI impI)
    fix b
    assume b: "steady b" "room (length rows) (total_cost cost rows) b"
    obtain c where c: "budget_ready b = (c, True)" "spent 0 0 b c"
      using ready_runs b(1) b(2) total_cost_nonneg [OF 1(2)] unfolding bruns_def room_def by fastforce
    have rm: "room (length ?h + length ?t) (total_cost cost ?h + total_cost cost ?t) c"
      using room_spent [of 0 _ 0, OF _ c(2)] b(2) len cost by (metis add_0)
    show "\<exists>b'. scan_rows cost rows b = (b', rows, Exhausted) \<and> spent (length rows) (total_cost cost rows) b b'"
    proof (cases "rows = []")
      case True
      have "spent (length rows) (total_cost cost rows) b c" using c(2) True by (simp add: total_cost_def)
      moreover have "scan_rows cost rows b = (c, rows, Exhausted)"
        using True c(1) by (subst scan_rows.simps) simp
      ultimately show ?thesis by blast
    next
      case False
      obtain d where d: "take_batch cost ?h c = (d, ?h, True)" "spent (length ?h) (total_cost cost ?h) c d"
        using take_batch_runs [OF ok(1)] room_left [OF rm total_cost_nonneg [OF ok(2)]] c(2)
        unfolding bruns_def spent_def by blast
      have "length ?t < length rows" using False by (simp add: AUDIT_BATCH_SIZE_def)
      then obtain e where e: "scan_rows cost ?t d = (e, ?t, Exhausted)" "spent (length ?t) (total_cost cost ?t) d e"
        using 1(1) ok(2) room_spent [OF rm d(2)] d(2) unfolding bruns_def spent_def by blast
      have "scan_rows cost rows b = (e, ?h @ ?t, Exhausted)"
        using False c(1) d(1) e(1) by (subst scan_rows.simps) simp
      moreover have "spent (length rows) (total_cost cost rows) b e"
        using spent_trans [OF c(2) spent_trans [OF d(2) e(2)]] by (simp only: len cost add_0)
      ultimately show ?thesis by auto
    qed
  qed
qed

subsection \<open>Computations of the audit\<close>

lemma runs_on_budget [run_intros]: "bruns f x r n \<Longrightarrow> runs (on_budget f) x r n"
  unfolding runs_def bruns_def on_budget_def by fastforce

lemma runs_pure:
  assumes "\<And>s. as_reasons s = [] \<Longrightarrow> m s = (s, Inr x)"
  shows "runs m x 0 0"
  unfolding runs_def
proof (intro allI impI)
  fix s :: au_state
  assume "as_reasons s = []" "steady (as_budget s)"
  then show "\<exists>b. m s = (s\<lparr>as_budget := b\<rparr>, Inr x) \<and> spent 0 0 (as_budget s) b"
    using assms by (intro exI [of _ "as_budget s"]) (simp add: spent_refl)
qed

lemma runs_ret [run_intros]: "runs (au_ret x) x 0 0"
  by (rule runs_pure) (simp add: au_ret_def)

lemma runs_bind [run_intros]:
  assumes "runs m x r n" "runs (f x) y r' n'" "0 \<le> n'"
  shows "runs (au_bind m f) y (r + r') (n + n')"
  unfolding runs_def
proof (intro allI impI)
  fix s :: au_state
  assume s: "as_reasons s = []" "steady (as_budget s)" "room (r + r') (n + n') (as_budget s)"
  obtain b where b: "m s = (s\<lparr>as_budget := b\<rparr>, Inr x)" "spent r n (as_budget s) b"
    using assms(1) s room_left [OF s(3) assms(3)] unfolding runs_def by blast
  have "steady b" "room r' n' b" using b(2) room_spent [OF s(3) b(2)] by (auto simp: spent_def)
  then obtain c where c: "f x (s\<lparr>as_budget := b\<rparr>) = (s\<lparr>as_budget := c\<rparr>, Inr y)" "spent r' n' b c"
    using assms(2) s(1) unfolding runs_def
    by (drule_tac x = "s\<lparr>as_budget := b\<rparr>" in spec) auto
  show "\<exists>b. au_bind m f s = (s\<lparr>as_budget := b\<rparr>, Inr y) \<and> spent (r + r') (n + n') (as_budget s) b"
    using b(1) c(1) spent_trans [OF b(2) c(2)] by (auto simp: au_bind_def)
qed

lemma runs_seq [run_intros]: "runs m x r n \<Longrightarrow> runs k y r' n' \<Longrightarrow> 0 \<le> n' \<Longrightarrow> runs (au_seq m k) y (r + r') (n + n')"
  unfolding au_seq_def by (rule runs_bind)

lemma runs_catch [run_intros]: "runs m x r n \<Longrightarrow> runs (au_catch c m h) x r n"
  unfolding runs_def au_catch_def by fastforce

lemma runs_if_ready [run_intros]: "runs m x r n \<Longrightarrow> 0 \<le> n \<Longrightarrow> runs (au_if_ready m k) x r n"
  unfolding au_if_ready_def
  using runs_bind [OF runs_on_budget [OF ready_runs], of "\<lambda>ok. if ok then m else k" x r n] by simp

lemma runs_stmt [run_intros]: "runs (au_stmt (\<lambda>_. None) st x) x 0 0"
  by (rule runs_pure) (simp add: au_stmt_def)

lemma runs_add_reason [run_intros]: "r = [] \<or> n = 0 \<Longrightarrow> runs (add_reason r n) () 0 0"
  by (rule runs_pure) (auto simp: add_reason_def)

lemma runs_set_scan [run_intros]: "runs (set_scan l v) () 0 0"
  unfolding set_scan_def by (rule runs_on_budget) (auto simp: bruns_def spent_def steady_def)

lemma runs_get_incomplete [run_intros]: "runs get_incomplete [] 0 0"
  unfolding get_incomplete_def by (rule runs_on_budget) (auto simp: bruns_def spent_def steady_def)

lemma runs_map:
  assumes "\<And>x. x \<in> set xs \<Longrightarrow> runs (f x) (g x) (r x) (n x)" "\<And>x. 0 \<le> n x"
  shows "runs (au_map f xs) (map g xs) (sum_list (map r xs)) (sum_list (map n xs))"
  using assms(1)
proof (induction xs)
  case (Cons x xs)
  have nn: "0 \<le> sum_list (map n xs)" using assms(2) by (induction xs) auto
  have "runs (au_map f (x # xs)) (g x # map g xs) (r x + (sum_list (map r xs) + 0)) (n x + (sum_list (map n xs) + 0))"
    unfolding au_map.simps by (rule run_intros Cons | simp add: nn Cons.prems)+
  then show ?case by simp
qed (simp add: runs_ret)

lemma runs_more: "runs m x r n \<Longrightarrow> r \<le> r' \<Longrightarrow> n \<le> n' \<Longrightarrow> runs m x r' n'"
  unfolding runs_def room_def spent_def by (meson add_left_mono dual_order.trans)

lemma costs_free [simp]: "costs_ok free_cost rows" "total_cost free_cost rows = 0"
  "costs_ok (\<lambda>_. Some 0) rows" "total_cost (\<lambda>_. Some 0) rows = 0"
  by (simp_all add: costs_ok_def total_cost_def free_cost_def)

lemma runs_take_free [run_intros]: "runs (on_budget (take_batch free_cost rows)) (rows, True) (length rows) 0"
  using runs_on_budget [OF take_batch_runs [OF costs_free(1)]] by simp

lemma runs_scan [run_intros]:
  "costs_ok cost rows \<Longrightarrow> runs (on_budget (scan_rows cost rows)) (rows, Exhausted) (length rows) (total_cost cost rows)"
  by (rule runs_on_budget [OF scan_rows_runs])

subsection \<open>Computations of the verification\<close>

lemma vruns_ret [run_intros]: "vruns (rd_ret x) x 0 0"
  by (simp add: vruns_def rd_ret_def spent_refl)

lemma vruns_bind [run_intros]:
  assumes "vruns m x r n" "vruns (f x) y r' n'" "0 \<le> n'"
  shows "vruns (rd_bind m f) y (r + r') (n + n')"
  unfolding vruns_def
proof (intro allI impI)
  fix b
  assume b: "steady b" "room (r + r') (n + n') b"
  obtain c where c: "m (Some b) = (Some c, Inr x)" "spent r n b c"
    using assms(1) b(1) room_left [OF b(2) assms(3)] unfolding vruns_def by blast
  obtain d where d: "f x (Some c) = (Some d, Inr y)" "spent r' n' c d"
    using assms(2) room_spent [OF b(2) c(2)] c(2) unfolding vruns_def spent_def by blast
  show "\<exists>b'. rd_bind m f (Some b) = (Some b', Inr y) \<and> spent (r + r') (n + n') b b'"
    using c(1) d(1) spent_trans [OF c(2) d(2)] by (simp add: rd_bind_def)
qed

lemma vruns_require [run_intros]: "c \<Longrightarrow> vruns (rd_require c m) () 0 0"
  by (simp add: rd_require_def vruns_ret)

lemma vruns_stmt [run_intros]: "vruns (rd_stmt (\<lambda>_. None) st x) x 0 0"
  by (simp add: vruns_def rd_stmt_def spent_refl)

lemma vruns_rows [run_intros]:
  shows "vruns (rd_rows (\<lambda>_. None) st rows) rows (length rows) 0"
proof -
  have "vruns (bounded_rows rows) rows (length rows) 0"
    using take_batch_runs [OF costs_free(3), of rows]
    by (fastforce simp: vruns_def bruns_def bounded_rows_def split: prod.split)
  then show ?thesis
    unfolding rd_rows_def using vruns_bind [OF vruns_stmt [of st rows], of bounded_rows rows "length rows" 0] by simp
qed

lemma vruns_parity [run_intros]: "vruns m x r n \<Longrightarrow> vruns (rd_parity m) x r n"
  unfolding vruns_def rd_parity_def by fastforce

lemma vruns_more: "vruns m x r n \<Longrightarrow> r \<le> r' \<Longrightarrow> n \<le> n' \<Longrightarrow> vruns m x r' n'"
  unfolding vruns_def room_def spent_def by (meson add_left_mono dual_order.trans)

section \<open>The verification accepts a sound profile\<close>

lemma require_columns_runs [run_intros]:
  assumes "set required \<subseteq> set (pd_columns db t)"
  shows "vruns (require_columns (\<lambda>_. None) db t required m) () (length (pd_columns db t)) 0"
proof -
  show ?thesis
    unfolding require_columns_def by (rule vruns_more, (rule run_intros | simp add: assms)+)
qed

definition schema_rows :: "profile_db \<Rightarrow> nat" where
  "schema_rows db = length (pd_tables db) + length (pd_columns db ''thought_nodes'') +
     length (pd_columns db ''embeddings'') + length (pd_columns db ''derivation_edges'')"

lemma verify_schema_runs:
  assumes "schema_sound db"
  shows "vruns (verify_schema (\<lambda>_. None) db) () (schema_rows db) 0"
  unfolding verify_schema_def schema_rows_def
  by (rule vruns_more, (rule run_intros | simp add: assms [unfolded schema_sound_def])+)

lemma verify_identity_runs:
  assumes "identity_sound db model d"
  shows "\<exists>epoch. vruns (verify_identity (\<lambda>_. None) db)
    \<lparr>pi_model = model, pi_dim = d, pi_vec_dim = d, pi_epoch = epoch\<rparr> (length (meta_rows db)) 0"
proof -
  obtain a b e i where m: "map_of (pd_meta db) ''embedding_dim'' = Some a" "int_of_str a = Some d"
    "map_of (pd_meta db) ''vec_dim'' = Some b" "int_of_str b = Some d"
    "map_of (pd_meta db) ''maintenance_epoch'' = Some e" "int_of_str e = Some i"
    using assms unfolding identity_sound_def by blast
  have k: "''embedding_model'' \<in> set REQUIRED_META" "''embedding_dim'' \<in> set REQUIRED_META"
    "''vec_dim'' \<in> set REQUIRED_META" "''maintenance_epoch'' \<in> set REQUIRED_META"
    by (simp_all add: REQUIRED_META_def)
  have pos: "\<not> d \<le> 0" using assms by (simp add: identity_sound_def)
  have "vruns (verify_identity (\<lambda>_. None) db)
    \<lparr>pi_model = model, pi_dim = d, pi_vec_dim = d, pi_epoch = e\<rparr> (length (meta_rows db)) 0"
    unfolding verify_identity_def
    by (rule vruns_more, (rule run_intros | simp add: m map_of_meta_rows [OF k(1)] map_of_meta_rows [OF k(2)]
          map_of_meta_rows [OF k(3)] map_of_meta_rows [OF k(4)] assms [unfolded identity_sound_def] pos)+)
  then show ?thesis by blast
qed

lemma check_embedding_rows_runs:
  assumes "\<forall>(k, m, n) \<in> set rows. \<not> falsy_text k \<and> m = Some model \<and> map_option int n = Some (d * 4)" "model \<noteq> []"
  shows "vruns (check_embedding_rows d model rows) () 0 0"
  using assms
  by (induction d model rows rule: check_embedding_rows.induct) (auto simp: vruns_ret falsy_text_def)

text \<open>The vector table as its primary key keeps it, with entries of the recorded dimension.\<close>

definition vec_entries_sound :: "profile_db \<Rightarrow> int \<Rightarrow> bool" where
  "vec_entries_sound db d \<longleftrightarrow> vec_table_sound db d \<and> distinct (map (str_of_text \<circ> fst) (pd_vec_rows db)) \<and>
     (\<forall>(k, n) \<in> set (pd_vec_rows db). map_option int n = Some (d * 4))"

definition embedding_facts :: "profile_db \<Rightarrow> (string option \<times> string option \<times> nat option) list" where
  "embedding_facts db = map (\<lambda>e. (ee_node_id e, ee_model e, blob_length (ee_vector e))) (pd_embeddings db)"

lemma verify_vec_runs:
  assumes "vec_entries_sound db d" "pd_vec_sql db = Some sql" "length (pd_vec_rows db) \<le> 100000"
  shows "vruns (verify_vec (\<lambda>_. None) True db d (embedding_facts db) sql) ()
    (length (pd_columns db ''vec_embeddings'') + 2 * length (pd_vec_rows db)) 0"
proof -
  have sql: "is_supported_vec_ddl sql" "search_dimension sql = Some d"
    using assms(1,2) by (auto simp: vec_entries_sound_def vec_table_sound_def)
  have lim: "vec_limit (pd_vec_rows db) = pd_vec_rows db" "vec_limit (map fst (pd_vec_rows db)) = map fst (pd_vec_rows db)"
    using assms(3) by (auto simp: vec_limit_def READONLY_SCAN_ROW_CAP_def)
  show ?thesis
  proof (cases "''node_id'' \<in> set (pd_columns db ''vec_embeddings'')")
    case False
    show ?thesis
      unfolding verify_vec_def by (rule vruns_more, (rule run_intros | simp add: sql False)+)
  next
    case True
    have ids: "str_of_text ` set (map fst (pd_vec_rows db)) = str_of_text ` fst ` set (embedding_facts db)"
      using assms(1,2) True by (auto simp: vec_entries_sound_def vec_table_sound_def embedding_facts_def image_comp comp_def)
    have lens: "list_all (\<lambda>(k, _). map_option int (snd (last (filter (\<lambda>(k', _).
        str_of_text k' = str_of_text k) (pd_vec_rows db)))) = Some (d * 4)) (pd_vec_rows db)"
    proof -
      have "last (filter (\<lambda>(k', _). str_of_text k' = str_of_text k) (pd_vec_rows db)) = (k, n)"
        if "(k, n) \<in> set (pd_vec_rows db)" for k n
        using last_of_unique [OF _ that, of "str_of_text \<circ> fst"] assms(1)
        by (simp add: vec_entries_sound_def case_prod_unfold)
      then show ?thesis using assms(1) by (fastforce simp: list_all_iff vec_entries_sound_def)
    qed
    show ?thesis
      unfolding verify_vec_def by (rule vruns_more, (rule run_intros | simp add: sql True lim ids [simplified] lens [simplified])+)
  qed
qed

definition verify_rows :: "profile_db \<Rightarrow> nat" where
  "verify_rows db = schema_rows db + length (meta_rows db) + length (pd_embeddings db) +
     length (pd_columns db ''vec_embeddings'') + 2 * length (pd_vec_rows db)"

lemma verify_profile_runs:
  assumes "schema_sound db" "identity_sound db model d" "vectors_sound db model d" "vec_entries_sound db d"
    "verify_rows db \<le> 100000"
  shows "\<exists>report. vruns (verify_readonly_profile (\<lambda>_. None) True db) report (verify_rows db) 0"
proof -
  obtain epoch where id: "vruns (verify_identity (\<lambda>_. None) db)
    \<lparr>pi_model = model, pi_dim = d, pi_vec_dim = d, pi_epoch = epoch\<rparr> (length (meta_rows db)) 0"
    using verify_identity_runs [OF assms(2)] by blast
  have len: "length (pd_embeddings db) \<le> 100000" "length (pd_vec_rows db) \<le> 100000"
    using assms(5) by (auto simp: verify_rows_def)
  have facts: "length (embedding_facts db) = length (pd_embeddings db)" by (simp add: embedding_facts_def)
  have rows: "embedding_rows db = embedding_facts db" using len
    by (auto simp: embedding_rows_def embedding_facts_def READONLY_SCAN_ROW_CAP_def)
  let ?ident = "\<lparr>pi_model = model, pi_dim = d, pi_vec_dim = d, pi_epoch = epoch\<rparr>"
  have check: "vruns (check_embedding_rows (pi_dim ?ident) (pi_model ?ident) (embedding_facts db)) () 0 0"
    by (rule check_embedding_rows_runs)
      (use assms(2,3) in \<open>auto simp: embedding_facts_def vectors_sound_def identity_sound_def\<close>)
  let ?n = "length (pd_columns db ''vec_embeddings'') + 2 * length (pd_vec_rows db)"
  have vec: "vruns (case pd_vec_sql db of None \<Rightarrow> rd_ret () | Some sql \<Rightarrow>
      verify_vec (\<lambda>_. None) True db (pi_vec_dim ?ident) (embedding_facts db) sql) () ?n 0"
    using verify_vec_runs [OF assms(4) _ len(2)] vruns_more [OF vruns_ret [of "()"], of ?n 0]
    by (auto split: option.split)
  show ?thesis
    unfolding verify_readonly_profile_def rows verify_rows_def
    by (rule exI, rule vruns_more, (rule verify_schema_runs [OF assms(1)] id check vec run_intros | simp add: facts)+)
qed

section \<open>The inspection records nothing on a sound profile\<close>

definition auditable :: "(real list \<Rightarrow> real) \<Rightarrow> profile_db \<Rightarrow> string \<Rightarrow> int \<Rightarrow> bool" where
  "auditable vnorm db model d \<longleftrightarrow> schema_sound db \<and> identity_sound db model d \<and> vectors_sound db model d \<and>
     vec_entries_sound db d \<and> content_sound vnorm db \<and> distinct (map fst (pd_meta db)) \<and>
     costs_ok vector_cost (pd_embeddings db)"

lemma row_limit_short: "length rows \<le> 100000 \<Longrightarrow> row_limit rows = rows"
  by (simp add: row_limit_def MAX_AUDIT_ROWS_def)

lemma runs_count [run_intros]:
  assumes "length rows \<le> 100000"
  shows "runs (bounded_count (\<lambda>_. None) st l rows) (length rows) (length rows) 0"
  unfolding bounded_count_def
  by (rule runs_more, (rule run_intros | simp add: row_limit_short [OF assms])+)

lemma runs_exists [run_intros]: "runs (table_exists (\<lambda>_. None) db t) (t \<in> set (pd_tables db)) 0 0"
  unfolding table_exists_def by (rule runs_more, (rule run_intros | simp)+)

lemma runs_columns [run_intros]: "runs (columns (\<lambda>_. None) db t) (pd_columns db t) (length (pd_columns db t)) 0"
  unfolding columns_def by (rule runs_more, (rule run_intros | simp)+)

lemma provenance_runs:
  assumes "auditable vnorm db model d"
  shows "\<exists>po. runs (provenance_of (\<lambda>_. None) db) po (length (meta_rows db)) 0 \<and>
    po_user_version po = Some 3 \<and> po_model po = Some model \<and> po_dim po = Some d"
proof -
  obtain a where m: "map_of (pd_meta db) ''embedding_dim'' = Some a" "int_of_str a = Some d"
    "map_of (pd_meta db) ''embedding_model'' = Some model"
    using assms unfolding auditable_def identity_sound_def by blast
  have t: "''hermes_provider_meta'' \<in> set (pd_tables db)" "pd_user_version db = 3"
    using assms by (auto simp: auditable_def schema_sound_def REQUIRED_TABLES_def)
  have k: "''embedding_model'' \<in> set REQUIRED_META" "''embedding_dim'' \<in> set REQUIRED_META"
    by (simp_all add: REQUIRED_META_def)
  let ?po = "\<lparr>po_user_version = Some (pd_user_version db), po_model = map_of (meta_rows db) ''embedding_model'',
                po_dim = int_of_opt (map_of (meta_rows db) ''embedding_dim''),
                po_vec_dim = int_of_opt (map_of (meta_rows db) ''vec_dim''),
                po_epoch = map_of (meta_rows db) ''maintenance_epoch''\<rparr>"
  have "runs (provenance_of (\<lambda>_. None) db) ?po (length (meta_rows db)) 0"
    unfolding provenance_of_def by (rule runs_more, (rule run_intros | simp add: t)+)
  moreover have "po_user_version ?po = Some 3 \<and> po_model ?po = Some model \<and> po_dim ?po = Some d"
    using m t(2) map_of_meta_rows [OF k(1)] map_of_meta_rows [OF k(2)] by (simp add: int_of_opt_def)
  ultimately show ?thesis by blast
qed

definition table_cost :: "string \<Rightarrow> int option" where
  "table_cost t = Some (utf8_length t + 1)"

lemma utf8_length_nonneg: "0 \<le> utf8_length s"
  by (induction s) (auto simp: utf8_length_def)

lemma costs_table [simp]: "costs_ok table_cost ts"
  using utf8_length_nonneg by (auto simp: costs_ok_def table_cost_def add_nonneg_nonneg)

lemma inventory_runs:
  assumes "auditable vnorm db model d"
  shows "\<exists>tr. runs (table_inventory (\<lambda>_. None) db) tr (length (unexpected_tables db))
     (total_cost table_cost (unexpected_tables db)) \<and> tr_present tr = REQUIRED_TABLES"
proof -
  let ?known = "map (\<lambda>t. (t, True)) REQUIRED_TABLES"
  have sub: "t \<in> set (pd_tables db)" if "t \<in> set REQUIRED_TABLES" for t
    using assms that by (auto simp: auditable_def schema_sound_def)
  have "runs (au_bind (table_exists (\<lambda>_. None) db t) (\<lambda>x. au_ret (t, x))) (t, True) 0 0"
    if "t \<in> set REQUIRED_TABLES" for t
    using runs_bind [OF runs_exists [of db t], of "\<lambda>x. au_ret (t, x)" "(t, True)" 0 0] sub [OF that] runs_ret [of "(t, True)"] by simp
  then have known: "runs (au_map (\<lambda>t. au_bind (table_exists (\<lambda>_. None) db t) (\<lambda>x. au_ret (t, x))) REQUIRED_TABLES)
      ?known 0 0"
    using runs_map [of REQUIRED_TABLES _ "\<lambda>t. (t, True)" "\<lambda>_. 0" "\<lambda>_. 0"] by simp
  have f: "map fst (filter snd ?known) = REQUIRED_TABLES" by (simp add: REQUIRED_TABLES_def)
  have scan: "runs (on_budget (scan_rows (\<lambda>t. Some (utf8_length t + 1)) (unexpected_tables db)))
     (unexpected_tables db, Exhausted) (length (unexpected_tables db)) (total_cost table_cost (unexpected_tables db))"
    using runs_scan [OF costs_table] by (simp add: table_cost_def [abs_def])
  let ?tr = "\<lparr>tr_present = REQUIRED_TABLES, tr_unexpected = Some (length (unexpected_tables db)), tr_complete = True\<rparr>"
  have "runs (table_inventory (\<lambda>_. None) db) ?tr (length (unexpected_tables db))
     (total_cost table_cost (unexpected_tables db))"
    unfolding table_inventory_def
    by (rule runs_more, (rule known scan run_intros | simp add: f comp_def total_cost_nonneg)+)
  then show ?thesis by force
qed

lemma missing_columns_runs:
  assumes "set req \<subseteq> set (pd_columns db t)" "t \<in> set ts"
  shows "runs (missing_columns_of (\<lambda>_. None) db ts (t, req)) [] (length (pd_columns db t)) 0"
proof -
  have f: "filter (\<lambda>c. c \<notin> set (pd_columns db t)) req = []" using assms(1) by (auto simp: filter_empty_conv)
  show ?thesis
    unfolding missing_columns_of_def by (rule runs_more, (rule run_intros | simp add: assms(2) f)+)
qed

lemma meta_keys_runs:
  assumes "distinct (map fst (pd_meta db))"
  shows "runs (meta_keys (\<lambda>_. None) db) (map fst (meta_rows db)) (length (meta_rows db)) 0"
proof -
  have "distinct (map fst (meta_rows db))" unfolding meta_rows_def using assms by (simp add: distinct_map_filter)
  then have "length (meta_rows db) = card (set (map fst (meta_rows db)))" using distinct_card by fastforce
  also have "\<dots> \<le> card (set REQUIRED_META)" by (rule card_mono) (auto simp: meta_rows_def)
  also have "\<dots> \<le> 4" by (simp add: REQUIRED_META_def card_insert_if)
  finally have t: "take 4 (map fst (meta_rows db)) = map fst (meta_rows db)" by simp
  show ?thesis
    unfolding meta_keys_def t by (rule runs_more, (rule run_intros | simp)+)
qed

lemma schema_findings_runs:
  assumes "auditable vnorm db model d" "po_user_version po = Some 3"
  shows "runs (schema_findings (\<lambda>_. None) db po REQUIRED_TABLES) ([], [], [])
    (schema_rows db + length (meta_rows db)) 0"
proof -
  let ?n = "length (pd_columns db ''thought_nodes'')" and ?e = "length (pd_columns db ''embeddings'')"
    and ?d = "length (pd_columns db ''derivation_edges'')"
  have t: "filter (\<lambda>t. t \<notin> set REQUIRED_TABLES) REQUIRED_TABLES = []" by (simp add: filter_empty_conv)
  have cols: "runs (missing_columns_of (\<lambda>_. None) db REQUIRED_TABLES (''thought_nodes'', REQUIRED_NODE_COLUMNS)) [] ?n 0"
    "runs (missing_columns_of (\<lambda>_. None) db REQUIRED_TABLES (''embeddings'', REQUIRED_EMBEDDING_COLUMNS)) [] ?e 0"
    "runs (missing_columns_of (\<lambda>_. None) db REQUIRED_TABLES (''derivation_edges'', REQUIRED_EDGE_COLUMNS)) [] ?d 0"
    using assms(1)
    by (auto intro!: missing_columns_runs simp: auditable_def schema_sound_def REQUIRED_TABLES_def)
  have "k \<in> fst ` set (pd_meta db)" if "k \<in> set REQUIRED_META" for k
    using that assms(1) weak_map_of_SomeI
    by (auto simp: REQUIRED_META_def auditable_def identity_sound_def dest!: map_of_SomeD intro: rev_image_eqI)
  then have k: "filter (\<lambda>k. k \<notin> fst ` set (meta_rows db)) REQUIRED_META = []"
    by (fastforce simp: filter_empty_conv meta_rows_def)
  have keys: "runs (meta_keys (\<lambda>_. None) db) (map fst (meta_rows db)) (length (meta_rows db)) 0"
    using assms(1) by (intro meta_keys_runs) (simp add: auditable_def)
  have m: "''hermes_provider_meta'' \<in> set REQUIRED_TABLES" by (simp add: REQUIRED_TABLES_def)
  show ?thesis
    unfolding schema_findings_def t Let_def au_map.simps schema_rows_def
    by (rule runs_more, (rule cols keys run_intros | simp add: assms(2) k m)+)
qed

lemma embedding_reasons_runs:
  assumes "fst (finite_vector vnorm (ee_vector e) None) = None" "ee_node_id e \<noteq> None" "ee_model e = Some model"
    "map_option int (blob_length (ee_vector e)) = Some (d * 4)" "po_model po = Some model" "po_dim po = Some d"
  shows "runs (embedding_reasons vnorm po e) () 0 0"
proof -
  have "fst (finite_vector vnorm (ee_vector e) (Some d)) = None"
    using assms(1,4) by (auto simp: finite_vector_def blob_length_def Let_def split: blob.splits if_splits)
  then show ?thesis
    unfolding embedding_reasons_def
    using runs_seq [OF runs_add_reason [of "[]" 1] runs_seq [OF runs_ret [of "()"] runs_ret [of "()"]]] assms by auto
qed

lemma scan_embeddings_runs:
  assumes "auditable vnorm db model d" "po_model po = Some model" "po_dim po = Some d"
    "length (pd_embeddings db) \<le> 100000"
  shows "runs (scan_embeddings (\<lambda>_. None) vnorm db po) (pd_embeddings db) (length (pd_embeddings db))
    (total_cost vector_cost (pd_embeddings db))"
proof -
  let ?xs = "pd_embeddings db"
  have "runs (embedding_reasons vnorm po e) () 0 0" if "e \<in> set ?xs" for e
    using that assms(1) by (intro embedding_reasons_runs [OF _ _ _ _ assms(2,3)])
      (auto simp: auditable_def content_sound_def vectors_sound_def)
  then have each: "runs (au_map (embedding_reasons vnorm po) ?xs) (map (\<lambda>_. ()) ?xs) 0 0"
    using runs_map [of ?xs "embedding_reasons vnorm po" "\<lambda>_. ()" "\<lambda>_. 0" "\<lambda>_. 0"]
    by (simp add: map_replicate_const sum_list_replicate)
  have c: "costs_ok vector_cost ?xs" using assms(1) by (simp add: auditable_def)
  show ?thesis
    unfolding scan_embeddings_def row_limit_short [OF assms(4)]
    by (rule runs_more, (rule each run_intros | simp add: c total_cost_nonneg)+)
qed

definition vec_cost :: "string option \<times> nat option \<Rightarrow> int option" where
  "vec_cost = (\<lambda>(_, n). Some (case n of None \<Rightarrow> 0 | Some k \<Rightarrow> int k))"

lemma costs_vec [simp]: "costs_ok vec_cost rows"
  by (auto simp: costs_ok_def vec_cost_def split: option.split)

lemma vec_entries_runs:
  assumes "length (pd_vec_rows db) \<le> 100000"
  shows "runs (vec_entries (\<lambda>_. None) db) (Some (pd_vec_rows db)) (length (pd_vec_rows db))
    (total_cost vec_cost (pd_vec_rows db))"
proof -
  have scan: "runs (on_budget (scan_rows (\<lambda>(_, n). Some (case n of None \<Rightarrow> 0 | Some k \<Rightarrow> int k)) (pd_vec_rows db)))
     (pd_vec_rows db, Exhausted) (length (pd_vec_rows db)) (total_cost vec_cost (pd_vec_rows db))"
    using runs_scan [OF costs_vec] by (simp add: vec_cost_def [abs_def])
  show ?thesis
    unfolding vec_entries_def row_limit_short [OF assms]
    by (rule runs_more, (rule scan run_intros | simp add: total_cost_nonneg)+)
qed

lemma map_filter_some: "\<forall>x \<in> set xs. f x \<noteq> None \<Longrightarrow> set (List.map_filter f xs) = {} \<longleftrightarrow> xs = []"
  using map_filter_ids_empty [of f xs] by auto

lemma inspect_vec_runs:
  assumes "auditable vnorm db model d" "length (pd_vec_rows db) \<le> 100000"
  shows "\<exists>r. runs (inspect_vec (\<lambda>_. None) True db (set (List.map_filter ee_node_id (pd_embeddings db))) (Some d)) r
    (length (pd_vec_rows db)) (total_cost vec_cost (pd_vec_rows db))"
proof (cases "pd_vec_sql db")
  case None
  then have e: "pd_embeddings db = []" using assms(1) by (simp add: auditable_def content_sound_def)
  show ?thesis
    unfolding inspect_vec_def None e
    by (rule exI, rule runs_more, (rule run_intros | simp add: total_cost_nonneg)+)
next
  case (Some sql)
  let ?ids = "set (List.map_filter ee_node_id (pd_embeddings db))"
  have sql: "is_supported_vec_ddl sql" "search_dimension sql = Some d"
    and ids: "set (List.map_filter fst (pd_vec_rows db)) = ?ids"
    and len: "filter (\<lambda>(_, n). n = None \<or> Some d \<noteq> None \<and> map_option int n \<noteq> map_option (\<lambda>d. d * 4) (Some d)) (pd_vec_rows db) = []"
    using assms(1) Some
    by (fastforce simp: auditable_def content_sound_def vec_entries_sound_def vec_table_sound_def filter_empty_conv)+
  have dim: "runs (check_vec_dimension (Some d) (Some d)) () 0 0"
    unfolding check_vec_dimension_def by (simp add: runs_ret)
  have cmp: "\<exists>r. runs (compare_vec ?ids (Some d) (Some d) (pd_vec_rows db)) r 0 0"
    unfolding compare_vec_def Let_def ids len
    by (rule exI, rule runs_more, (rule run_intros | simp)+)
  then obtain r where r: "runs (compare_vec ?ids (Some d) (Some d) (pd_vec_rows db)) r 0 0" by blast
  show ?thesis
    unfolding inspect_vec_def Some
    by (rule exI, rule runs_more, (rule vec_entries_runs [OF assms(2)] dim r run_intros
          | simp add: sql total_cost_nonneg)+)
qed

lemma content_scans_runs:
  assumes "auditable vnorm db model d" "po_model po = Some model" "po_dim po = Some d"
    "length (pd_embeddings db) \<le> 100000" "length (pd_vec_rows db) \<le> 100000" "length (permanent_core db) \<le> 100000"
  shows "\<exists>r. runs (content_scans (\<lambda>_. None) True vnorm db po) r
    (length (pd_embeddings db) + length (permanent_core db) + length (pd_vec_rows db))
    (total_cost vector_cost (pd_embeddings db) + total_cost vec_cost (pd_vec_rows db))"
proof -
  have c: "orphan_embeddings db = []" "nodes_without_embeddings db = []" "permanent_and_decayed db = []"
    "orphan_edges db = []" "self_edges db = []" "py_lower (pd_integrity db) = ''ok''"
    using assms(1) by (simp_all add: auditable_def content_sound_def schema_sound_def)
  have nn: "0 \<le> total_cost vector_cost (pd_embeddings db)" "0 \<le> total_cost vec_cost (pd_vec_rows db)"
    using assms(1) by (simp_all add: total_cost_nonneg auditable_def)
  have integ: "runs (integrity_reason (\<lambda>_. None) db) () 0 0"
    unfolding integrity_reason_def by (rule runs_more, (rule run_intros | simp add: c)+)
  have orphans: "runs (orphan_counts (\<lambda>_. None) db) (0, 0) 0 0"
    unfolding orphan_counts_def c by (rule runs_more, (rule run_intros | simp)+)
  have perm: "runs (permanence_counts (\<lambda>_. None) db) (length (permanent_core db)) (length (permanent_core db)) 0"
    unfolding permanence_counts_def c by (rule runs_more, (rule run_intros | simp add: assms(6))+)
  have graph: "runs (graph_findings (\<lambda>_. None) db) (0, 0) 0 0"
    unfolding graph_findings_def c by (rule runs_more, (rule run_intros | simp)+)
  obtain v where vec: "runs (inspect_vec (\<lambda>_. None) True db (set (List.map_filter ee_node_id (pd_embeddings db)))
      (po_dim po)) v (length (pd_vec_rows db)) (total_cost vec_cost (pd_vec_rows db))"
    using inspect_vec_runs [OF assms(1,5)] assms(3) by auto
  show ?thesis
    unfolding content_scans_def
    by (rule exI, rule runs_more, (rule integ scan_embeddings_runs [OF assms(1-4)] orphans perm vec graph run_intros
          | simp add: nn)+)
qed

definition inspect_rows :: "profile_db \<Rightarrow> nat" where
  "inspect_rows db = schema_rows db + 2 * length (meta_rows db) + length (unexpected_tables db) +
     length (pd_embeddings db) + length (permanent_core db) + length (pd_vec_rows db)"

definition inspect_bytes :: "profile_db \<Rightarrow> int" where
  "inspect_bytes db = total_cost table_cost (unexpected_tables db) + total_cost vector_cost (pd_embeddings db) +
     total_cost vec_cost (pd_vec_rows db)"

lemma inspect_profile_runs:
  assumes "auditable vnorm db model d" "inspect_rows db \<le> 100000"
  shows "\<exists>pr. runs (inspect_profile (\<lambda>_. None) True vnorm db) pr (inspect_rows db) (inspect_bytes db)"
proof -
  obtain po where po: "runs (provenance_of (\<lambda>_. None) db) po (length (meta_rows db)) 0" "po_user_version po = Some 3"
    "po_model po = Some model" "po_dim po = Some d"
    using provenance_runs [OF assms(1)] by blast
  obtain tr where tr: "runs (table_inventory (\<lambda>_. None) db) tr (length (unexpected_tables db))
     (total_cost table_cost (unexpected_tables db))" "tr_present tr = REQUIRED_TABLES"
    using inventory_runs [OF assms(1)] by blast
  have "length (pd_embeddings db) \<le> 100000" "length (pd_vec_rows db) \<le> 100000" "length (permanent_core db) \<le> 100000"
    using assms(2) by (simp_all add: inspect_rows_def)
  then obtain n a b c v g where content: "runs (content_scans (\<lambda>_. None) True vnorm db po) (n, a, b, c, v, g)
    (length (pd_embeddings db) + length (permanent_core db) + length (pd_vec_rows db))
    (total_cost vector_cost (pd_embeddings db) + total_cost vec_cost (pd_vec_rows db))"
    using content_scans_runs [OF assms(1) po(3,4)] by (metis prod_cases6)
  have nn: "0 \<le> total_cost vector_cost (pd_embeddings db)" "0 \<le> total_cost vec_cost (pd_vec_rows db)"
    using assms(1) by (simp_all add: total_cost_nonneg auditable_def)
  have add: "runs add_incomplete_reasons () 0 0"
    unfolding add_incomplete_reasons_def by (rule runs_more, (rule run_intros | simp)+)
  show ?thesis
    unfolding inspect_profile_def inspect_rows_def inspect_bytes_def
    by (rule exI, rule runs_more, (rule po(1) tr(1) schema_findings_runs [OF assms(1) po(2)] content add run_intros
          | simp add: nn tr(2) total_cost_nonneg)+)
qed

section \<open>The audit accepts a sound profile\<close>

definition faultless :: "audit_env \<Rightarrow> bool" where
  "faultless env \<longleftrightarrow> ae_admission env = None \<and> ae_release env = None \<and> ae_is_file env \<and> ae_tempdir env = None \<and>
     ae_copy env = (\<lambda>_. None) \<and> ae_open env = None \<and> ae_cleanup env = None \<and> ae_loads env \<and> ae_fault env = (\<lambda>_. None) \<and>
     (\<forall>n \<in> set (ae_sizes env). 0 \<le> n)"

lemma runs_no_fault [run_intros]: "runs (au_fault None) () 0 0"
  by (rule runs_pure) (simp add: au_fault_def)

lemma runs_ensure [run_intros]: "runs ensure_ready () 0 0"
  unfolding ensure_ready_def
  by (rule runs_more, (rule run_intros runs_on_budget [OF ready_runs] | simp)+)

lemma snapshot_runs:
  assumes "faultless env"
  shows "runs (source_snapshot env) () 0 (sum_list (ae_sizes env))"
proof -
  let ?f = "\<lambda>n. au_bind (on_budget (reserve_bytes n)) (\<lambda>ok.
                  if ok then au_ret () else au_raise C_AuditBudgetError ''audit_byte_cap'')"
  have each: "runs (?f n) () 0 n" if "0 \<le> n" for n
    by (rule runs_more, (rule run_intros runs_on_budget [OF reserve_runs [OF that]] | simp)+)
  have nn: "\<forall>n \<in> set (ae_sizes env). 0 \<le> n" using assms by (simp add: faultless_def)
  then have "runs (au_map ?f (ae_sizes env)) (map (\<lambda>_. ()) (ae_sizes env)) 0 (sum_list (map (\<lambda>n. max 0 n) (ae_sizes env)))"
    using runs_map [of "ae_sizes env" ?f "\<lambda>_. ()" "\<lambda>_. 0" "\<lambda>n. max 0 n"] each
    by (simp add: map_replicate_const sum_list_replicate)
  moreover have "map (\<lambda>n. max 0 n) (ae_sizes env) = ae_sizes env"
    using nn by (simp add: map_idI)
  ultimately have sizes: "runs (au_map ?f (ae_sizes env)) (map (\<lambda>_. ()) (ae_sizes env)) 0 (sum_list (ae_sizes env))"
    by simp
  have "runs (au_seq (au_fault None) ensure_ready) () 0 0"
    by (rule runs_more, (rule run_intros | simp)+)
  then have copies: "runs (au_map (\<lambda>i. au_seq (au_fault None) ensure_ready) [0..<k]) (map (\<lambda>_. ()) [0..<k]) 0 0" for k
    using runs_map [of "[0..<k]" "\<lambda>_. au_seq (au_fault None) ensure_ready" "\<lambda>_. ()" "\<lambda>_. 0" "\<lambda>_. 0"]
    by (simp add: map_replicate_const sum_list_replicate)
  have e: "ae_is_file env" "ae_tempdir env = None" "ae_copy env = (\<lambda>_. None)" using assms by (simp_all add: faultless_def)
  have p: "0 \<le> sum_list (ae_sizes env)" using nn by (induction "ae_sizes env") (auto intro: sum_list_nonneg)
  show ?thesis
    unfolding source_snapshot_def e
    by (rule runs_more, (rule sizes copies run_intros | simp add: e p)+)
qed

lemma runsD:
  assumes "runs m x r n" "as_reasons s = []" "steady (as_budget s)" "room (r + r') (n + n') (as_budget s)" "0 \<le> n'"
  obtains b where "m s = (s\<lparr>as_budget := b\<rparr>, Inr x)" "steady b" "room r' n' b"
  using assms(1-3) room_left [OF assms(4,5)] room_spent [OF assms(4)] unfolding runs_def
  by (metis spent_def)

lemma verify_runs:
  assumes "vruns (verify_readonly_profile (ae_fault env) (ae_loads env) db) x r n"
  shows "runs (au_verify env db) x r n"
  using assms unfolding runs_def vruns_def au_verify_def by fastforce

lemma sound_profile_ok:
  assumes "faultless env" "auditable (ae_norm env) db model d" "\<And>t. clock t < clock 0 + max 0 secs"
    "verify_rows db + inspect_rows db \<le> 100000" "sum_list (ae_sizes env) + inspect_bytes db \<le> 64 * 1024 * 1024"
  shows "\<exists>report. audit_integrity env clock secs db = Inr report \<and> rp_status report = ''ok''"
proof -
  let ?s = "new_audit clock secs"
  have e: "ae_fault env = (\<lambda>_. None)" "ae_loads env" "ae_open env = None" "ae_cleanup env = None" "ae_admission env = None" "ae_release env = None"
    using assms(1) by (simp_all add: faultless_def)
  have q: "pd_query_only db" using assms(2) by (simp add: auditable_def schema_sound_def)
  have nn: "0 \<le> inspect_bytes db"
    using assms(2) by (simp add: inspect_bytes_def total_cost_nonneg auditable_def)
  have s: "as_reasons ?s = []" "steady (as_budget ?s)"
    "room (0 + (verify_rows db + inspect_rows db)) (sum_list (ae_sizes env) + (0 + inspect_bytes db)) (as_budget ?s)"
    using assms(3,4,5) by (auto simp: new_audit_def steady_def room_def MAX_AUDIT_ROWS_def MAX_AUDIT_BYTES_def)
  obtain b where 1: "source_snapshot env ?s = (?s\<lparr>as_budget := b\<rparr>, Inr ())" "steady b"
    "room (verify_rows db + inspect_rows db) (0 + inspect_bytes db) b"
    by (rule runsD [OF snapshot_runs [OF assms(1)] s]) (use nn in simp_all)
  obtain rep where "vruns (verify_readonly_profile (\<lambda>_. None) True db) rep (verify_rows db) 0"
    using verify_profile_runs assms(2,4) unfolding auditable_def by (metis add_leD1)
  then have v: "runs (au_verify env db) rep (verify_rows db) 0" using e by (intro verify_runs) simp
  obtain b2 where 2: "au_verify env db (?s\<lparr>as_budget := b\<rparr>) = (?s\<lparr>as_budget := b2\<rparr>, Inr rep)" "steady b2"
    "room (inspect_rows db) (inspect_bytes db) b2"
    by (rule runsD [OF v, of "?s\<lparr>as_budget := b\<rparr>" "inspect_rows db" "inspect_bytes db"]) (use s(1) 1 nn in simp_all)
  obtain pr where "runs (inspect_profile (\<lambda>_. None) True (ae_norm env) db) pr (inspect_rows db) (inspect_bytes db)"
    using inspect_profile_runs [OF assms(2)] assms(4) by auto
  then obtain b3 where 3: "inspect_profile (ae_fault env) (ae_loads env) (ae_norm env) db (?s\<lparr>as_budget := b2\<rparr>) =
      (?s\<lparr>as_budget := b3\<rparr>, Inr pr)" "steady b3"
    using runsD [of _ pr "inspect_rows db" "inspect_bytes db" "?s\<lparr>as_budget := b2\<rparr>" 0 0] s(1) 2 e by auto
  have o: "\<exists>j. open_readonly_verified None (ae_journal env) db = Inr j" using q by (simp add: open_readonly_verified_def)
  show ?thesis
    using 1(1) 2(1) 3(1) o e s(1)
    by (auto simp: audit_integrity_def audit_body_def audit_snapshot_def inspect_with_def Let_def status_of_def)
qed

text \<open>
  C20: The audit accepts every sound profile that fits its budget. When nothing
  fails, the clock stays below the deadline, and the profile is within the caps on
  rows and bytes, the audit of a profile that satisfies the checks answers ok.
\<close>

theorem audit_accepts_sound_profile:
  assumes "faultless env" "auditable (ae_norm env) db model d" "\<And>t. clock t < clock 0 + max 0 secs"
    "verify_rows db + inspect_rows db \<le> 100000" "sum_list (ae_sizes env) + inspect_bytes db \<le> 64 * 1024 * 1024"
  shows "\<exists>report. audit_integrity env clock secs db = Inr report \<and> rp_status report = ''ok''"
  using sound_profile_ok [OF assms(1,2) _ assms(4,5), of clock secs] assms(3) by blast

section \<open>Witnesses\<close>

definition audited_profile :: profile_db where
  "audited_profile = small_profile\<lparr>
     pd_columns := (\<lambda>t. if t = ''vec_embeddings'' then [''node_id'', ''embedding''] else pd_columns small_profile t),
     pd_vec_sql := Some (vec_schema_sql 1), pd_vec_rows := [(Some ''n'', Some 4)]\<rparr>"

definition quiet_audit :: audit_env where
  "quiet_audit = \<lparr>ae_admission = None, ae_release = None, ae_is_file = True, ae_sizes = [4096], ae_tempdir = None,
     ae_copy = (\<lambda>_. None), ae_open = None, ae_journal = ''delete'', ae_cleanup = None, ae_loads = True, ae_fault = (\<lambda>_. None),
     ae_norm = (\<lambda>_. 1)\<rparr>"

lemma quiet_faultless: "faultless quiet_audit"
  by (simp add: faultless_def quiet_audit_def)

lemma audited_profile_sound: "auditable (ae_norm quiet_audit) audited_profile ''m'' 1"
proof -
  have one: "int_of_str ''1'' = Some 1" and ok: "py_lower ''ok'' = ''ok''" by code_simp+
  have v: "is_supported_vec_ddl (vec_schema_sql 1)" "search_dimension (vec_schema_sql 1) = Some 1"
    using vec_schema_matches [of 1] by simp_all
  have 1: "schema_sound audited_profile"
    by (simp add: schema_sound_def audited_profile_def small_profile_def ok)
  have 2: "identity_sound audited_profile ''m'' 1"
    by (simp add: identity_sound_def audited_profile_def small_profile_def one)
  have 3: "vectors_sound audited_profile ''m'' 1"
    by (simp add: vectors_sound_def audited_profile_def small_profile_def falsy_text_def blob_length_def)
  have 4: "vec_entries_sound audited_profile 1"
    by (simp add: vec_entries_sound_def vec_table_sound_def audited_profile_def small_profile_def v)
  have 5: "content_sound (\<lambda>_. 1) audited_profile"
    by (simp add: content_sound_def audited_profile_def small_profile_def finite_vector_def f32_def Let_def
        orphan_embeddings_def has_node_def nodes_without_embeddings_def permanent_and_decayed_def coalesce0_def
        orphan_edges_def self_edges_def List.map_filter_def)
  have 6: "distinct (map fst (pd_meta audited_profile))" "costs_ok vector_cost (pd_embeddings audited_profile)"
    by (simp_all add: audited_profile_def small_profile_def costs_ok_def vector_cost_def MAX_VECTOR_BYTES_def)
  show ?thesis using 1 2 3 4 5 6 by (simp add: auditable_def quiet_audit_def)
qed

lemma audited_profile_fits: "verify_rows audited_profile + inspect_rows audited_profile \<le> 100000"
    "sum_list (ae_sizes quiet_audit) + inspect_bytes audited_profile \<le> 64 * 1024 * 1024"
  by (simp_all add: verify_rows_def inspect_rows_def schema_rows_def inspect_bytes_def audited_profile_def
      small_profile_def quiet_audit_def meta_rows_def REQUIRED_META_def REQUIRED_TABLES_def REQUIRED_NODE_COLUMNS_def
      REQUIRED_EMBEDDING_COLUMNS_def REQUIRED_EDGE_COLUMNS_def unexpected_tables_def permanent_core_def row_limit_def
      total_cost_def vector_cost_def MAX_VECTOR_BYTES_def vec_cost_def)

lemma audited_profile_ok:
  "\<exists>report. audit_integrity quiet_audit (\<lambda>_. 0) 5 audited_profile = Inr report \<and> rp_status report = ''ok''"
  by (rule sound_profile_ok [OF quiet_faultless audited_profile_sound _ audited_profile_fits]) simp

theorem audit_accepts_sound_profile_witness:
  "\<exists>report. audit_integrity quiet_audit (\<lambda>_. 0) 5 audited_profile = Inr report \<and> rp_status report = ''ok''"
  by (rule audit_accepts_sound_profile [OF quiet_faultless audited_profile_sound _ audited_profile_fits]) simp

theorem audit_ok_sound_witness:
  "(\<exists>report. audit_integrity quiet_audit (\<lambda>_. 0) 5 audited_profile = Inr report \<and> rp_status report = ''ok'') \<and>
   content_sound (\<lambda>_. 1) audited_profile"
proof -
  obtain report where r: "audit_integrity quiet_audit (\<lambda>_. 0) 5 audited_profile = Inr report" "rp_status report = ''ok''"
    using audited_profile_ok by blast
  show ?thesis using audit_ok_sound [OF r] r by (auto simp: quiet_audit_def)
qed

theorem audit_within_budget_witness:
  "\<exists>report. audit_integrity quiet_audit (\<lambda>_. 0) 5 audited_profile = Inr report \<and> limits_ok report \<and>
     rp_status report = ''ok''"
proof -
  obtain report where r: "audit_integrity quiet_audit (\<lambda>_. 0) 5 audited_profile = Inr report" "rp_status report = ''ok''"
    using audited_profile_ok by blast
  show ?thesis using audit_within_budget [OF r(1)] r by blast
qed

end
