(* ===== verification/Framing.thy ===== *)
theory Framing
  imports Prelude "HOL-Library.Word"
begin

text \<open>
  The wire between the embedding supervisor and its worker process
  (\<^verbatim>\<open>embedding_process.py\<close> and \<^verbatim>\<open>embedding_worker.py\<close>): frames with a four-byte length
  over a stream socket, and the size of a request.

  A stream is the list of the bytes that were written and not yet read. The kernel
  hands out and takes bytes in pieces of its own choice and the supervisor's
  non-blocking socket may refuse for the moment; a list of such events says what
  happens up to the deadline, so a list that has run out is the deadline.
\<close>

section \<open>Length prefix\<close>

type_synonym bytes = "8 word list"

definition MAX_FRAME :: nat where
  "MAX_FRAME = 16 * 1024 * 1024"

text \<open>\<^verbatim>\<open>struct.Struct("!I")\<close>: four bytes, the most significant one first.\<close>

definition pack_length :: "nat \<Rightarrow> bytes" where
  "pack_length n = [of_nat (n div 2 ^ 24), of_nat (n div 2 ^ 16), of_nat (n div 2 ^ 8), of_nat n]"

fun unpack_length :: "bytes \<Rightarrow> nat" where
  "unpack_length [a, b, c, d] = unat a * 2 ^ 24 + unat b * 2 ^ 16 + unat c * 2 ^ 8 + unat d"
| "unpack_length _ = 0"

lemma unat_byte: "unat (of_nat n :: 8 word) = n mod 256"
  by (simp add: unat_of_nat)

lemma length_pack [simp]: "length (pack_length n) = 4"
  by (simp add: pack_length_def)

lemma base_256:
  "a * 256 + x = b \<Longrightarrow> b * 256 + y = c \<Longrightarrow> c * 256 + z = n \<Longrightarrow>
     a * 16777216 + x * 65536 + y * 256 + z = n" for n :: nat
  by auto

lemma unpack_pack: "n < 2 ^ 32 \<Longrightarrow> unpack_length (pack_length n) = n"
proof -
  assume n: "n < 2 ^ 32"
  have "n div 16777216 * 256 + n div 65536 mod 256 = n div 65536"
    using div_mult_mod_eq [of "n div 65536" 256] div_mult2_eq [of n 65536 256] by simp
  moreover have "n div 65536 * 256 + n div 256 mod 256 = n div 256"
    using div_mult_mod_eq [of "n div 256" 256] div_mult2_eq [of n 256 256] by simp
  moreover have "n div 256 * 256 + n mod 256 = n" by simp
  ultimately have "n div 16777216 * 16777216 + n div 65536 mod 256 * 65536 + n div 256 mod 256 * 256 + n mod 256 = n"
    by (intro base_256)
  moreover have "n div 16777216 mod 256 = n div 16777216" using n by (simp add: less_mult_imp_div_less)
  ultimately show ?thesis by (simp add: pack_length_def unat_byte)
qed

section \<open>Failures\<close>

datatype EmbeddingFailure = BUSY | STARTUP | TIMEOUT | EXITED | PROTOCOL | CLOSED | OWNED

text \<open>
  What the exchange may raise: the payload-free failure of the boundary, an error
  of the socket, or a value that does not parse.
\<close>

datatype wire_error = Unavailable EmbeddingFailure | Socket_error | Bad_value

section \<open>The supervisor's side\<close>

datatype recv_event = Readable nat | Recv_blocked | Recv_error

record in_channel =
  ch_in :: bytes
  ch_recv :: "recv_event list"

text \<open>
  \<^verbatim>\<open>_read_exact\<close>. \<^verbatim>\<open>recv\<close> on a readable socket answers at least one byte, or none when the
  peer has closed it.
\<close>

function read_exact :: "nat \<Rightarrow> in_channel \<Rightarrow> in_channel \<times> (wire_error + bytes)" where
  "read_exact n c =
     (if n = 0 then (c, Inr [])
      else case ch_recv c of
        [] \<Rightarrow> (c, Inl (Unavailable TIMEOUT))
      | Recv_blocked # es \<Rightarrow> read_exact n (c\<lparr>ch_recv := es\<rparr>)
      | Recv_error # es \<Rightarrow> (c\<lparr>ch_recv := es\<rparr>, Inl Socket_error)
      | Readable k # es \<Rightarrow>
          let chunk = take (min n (Suc k)) (ch_in c);
              c = c\<lparr>ch_in := drop (min n (Suc k)) (ch_in c), ch_recv := es\<rparr>
          in if chunk = [] then (c, Inl (Unavailable EXITED))
             else (case read_exact (n - length chunk) c of
                     (c1, Inl e) \<Rightarrow> (c1, Inl e)
                   | (c1, Inr bs) \<Rightarrow> (c1, Inr (chunk @ bs))))"
  by pat_completeness auto

termination
  by (relation "measure (\<lambda>(_, c). length (ch_recv c))") auto

declare read_exact.simps [simp del]

definition receive :: "in_channel \<Rightarrow> in_channel \<times> (wire_error + bytes)" where
  "receive c =
     (case read_exact 4 c of
        (c1, Inl e) \<Rightarrow> (c1, Inl e)
      | (c1, Inr h) \<Rightarrow>
          if unpack_length h > MAX_FRAME then (c1, Inl (Unavailable PROTOCOL))
          else read_exact (unpack_length h) c1)"

datatype send_event = Writable nat | Send_blocked | Send_error

text \<open>\<^verbatim>\<open>_send\<close>: the result is what reached the stream, and the failure if there is one.\<close>

fun send_all :: "bytes \<Rightarrow> send_event list \<Rightarrow> bytes \<times> (wire_error + unit)" where
  "send_all [] es = ([], Inr ())"
| "send_all (b # pending) [] = ([], Inl (Unavailable TIMEOUT))"
| "send_all (b # pending) (Send_blocked # es) = send_all (b # pending) es"
| "send_all (b # pending) (Send_error # es) = ([], Inl Socket_error)"
| "send_all (b # pending) (Writable sent # es) =
     (if sent = 0 then ([], Inl (Unavailable EXITED))
      else (case send_all (drop sent (b # pending)) es of
              (out, r) \<Rightarrow> (take sent (b # pending) @ out, r)))"

definition send_frame :: "bool \<Rightarrow> bytes \<Rightarrow> send_event list \<Rightarrow> bytes \<times> (wire_error + unit)" where
  "send_frame has_channel payload es =
     (if length payload > MAX_FRAME \<or> \<not> has_channel then ([], Inl (Unavailable PROTOCOL))
      else send_all (pack_length (length payload) @ payload) es)"

section \<open>The worker's side\<close>

text \<open>
  \<^verbatim>\<open>_read_exact\<close> on the blocking socket: \<open>ks\<close> are the sizes of the pieces; when it has run
  out the peer sends nothing more, and the answer is the end of the stream.
\<close>

datatype worker_error = EOFError | ValueError

fun worker_read_exact :: "nat \<Rightarrow> bytes \<Rightarrow> nat list \<Rightarrow> (bytes \<times> nat list) \<times> (worker_error + bytes)" where
  "worker_read_exact n s [] = ((s, []), if n = 0 then Inr [] else Inl EOFError)"
| "worker_read_exact n s (k # ks) =
     (if n = 0 then ((s, k # ks), Inr [])
      else
        let chunk = take (min n (Suc k)) s; s = drop (min n (Suc k)) s
        in if chunk = [] then ((s, ks), Inl EOFError)
           else (case worker_read_exact (n - length chunk) s ks of
                   (c, Inl e) \<Rightarrow> (c, Inl e)
                 | (c, Inr bs) \<Rightarrow> (c, Inr (chunk @ bs))))"

definition worker_receive :: "bytes \<Rightarrow> nat list \<Rightarrow> (bytes \<times> nat list) \<times> (worker_error + bytes)" where
  "worker_receive s ks =
     (case worker_read_exact 4 s ks of
        (c, Inl e) \<Rightarrow> (c, Inl e)
      | ((s1, ks1), Inr h) \<Rightarrow>
          if unpack_length h > MAX_FRAME then ((s1, ks1), Inl ValueError)
          else worker_read_exact (unpack_length h) s1 ks1)"

definition worker_send :: "bytes \<Rightarrow> worker_error + bytes" where
  "worker_send payload =
     (if length payload > MAX_FRAME then Inl ValueError else Inr (pack_length (length payload) @ payload))"

section \<open>Frames survive any fragmentation\<close>

definition frame :: "bytes \<Rightarrow> bytes" where
  "frame payload = pack_length (length payload) @ payload"

lemma chunk_split:
  assumes "length rest = n - length (take m s)" "drop m s = rest @ s'" "m \<le> n"
  shows "length (take m s @ rest) = n \<and> s = (take m s @ rest) @ s'"
proof -
  have "(take m s @ rest) @ s' = take m s @ drop m s" using assms(2) by simp
  then show ?thesis using assms(1,3) by simp
qed

lemma read_exact_sound:
  "read_exact n c = (c', Inr bs) \<Longrightarrow> length bs = n \<and> ch_in c = bs @ ch_in c'"
proof (induction n c arbitrary: c' bs rule: read_exact.induct)
  case (1 n c)
  show ?case
  proof (cases "n = 0")
    case True
    then show ?thesis using "1.prems" by (simp add: read_exact.simps)
  next
    case n: False
    show ?thesis
    proof (cases "ch_recv c")
      case (Cons e es)
      show ?thesis
      proof (cases e)
        case (Readable k)
        let ?m = "min n (Suc k)"
        let ?c = "c\<lparr>ch_in := drop ?m (ch_in c), ch_recv := es\<rparr>"
        obtain c1 r where r: "read_exact (n - length (take ?m (ch_in c))) ?c = (c1, r)" by fastforce
        have ne: "take ?m (ch_in c) \<noteq> []" and eq: "\<exists>rest. r = Inr rest \<and> c1 = c' \<and> bs = take ?m (ch_in c) @ rest"
          using "1.prems" n Cons Readable r
          by (auto simp: read_exact.simps [of n c] Let_def split: if_splits sum.splits)
        then obtain rest where rest: "r = Inr rest" "c1 = c'" "bs = take ?m (ch_in c) @ rest" by blast
        have ih: "length rest = n - length (take ?m (ch_in c))" "ch_in ?c = rest @ ch_in c'"
          using "1.IH"(1) [OF n Cons Readable refl refl ne r [unfolded rest(1,2)]] by blast+
        show ?thesis unfolding rest(3) by (rule chunk_split) (use ih in simp_all)
      qed (use "1.prems" "1.IH"(2) [OF n Cons] n Cons in \<open>auto simp: read_exact.simps [of n c]\<close>)
    qed (use "1.prems" n in \<open>simp add: read_exact.simps [of n c]\<close>)
  qed
qed

lemma worker_read_exact_sound:
  "worker_read_exact n s ks = ((s', ks'), Inr bs) \<Longrightarrow> length bs = n \<and> s = bs @ s'"
proof (induction n s ks arbitrary: s' ks' bs rule: worker_read_exact.induct)
  case (2 n s k ks)
  show ?case
  proof (cases "n = 0")
    case n: False
    let ?m = "min n (Suc k)"
    obtain c r where r: "worker_read_exact (n - length (take ?m s)) (drop ?m s) ks = (c, r)" by fastforce
    have ne: "take ?m s \<noteq> []" and eq: "\<exists>rest. r = Inr rest \<and> c = (s', ks') \<and> bs = take ?m s @ rest"
      using "2.prems" n r by (auto simp: Let_def split: if_splits sum.splits)
    then obtain rest where rest: "r = Inr rest" "c = (s', ks')" "bs = take ?m s @ rest" by blast
    have ih: "length rest = n - length (take ?m s)" "drop ?m s = rest @ s'"
      using "2.IH" [OF n refl refl ne r [unfolded rest(1,2)]] by blast+
    show ?thesis unfolding rest(3) by (rule chunk_split) (use ih in simp_all)
  qed (use "2.prems" in simp)
qed (simp split: if_splits)

lemma send_all_prefix:
  "send_all bs es = (out, r) \<Longrightarrow> (\<exists>rest. bs = out @ rest) \<and> (r = Inr () \<longrightarrow> out = bs)"
proof (induction bs es arbitrary: out r rule: send_all.induct)
  case (5 b pending sent es)
  show ?case
  proof (cases "sent = 0")
    case False
    obtain o' r' where o: "send_all (drop sent (b # pending)) es = (o', r')" by fastforce
    then have out: "out = take sent (b # pending) @ o'" "r = r'" using "5.prems" False by auto
    obtain rest where rest: "drop sent (b # pending) = o' @ rest" and all: "r' = Inr () \<longrightarrow> o' = drop sent (b # pending)"
      using "5.IH" [OF False o] by blast
    have "b # pending = out @ rest"
      using append_take_drop_id [of sent "b # pending"] out(1) rest by simp
    moreover have "r = Inr () \<longrightarrow> out = b # pending"
      using all out append_take_drop_id [of sent "b # pending"] by simp
    ultimately show ?thesis by blast
  qed (use "5.prems" in auto)
qed auto

definition readables :: "recv_event list \<Rightarrow> nat" where
  "readables es = length (filter (\<lambda>e. \<exists>k. e = Readable k) es)"

lemma readables_simps [simp]:
  "readables [] = 0" "readables (Readable k # es) = Suc (readables es)" "readables (Recv_blocked # es) = readables es"
  by (simp_all add: readables_def)

lemma read_exact_total:
  assumes "n \<le> length (ch_in c)" "n \<le> readables (ch_recv c)" "Recv_error \<notin> set (ch_recv c)"
  shows "\<exists>c' bs. read_exact n c = (c', Inr bs) \<and> readables (ch_recv c) \<le> readables (ch_recv c') + n \<and>
    Recv_error \<notin> set (ch_recv c')"
  using assms
proof (induction n c rule: read_exact.induct)
  case (1 n c)
  show ?case
  proof (cases "n = 0")
    case True
    then show ?thesis using "1.prems"(3) by (simp add: read_exact.simps)
  next
    case n: False
    then obtain e es where es: "ch_recv c = e # es" using "1.prems"(2) by (cases "ch_recv c") auto
    show ?thesis
    proof (cases e)
      case (Readable k)
      let ?m = "min n (Suc k)"
      let ?c = "c\<lparr>ch_in := drop ?m (ch_in c), ch_recv := es\<rparr>"
      have len: "length (take ?m (ch_in c)) = ?m" using "1.prems"(1) by simp
      have ne: "take ?m (ch_in c) \<noteq> []" using n "1.prems"(1) by auto
      have bounds: "n - ?m \<le> length (ch_in ?c)" "n - ?m \<le> readables (ch_recv ?c)" "Recv_error \<notin> set (ch_recv ?c)"
        using "1.prems" n es Readable by auto
      obtain c' bs where "read_exact (n - ?m) ?c = (c', Inr bs)" "readables es \<le> readables (ch_recv c') + (n - ?m)"
        "Recv_error \<notin> set (ch_recv c')"
        using "1.IH"(1) [OF n es Readable refl refl ne] bounds unfolding len by auto
      moreover from this(1) have "read_exact n c = (c', Inr (take ?m (ch_in c) @ bs))"
        using n ne by (simp only: read_exact.simps [of n c] es Readable Let_def len if_False prod.case sum.case
            list.case recv_event.case)
      moreover have "Suc (n - ?m) \<le> n" using n by simp
      ultimately show ?thesis using es Readable by fastforce
    next
      case Recv_blocked
      have "readables es = readables (ch_recv c)" using es Recv_blocked by simp
      then show ?thesis
        using "1.IH"(2) [OF n es Recv_blocked] "1.prems" n es Recv_blocked by (simp add: read_exact.simps [of n c])
    qed (use "1.prems"(3) es in simp)
  qed
qed

lemma worker_read_exact_total:
  assumes "n \<le> length s" "n \<le> length ks"
  shows "\<exists>s' ks' bs. worker_read_exact n s ks = ((s', ks'), Inr bs) \<and> length ks \<le> length ks' + n"
  using assms
proof (induction n s ks rule: worker_read_exact.induct)
  case (2 n s k ks)
  show ?case
  proof (cases "n = 0")
    case n: False
    let ?m = "min n (Suc k)"
    have len: "length (take ?m s) = ?m" using "2.prems"(1) by simp
    have ne: "take ?m s \<noteq> []" using n "2.prems"(1) by auto
    have bounds: "n - ?m \<le> length (drop ?m s)" "n - ?m \<le> length ks" using "2.prems" n by auto
    obtain s' ks' bs where "worker_read_exact (n - ?m) (drop ?m s) ks = ((s', ks'), Inr bs)"
      "length ks \<le> length ks' + (n - ?m)"
      using "2.IH" [OF n refl refl ne] bounds unfolding len by auto
    moreover from this(1) have "worker_read_exact n s (k # ks) = ((s', ks'), Inr (take ?m s @ bs))"
      using n ne by (simp only: worker_read_exact.simps Let_def len if_False prod.case sum.case)
    moreover have "Suc (n - ?m) \<le> n" using n by simp
    ultimately show ?thesis by fastforce
  qed simp
qed simp

text \<open>Reading a frame takes exactly the frame, whatever follows it.\<close>

lemma read_exact_frame:
  assumes "ch_in c = bs @ rest" "length bs \<le> readables (ch_recv c)" "Recv_error \<notin> set (ch_recv c)"
  shows "\<exists>c'. read_exact (length bs) c = (c', Inr bs) \<and> ch_in c' = rest \<and>
    readables (ch_recv c) \<le> readables (ch_recv c') + length bs \<and> Recv_error \<notin> set (ch_recv c')"
proof -
  obtain c' bs' where r: "read_exact (length bs) c = (c', Inr bs')"
    "readables (ch_recv c) \<le> readables (ch_recv c') + length bs" "Recv_error \<notin> set (ch_recv c')"
    using read_exact_total [OF _ assms(2,3)] assms(1) by (metis length_append le_add1)
  have "length bs = length bs'" "bs @ rest = bs' @ ch_in c'" using read_exact_sound [OF r(1)] unfolding assms(1) by auto
  then have "bs' = bs" "ch_in c' = rest" using append_eq_append_conv [of bs bs' rest "ch_in c'"] by blast+
  then show ?thesis using r by blast
qed

lemma worker_read_exact_frame:
  assumes "length bs \<le> length ks"
  shows "\<exists>ks'. worker_read_exact (length bs) (bs @ rest) ks = ((rest, ks'), Inr bs) \<and> length ks \<le> length ks' + length bs"
proof -
  obtain s' ks' bs' where r: "worker_read_exact (length bs) (bs @ rest) ks = ((s', ks'), Inr bs')"
    "length ks \<le> length ks' + length bs"
    using worker_read_exact_total [OF _ assms] by (metis length_append le_add1)
  have "length bs = length bs'" "bs @ rest = bs' @ s'" using worker_read_exact_sound [OF r(1)] by auto
  then have "bs' = bs" "s' = rest" using append_eq_append_conv [of bs bs' rest s'] by blast+
  then show ?thesis using r by blast
qed

lemma unpack_frame [simp]: "n \<le> MAX_FRAME \<Longrightarrow> unpack_length (pack_length n) = n"
  by (rule unpack_pack) (simp add: MAX_FRAME_def)

lemma receive_frame:
  assumes "length p \<le> MAX_FRAME" "ch_in c = frame p @ rest" "length (frame p) \<le> readables (ch_recv c)"
    "Recv_error \<notin> set (ch_recv c)"
  shows "\<exists>c'. receive c = (c', Inr p) \<and> ch_in c' = rest"
proof -
  obtain c1 where 1: "read_exact 4 c = (c1, Inr (pack_length (length p)))" "ch_in c1 = p @ rest"
    "readables (ch_recv c) \<le> readables (ch_recv c1) + 4" "Recv_error \<notin> set (ch_recv c1)"
    using read_exact_frame [of c "pack_length (length p)" "p @ rest"] assms by (auto simp: frame_def)
  have "length p \<le> readables (ch_recv c1)" using 1(3) assms(3) by (simp add: frame_def)
  then obtain c2 where "read_exact (length p) c1 = (c2, Inr p)" "ch_in c2 = rest"
    using read_exact_frame [OF 1(2) _ 1(4)] by blast
  then show ?thesis using 1(1) assms(1) by (simp add: receive_def unpack_frame)
qed

lemma worker_receive_frame:
  assumes "length p \<le> MAX_FRAME" "length (frame p) \<le> length ks"
  shows "\<exists>ks'. worker_receive (frame p @ rest) ks = ((rest, ks'), Inr p)"
proof -
  obtain ks1 where 1: "worker_read_exact 4 (frame p @ rest) ks = ((p @ rest, ks1), Inr (pack_length (length p)))"
    "length ks \<le> length ks1 + 4"
    using worker_read_exact_frame [of "pack_length (length p)" ks "p @ rest"] assms(2) by (auto simp: frame_def)
  have "length p \<le> length ks1" using 1(2) assms(2) by (simp add: frame_def)
  then obtain ks2 where "worker_read_exact (length p) (p @ rest) ks1 = ((rest, ks2), Inr p)"
    using worker_read_exact_frame by blast
  then show ?thesis using 1(1) assms(1) by (simp add: worker_receive_def unpack_frame)
qed

text \<open>
  C24: A frame arrives as it was sent, in both directions and for every
  fragmentation. A payload the supervisor sent completely is what the worker's next
  receive answers, and a payload the worker sent is what the supervisor's next
  receive answers when enough pieces arrive before the deadline; exactly the frame
  is taken from the stream, whatever follows it.
\<close>

theorem frame_roundtrip:
  assumes "length payload \<le> MAX_FRAME"
  shows "(send_frame True payload es = (out, Inr ()) \<longrightarrow> length out \<le> length ks \<longrightarrow>
      (\<exists>ks'. worker_receive (out @ rest) ks = ((rest, ks'), Inr payload))) \<and>
    (worker_send payload = Inr out \<longrightarrow> ch_in c = out @ rest \<longrightarrow> length out \<le> readables (ch_recv c) \<longrightarrow>
      Recv_error \<notin> set (ch_recv c) \<longrightarrow> (\<exists>c'. receive c = (c', Inr payload) \<and> ch_in c' = rest))"
proof (intro conjI impI)
  assume s: "send_frame True payload es = (out, Inr ())" "length out \<le> length ks"
  then have "out = frame payload"
    using send_all_prefix [of "frame payload" es out "Inr ()"] assms by (simp add: send_frame_def frame_def)
  then show "\<exists>ks'. worker_receive (out @ rest) ks = ((rest, ks'), Inr payload)"
    using worker_receive_frame [OF assms] s(2) by simp
next
  assume "worker_send payload = Inr out" "ch_in c = out @ rest" "length out \<le> readables (ch_recv c)"
    "Recv_error \<notin> set (ch_recv c)"
  moreover from this(1) have "out = frame payload" using assms by (simp add: worker_send_def frame_def)
  ultimately show "\<exists>c'. receive c = (c', Inr payload) \<and> ch_in c' = rest"
    using receive_frame [OF assms] by blast
qed

theorem frame_roundtrip_witness:
  "send_frame True [7, 8] [Writable 3, Send_blocked, Writable 9] = ([0, 0, 0, 2, 7, 8], Inr ()) \<and>
   (\<exists>ks'. worker_receive ([0, 0, 0, 2, 7, 8] @ [1]) [0, 5, 0, 0, 0, 0] = (([1], ks'), Inr [7, 8]))"
proof -
  have s: "send_frame True [7, 8] [Writable 3, Send_blocked, Writable 9] = ([0, 0, 0, 2, 7, 8], Inr ())"
    by (simp add: send_frame_def MAX_FRAME_def pack_length_def)
  then show ?thesis
    using frame_roundtrip [of "[7, 8]" "[Writable 3, Send_blocked, Writable 9]" "[0, 0, 0, 2, 7, 8]" "[0, 5, 0, 0, 0, 0]" "[1]"]
    by (simp add: MAX_FRAME_def)
qed

end
