(* ===== verification/Protocol.thy ===== *)
theory Protocol
  imports Framing Floats
begin

text \<open>
  What travels in the frames (\<^verbatim>\<open>embedding_process.py\<close>, \<^verbatim>\<open>embedding_worker.py\<close>): the checks of a
  request before it is sent and their bound on its size, the worker's start, its
  checks of a request and its reply, and the supervisor's checks of the worker's
  hello and of the reply.

  A message is its dictionary; the text of a request is written out because its
  length is what the frame limit is about.
\<close>

section \<open>Devices\<close>

definition DEFAULT_EMBEDDING_DEVICE :: string where
  "DEFAULT_EMBEDDING_DEVICE = ''cpu''"

text \<open>\<open>None\<close> and the empty string are the values that are not true.\<close>

definition normalize_embedding_device :: "string option \<Rightarrow> string" where
  "normalize_embedding_device device =
     (let normalized = py_lower (py_strip (case device of
            None \<Rightarrow> DEFAULT_EMBEDDING_DEVICE
          | Some s \<Rightarrow> if s = [] then DEFAULT_EMBEDDING_DEVICE else s))
      in if normalized = [] then DEFAULT_EMBEDDING_DEVICE else normalized)"

section \<open>Comparison with a number\<close>

text \<open>\<^verbatim>\<open>x == n\<close> for an integer \<open>n\<close>: a Boolean is a number and a float compares by value.\<close>

fun eq_int :: "pyval \<Rightarrow> int \<Rightarrow> bool" where
  "eq_int (PInt i) n = (i = n)"
| "eq_int (PBool b) n = (n = of_bool b)"
| "eq_int (PFloat (Fin r)) n = (r = of_int n)"
| "eq_int _ n = False"

section \<open>Requests\<close>

definition MAX_DIMENSION :: int where
  "MAX_DIMENSION = 65536"

definition ENCODE_ENVELOPE_BYTES :: nat where
  "ENCODE_ENVELOPE_BYTES = 1024"

text \<open>\<^verbatim>\<open>json.dumps(text, ensure_ascii=True)\<close>.\<close>

definition hex_digit :: "nat \<Rightarrow> char" where
  "hex_digit n = char_of (if n < 10 then 48 + n else 87 + n)"

definition json_char :: "char \<Rightarrow> string" where
  "json_char c =
     (let n = (of_char c :: nat)
      in if c = CHR 0x22 then [CHR 0x5C, CHR 0x22]
         else if c = CHR 0x5C then [CHR 0x5C, CHR 0x5C]
         else if n = 10 then [CHR 0x5C, CHR ''n'']
         else if n = 13 then [CHR 0x5C, CHR ''r'']
         else if n = 9 then [CHR 0x5C, CHR ''t'']
         else if n = 12 then [CHR 0x5C, CHR ''f'']
         else if n = 8 then [CHR 0x5C, CHR ''b'']
         else if 32 \<le> n \<and> n < 127 then [c]
         else [CHR 0x5C, CHR ''u'', CHR ''0'', CHR ''0'', hex_digit (n div 16), hex_digit (n mod 16)])"

definition json_str :: "string \<Rightarrow> string" where
  "json_str s = CHR 0x22 # concat (map json_char s) @ [CHR 0x22]"

text \<open>The elements of an array, with commas between them.\<close>

fun json_items :: "string list \<Rightarrow> string" where
  "json_items [] = []"
| "json_items [t] = json_str t"
| "json_items (t # ts) = json_str t @ CHR '','' # json_items ts"

definition json_request :: "string \<Rightarrow> string \<Rightarrow> string list \<Rightarrow> string" where
  "json_request generation request_id texts =
     ''{'' @ json_str ''op'' @ '':'' @ json_str ''encode'' @ '','' @ json_str ''version'' @ '':1,'' @
     json_str ''generation'' @ '':'' @ json_str generation @ '','' @
     json_str ''request_id'' @ '':'' @ json_str request_id @ '','' @
     json_str ''texts'' @ '':['' @ json_items texts @ '']}''"

definition request_dict :: "string \<Rightarrow> string \<Rightarrow> string list \<Rightarrow> pydict" where
  "request_dict generation request_id texts =
     [(''op'', PStr ''encode''), (''version'', PInt 1), (''generation'', PStr generation),
      (''request_id'', PStr request_id), (''texts'', PList (map PStr texts))]"

definition MAX_TEXT_BYTES :: int where
  "MAX_TEXT_BYTES = 1048576"

text \<open>The loop of \<^verbatim>\<open>encode\<close> over the texts with its running estimate.\<close>

fun check_texts :: "bool \<Rightarrow> nat \<Rightarrow> pyval list \<Rightarrow> EmbeddingFailure + string list" where
  "check_texts first est [] = Inr []"
| "check_texts first est (PStr t # ts) =
     (if utf8_length t > MAX_TEXT_BYTES then Inl PROTOCOL
      else
        let est = est + length (json_str t) + (if first then 0 else 1)
        in if est > MAX_FRAME then Inl PROTOCOL
           else (case check_texts False est ts of Inl f \<Rightarrow> Inl f | Inr us \<Rightarrow> Inr (t # us)))"
| "check_texts first est (_ # ts) = Inl PROTOCOL"

text \<open>\<^verbatim>\<open>encode\<close> up to the request, for a batch that is not empty; the text is what is sent.\<close>

definition encode_request ::
    "string \<Rightarrow> string \<Rightarrow> pyval list \<Rightarrow> EmbeddingFailure + (string \<times> pydict \<times> nat)" where
  "encode_request generation request_id texts =
     (if length texts > 100 then Inl PROTOCOL
      else case check_texts True ENCODE_ENVELOPE_BYTES texts of
        Inl f \<Rightarrow> Inl f
      | Inr ts \<Rightarrow>
          let payload = json_request generation request_id ts
          in if length payload > MAX_FRAME then Inl PROTOCOL
             else Inr (payload, request_dict generation request_id ts, length ts))"

section \<open>The worker\<close>

record worker_args =
  wa_generation :: string
  wa_model :: string
  wa_device :: string
  wa_dimension :: int

text \<open>
  The model library: whether a model loads on a device (\<open>None\<close> is the library's own
  choice), the device the loaded model reports, and its dimension, if it has one.
\<close>

record model_env =
  me_loads :: "string option \<Rightarrow> bool"
  me_reported :: "string option"
  me_dimension :: "int option"

text \<open>The start of \<^verbatim>\<open>main\<close>: the effective device and the dimension; \<open>None\<close> is an exception.\<close>

definition worker_start :: "model_env \<Rightarrow> worker_args \<Rightarrow> (string \<times> int) option" where
  "worker_start me args =
     (let requested = (if wa_device args = ''auto'' then None else Some (wa_device args));
          loaded = (if me_loads me requested then Some (wa_device args)
                    else if wa_device args = ''cpu'' then None
                    else if me_loads me (Some ''cpu'') then Some ''cpu'' else None)
      in case (loaded, me_dimension me) of
           (Some effective, Some dimension) \<Rightarrow>
             if \<not> (0 < dimension \<and> dimension \<le> MAX_DIMENSION) then None
             else if wa_dimension args > 0 \<and> dimension \<noteq> wa_dimension args then None
             else Some ((if wa_device args = ''auto'' then
                           (case me_reported me of None \<Rightarrow> effective | Some r \<Rightarrow> r) else effective), dimension)
         | _ \<Rightarrow> None)"

definition hello_message :: "worker_args \<Rightarrow> string \<Rightarrow> int \<Rightarrow> pydict" where
  "hello_message args effective dimension =
     [(''op'', PStr ''hello''), (''version'', PInt 1), (''generation'', PStr (wa_generation args)),
      (''model'', PStr (wa_model args)), (''requested_device'', PStr (wa_device args)),
      (''dimension'', PInt dimension), (''device'', PStr effective)]"

datatype worker_action = W_error | W_shutdown | W_encode string "string list"

definition text_ok :: "pyval \<Rightarrow> bool" where
  "text_ok t = (case t of PStr s \<Rightarrow> utf8_length s \<le> MAX_TEXT_BYTES | _ \<Rightarrow> False)"

fun the_text :: "pyval \<Rightarrow> string" where
  "the_text (PStr s) = s"
| "the_text _ = []"

text \<open>The checks of one request of the worker's loop.\<close>

definition worker_request :: "string \<Rightarrow> pydict \<Rightarrow> worker_action" where
  "worker_request generation request =
     (if dict_get request ''generation'' \<noteq> PStr generation then W_error
      else if dict_get request ''op'' = PStr ''shutdown'' then W_shutdown
      else if dict_get request ''op'' \<noteq> PStr ''encode'' \<or> \<not> eq_int (dict_get request ''version'') 1 then W_error
      else case dict_get request ''request_id'' of
        PStr request_id \<Rightarrow>
          (case dict_get request ''texts'' of
             PList texts \<Rightarrow>
               if length texts > 100 \<or> \<not> list_all text_ok texts then W_error
               else W_encode request_id (map the_text texts)
           | _ \<Rightarrow> W_error)
      | _ \<Rightarrow> W_error)"

text \<open>
  The reply to an encode request: the model's output is rows of four-byte numbers;
  a wrong shape or a number that is not finite raises.
\<close>

definition finite_floats :: "bytes \<Rightarrow> bool" where
  "finite_floats raw = (None \<notin> set (unpack_floats (map unat raw)))"

definition worker_reply ::
    "worker_args \<Rightarrow> string \<Rightarrow> int \<Rightarrow> string \<Rightarrow> nat \<Rightarrow> bytes list list \<Rightarrow> (pydict \<times> bytes) option" where
  "worker_reply args effective dimension request_id count rows =
     (let raw = concat (map concat rows)
      in if length rows \<noteq> count \<or> \<not> list_all (\<lambda>r. int (length r) = dimension \<and> list_all (\<lambda>x. length x = 4) r) rows \<or>
            \<not> finite_floats raw then None
         else Some
           ([(''op'', PStr ''vectors''), (''version'', PInt 1), (''generation'', PStr (wa_generation args)),
             (''request_id'', PStr request_id), (''count'', PInt (int count)), (''dimension'', PInt dimension),
             (''device'', PStr effective), (''bytes'', PInt (int (length raw)))], raw))"

section \<open>The supervisor's checks\<close>

text \<open>The conditions on a hello: the dimension and the device it reports, if it is accepted.\<close>

definition accept_hello ::
    "string \<Rightarrow> string \<Rightarrow> int \<Rightarrow> string \<Rightarrow> pyval \<Rightarrow> (int \<times> string) option" where
  "accept_hello generation model dimension device hello =
     (case hello of
        PDict h \<Rightarrow>
          if dict_get h ''op'' \<noteq> PStr ''hello'' \<or> \<not> eq_int (dict_get h ''version'') 1 \<or>
             dict_get h ''generation'' \<noteq> PStr generation \<or> dict_get h ''model'' \<noteq> PStr model \<or>
             dict_get h ''requested_device'' \<noteq> PStr device then None
          else (case (dict_get h ''dimension'', dict_get h ''device'') of
                  (PInt d, PStr dev) \<Rightarrow>
                    if \<not> (0 < d \<and> d \<le> MAX_DIMENSION) \<or> dimension > 0 \<and> d \<noteq> dimension \<or>
                       dev = [] \<or> length dev > 64 \<or>
                       device \<noteq> ''auto'' \<and> dev \<notin> {device, DEFAULT_EMBEDDING_DEVICE}
                    then None else Some (d, dev)
                | _ \<Rightarrow> None)
      | _ \<Rightarrow> None)"

text \<open>The conditions on a reply, and the vectors it stands for.\<close>

fun chunks :: "nat \<Rightarrow> nat \<Rightarrow> 'a list \<Rightarrow> 'a list list" where
  "chunks 0 k xs = []"
| "chunks (Suc n) k xs = take k xs # chunks n k (drop k xs)"

definition accept_reply ::
    "string \<Rightarrow> string \<Rightarrow> nat \<Rightarrow> nat \<Rightarrow> string option \<Rightarrow> pyval \<Rightarrow> bytes \<Rightarrow> real list list option" where
  "accept_reply generation request_id count dimension device header raw =
     (let expected_bytes = count * dimension * 4
      in case header of
           PDict h \<Rightarrow>
             if dict_get h ''op'' \<noteq> PStr ''vectors'' \<or> \<not> eq_int (dict_get h ''version'') 1 \<or>
                dict_get h ''generation'' \<noteq> PStr generation \<or> dict_get h ''request_id'' \<noteq> PStr request_id \<or>
                \<not> eq_int (dict_get h ''count'') (int count) \<or> \<not> eq_int (dict_get h ''dimension'') (int dimension) \<or>
                dict_get h ''device'' \<noteq> (case device of None \<Rightarrow> PNone | Some d \<Rightarrow> PStr d) \<or>
                \<not> eq_int (dict_get h ''bytes'') (int expected_bytes) \<or> length raw \<noteq> expected_bytes \<or>
                \<not> finite_floats raw
             then None
             else Some (chunks count dimension (map the (unpack_floats (map unat raw))))
         | _ \<Rightarrow> None)"

section \<open>The estimate bounds the request\<close>

lemma length_json_str: "2 \<le> length (json_str s)"
  by (simp add: json_str_def)

lemma json_char_length: "length (json_char c) \<le> 6"
  by (simp add: json_char_def Let_def)

lemma json_str_length: "length (json_str s) \<le> 2 + 6 * length s"
proof -
  have "length (concat (map json_char s)) \<le> 6 * length s"
    by (induction s) (use json_char_length in \<open>auto intro: add_mono\<close>)
  then show ?thesis by (simp add: json_str_def)
qed

lemma check_texts_estimate:
  "check_texts first est texts = Inr ts \<Longrightarrow> est \<le> MAX_FRAME \<Longrightarrow>
     texts = map PStr ts \<and> list_all (\<lambda>t. utf8_length t \<le> MAX_TEXT_BYTES) ts \<and>
     est + length (json_items ts) + (if first \<or> ts = [] then 0 else 1) \<le> MAX_FRAME"
proof (induction first est texts arbitrary: ts rule: check_texts.induct)
  case (2 first est t texts)
  let ?est = "est + length (json_str t) + (if first then 0 else 1)"
  obtain us where us: "check_texts False ?est texts = Inr us" "ts = t # us" "\<not> ?est > MAX_FRAME"
    "\<not> utf8_length t > MAX_TEXT_BYTES"
    using "2.prems"(1) by (auto simp: Let_def split: if_splits sum.splits)
  have "texts = map PStr us \<and> list_all (\<lambda>t. utf8_length t \<le> MAX_TEXT_BYTES) us \<and>
      ?est + length (json_items us) + (if us = [] then 0 else 1) \<le> MAX_FRAME"
    using "2.IH" [OF us(4) refl us(3) us(1)] us(3) by simp
  then show ?case using us by (cases us) auto
qed simp_all

lemma json_request_length:
  "length generation \<le> 32 \<Longrightarrow> length request_id \<le> 32 \<Longrightarrow>
     length (json_request generation request_id texts) \<le> ENCODE_ENVELOPE_BYTES + length (json_items texts)"
proof -
  assume a: "length generation \<le> 32" "length request_id \<le> 32"
  have k: "length (json_str ''op'') \<le> 14" "length (json_str ''encode'') \<le> 38" "length (json_str ''version'') \<le> 44"
    "length (json_str ''generation'') \<le> 62" "length (json_str ''request_id'') \<le> 62" "length (json_str ''texts'') \<le> 32"
    using json_str_length [of "''op''"] json_str_length [of "''encode''"] json_str_length [of "''version''"]
      json_str_length [of "''generation''"] json_str_length [of "''request_id''"] json_str_length [of "''texts''"]
    by simp_all
  have "length (json_str generation) \<le> 194" "length (json_str request_id) \<le> 194"
    using a json_str_length [of generation] json_str_length [of request_id] by simp_all
  then show ?thesis using k by (simp add: json_request_def ENCODE_ENVELOPE_BYTES_def)
qed

text \<open>
  The running estimate of a request bounds its real size. For a generation and
  a request identifier of at most 32 characters, a batch that passes the loop over
  its texts is always sent: the frame fits the limit, so the second test of the
  size after the encoding never refuses a request.
\<close>

theorem encode_request_fits:
  assumes "length generation \<le> 32" "length request_id \<le> 32" "length texts \<le> 100"
    "check_texts True ENCODE_ENVELOPE_BYTES texts = Inr ts"
  shows "length (json_request generation request_id ts) \<le> MAX_FRAME \<and>
    encode_request generation request_id texts =
      Inr (json_request generation request_id ts, request_dict generation request_id ts, length ts)"
proof -
  have "ENCODE_ENVELOPE_BYTES + length (json_items ts) \<le> MAX_FRAME"
    using check_texts_estimate [OF assms(4)] by (simp add: ENCODE_ENVELOPE_BYTES_def MAX_FRAME_def)
  then have "length (json_request generation request_id ts) \<le> MAX_FRAME"
    using json_request_length [OF assms(1,2), of ts] by simp
  then show ?thesis using assms(3,4) by (simp add: encode_request_def Let_def)
qed

theorem encode_request_fits_witness:
  "length (json_request ''g'' ''r'' [''hi'', ''there'']) \<le> MAX_FRAME \<and>
   encode_request ''g'' ''r'' [PStr ''hi'', PStr ''there''] =
     Inr (json_request ''g'' ''r'' [''hi'', ''there''], request_dict ''g'' ''r'' [''hi'', ''there''], 2)"
proof -
  have j: "length (json_str ''hi'') \<le> 14" "length (json_str ''there'') \<le> 32"
    using json_str_length [of "''hi''"] json_str_length [of "''there''"] by simp_all
  have u: "utf8_length ''hi'' \<le> MAX_TEXT_BYTES" "utf8_length ''there'' \<le> MAX_TEXT_BYTES"
    by (simp_all add: utf8_length_def MAX_TEXT_BYTES_def)
  have "check_texts True ENCODE_ENVELOPE_BYTES [PStr ''hi'', PStr ''there''] = Inr [''hi'', ''there'']"
    using j u by (simp add: Let_def ENCODE_ENVELOPE_BYTES_def MAX_FRAME_def)
  then show ?thesis using encode_request_fits [of "''g''" "''r''" "[PStr ''hi'', PStr ''there'']"] by simp
qed

section \<open>Supervisor and worker agree\<close>

lemma length_concat_const: "list_all (\<lambda>x. length x = k) xs \<Longrightarrow> length (concat xs) = length xs * k"
  by (induction xs) auto

lemma chunks_shape:
  "length xs = n * k \<Longrightarrow> length (chunks n k xs) = n \<and> (\<forall>c \<in> set (chunks n k xs). length c = k) \<and>
     concat (chunks n k xs) = xs"
  by (induction n k xs rule: chunks.induct) auto

lemma reply_length:
  assumes "list_all (\<lambda>r. int (length r) = d \<and> list_all (\<lambda>x. length x = 4) r) rows"
  shows "length (concat (map concat rows)) = length rows * nat d * 4"
proof -
  have "list_all (\<lambda>x. length x = nat d * 4) (map concat rows)"
    using assms by (auto simp: list_all_iff length_concat_const)
  then show ?thesis using length_concat_const [of "nat d * 4" "map concat rows"] by simp
qed

lemma hello_agrees:
  assumes "worker_start me args = Some (effective, n)" "effective \<noteq> []" "length effective \<le> 64"
  shows "accept_hello (wa_generation args) (wa_model args) (wa_dimension args) (wa_device args)
     (PDict (hello_message args effective n)) = Some (n, effective)"
proof -
  have "0 < n" "n \<le> MAX_DIMENSION" "wa_dimension args > 0 \<longrightarrow> n = wa_dimension args"
    "wa_device args \<noteq> ''auto'' \<longrightarrow> effective \<in> {wa_device args, ''cpu''}"
    using assms(1) by (auto simp: worker_start_def Let_def split: option.splits if_splits)
  then show ?thesis
    using assms(2,3)
    by (auto simp: accept_hello_def hello_message_def dict_get_def DEFAULT_EMBEDDING_DEVICE_def)
qed

lemma request_agrees:
  assumes "encode_request generation request_id texts = Inr (payload, req, k)"
  shows "\<exists>ts. texts = map PStr ts \<and> length ts = k \<and> worker_request generation req = W_encode request_id ts"
proof -
  obtain ts where t: "check_texts True ENCODE_ENVELOPE_BYTES texts = Inr ts" "req = request_dict generation request_id ts"
    "k = length ts" "length texts \<le> 100"
    using assms by (auto simp: encode_request_def Let_def split: if_splits sum.splits)
  have e: "texts = map PStr ts" "list_all (\<lambda>t. utf8_length t \<le> MAX_TEXT_BYTES) ts"
    using check_texts_estimate [OF t(1)] by (simp_all add: ENCODE_ENVELOPE_BYTES_def MAX_FRAME_def)
  have "list_all text_ok (map PStr ts)" using e(2) by (simp add: list_all_iff text_ok_def)
  moreover have "map (the_text \<circ> PStr) ts = ts" by (simp add: comp_def)
  ultimately show ?thesis
    using t e(1) by (simp add: worker_request_def request_dict_def dict_get_def)
qed

lemma reply_agrees:
  assumes "worker_reply args effective d request_id k rows = Some (h, raw)" "0 < d"
  shows "\<exists>vs. accept_reply (wa_generation args) request_id k (nat d) (Some effective) (PDict h) raw = Some vs \<and>
    length vs = k \<and> (\<forall>v \<in> set vs. length v = nat d)"
proof -
  have r: "raw = concat (map concat rows)" "length rows = k" "finite_floats raw"
    "list_all (\<lambda>r. int (length r) = d \<and> list_all (\<lambda>x. length x = 4) r) rows"
    "h = [(''op'', PStr ''vectors''), (''version'', PInt 1), (''generation'', PStr (wa_generation args)),
             (''request_id'', PStr request_id), (''count'', PInt (int k)), (''dimension'', PInt d),
             (''device'', PStr effective), (''bytes'', PInt (int (length raw)))]"
    using assms(1) by (auto simp: worker_reply_def Let_def split: if_splits)
  have len: "length raw = k * nat d * 4" using reply_length [OF r(4)] r(1,2) by simp
  let ?fs = "map the (unpack_floats (map unat raw))"
  have "length ?fs = k * nat d" using len by (simp add: length_unpack_floats)
  note c = chunks_shape [OF this]
  have "accept_reply (wa_generation args) request_id k (nat d) (Some effective) (PDict h) raw =
      Some (chunks k (nat d) ?fs)"
    using r(3) len assms(2) by (simp add: accept_reply_def r(5) dict_get_def Let_def)
  then show ?thesis using c by blast
qed


definition sample_args :: worker_args where
  "sample_args = \<lparr>wa_generation = ''g'', wa_model = ''m'', wa_device = ''mps'', wa_dimension = 0\<rparr>"

definition sample_model :: model_env where
  "sample_model = \<lparr>me_loads = (\<lambda>d. d = Some ''cpu''), me_reported = None, me_dimension = Some 2\<rparr>"


text \<open>
  The limits of the two sides do not match: a batch of a hundred texts in the largest
  admitted dimension is answered by more bytes than a frame may have, so the worker
  cannot send its reply. Up to dimension 41943 every reply fits.
\<close>

lemma largest_reply_refused:
  assumes "worker_reply args effective MAX_DIMENSION request_id 100 rows = Some (h, raw)"
  shows "worker_send raw = Inl ValueError"
proof -
  have "length raw = 100 * nat MAX_DIMENSION * 4"
    using assms reply_length by (fastforce simp: worker_reply_def Let_def split: if_splits)
  then show ?thesis by (simp add: worker_send_def MAX_DIMENSION_def MAX_FRAME_def)
qed

lemma reply_fits:
  assumes "worker_reply args effective d request_id k rows = Some (h, raw)" "k \<le> 100" "nat d \<le> 41943"
  shows "worker_send raw = Inr (frame raw)"
proof -
  have "length raw = k * nat d * 4"
    using assms(1) reply_length by (auto simp: worker_reply_def Let_def split: if_splits)
  also have "\<dots> \<le> 100 * 41943 * 4" using assms(2,3) by (intro mult_le_mono) simp_all
  finally show ?thesis by (simp add: worker_send_def frame_def MAX_FRAME_def)
qed

end
