(* ===== verification/Supervisor.thy ===== *)
theory Supervisor
  imports Protocol "HOL-Library.Multiset"
begin

text \<open>
  The supervisor of the embedding worker (\<^verbatim>\<open>EmbeddingSupervisor\<close> of \<^verbatim>\<open>embedding_process.py\<close>) as
  the threads that run in it: the one that holds the request lock and starts the
  worker or exchanges a request, the one that closes, the ones that finish a close
  after a request, and the reapers.

  A step is a section of one thread between two points where another thread can see
  or change the shared fields; the final test of a close (no reaper, no process) and
  the release that follows count as one. The events carry what the environment
  decides: the clock, whether a process or a thread starts, what the worker sends,
  whether a terminated worker is gone in time.
\<close>

section \<open>State\<close>

datatype req_kind = K_start | K_encode string nat

datatype req_result = Res_dimension int | Res_vectors "real list list" | Res_failed EmbeddingFailure

datatype term_ctx = T_first req_kind | T_second req_kind | T_encode

datatype req_pc =
    R_idle
  | R_entry req_kind
  | R_start req_kind
  | R_popen req_kind bool
  | R_spawned req_kind bool
  | R_hello req_kind bool
  | R_io string nat
  | R_tbegin term_ctx EmbeddingFailure
  | R_tend term_ctx EmbeddingFailure nat
  | R_tdone term_ctx EmbeddingFailure
  | R_release req_result

datatype close_ctx = C_held | C_waiting | C_taken

datatype close_pc =
    C_idle
  | C_lock
  | C_tbegin close_ctx
  | C_tend close_ctx nat
  | C_tdone close_ctx
  | C_spawn
  | C_clear
  | C_final

datatype fin_pc = F_none | F_tend nat | F_done

record supervisor =
  sv_model :: string
  sv_generation :: string
  sv_launch_device :: string
  sv_cpu_retry_used :: bool
  sv_effective_device :: "string option"
  sv_dimension :: int
  sv_backoff_base :: real
  sv_process :: "nat option"
  sv_socket :: bool
  sv_closed :: bool
  sv_close_waiting :: bool
  sv_reaping :: bool
  sv_failure_count :: nat
  sv_next_start :: real
  sv_owner :: bool
  sv_owner_released :: bool
  sv_close_callbacks :: "nat list"
  sv_request_lock :: bool
  sv_service_gate :: bool
  \<comment> \<open>the threads\<close>
  sv_req :: req_pc
  sv_finally :: nat
  sv_close :: close_pc
  sv_fin_wait :: nat
  sv_fin :: fin_pc
  sv_fin_clear :: nat
  sv_fin_check :: nat
  sv_reapers :: "nat list"
  sv_reap_flag :: nat
  sv_reap_last :: nat
  sv_releasing :: nat
  \<comment> \<open>what happened\<close>
  sv_children :: "nat list"
  sv_next_pid :: nat
  sv_registered :: "nat list"
  sv_ran :: "nat list"

text \<open>\<^verbatim>\<open>__init__\<close> after its checks; \<^verbatim>\<open>_claim_owner\<close> has put it into \<^verbatim>\<open>_OWNER\<close>.\<close>

definition valid_dimension :: "int \<Rightarrow> bool" where
  "valid_dimension d \<longleftrightarrow> 0 \<le> d \<and> d \<le> MAX_DIMENSION"

definition new_supervisor :: "string \<Rightarrow> string option \<Rightarrow> int \<Rightarrow> real \<Rightarrow> string \<Rightarrow> supervisor" where
  "new_supervisor model device dimension backoff_base generation =
     (let device = normalize_embedding_device device
      in \<lparr>sv_model = model, sv_generation = generation, sv_launch_device = device,
          sv_cpu_retry_used = (device = DEFAULT_EMBEDDING_DEVICE), sv_effective_device = None,
          sv_dimension = dimension, sv_backoff_base = backoff_base, sv_process = None, sv_socket = False,
          sv_closed = False, sv_close_waiting = False, sv_reaping = False, sv_failure_count = 0,
          sv_next_start = 0, sv_owner = True, sv_owner_released = False, sv_close_callbacks = [],
          sv_request_lock = False, sv_service_gate = False, sv_req = R_idle, sv_finally = 0, sv_close = C_idle,
          sv_fin_wait = 0, sv_fin = F_none, sv_fin_clear = 0, sv_fin_check = 0, sv_reapers = [],
          sv_reap_flag = 0, sv_reap_last = 0, sv_releasing = 0, sv_children = [], sv_next_pid = 0,
          sv_registered = [], sv_ran = []\<rparr>)"

text \<open>\<^verbatim>\<open>_claim_owner\<close> among the supervisors of the process, and the constructor as a whole.\<close>

definition claim_owner :: "supervisor list \<Rightarrow> supervisor \<Rightarrow> EmbeddingFailure + supervisor list" where
  "claim_owner w s = (if \<exists>t\<in>set w. sv_owner t then Inl OWNED else Inr (w @ [s]))"

definition create_supervisor ::
    "string \<Rightarrow> string option \<Rightarrow> int \<Rightarrow> real \<Rightarrow> string \<Rightarrow> supervisor list \<Rightarrow> EmbeddingFailure + supervisor list" where
  "create_supervisor model device dimension backoff_base generation w =
     (if \<not> valid_dimension dimension then Inl PROTOCOL
      else claim_owner w (new_supervisor model device dimension backoff_base generation))"

section \<open>Pieces of the methods\<close>

text \<open>\<^verbatim>\<open>_child_environment\<close>.\<close>

definition CHILD_ENV_ALLOWED :: "string list" where
  "CHILD_ENV_ALLOWED =
     [''PATH'', ''TMPDIR'', ''SSL_CERT_FILE'', ''REQUESTS_CA_BUNDLE'', ''HTTP_PROXY'', ''HTTPS_PROXY'', ''NO_PROXY'',
      ''HF_HUB_OFFLINE'', ''TRANSFORMERS_OFFLINE'', ''HF_DATASETS_OFFLINE'', ''TOKENIZERS_PARALLELISM'',
      ''OMP_NUM_THREADS'', ''MKL_NUM_THREADS'', ''CUDA_VISIBLE_DEVICES'']"

definition child_environment :: "string \<Rightarrow> (string \<times> string) list \<Rightarrow> (string \<times> string) list" where
  "child_environment cache_dir environ =
     AList.update ''HF_HOME'' (cache_dir @ ''/huggingface'') (filter (\<lambda>(k, _). k \<in> set CHILD_ENV_ALLOWED) environ)"

text \<open>\<^verbatim>\<open>_record_failure\<close>.\<close>

definition backoff_delay :: "real \<Rightarrow> nat \<Rightarrow> real" where
  "backoff_delay base failures = min 30 (base * 2 ^ min (failures - 1) 5)"

definition record_failure :: "real \<Rightarrow> supervisor \<Rightarrow> supervisor" where
  "record_failure now s =
     (let n = Suc (sv_failure_count s)
      in s\<lparr>sv_failure_count := n, sv_next_start := now + backoff_delay (sv_backoff_base s) n\<rparr>)"

text \<open>\<^verbatim>\<open>_release_owner\<close>: the section under the owner lock, then the callbacks.\<close>

definition release_owner :: "supervisor \<Rightarrow> supervisor" where
  "release_owner s = (if sv_owner s then s\<lparr>sv_owner := False, sv_releasing := Suc (sv_releasing s)\<rparr> else s)"

definition run_close_callbacks :: "supervisor \<Rightarrow> supervisor" where
  "run_close_callbacks s =
     s\<lparr>sv_releasing := sv_releasing s - 1, sv_owner_released := True, sv_close_callbacks := [],
       sv_ran := sv_ran s @ sv_close_callbacks s\<rparr>"

definition when_closed :: "nat \<Rightarrow> supervisor \<Rightarrow> supervisor" where
  "when_closed callback s =
     (let s = s\<lparr>sv_registered := sv_registered s @ [callback]\<rparr>
      in if sv_owner_released s then s\<lparr>sv_ran := sv_ran s @ [callback]\<rparr>
         else s\<lparr>sv_close_callbacks := sv_close_callbacks s @ [callback]\<rparr>)"

text \<open>
  \<^verbatim>\<open>_terminate\<close>: up to the reading of the process, and after the waits. The worker is
  gone, or a reaper thread waits for it, or no reaper could be started.
\<close>

datatype term_result = T_gone | T_reaper | T_no_reaper

definition term_target :: "supervisor \<Rightarrow> nat option" where
  "term_target s = (if sv_reaping s then None else sv_process s)"

definition term_end :: "term_result \<Rightarrow> nat \<Rightarrow> supervisor \<Rightarrow> supervisor" where
  "term_end r pid s =
     (case r of
        T_gone \<Rightarrow> s\<lparr>sv_process := None, sv_children := remove1 pid (sv_children s)\<rparr>
      | T_reaper \<Rightarrow> s\<lparr>sv_reaping := True, sv_reapers := sv_reapers s @ [pid]\<rparr>
      | T_no_reaper \<Rightarrow> s\<lparr>sv_reaping := False\<rparr>)"

definition final_release :: "supervisor \<Rightarrow> supervisor" where
  "final_release s = (if \<not> sv_reaping s \<and> sv_process s = None then release_owner s else s)"

text \<open>The device of an attempt to start, and the context its failure is handled in.\<close>

definition attempt_device :: "bool \<Rightarrow> supervisor \<Rightarrow> string" where
  "attempt_device second s = (if second then DEFAULT_EMBEDDING_DEVICE else sv_launch_device s)"

definition attempt_ctx :: "req_kind \<Rightarrow> bool \<Rightarrow> term_ctx" where
  "attempt_ctx kind second = (if second then T_second kind else T_first kind)"

definition may_retry_cpu :: "EmbeddingFailure \<Rightarrow> supervisor \<Rightarrow> bool" where
  "may_retry_cpu f s \<longleftrightarrow> \<not> sv_cpu_retry_used s \<and> sv_launch_device s \<noteq> DEFAULT_EMBEDDING_DEVICE \<and>
     \<not> sv_reaping s \<and> sv_process s = None \<and> f \<in> {STARTUP, EXITED, TIMEOUT}"

definition fall_back_to_cpu :: "supervisor \<Rightarrow> supervisor" where
  "fall_back_to_cpu s = s\<lparr>sv_cpu_retry_used := True, sv_launch_device := DEFAULT_EMBEDDING_DEVICE\<rparr>"

text \<open>The failure that an error of the hello stands for, and that of an exchange.\<close>

definition hello_failure :: "wire_error \<Rightarrow> EmbeddingFailure" where
  "hello_failure e = (case e of Unavailable f \<Rightarrow> f | Socket_error \<Rightarrow> EXITED | Bad_value \<Rightarrow> PROTOCOL)"

definition io_failure :: "wire_error \<Rightarrow> EmbeddingFailure" where
  "io_failure e = (case e of Unavailable f \<Rightarrow> f | _ \<Rightarrow> PROTOCOL)"

definition started :: "req_kind \<Rightarrow> supervisor \<Rightarrow> req_pc" where
  "started kind s = (case kind of K_start \<Rightarrow> R_release (Res_dimension (sv_dimension s)) | K_encode rid n \<Rightarrow> R_io rid n)"

definition hello_accepted :: "int \<Rightarrow> string \<Rightarrow> supervisor \<Rightarrow> supervisor" where
  "hello_accepted d dev s =
     (let s = s\<lparr>sv_dimension := (if sv_dimension s = 0 then d else sv_dimension s), sv_effective_device := Some dev\<rparr>
      in if dev = DEFAULT_EMBEDDING_DEVICE then fall_back_to_cpu s else s)"

definition io_failed :: "EmbeddingFailure \<Rightarrow> supervisor \<Rightarrow> supervisor" where
  "io_failed f s =
     (if sv_effective_device s \<noteq> Some DEFAULT_EMBEDDING_DEVICE then fall_back_to_cpu s else s)
       \<lparr>sv_req := R_tbegin T_encode f\<rparr>"

section \<open>Steps\<close>

datatype sup_event =
    E_serve | E_unserve
  | E_acquire req_kind | E_no_thread | E_entry | E_start real | E_popen bool | E_spawned | E_hello "wire_error + pyval"
  | E_io "wire_error + (pyval \<times> bytes)" | E_tbegin | E_tend term_result | E_tdone real | E_release | E_finally
  | E_close | E_close_lock bool | E_close_tbegin | E_close_tend term_result | E_close_tdone
  | E_close_spawn bool | E_close_clear | E_close_final
  | E_fin_lock | E_fin_tend term_result | E_fin_unlock | E_fin_clear | E_fin_check
  | E_reap nat | E_reap_flag | E_reap_last
  | E_callbacks | E_when_closed nat

text \<open>
  The thread with the request lock: \<^verbatim>\<open>start\<close>, \<^verbatim>\<open>_start\<close>, \<^verbatim>\<open>_start_once\<close>, \<^verbatim>\<open>_encode_owned\<close>, and the
  hand-over to a thread of its own in \<^verbatim>\<open>encode\<close>. After the release any number of such
  threads may still stand before the test for a waiting close.
\<close>

fun req_step :: "sup_event \<Rightarrow> supervisor \<Rightarrow> supervisor option" where
  "req_step (E_acquire kind) s =
     (if sv_req s = R_idle \<and> \<not> sv_request_lock s then Some (s\<lparr>sv_request_lock := True, sv_req := R_entry kind\<rparr>)
      else None)"
| "req_step E_no_thread s =
     (case sv_req s of
        R_entry (K_encode rid n) \<Rightarrow> Some (s\<lparr>sv_request_lock := False, sv_req := R_idle\<rparr>)
      | _ \<Rightarrow> None)"
| "req_step E_entry s =
     (case sv_req s of
        R_entry K_start \<Rightarrow>
          Some (s\<lparr>sv_req := if sv_process s = None then R_start K_start
                           else R_release (Res_dimension (sv_dimension s))\<rparr>)
      | R_entry (K_encode rid n) \<Rightarrow>
          Some (s\<lparr>sv_req := if sv_closed s \<or> sv_reaping s then R_release (Res_failed CLOSED)
                           else if sv_process s = None then R_start (K_encode rid n) else R_io rid n\<rparr>)
      | _ \<Rightarrow> None)"
| "req_step (E_start now) s =
     (case sv_req s of
        R_start kind \<Rightarrow>
          Some (s\<lparr>sv_req := if sv_closed s \<or> sv_reaping s then R_release (Res_failed CLOSED)
                           else if now < sv_next_start s then R_release (Res_failed BUSY)
                           else R_popen kind False\<rparr>)
      | _ \<Rightarrow> None)"
| "req_step (E_popen ok) s =
     (case sv_req s of
        R_popen kind second \<Rightarrow>
          Some (if ok then
                  s\<lparr>sv_process := Some (sv_next_pid s), sv_socket := True,
                    sv_children := sv_children s @ [sv_next_pid s], sv_next_pid := Suc (sv_next_pid s),
                    sv_req := R_spawned kind second\<rparr>
                else s\<lparr>sv_req := R_tdone (attempt_ctx kind second) STARTUP\<rparr>)
      | _ \<Rightarrow> None)"
| "req_step E_spawned s =
     (case sv_req s of
        R_spawned kind second \<Rightarrow>
          Some (s\<lparr>sv_req := if sv_closed s then R_tbegin (attempt_ctx kind second) CLOSED else R_hello kind second\<rparr>)
      | _ \<Rightarrow> None)"
| "req_step (E_hello r) s =
     (case sv_req s of
        R_hello kind second \<Rightarrow>
          Some (case r of
                  Inl e \<Rightarrow> s\<lparr>sv_req := R_tbegin (attempt_ctx kind second) (hello_failure e)\<rparr>
                | Inr hello \<Rightarrow>
                    (case accept_hello (sv_generation s) (sv_model s) (sv_dimension s) (attempt_device second s) hello of
                       None \<Rightarrow> s\<lparr>sv_req := R_tbegin (attempt_ctx kind second) PROTOCOL\<rparr>
                     | Some (d, dev) \<Rightarrow>
                         let s = hello_accepted d dev s in s\<lparr>sv_req := started kind s\<rparr>))
      | _ \<Rightarrow> None)"
| "req_step (E_io r) s =
     (case sv_req s of
        R_io rid n \<Rightarrow>
          Some (case r of
                  Inl e \<Rightarrow> io_failed (io_failure e) s
                | Inr (header, raw) \<Rightarrow>
                    (case accept_reply (sv_generation s) rid n (nat (sv_dimension s)) (sv_effective_device s) header raw of
                       None \<Rightarrow> io_failed PROTOCOL s
                     | Some vs \<Rightarrow>
                         s\<lparr>sv_failure_count := 0, sv_next_start := 0, sv_req := R_release (Res_vectors vs)\<rparr>))
      | _ \<Rightarrow> None)"
| "req_step E_tbegin s =
     (case sv_req s of
        R_tbegin ctx f \<Rightarrow>
          Some (s\<lparr>sv_socket := False,
                  sv_req := (case term_target s of None \<Rightarrow> R_tdone ctx f | Some pid \<Rightarrow> R_tend ctx f pid)\<rparr>)
      | _ \<Rightarrow> None)"
| "req_step (E_tend r) s =
     (case sv_req s of
        R_tend ctx f pid \<Rightarrow> Some ((term_end r pid s)\<lparr>sv_req := R_tdone ctx f\<rparr>)
      | _ \<Rightarrow> None)"
| "req_step (E_tdone now) s =
     (case sv_req s of
        R_tdone (T_first kind) f \<Rightarrow>
          Some (if may_retry_cpu f s then (fall_back_to_cpu s)\<lparr>sv_req := R_popen kind True\<rparr>
                else (record_failure now s)\<lparr>sv_req := R_release (Res_failed f)\<rparr>)
      | R_tdone _ f \<Rightarrow> Some ((record_failure now s)\<lparr>sv_req := R_release (Res_failed f)\<rparr>)
      | _ \<Rightarrow> None)"
| "req_step E_release s =
     (case sv_req s of
        R_release r \<Rightarrow> Some (s\<lparr>sv_request_lock := False, sv_req := R_idle, sv_finally := Suc (sv_finally s)\<rparr>)
      | _ \<Rightarrow> None)"
| "req_step E_finally s =
     (if sv_finally s = 0 then None
      else Some (s\<lparr>sv_finally := sv_finally s - 1,
                   sv_fin_wait := (if sv_close_waiting s then Suc (sv_fin_wait s) else sv_fin_wait s)\<rparr>))"
| "req_step _ s = None"

text \<open>The closing thread: \<^verbatim>\<open>close\<close> and \<^verbatim>\<open>_close_locked\<close>, under the service gate.\<close>

fun close_step :: "sup_event \<Rightarrow> supervisor \<Rightarrow> supervisor option" where
  "close_step E_close s =
     (if sv_close s = C_idle \<and> \<not> sv_service_gate s then Some (s\<lparr>sv_closed := True, sv_close := C_lock\<rparr>) else None)"
| "close_step (E_close_lock got) s =
     (if sv_close s \<noteq> C_lock \<or> got = sv_request_lock s then None
      else if got then Some (s\<lparr>sv_request_lock := True, sv_close := C_tbegin C_held\<rparr>)
      else Some (s\<lparr>sv_close_waiting := True, sv_close := C_tbegin C_waiting\<rparr>))"
| "close_step E_close_tbegin s =
     (case sv_close s of
        C_tbegin ctx \<Rightarrow>
          Some (s\<lparr>sv_socket := False,
                  sv_close := (case term_target s of None \<Rightarrow> C_tdone ctx | Some pid \<Rightarrow> C_tend ctx pid)\<rparr>)
      | _ \<Rightarrow> None)"
| "close_step (E_close_tend r) s =
     (case sv_close s of
        C_tend ctx pid \<Rightarrow> Some ((term_end r pid s)\<lparr>sv_close := C_tdone ctx\<rparr>)
      | _ \<Rightarrow> None)"
| "close_step E_close_tdone s =
     (case sv_close s of
        C_tdone C_held \<Rightarrow> Some (s\<lparr>sv_request_lock := False, sv_close := C_final\<rparr>)
      | C_tdone C_waiting \<Rightarrow> Some (s\<lparr>sv_close := C_spawn\<rparr>)
      | C_tdone C_taken \<Rightarrow> Some (s\<lparr>sv_request_lock := False, sv_close := C_clear\<rparr>)
      | _ \<Rightarrow> None)"
| "close_step (E_close_spawn ok) s =
     (if sv_close s \<noteq> C_spawn then None
      else if ok then Some (s\<lparr>sv_fin_wait := Suc (sv_fin_wait s), sv_close := C_idle\<rparr>)
      else if sv_request_lock s then Some (s\<lparr>sv_close := C_idle\<rparr>)
      else Some (s\<lparr>sv_request_lock := True, sv_close := C_tbegin C_taken\<rparr>))"
| "close_step E_close_clear s =
     (if sv_close s = C_clear then Some (s\<lparr>sv_close_waiting := False, sv_close := C_final\<rparr>) else None)"
| "close_step E_close_final s =
     (if sv_close s = C_final then Some ((final_release s)\<lparr>sv_close := C_idle\<rparr>) else None)"
| "close_step _ s = None"

text \<open>\<^verbatim>\<open>_finish_close_after_request\<close>, by as many threads as there are, one at a time in the lock.\<close>

fun fin_step :: "sup_event \<Rightarrow> supervisor \<Rightarrow> supervisor option" where
  "fin_step E_fin_lock s =
     (if sv_fin_wait s = 0 \<or> sv_request_lock s then None
      else Some (s\<lparr>sv_request_lock := True, sv_fin_wait := sv_fin_wait s - 1, sv_socket := False,
                   sv_fin := (case term_target s of None \<Rightarrow> F_done | Some pid \<Rightarrow> F_tend pid)\<rparr>))"
| "fin_step (E_fin_tend r) s =
     (case sv_fin s of F_tend pid \<Rightarrow> Some ((term_end r pid s)\<lparr>sv_fin := F_done\<rparr>) | _ \<Rightarrow> None)"
| "fin_step E_fin_unlock s =
     (if sv_fin s = F_done
      then Some (s\<lparr>sv_request_lock := False, sv_fin := F_none, sv_fin_clear := Suc (sv_fin_clear s)\<rparr>) else None)"
| "fin_step E_fin_clear s =
     (if sv_fin_clear s = 0 then None
      else Some (s\<lparr>sv_close_waiting := False, sv_fin_clear := sv_fin_clear s - 1, sv_fin_check := Suc (sv_fin_check s)\<rparr>))"
| "fin_step E_fin_check s =
     (if sv_fin_check s = 0 then None
      else Some ((final_release s)\<lparr>sv_fin_check := sv_fin_check s - 1\<rparr>))"
| "fin_step _ s = None"

text \<open>\<^verbatim>\<open>_reap\<close>.\<close>

fun reap_step :: "sup_event \<Rightarrow> supervisor \<Rightarrow> supervisor option" where
  "reap_step (E_reap pid) s =
     (if pid \<notin> set (sv_reapers s) then None
      else Some (s\<lparr>sv_reapers := remove1 pid (sv_reapers s), sv_children := remove1 pid (sv_children s),
                   sv_process := None, sv_reap_flag := Suc (sv_reap_flag s)\<rparr>))"
| "reap_step E_reap_flag s =
     (if sv_reap_flag s = 0 then None
      else Some (s\<lparr>sv_reaping := False, sv_reap_flag := sv_reap_flag s - 1, sv_reap_last := Suc (sv_reap_last s)\<rparr>))"
| "reap_step E_reap_last s =
     (if sv_reap_last s = 0 then None
      else let s = s\<lparr>sv_reap_last := sv_reap_last s - 1\<rparr>
           in Some (if sv_closed s then release_owner s else s))"
| "reap_step _ s = None"

text \<open>The rest: \<^verbatim>\<open>serve_generation\<close> around a service call, and the callbacks.\<close>

fun other_step :: "sup_event \<Rightarrow> supervisor \<Rightarrow> supervisor option" where
  "other_step E_serve s =
     (if sv_close s = C_idle \<and> \<not> sv_service_gate s \<and> \<not> sv_closed s then Some (s\<lparr>sv_service_gate := True\<rparr>) else None)"
| "other_step E_unserve s = (if sv_service_gate s then Some (s\<lparr>sv_service_gate := False\<rparr>) else None)"
| "other_step E_callbacks s = (if sv_releasing s = 0 then None else Some (run_close_callbacks s))"
| "other_step (E_when_closed cb) s = Some (when_closed cb s)"
| "other_step _ s = None"

definition sup_step :: "sup_event \<Rightarrow> supervisor \<Rightarrow> supervisor option" where
  "sup_step e s =
     (case req_step e s of Some s' \<Rightarrow> Some s'
      | None \<Rightarrow> (case close_step e s of Some s' \<Rightarrow> Some s'
      | None \<Rightarrow> (case fin_step e s of Some s' \<Rightarrow> Some s'
      | None \<Rightarrow> (case reap_step e s of Some s' \<Rightarrow> Some s' | None \<Rightarrow> other_step e s))))"

text \<open>The process: a supervisor is constructed, or a thread of one makes a step.\<close>

inductive world_step :: "supervisor list \<Rightarrow> supervisor list \<Rightarrow> bool" where
  W_create: "create_supervisor model device dimension backoff_base generation w = Inr w' \<Longrightarrow> world_step w w'"
| W_thread: "i < length w \<Longrightarrow> sup_step e (w ! i) = Some s' \<Longrightarrow> world_step w (w[i := s'])"

fun sup_run :: "sup_event list \<Rightarrow> supervisor \<Rightarrow> supervisor option" where
  "sup_run [] s = Some s"
| "sup_run (e # es) s = (case sup_step e s of None \<Rightarrow> None | Some s' \<Rightarrow> sup_run es s')"

end
