(* ===== verification/SupervisorInv.thy ===== *)
theory SupervisorInv
  imports Supervisor
begin

text \<open>
  What holds of the embedding supervisor in every interleaving of its threads: what each
  thread leaves alone, who owns the process-wide slot and when the close callbacks run,
  who holds the request lock, and which worker the threads wait for.
\<close>

section \<open>Steps by thread\<close>

lemma sup_step_cases:
  assumes "sup_step e s = Some s'"
  obtains "req_step e s = Some s'" | "close_step e s = Some s'" | "fin_step e s = Some s'"
    | "reap_step e s = Some s'" | "other_step e s = Some s'"
  using assms unfolding sup_step_def by (auto split: option.splits)

text \<open>What the pieces of the methods leave alone.\<close>

lemma fall_back_same [simp]:
  "sv_closed (fall_back_to_cpu s) = sv_closed s" "sv_close (fall_back_to_cpu s) = sv_close s"
    "sv_close_waiting (fall_back_to_cpu s) = sv_close_waiting s"
    "sv_fin_wait (fall_back_to_cpu s) = sv_fin_wait s" "sv_fin (fall_back_to_cpu s) = sv_fin s"
    "sv_fin_clear (fall_back_to_cpu s) = sv_fin_clear s" "sv_fin_check (fall_back_to_cpu s) = sv_fin_check s"
    "sv_service_gate (fall_back_to_cpu s) = sv_service_gate s" "sv_owner (fall_back_to_cpu s) = sv_owner s"
    "sv_owner_released (fall_back_to_cpu s) = sv_owner_released s"
    "sv_releasing (fall_back_to_cpu s) = sv_releasing s"
    "sv_close_callbacks (fall_back_to_cpu s) = sv_close_callbacks s"
    "sv_registered (fall_back_to_cpu s) = sv_registered s" "sv_ran (fall_back_to_cpu s) = sv_ran s"
    "sv_reap_flag (fall_back_to_cpu s) = sv_reap_flag s" "sv_reap_last (fall_back_to_cpu s) = sv_reap_last s"
    "sv_reaping (fall_back_to_cpu s) = sv_reaping s" "sv_reapers (fall_back_to_cpu s) = sv_reapers s"
    "sv_process (fall_back_to_cpu s) = sv_process s" "sv_children (fall_back_to_cpu s) = sv_children s"
    "sv_request_lock (fall_back_to_cpu s) = sv_request_lock s" "sv_finally (fall_back_to_cpu s) = sv_finally s"
    "sv_req (fall_back_to_cpu s) = sv_req s" "sv_next_pid (fall_back_to_cpu s) = sv_next_pid s"
  by (simp_all add: fall_back_to_cpu_def)

lemma record_failure_same [simp]:
  "sv_closed (record_failure now s) = sv_closed s" "sv_close (record_failure now s) = sv_close s"
    "sv_close_waiting (record_failure now s) = sv_close_waiting s"
    "sv_fin_wait (record_failure now s) = sv_fin_wait s" "sv_fin (record_failure now s) = sv_fin s"
    "sv_fin_clear (record_failure now s) = sv_fin_clear s"
    "sv_fin_check (record_failure now s) = sv_fin_check s"
    "sv_service_gate (record_failure now s) = sv_service_gate s" "sv_owner (record_failure now s) = sv_owner s"
    "sv_owner_released (record_failure now s) = sv_owner_released s"
    "sv_releasing (record_failure now s) = sv_releasing s"
    "sv_close_callbacks (record_failure now s) = sv_close_callbacks s"
    "sv_registered (record_failure now s) = sv_registered s" "sv_ran (record_failure now s) = sv_ran s"
    "sv_reap_flag (record_failure now s) = sv_reap_flag s"
    "sv_reap_last (record_failure now s) = sv_reap_last s" "sv_reaping (record_failure now s) = sv_reaping s"
    "sv_reapers (record_failure now s) = sv_reapers s" "sv_process (record_failure now s) = sv_process s"
    "sv_children (record_failure now s) = sv_children s"
    "sv_request_lock (record_failure now s) = sv_request_lock s"
    "sv_finally (record_failure now s) = sv_finally s" "sv_req (record_failure now s) = sv_req s"
    "sv_next_pid (record_failure now s) = sv_next_pid s"
  by (simp_all add: record_failure_def Let_def)

lemma hello_accepted_same [simp]:
  "sv_closed (hello_accepted d dev s) = sv_closed s" "sv_close (hello_accepted d dev s) = sv_close s"
    "sv_close_waiting (hello_accepted d dev s) = sv_close_waiting s"
    "sv_fin_wait (hello_accepted d dev s) = sv_fin_wait s" "sv_fin (hello_accepted d dev s) = sv_fin s"
    "sv_fin_clear (hello_accepted d dev s) = sv_fin_clear s"
    "sv_fin_check (hello_accepted d dev s) = sv_fin_check s"
    "sv_service_gate (hello_accepted d dev s) = sv_service_gate s"
    "sv_owner (hello_accepted d dev s) = sv_owner s"
    "sv_owner_released (hello_accepted d dev s) = sv_owner_released s"
    "sv_releasing (hello_accepted d dev s) = sv_releasing s"
    "sv_close_callbacks (hello_accepted d dev s) = sv_close_callbacks s"
    "sv_registered (hello_accepted d dev s) = sv_registered s" "sv_ran (hello_accepted d dev s) = sv_ran s"
    "sv_reap_flag (hello_accepted d dev s) = sv_reap_flag s"
    "sv_reap_last (hello_accepted d dev s) = sv_reap_last s"
    "sv_reaping (hello_accepted d dev s) = sv_reaping s" "sv_reapers (hello_accepted d dev s) = sv_reapers s"
    "sv_process (hello_accepted d dev s) = sv_process s" "sv_children (hello_accepted d dev s) = sv_children s"
    "sv_request_lock (hello_accepted d dev s) = sv_request_lock s"
    "sv_finally (hello_accepted d dev s) = sv_finally s" "sv_req (hello_accepted d dev s) = sv_req s"
    "sv_next_pid (hello_accepted d dev s) = sv_next_pid s"
  by (simp_all add: hello_accepted_def Let_def)

lemma io_failed_same [simp]:
  "sv_closed (io_failed f s) = sv_closed s" "sv_close (io_failed f s) = sv_close s"
    "sv_close_waiting (io_failed f s) = sv_close_waiting s" "sv_fin_wait (io_failed f s) = sv_fin_wait s"
    "sv_fin (io_failed f s) = sv_fin s" "sv_fin_clear (io_failed f s) = sv_fin_clear s"
    "sv_fin_check (io_failed f s) = sv_fin_check s" "sv_service_gate (io_failed f s) = sv_service_gate s"
    "sv_owner (io_failed f s) = sv_owner s" "sv_owner_released (io_failed f s) = sv_owner_released s"
    "sv_releasing (io_failed f s) = sv_releasing s" "sv_close_callbacks (io_failed f s) = sv_close_callbacks s"
    "sv_registered (io_failed f s) = sv_registered s" "sv_ran (io_failed f s) = sv_ran s"
    "sv_reap_flag (io_failed f s) = sv_reap_flag s" "sv_reap_last (io_failed f s) = sv_reap_last s"
    "sv_reaping (io_failed f s) = sv_reaping s" "sv_reapers (io_failed f s) = sv_reapers s"
    "sv_process (io_failed f s) = sv_process s" "sv_children (io_failed f s) = sv_children s"
    "sv_request_lock (io_failed f s) = sv_request_lock s" "sv_finally (io_failed f s) = sv_finally s"
    "sv_next_pid (io_failed f s) = sv_next_pid s"
  by (simp_all add: io_failed_def)

lemma term_end_same [simp]:
  "sv_closed (term_end r pid s) = sv_closed s" "sv_close (term_end r pid s) = sv_close s"
    "sv_close_waiting (term_end r pid s) = sv_close_waiting s" "sv_fin_wait (term_end r pid s) = sv_fin_wait s"
    "sv_fin (term_end r pid s) = sv_fin s" "sv_fin_clear (term_end r pid s) = sv_fin_clear s"
    "sv_fin_check (term_end r pid s) = sv_fin_check s" "sv_service_gate (term_end r pid s) = sv_service_gate s"
    "sv_owner (term_end r pid s) = sv_owner s" "sv_owner_released (term_end r pid s) = sv_owner_released s"
    "sv_releasing (term_end r pid s) = sv_releasing s"
    "sv_close_callbacks (term_end r pid s) = sv_close_callbacks s"
    "sv_registered (term_end r pid s) = sv_registered s" "sv_ran (term_end r pid s) = sv_ran s"
    "sv_reap_flag (term_end r pid s) = sv_reap_flag s" "sv_reap_last (term_end r pid s) = sv_reap_last s"
    "sv_request_lock (term_end r pid s) = sv_request_lock s" "sv_finally (term_end r pid s) = sv_finally s"
    "sv_req (term_end r pid s) = sv_req s" "sv_next_pid (term_end r pid s) = sv_next_pid s"
  by (simp_all add: term_end_def split: term_result.split)

lemma release_owner_same [simp]:
  "sv_closed (release_owner s) = sv_closed s" "sv_close (release_owner s) = sv_close s"
    "sv_close_waiting (release_owner s) = sv_close_waiting s" "sv_fin_wait (release_owner s) = sv_fin_wait s"
    "sv_fin (release_owner s) = sv_fin s" "sv_fin_clear (release_owner s) = sv_fin_clear s"
    "sv_fin_check (release_owner s) = sv_fin_check s" "sv_service_gate (release_owner s) = sv_service_gate s"
    "sv_owner_released (release_owner s) = sv_owner_released s"
    "sv_close_callbacks (release_owner s) = sv_close_callbacks s"
    "sv_registered (release_owner s) = sv_registered s" "sv_ran (release_owner s) = sv_ran s"
    "sv_reap_flag (release_owner s) = sv_reap_flag s" "sv_reap_last (release_owner s) = sv_reap_last s"
    "sv_reaping (release_owner s) = sv_reaping s" "sv_reapers (release_owner s) = sv_reapers s"
    "sv_process (release_owner s) = sv_process s" "sv_children (release_owner s) = sv_children s"
    "sv_request_lock (release_owner s) = sv_request_lock s" "sv_finally (release_owner s) = sv_finally s"
    "sv_req (release_owner s) = sv_req s" "sv_next_pid (release_owner s) = sv_next_pid s"
  by (simp_all add: release_owner_def)

lemma final_release_same [simp]:
  "sv_closed (final_release s) = sv_closed s" "sv_close (final_release s) = sv_close s"
    "sv_close_waiting (final_release s) = sv_close_waiting s" "sv_fin_wait (final_release s) = sv_fin_wait s"
    "sv_fin (final_release s) = sv_fin s" "sv_fin_clear (final_release s) = sv_fin_clear s"
    "sv_fin_check (final_release s) = sv_fin_check s" "sv_service_gate (final_release s) = sv_service_gate s"
    "sv_owner_released (final_release s) = sv_owner_released s"
    "sv_close_callbacks (final_release s) = sv_close_callbacks s"
    "sv_registered (final_release s) = sv_registered s" "sv_ran (final_release s) = sv_ran s"
    "sv_reap_flag (final_release s) = sv_reap_flag s" "sv_reap_last (final_release s) = sv_reap_last s"
    "sv_reaping (final_release s) = sv_reaping s" "sv_reapers (final_release s) = sv_reapers s"
    "sv_process (final_release s) = sv_process s" "sv_children (final_release s) = sv_children s"
    "sv_request_lock (final_release s) = sv_request_lock s" "sv_finally (final_release s) = sv_finally s"
    "sv_req (final_release s) = sv_req s" "sv_next_pid (final_release s) = sv_next_pid s"
  by (simp_all add: final_release_def)

lemma io_failed_req [simp]: "sv_req (io_failed f s) = R_tbegin T_encode f"
  by (simp add: io_failed_def)

lemmas step_splits = if_split_asm option.split_asm sum.split_asm prod.split_asm req_pc.split_asm req_kind.split_asm
  term_ctx.split_asm close_pc.split_asm close_ctx.split_asm fin_pc.split_asm

section \<open>Ownership\<close>

text \<open>Nothing of a close is under way before \<^verbatim>\<open>close\<close> has set the flag.\<close>

definition close_inv :: "supervisor \<Rightarrow> bool" where
  "close_inv s \<longleftrightarrow> (\<not> sv_closed s \<longrightarrow> sv_close s = C_idle \<and> \<not> sv_close_waiting s \<and> sv_fin_wait s = 0 \<and>
     sv_fin s = F_none \<and> sv_fin_clear s = 0 \<and> sv_fin_check s = 0)"

text \<open>What the steps of a thread leave alone.\<close>

definition same_close :: "supervisor \<Rightarrow> supervisor \<Rightarrow> bool" where
  "same_close s s' \<longleftrightarrow> sv_closed s' = sv_closed s \<and> sv_close s' = sv_close s \<and>
     sv_close_waiting s' = sv_close_waiting s \<and> sv_fin s' = sv_fin s \<and> sv_fin_clear s' = sv_fin_clear s \<and>
     sv_fin_check s' = sv_fin_check s \<and> sv_service_gate s' = sv_service_gate s \<and>
     (sv_fin_wait s' = sv_fin_wait s \<or> sv_close_waiting s \<and> sv_fin_wait s' = Suc (sv_fin_wait s))"

definition same_owner :: "supervisor \<Rightarrow> supervisor \<Rightarrow> bool" where
  "same_owner s s' \<longleftrightarrow> sv_owner s' = sv_owner s \<and> sv_owner_released s' = sv_owner_released s \<and>
     sv_releasing s' = sv_releasing s \<and> sv_close_callbacks s' = sv_close_callbacks s \<and>
     sv_registered s' = sv_registered s \<and> sv_ran s' = sv_ran s \<and> sv_reap_flag s' = sv_reap_flag s \<and>
     sv_reap_last s' = sv_reap_last s"

lemma req_same: "req_step e s = Some s' \<Longrightarrow> same_close s s' \<and> same_owner s s'"
  unfolding same_close_def same_owner_def
  by (cases e; clarsimp simp: Let_def split: step_splits split del: if_split)

lemma close_inv_cong: "same_close s s' \<Longrightarrow> close_inv s \<Longrightarrow> close_inv s'"
  by (auto simp: close_inv_def same_close_def)

lemma close_inv_close: "close_inv s \<Longrightarrow> close_step e s = Some s' \<Longrightarrow> close_inv s' \<and> sv_closed s'"
  unfolding close_inv_def by (cases e; clarsimp split: step_splits split del: if_split)

lemma close_inv_fin: "close_inv s \<Longrightarrow> fin_step e s = Some s' \<Longrightarrow> close_inv s' \<and> sv_closed s'"
  unfolding close_inv_def by (cases e; clarsimp split: step_splits split del: if_split)

lemma reap_same_close: "reap_step e s = Some s' \<Longrightarrow> same_close s s'"
  unfolding same_close_def by (cases e; clarsimp simp: Let_def split: step_splits)

lemma close_inv_other: "close_inv s \<Longrightarrow> other_step e s = Some s' \<Longrightarrow> close_inv s'"
  unfolding close_inv_def
  by (cases e; clarsimp simp: run_close_callbacks_def when_closed_def Let_def split: step_splits)

lemma close_inv_step: "close_inv s \<Longrightarrow> sup_step e s = Some s' \<Longrightarrow> close_inv s'"
  by (erule sup_step_cases)
    (blast dest: req_same reap_same_close close_inv_close close_inv_fin intro: close_inv_cong close_inv_other)+

text \<open>
  The owner, the release under way and the released flag follow each other; a callback is
  either still registered or has run, and runs only once the slot is free; a service call
  in progress means the supervisor is not closed.
\<close>

definition owner_inv :: "supervisor \<Rightarrow> bool" where
  "owner_inv s \<longleftrightarrow>
     (if sv_owner s then \<not> sv_owner_released s \<and> sv_releasing s = 0
      else sv_closed s \<and> sv_releasing s + of_bool (sv_owner_released s) = 1) \<and>
     (sv_owner_released s \<longrightarrow> sv_close_callbacks s = []) \<and>
     (sv_ran s \<noteq> [] \<longrightarrow> sv_owner_released s) \<and>
     mset (sv_ran s) + mset (sv_close_callbacks s) = mset (sv_registered s) \<and>
     (sv_service_gate s \<longrightarrow> \<not> sv_closed s)"

lemma owner_inv_cong: "same_close s s' \<Longrightarrow> same_owner s s' \<Longrightarrow> owner_inv s' = owner_inv s"
  by (simp add: owner_inv_def same_close_def same_owner_def)

lemma owner_inv_upd [simp]:
  "owner_inv (s\<lparr>sv_request_lock := x1\<rparr>) = owner_inv s"
    "owner_inv (s\<lparr>sv_req := x2\<rparr>) = owner_inv s"
    "owner_inv (s\<lparr>sv_finally := x3\<rparr>) = owner_inv s"
    "owner_inv (s\<lparr>sv_close := x4\<rparr>) = owner_inv s"
    "owner_inv (s\<lparr>sv_close_waiting := x5\<rparr>) = owner_inv s"
    "owner_inv (s\<lparr>sv_fin_wait := x6\<rparr>) = owner_inv s"
    "owner_inv (s\<lparr>sv_fin := x7\<rparr>) = owner_inv s"
    "owner_inv (s\<lparr>sv_fin_clear := x8\<rparr>) = owner_inv s"
    "owner_inv (s\<lparr>sv_fin_check := x9\<rparr>) = owner_inv s"
    "owner_inv (s\<lparr>sv_socket := x10\<rparr>) = owner_inv s"
    "owner_inv (s\<lparr>sv_process := x11\<rparr>) = owner_inv s"
    "owner_inv (s\<lparr>sv_reaping := x12\<rparr>) = owner_inv s"
    "owner_inv (s\<lparr>sv_reapers := x13\<rparr>) = owner_inv s"
    "owner_inv (s\<lparr>sv_children := x14\<rparr>) = owner_inv s"
    "owner_inv (s\<lparr>sv_next_pid := x15\<rparr>) = owner_inv s"
    "owner_inv (s\<lparr>sv_reap_flag := x16\<rparr>) = owner_inv s"
    "owner_inv (s\<lparr>sv_reap_last := x17\<rparr>) = owner_inv s"
  by (simp_all add: owner_inv_def)

lemma owner_inv_term_end [simp]: "owner_inv (term_end r pid s) = owner_inv s"
  by (simp add: term_end_def split: term_result.split)

lemma owner_inv_release [simp]: "sv_closed s \<Longrightarrow> owner_inv s \<Longrightarrow> owner_inv (release_owner s)"
  by (auto simp: owner_inv_def release_owner_def)

lemma owner_inv_final [simp]: "sv_closed s \<Longrightarrow> owner_inv s \<Longrightarrow> owner_inv (final_release s)"
  by (simp add: final_release_def)

lemma owner_inv_closed [simp]: "\<not> sv_service_gate s \<Longrightarrow> owner_inv s \<Longrightarrow> owner_inv (s\<lparr>sv_closed := True\<rparr>)"
  by (simp add: owner_inv_def)

lemma owner_inv_gate [simp]: "g \<longrightarrow> \<not> sv_closed s \<Longrightarrow> owner_inv s \<Longrightarrow> owner_inv (s\<lparr>sv_service_gate := g\<rparr>)"
  by (simp add: owner_inv_def)

lemma owner_inv_callbacks:
  assumes "owner_inv s" "sv_releasing s \<noteq> 0"
  shows "owner_inv (run_close_callbacks s)"
  using assms by (auto simp: owner_inv_def run_close_callbacks_def split: if_splits)

lemma owner_inv_when_closed: "owner_inv s \<Longrightarrow> owner_inv (when_closed cb s)"
  by (auto simp: owner_inv_def when_closed_def Let_def)

lemma owner_inv_close: "close_inv s \<Longrightarrow> owner_inv s \<Longrightarrow> close_step e s = Some s' \<Longrightarrow> owner_inv s'"
  by (cases e; clarsimp simp: close_inv_def split: step_splits)

lemma owner_inv_fin: "close_inv s \<Longrightarrow> owner_inv s \<Longrightarrow> fin_step e s = Some s' \<Longrightarrow> owner_inv s'"
  by (cases e; clarsimp simp: close_inv_def split: step_splits)

lemma owner_inv_reap: "owner_inv s \<Longrightarrow> reap_step e s = Some s' \<Longrightarrow> owner_inv s'"
  by (cases e; clarsimp simp: Let_def split: step_splits)

lemma owner_inv_other: "owner_inv s \<Longrightarrow> other_step e s = Some s' \<Longrightarrow> owner_inv s'"
  by (cases e; clarsimp split: step_splits simp: owner_inv_callbacks owner_inv_when_closed)

lemma owner_inv_step:
  assumes "close_inv s" "owner_inv s" "sup_step e s = Some s'"
  shows "owner_inv s'"
  using assms(3) by (cases rule: sup_step_cases)
    (use assms(1,2) req_same owner_inv_cong owner_inv_close owner_inv_fin owner_inv_reap owner_inv_other in blast)+

lemma owner_lost_step:
  assumes "sup_step e s = Some s'" "sv_owner s'"
  shows "sv_owner s"
  using assms(1)
proof (cases rule: sup_step_cases)
  case 1 then show ?thesis using req_same[of e s s'] assms(2) by (simp add: same_owner_def)
next
  case 2 then show ?thesis using assms(2)
    by (cases e; clarsimp simp: final_release_def release_owner_def split: step_splits)
next
  case 3 then show ?thesis using assms(2)
    by (cases e; clarsimp simp: final_release_def release_owner_def split: step_splits)
next
  case 4 then show ?thesis using assms(2) by (cases e; clarsimp simp: release_owner_def Let_def split: step_splits)
next
  case 5 then show ?thesis using assms(2)
    by (cases e; clarsimp simp: run_close_callbacks_def when_closed_def Let_def split: step_splits)
qed

section \<open>The supervisors of a process\<close>

definition world_inv :: "supervisor list \<Rightarrow> bool" where
  "world_inv w \<longleftrightarrow> (\<forall>i < length w. close_inv (w ! i) \<and> owner_inv (w ! i)) \<and>
     (\<forall>i j. i < length w \<longrightarrow> j < length w \<longrightarrow> sv_owner (w ! i) \<longrightarrow> sv_owner (w ! j) \<longrightarrow> i = j)"

lemma new_supervisor_inv:
  "close_inv (new_supervisor m d n b g)" "owner_inv (new_supervisor m d n b g)"
  by (simp_all add: new_supervisor_def close_inv_def owner_inv_def Let_def)

lemma create_appends:
  assumes "create_supervisor m d n b g w = Inr w'"
  shows "w' = w @ [new_supervisor m d n b g]" "\<forall>s\<in>set w. \<not> sv_owner s"
  using assms by (auto simp: create_supervisor_def claim_owner_def split: if_splits)

interpretation sup_world: invariant_system "\<lambda>w. w = []" world_step world_inv
proof
  fix w w' :: "supervisor list"
  show "w = [] \<Longrightarrow> world_inv w" by (simp add: world_inv_def)
  assume inv: "world_inv w" and "world_step w w'"
  from this(2) show "world_inv w'"
  proof cases
    case (W_create m d n b g)
    have none: "\<not> sv_owner (w ! i)" if "i < length w" for i
      using create_appends(2)[OF W_create] that by simp
    show ?thesis
      unfolding world_inv_def create_appends(1)[OF W_create]
      using inv none by (auto simp: world_inv_def nth_append new_supervisor_inv not_less less_Suc_eq dest: none)
  next
    case (W_thread i e s')
    then show ?thesis
      using inv close_inv_step owner_inv_step owner_lost_step[OF W_thread(3)]
      by (auto simp: world_inv_def nth_list_update)
  qed
qed

lemma world_one_live:
  assumes "world_inv w" "i < length w" "j < length w" "i \<noteq> j" "\<not> sv_closed (w ! i)"
  shows "sv_closed (w ! j)" "\<not> sv_owner (w ! j)" "\<not> sv_service_gate (w ! j)" "sv_owner (w ! i)"
proof -
  have own: "sv_owner (w ! k)" if "k < length w" "\<not> sv_closed (w ! k)" for k
    using assms(1) that by (auto simp: world_inv_def owner_inv_def split: if_splits)
  show i: "sv_owner (w ! i)" by (rule own[OF assms(2,5)])
  show j: "\<not> sv_owner (w ! j)" using assms(1-4) i unfolding world_inv_def by blast
  show closed: "sv_closed (w ! j)" using own[OF assms(3)] j by blast
  show "\<not> sv_service_gate (w ! j)" using assms(1,3) closed by (auto simp: world_inv_def owner_inv_def)
qed

text \<open>
  C23: In a process, whatever supervisors are constructed and however their threads
  interleave, at most one supervisor is live: while one is not closed, it owns the
  process-wide slot, every other one is closed, owns nothing and serves no call, and the
  construction of another one is refused as owned.
\<close>

theorem one_live_supervisor:
  assumes "world_step\<^sup>*\<^sup>* [] w" "i < length w" "\<not> sv_closed (w ! i)"
  shows "sv_owner (w ! i) \<and>
    (\<forall>j < length w. j \<noteq> i \<longrightarrow> sv_closed (w ! j) \<and> \<not> sv_owner (w ! j) \<and> \<not> sv_service_gate (w ! j)) \<and>
    (valid_dimension dimension \<longrightarrow>
       create_supervisor model device dimension backoff_base generation w = Inl OWNED)"
proof -
  have inv: "world_inv w" using assms(1) by (rule sup_world.inv_reachable[OF refl])
  then have own: "sv_owner (w ! i)"
    using assms(2,3) by (auto simp: world_inv_def owner_inv_def split: if_splits)
  then have "create_supervisor model device dimension backoff_base generation w = Inl OWNED" if "valid_dimension dimension"
    using that assms(2) nth_mem by (fastforce simp: create_supervisor_def claim_owner_def)
  then show ?thesis using own world_one_live[OF inv assms(2)] assms(3) by metis
qed

section \<open>Runs of one supervisor\<close>

definition sup_move :: "supervisor \<Rightarrow> supervisor \<Rightarrow> bool" where
  "sup_move s s' \<longleftrightarrow> (\<exists>e. sup_step e s = Some s')"

definition fresh_supervisor :: "supervisor \<Rightarrow> bool" where
  "fresh_supervisor s \<longleftrightarrow> (\<exists>m d n b g. valid_dimension n \<and> s = new_supervisor m d n b g)"

interpretation sup_slot: invariant_system fresh_supervisor sup_move "\<lambda>s. close_inv s \<and> owner_inv s"
  by unfold_locales (auto simp: fresh_supervisor_def sup_move_def new_supervisor_inv intro: close_inv_step owner_inv_step)

text \<open>
  The callbacks registered for the end of a supervisor: each one has run exactly once
  or is still registered, none runs before the slot of the process is free, and once the
  release is done none is left waiting, also those registered afterwards.
\<close>

theorem close_callbacks_once:
  assumes "fresh_supervisor s0" "sup_move\<^sup>*\<^sup>* s0 s"
  shows "mset (sv_ran s) + mset (sv_close_callbacks s) = mset (sv_registered s) \<and>
    (sv_ran s \<noteq> [] \<longrightarrow> \<not> sv_owner s \<and> sv_closed s) \<and>
    (\<not> sv_owner s \<and> sv_releasing s = 0 \<longrightarrow> mset (sv_ran s) = mset (sv_registered s))"
  using sup_slot.inv_reachable[OF assms] by (auto simp: owner_inv_def split: if_splits)

section \<open>The worker\<close>

text \<open>
  The processes that some thread is about to wait for. A supervisor for the default
  device (which is never retried on another one) has at most one child at a time, and
  every thread that waits, waits for that one.
\<close>

fun req_pids :: "req_pc \<Rightarrow> nat set" where
  "req_pids (R_tend ctx f p) = {p}"
| "req_pids _ = {}"

fun close_pids :: "close_pc \<Rightarrow> nat set" where
  "close_pids (C_tend ctx p) = {p}"
| "close_pids _ = {}"

fun fin_pids :: "fin_pc \<Rightarrow> nat set" where
  "fin_pids (F_tend p) = {p}"
| "fin_pids _ = {}"

definition held_pids :: "supervisor \<Rightarrow> nat set" where
  "held_pids s = req_pids (sv_req s) \<union> close_pids (sv_close s) \<union> fin_pids (sv_fin s) \<union> set (sv_reapers s)"

fun close_locked :: "close_pc \<Rightarrow> bool" where
  "close_locked (C_tbegin ctx) = (ctx \<noteq> C_waiting)"
| "close_locked (C_tend ctx p) = (ctx \<noteq> C_waiting)"
| "close_locked (C_tdone ctx) = (ctx \<noteq> C_waiting)"
| "close_locked _ = False"

definition lock_inv :: "supervisor \<Rightarrow> bool" where
  "lock_inv s \<longleftrightarrow>
     (sv_request_lock s \<longleftrightarrow> sv_req s \<noteq> R_idle \<or> close_locked (sv_close s) \<or> sv_fin s \<noteq> F_none) \<and>
     (sv_req s \<noteq> R_idle \<longrightarrow> \<not> close_locked (sv_close s)) \<and>
     (sv_fin s \<noteq> F_none \<longrightarrow> sv_req s = R_idle \<and> \<not> close_locked (sv_close s))"

lemma lock_inv_req: "lock_inv s \<Longrightarrow> req_step e s = Some s' \<Longrightarrow> lock_inv s'"
  unfolding lock_inv_def
  by (cases e; clarsimp simp: Let_def started_def split: step_splits)

lemma lock_inv_close: "lock_inv s \<Longrightarrow> close_step e s = Some s' \<Longrightarrow> lock_inv s'"
  unfolding lock_inv_def by (cases e; clarsimp split: step_splits)

lemma lock_inv_fin: "lock_inv s \<Longrightarrow> fin_step e s = Some s' \<Longrightarrow> lock_inv s'"
  unfolding lock_inv_def by (cases e; clarsimp split: step_splits)

lemma lock_inv_reap: "lock_inv s \<Longrightarrow> reap_step e s = Some s' \<Longrightarrow> lock_inv s'"
  unfolding lock_inv_def by (cases e; clarsimp simp: Let_def split: step_splits)

lemma lock_inv_other: "lock_inv s \<Longrightarrow> other_step e s = Some s' \<Longrightarrow> lock_inv s'"
  unfolding lock_inv_def
  by (cases e; clarsimp simp: run_close_callbacks_def when_closed_def Let_def split: step_splits)

fun working :: "req_pc \<Rightarrow> bool" where
  "working R_idle = False"
| "working (R_entry k) = False"
| "working (R_start k) = False"
| "working (R_tdone ctx f) = False"
| "working (R_release r) = False"
| "working _ = True"

fun is_popen :: "req_pc \<Rightarrow> bool" where
  "is_popen (R_popen k b) = True"
| "is_popen _ = False"

fun is_start :: "req_pc \<Rightarrow> bool" where
  "is_start (R_start k) = True"
| "is_start _ = False"

definition one_child :: "supervisor \<Rightarrow> bool" where
  "one_child s \<longleftrightarrow> (case sv_process s of None \<Rightarrow> sv_children s = []
     | Some p \<Rightarrow> sv_children s = [p] \<and> held_pids s \<subseteq> {p} \<and> sv_reap_flag s = 0)"

definition worker_inv :: "supervisor \<Rightarrow> bool" where
  "worker_inv s \<longleftrightarrow> sv_cpu_retry_used s \<and> one_child s \<and>
     (is_start (sv_req s) \<longrightarrow> sv_process s = None) \<and>
     (is_popen (sv_req s) \<longrightarrow> sv_process s = None \<and> held_pids s = {} \<and> sv_reap_flag s = 0) \<and>
     (\<not> sv_closed s \<longrightarrow> (if sv_reaping s then length (sv_reapers s) + sv_reap_flag s = 1 \<and> \<not> working (sv_req s)
                       else sv_reapers s = [] \<and> sv_reap_flag s = 0)) \<and>
     (sv_reaping s \<longrightarrow> sv_reapers s \<noteq> [] \<or> sv_reap_flag s > 0)"

lemma cpu_retry_kept [simp]:
  "sv_cpu_retry_used (fall_back_to_cpu s)" "sv_cpu_retry_used (record_failure now s) = sv_cpu_retry_used s"
  "sv_cpu_retry_used s \<Longrightarrow> sv_cpu_retry_used (hello_accepted d dev s)"
  "sv_cpu_retry_used s \<Longrightarrow> sv_cpu_retry_used (io_failed f s)"
  "sv_cpu_retry_used (term_end r pid s) = sv_cpu_retry_used s"
  "sv_cpu_retry_used (final_release s) = sv_cpu_retry_used s"
  "sv_cpu_retry_used (release_owner s) = sv_cpu_retry_used s"
  by (simp_all add: fall_back_to_cpu_def record_failure_def hello_accepted_def io_failed_def term_end_def final_release_def
      release_owner_def Let_def split: term_result.split)

text \<open>The steps of the request thread that start and end no worker only move it.\<close>

definition same_pool :: "supervisor \<Rightarrow> supervisor \<Rightarrow> bool" where
  "same_pool s s' \<longleftrightarrow> sv_process s' = sv_process s \<and> sv_children s' = sv_children s \<and> sv_reaping s' = sv_reaping s \<and>
     sv_reapers s' = sv_reapers s \<and> (sv_cpu_retry_used s \<longrightarrow> sv_cpu_retry_used s')"

fun plain_event :: "sup_event \<Rightarrow> bool" where
  "plain_event (E_popen ok) = False"
| "plain_event (E_tend r) = False"
| "plain_event _ = True"

lemma req_same_pool: "req_step e s = Some s' \<Longrightarrow> plain_event e \<Longrightarrow> same_pool s s'"
  unfolding same_pool_def by (cases e; clarsimp simp: Let_def split: step_splits split del: if_split)

lemma req_pids_step:
  assumes "req_step e s = Some s'" "plain_event e"
  shows "req_pids (sv_req s') \<subseteq> req_pids (sv_req s) \<union> set_option (sv_process s)"
  using assms by (cases e; clarsimp simp: Let_def started_def term_target_def split: step_splits)

lemma req_start_step:
  assumes "req_step e s = Some s'" "plain_event e" "is_start (sv_req s) \<longrightarrow> sv_process s = None"
  shows "is_start (sv_req s') \<longrightarrow> sv_process s = None"
  using assms by (cases e; clarsimp simp: Let_def started_def term_target_def split: step_splits)

lemma req_popen_step:
  assumes "req_step e s = Some s'" "plain_event e" "sv_cpu_retry_used s"
  shows "is_popen (sv_req s') \<longrightarrow> is_popen (sv_req s) \<or> is_start (sv_req s) \<and> \<not> sv_closed s \<and> \<not> sv_reaping s"
  using assms by (cases e; clarsimp simp: Let_def started_def term_target_def may_retry_cpu_def split: step_splits)

lemma req_working_step:
  assumes "req_step e s = Some s'" "plain_event e" "sv_cpu_retry_used s"
  shows "working (sv_req s') \<longrightarrow> working (sv_req s) \<or> \<not> sv_reaping s"
  using assms by (cases e; clarsimp simp: Let_def started_def term_target_def may_retry_cpu_def split: step_splits)

lemma worker_inv_plain:
  assumes inv: "worker_inv s" and closed: "close_inv s" and step: "req_step e s = Some s'" and plain: "plain_event e"
  shows "worker_inv s'"
proof -
  have cpu: "sv_cpu_retry_used s" using inv by (simp add: worker_inv_def)
  have frame: "sv_closed s' = sv_closed s" "sv_close s' = sv_close s" "sv_fin s' = sv_fin s"
    "sv_reap_flag s' = sv_reap_flag s" "sv_process s' = sv_process s" "sv_children s' = sv_children s"
    "sv_reaping s' = sv_reaping s" "sv_reapers s' = sv_reapers s" "sv_cpu_retry_used s'"
    using req_same[OF step] req_same_pool[OF step plain] cpu
    unfolding same_close_def same_owner_def same_pool_def by blast+
  have held: "held_pids s' \<subseteq> held_pids s \<union> set_option (sv_process s)"
    using req_pids_step[OF step plain] unfolding held_pids_def frame by blast
  have child: "one_child s'"
    using inv held unfolding one_child_def worker_inv_def frame by (simp split: option.splits) blast
  have start: "is_start (sv_req s') \<longrightarrow> sv_process s' = None"
    using req_start_step[OF step plain] inv frame by (simp add: worker_inv_def)
  have popen: "is_popen (sv_req s') \<longrightarrow> sv_process s' = None \<and> held_pids s' = {} \<and> sv_reap_flag s' = 0"
  proof
    assume "is_popen (sv_req s')"
    with req_popen_step[OF step plain cpu] consider "is_popen (sv_req s)"
      | "is_start (sv_req s)" "\<not> sv_closed s" "\<not> sv_reaping s" by blast
    then show "sv_process s' = None \<and> held_pids s' = {} \<and> sv_reap_flag s' = 0"
    proof cases
      case 1 then show ?thesis using inv held frame by (simp add: worker_inv_def)
    next
      case 2
      then have "held_pids s = {}" using inv closed
        by (cases "sv_req s") (simp_all add: held_pids_def close_inv_def worker_inv_def)
      then show ?thesis using 2 inv held frame by (simp add: worker_inv_def)
    qed
  qed
  have "working (sv_req s') \<longrightarrow> working (sv_req s) \<or> \<not> sv_reaping s" by (rule req_working_step[OF step plain cpu])
  then show ?thesis
    using child start popen inv unfolding worker_inv_def frame by (simp add: frame(9)) metis
qed

lemma term_end_pool:
  "sv_process (term_end r pid s) = (if r = T_gone then None else sv_process s)"
  "sv_children (term_end r pid s) = (if r = T_gone then remove1 pid (sv_children s) else sv_children s)"
  "sv_reaping (term_end r pid s) \<longleftrightarrow> r = T_reaper \<or> r = T_gone \<and> sv_reaping s"
  "sv_reapers (term_end r pid s) = (if r = T_reaper then sv_reapers s @ [pid] else sv_reapers s)"
  by (cases r; simp add: term_end_def)+

text \<open>The end of a wait, whichever thread waited.\<close>

lemma one_child_term_end:
  assumes "one_child s" "pid \<in> held_pids s" "sv_process s' = sv_process (term_end r pid s)"
    "sv_children s' = sv_children (term_end r pid s)" "sv_reapers s' = sv_reapers (term_end r pid s)"
    "held_pids s' \<subseteq> held_pids s" "sv_reap_flag s' = sv_reap_flag s"
  shows "one_child s'"
  using assms by (cases r) (auto simp: one_child_def term_end_pool split: option.splits)

lemma worker_inv_popen:
  assumes "worker_inv s" "close_inv s" "req_step (E_popen ok) s = Some s'"
  shows "worker_inv s'"
  using assms unfolding worker_inv_def
  by (clarsimp simp: one_child_def split: step_splits; force simp: held_pids_def)

lemma worker_inv_tend:
  assumes inv: "worker_inv s" and step: "req_step (E_tend r) s = Some s'"
  shows "worker_inv s'"
proof -
  obtain ctx f pid where req: "sv_req s = R_tend ctx f pid" and s': "s' = (term_end r pid s)\<lparr>sv_req := R_tdone ctx f\<rparr>"
    using step by (auto split: req_pc.splits)
  have "one_child s'"
    by (rule one_child_term_end[of s pid s' r])
      (use inv in \<open>auto simp: s' req held_pids_def worker_inv_def term_end_pool\<close>)
  then show ?thesis using inv
    by (cases r) (auto simp: worker_inv_def s' req term_end_pool split: if_splits)
qed

text \<open>The threads of a close: they move, or end a wait; the request thread stands still.\<close>

lemma worker_inv_keep:
  assumes "worker_inv s" "sv_req s' = sv_req s" "sv_cpu_retry_used s' = sv_cpu_retry_used s"
    "sv_reap_flag s' = sv_reap_flag s" "sv_process s' = sv_process s" "sv_children s' = sv_children s"
    "sv_reaping s' = sv_reaping s" "sv_reapers s' = sv_reapers s" "sv_closed s \<or> sv_closed s' \<longrightarrow> sv_closed s'"
    "close_pids (sv_close s') \<subseteq> close_pids (sv_close s) \<union> set_option (sv_process s)"
    "fin_pids (sv_fin s') \<subseteq> fin_pids (sv_fin s) \<union> set_option (sv_process s)"
  shows "worker_inv s'"
proof -
  have "held_pids s' \<subseteq> held_pids s \<union> set_option (sv_process s)"
    using assms(10,11) unfolding held_pids_def assms(2,8) by blast
  then show ?thesis using assms(1,9) unfolding worker_inv_def one_child_def assms(2-8)
    by (cases "sv_process s") auto
qed

lemma worker_inv_ended:
  assumes inv: "worker_inv s" and pid: "pid \<in> held_pids s" and "sv_closed s'"
    and same: "sv_req s' = sv_req s" "sv_cpu_retry_used s' = sv_cpu_retry_used s" "sv_reap_flag s' = sv_reap_flag s"
    and ended: "sv_process s' = sv_process (term_end r pid s)" "sv_children s' = sv_children (term_end r pid s)"
    "sv_reaping s' = sv_reaping (term_end r pid s)" "sv_reapers s' = sv_reapers (term_end r pid s)"
    and held: "held_pids s' \<subseteq> held_pids s"
  shows "worker_inv s'"
proof -
  have "one_child s'"
    using inv by (intro one_child_term_end[OF _ pid ended(1,2,4) held same(3)]) (simp add: worker_inv_def)
  then show ?thesis
    using inv pid held \<open>sv_closed s'\<close> unfolding worker_inv_def same ended term_end_pool by (cases r) auto
qed

lemma worker_inv_close:
  assumes inv: "worker_inv s" "close_inv s" and step: "close_step e s = Some s'"
  shows "worker_inv s'"
proof (cases "\<exists>r. e = E_close_tend r")
  case True
  then obtain r where e: "e = E_close_tend r" ..
  obtain ctx pid where at: "sv_close s = C_tend ctx pid" and s': "s' = (term_end r pid s)\<lparr>sv_close := C_tdone ctx\<rparr>"
    using step by (auto simp: e split: close_pc.splits)
  show ?thesis
    by (rule worker_inv_ended[OF inv(1), of pid s' r])
      (use inv(2) in \<open>auto simp: held_pids_def at s' term_end_pool close_inv_def\<close>)
next
  case False
  then show ?thesis using inv step
    by (intro worker_inv_keep[OF inv(1), of s']; cases e;
        clarsimp simp: term_target_def split: step_splits)
qed

lemma worker_inv_fin:
  assumes inv: "worker_inv s" "close_inv s" and step: "fin_step e s = Some s'"
  shows "worker_inv s'"
proof (cases "\<exists>r. e = E_fin_tend r")
  case True
  then obtain r where e: "e = E_fin_tend r" ..
  obtain pid where at: "sv_fin s = F_tend pid" and s': "s' = (term_end r pid s)\<lparr>sv_fin := F_done\<rparr>"
    using step by (auto simp: e split: fin_pc.splits)
  show ?thesis
    by (rule worker_inv_ended[OF inv(1), of pid s' r])
      (use inv(2) in \<open>auto simp: held_pids_def at s' term_end_pool close_inv_def\<close>)
next
  case False
  then show ?thesis using inv step
    by (intro worker_inv_keep[OF inv(1), of s']; cases e;
        clarsimp simp: term_target_def split: step_splits)
qed

lemma worker_inv_reap:
  assumes inv: "worker_inv s" and step: "reap_step e s = Some s'"
  shows "worker_inv s'"
proof (cases "\<exists>pid. e = E_reap pid")
  case True
  then obtain pid where e: "e = E_reap pid" ..
  then have pid: "pid \<in> set (sv_reapers s)" and s': "s' = s\<lparr>sv_reapers := remove1 pid (sv_reapers s),
      sv_children := remove1 pid (sv_children s), sv_process := None, sv_reap_flag := Suc (sv_reap_flag s)\<rparr>"
    using step by (auto split: if_splits)
  have "\<not> is_popen (sv_req s)" "one_child s'"
    using inv pid by (auto simp: worker_inv_def held_pids_def one_child_def s' split: option.splits)
  moreover obtain q qs where "sv_reapers s = q # qs" using pid by (cases "sv_reapers s") auto
  ultimately show ?thesis using inv pid by (auto simp: worker_inv_def s' length_remove1 split: if_splits)
next
  case False
  then show ?thesis using inv step
    by (cases "sv_reapers s"; cases e;
        clarsimp simp: Let_def worker_inv_def one_child_def held_pids_def release_owner_def split: step_splits)
qed

lemma worker_inv_other: "worker_inv s \<Longrightarrow> other_step e s = Some s' \<Longrightarrow> worker_inv s'"
  by (rule worker_inv_keep[of s s'], assumption; cases e;
      clarsimp simp: run_close_callbacks_def when_closed_def Let_def split: step_splits)

definition sup_inv :: "supervisor \<Rightarrow> bool" where
  "sup_inv s \<longleftrightarrow> close_inv s \<and> owner_inv s \<and> lock_inv s \<and> worker_inv s"

lemma sup_inv_step:
  assumes "sup_inv s" "sup_step e s = Some s'"
  shows "sup_inv s'"
proof -
  have inv: "close_inv s" "owner_inv s" "lock_inv s" "worker_inv s" using assms(1) by (simp_all add: sup_inv_def)
  have "lock_inv s' \<and> worker_inv s'" using assms(2)
  proof (cases rule: sup_step_cases)
    case 1
    have "worker_inv s'"
    proof (cases e)
      case (E_popen ok) then show ?thesis using worker_inv_popen inv 1 by blast
    next
      case (E_tend r) then show ?thesis using worker_inv_tend inv 1 by blast
    qed (use worker_inv_plain[OF inv(4,1) 1] in simp_all)
    then show ?thesis using lock_inv_req inv 1 by blast
  next
    case 2 then show ?thesis using lock_inv_close worker_inv_close inv by blast
  next
    case 3 then show ?thesis using lock_inv_fin worker_inv_fin inv by blast
  next
    case 4 then show ?thesis using lock_inv_reap worker_inv_reap inv by blast
  next
    case 5 then show ?thesis using lock_inv_other worker_inv_other inv by blast
  qed
  then show ?thesis using close_inv_step owner_inv_step inv assms(2) by (auto simp: sup_inv_def)
qed

end
