(* ===== verification/SupervisorProps.thy ===== *)
theory SupervisorProps
  imports SupervisorInv
begin

text \<open>
  The end of a close of the embedding supervisor, in every interleaving: the threads come
  to an end, and a closed supervisor whose threads have ended has left no worker behind
  and given up the slot of the process; and the interleaving in which it leaves one.
\<close>

section \<open>The end of a close\<close>

text \<open>
  From some point on a closed supervisor starts nothing any more: the request thread
  cannot come to a start, and the worker is gone or has a reaper.
\<close>

fun parked :: "req_pc \<Rightarrow> bool" where
  "parked R_idle = True"
| "parked (R_entry k) = True"
| "parked (R_start k) = True"
| "parked (R_release r) = True"
| "parked _ = False"

definition sealed :: "supervisor \<Rightarrow> bool" where
  "sealed s \<longleftrightarrow> sv_closed s \<and> parked (sv_req s) \<and> (sv_process s = None \<or> sv_reapers s \<noteq> [])"

text \<open>Steps in which the threads that the code starts can be started.\<close>

fun threads_start :: "sup_event \<Rightarrow> bool" where
  "threads_start E_no_thread = False"
| "threads_start (E_tend r) = (r \<noteq> T_no_reaper)"
| "threads_start (E_close_tend r) = (r \<noteq> T_no_reaper)"
| "threads_start (E_fin_tend r) = (r \<noteq> T_no_reaper)"
| "threads_start _ = True"

lemma sealed_req:
  assumes "sealed s" "req_step e s = Some s'"
  shows "sealed s'"
proof -
  have "sv_closed s'" using req_same[OF assms(2)] assms(1) by (simp add: same_close_def sealed_def)
  moreover have "parked (sv_req s')" "sv_process s' = sv_process s" "sv_reapers s' = sv_reapers s"
    using assms unfolding sealed_def by (cases e; clarsimp simp: Let_def split: step_splits)+
  ultimately show ?thesis using assms(1) by (simp add: sealed_def)
qed

lemma sealed_close: "sealed s \<Longrightarrow> close_step e s = Some s' \<Longrightarrow> threads_start e \<Longrightarrow> sealed s'"
  unfolding sealed_def by (cases e; clarsimp simp: term_end_pool split: step_splits)

lemma sealed_fin: "sealed s \<Longrightarrow> fin_step e s = Some s' \<Longrightarrow> threads_start e \<Longrightarrow> sealed s'"
  unfolding sealed_def by (cases e; clarsimp simp: term_end_pool split: step_splits)

lemma sealed_reap: "sealed s \<Longrightarrow> reap_step e s = Some s' \<Longrightarrow> sealed s'"
  unfolding sealed_def by (cases e; clarsimp simp: Let_def split: step_splits)

lemma sealed_other: "sealed s \<Longrightarrow> other_step e s = Some s' \<Longrightarrow> sealed s'"
  unfolding sealed_def
  by (cases e; clarsimp simp: run_close_callbacks_def when_closed_def Let_def split: step_splits)

lemma sealed_step: "sealed s \<Longrightarrow> sup_step e s = Some s' \<Longrightarrow> threads_start e \<Longrightarrow> sealed s'"
  by (erule sup_step_cases) (blast intro: sealed_req sealed_close sealed_fin sealed_reap sealed_other)+

text \<open>
  Then the release is certain: it has happened, or a reaper will do it. A close that is
  under way leads there, unless it leaves that to the request it waits for.
\<close>

definition settled :: "supervisor \<Rightarrow> bool" where
  "settled s \<longleftrightarrow> sealed s \<and> (\<not> sv_owner s \<or> sv_reapers s \<noteq> [] \<or> sv_reap_flag s > 0 \<or> sv_reap_last s > 0)"

fun close_sealing :: "close_pc \<Rightarrow> bool" where
  "close_sealing (C_tdone ctx) = (ctx \<noteq> C_waiting)"
| "close_sealing C_clear = True"
| "close_sealing C_final = True"
| "close_sealing _ = False"

fun close_wait_path :: "close_pc \<Rightarrow> bool" where
  "close_wait_path (C_tbegin ctx) = (ctx = C_waiting)"
| "close_wait_path (C_tend ctx p) = (ctx = C_waiting)"
| "close_wait_path (C_tdone ctx) = (ctx = C_waiting)"
| "close_wait_path C_spawn = True"
| "close_wait_path _ = False"

definition fin_active :: "supervisor \<Rightarrow> bool" where
  "fin_active s \<longleftrightarrow> sv_fin_wait s > 0 \<or> sv_fin s \<noteq> F_none \<or> sv_fin_clear s > 0 \<or> sv_fin_check s > 0"

definition seal_inv :: "supervisor \<Rightarrow> bool" where
  "seal_inv s \<longleftrightarrow>
     (sv_fin_clear s > 0 \<or> sv_fin_check s > 0 \<or> sv_fin s = F_done \<or> close_sealing (sv_close s) \<longrightarrow> sealed s)"

definition end_inv :: "supervisor \<Rightarrow> bool" where
  "end_inv s \<longleftrightarrow>
     (close_wait_path (sv_close s) \<longrightarrow> sv_close_waiting s \<or> sv_fin_check s > 0 \<or> settled s) \<and>
     (sv_closed s \<longrightarrow> sv_close s \<noteq> C_idle \<or> fin_active s \<or>
        sv_close_waiting s \<and> (sv_req s \<noteq> R_idle \<or> sv_finally s > 0) \<or> settled s)"

lemma worker_reaped: "worker_inv s \<Longrightarrow> sv_reaping s \<Longrightarrow> sv_process s = None \<or> sv_reapers s \<noteq> []"
  by (auto simp: worker_inv_def one_child_def split: option.splits)

lemma final_settled: "worker_inv s \<Longrightarrow> sealed s \<Longrightarrow> settled (final_release s)"
  using worker_reaped[of s]
  by (auto simp: settled_def sealed_def final_release_def release_owner_def worker_inv_def)

lemma reapers_kept:
  assumes "sup_step e s = Some s'"
  shows "reap_step e s = Some s' \<or>
    (sv_reapers s \<noteq> [] \<longrightarrow> sv_reapers s' \<noteq> []) \<and> sv_reap_flag s' = sv_reap_flag s \<and> sv_reap_last s' = sv_reap_last s"
  using assms
proof (cases rule: sup_step_cases)
  case 1
  then have "sv_reapers s \<noteq> [] \<longrightarrow> sv_reapers s' \<noteq> []"
    by (cases e; clarsimp simp: Let_def term_end_pool split: step_splits)
  then show ?thesis using req_same[OF 1] by (simp add: same_owner_def)
next
  case 2 then show ?thesis by (cases e; clarsimp simp: term_end_pool split: step_splits)
next
  case 3 then show ?thesis by (cases e; clarsimp simp: term_end_pool split: step_splits)
next
  case 5 then show ?thesis
    by (cases e; clarsimp simp: run_close_callbacks_def when_closed_def Let_def split: step_splits)
qed simp

lemma reap_settled:
  assumes "reap_step e s = Some s'" "sv_closed s"
    "\<not> sv_owner s \<or> sv_reapers s \<noteq> [] \<or> sv_reap_flag s > 0 \<or> sv_reap_last s > 0"
  shows "\<not> sv_owner s' \<or> sv_reapers s' \<noteq> [] \<or> sv_reap_flag s' > 0 \<or> sv_reap_last s' > 0"
  using assms by (cases e; clarsimp simp: Let_def release_owner_def split: step_splits)

lemma settled_step:
  assumes "settled s" "sup_step e s = Some s'" "threads_start e"
  shows "settled s'"
proof -
  have sealed: "sealed s'" using sealed_step assms by (auto simp: settled_def)
  have old: "sv_closed s" "\<not> sv_owner s \<or> sv_reapers s \<noteq> [] \<or> sv_reap_flag s > 0 \<or> sv_reap_last s > 0"
    using assms(1) by (simp_all add: settled_def sealed_def)
  from reapers_kept[OF assms(2)]
  have "\<not> sv_owner s' \<or> sv_reapers s' \<noteq> [] \<or> sv_reap_flag s' > 0 \<or> sv_reap_last s' > 0"
    using reap_settled[OF _ old, of e s'] old(2) owner_lost_step[OF assms(2)] by metis
  then show ?thesis using sealed by (simp add: settled_def)
qed

lemma close_seals:
  assumes "sv_close s \<noteq> C_idle \<longrightarrow> sv_closed s" "close_locked (sv_close s) \<longrightarrow> sv_req s = R_idle"
    "sv_reaping s \<longrightarrow> sv_process s = None \<or> sv_reapers s \<noteq> []"
    "close_step e s = Some s'" "threads_start e" "close_sealing (sv_close s')"
  shows "close_sealing (sv_close s) \<or> sealed s'"
  using assms unfolding sealed_def
  by (cases e; clarsimp simp: term_end_pool term_target_def split: step_splits) (metis term_result.exhaust)

lemma close_fin_same:
  "close_step e s = Some s' \<Longrightarrow> sv_fin s' = sv_fin s \<and> sv_fin_clear s' = sv_fin_clear s \<and> sv_fin_check s' = sv_fin_check s"
  by (cases e; clarsimp split: step_splits)

lemma seal_inv_close:
  assumes "sup_inv s" "seal_inv s" "close_step e s = Some s'" "threads_start e"
  shows "seal_inv s'"
proof -
  have "sv_close s \<noteq> C_idle \<longrightarrow> sv_closed s" "close_locked (sv_close s) \<longrightarrow> sv_req s = R_idle"
    "sv_reaping s \<longrightarrow> sv_process s = None \<or> sv_reapers s \<noteq> []"
    using assms(1) worker_reaped by (auto simp: sup_inv_def close_inv_def lock_inv_def)
  from close_seals[OF this assms(3,4)] show ?thesis
    using close_fin_same[OF assms(3)] sealed_close[OF _ assms(3,4)] assms(2) unfolding seal_inv_def by metis
qed

lemma fin_seals:
  assumes "sv_fin_wait s > 0 \<or> sv_fin s \<noteq> F_none \<longrightarrow> sv_closed s"
    "sv_fin s \<noteq> F_none \<or> \<not> sv_request_lock s \<longrightarrow> sv_req s = R_idle"
    "sv_reaping s \<longrightarrow> sv_process s = None \<or> sv_reapers s \<noteq> []"
    "fin_step e s = Some s'" "threads_start e" "sv_fin_clear s' > 0 \<or> sv_fin_check s' > 0 \<or> sv_fin s' = F_done"
  shows "sv_fin_clear s > 0 \<or> sv_fin_check s > 0 \<or> sv_fin s = F_done \<or> sealed s'"
  using assms unfolding sealed_def
  by (cases e; clarsimp simp: term_end_pool term_target_def split: step_splits) (metis term_result.exhaust)

lemma fin_close_same: "fin_step e s = Some s' \<Longrightarrow> sv_close s' = sv_close s"
  by (cases e; clarsimp split: step_splits)

lemma seal_inv_fin:
  assumes "sup_inv s" "seal_inv s" "fin_step e s = Some s'" "threads_start e"
  shows "seal_inv s'"
proof -
  have "sv_fin_wait s > 0 \<or> sv_fin s \<noteq> F_none \<longrightarrow> sv_closed s"
    "sv_fin s \<noteq> F_none \<or> \<not> sv_request_lock s \<longrightarrow> sv_req s = R_idle"
    "sv_reaping s \<longrightarrow> sv_process s = None \<or> sv_reapers s \<noteq> []"
    using assms(1) worker_reaped by (auto simp: sup_inv_def close_inv_def lock_inv_def)
  from fin_seals[OF this assms(3,4)] show ?thesis
    using fin_close_same[OF assms(3)] sealed_fin[OF _ assms(3,4)] assms(2) unfolding seal_inv_def by metis
qed

lemma seal_inv_step:
  assumes "sup_inv s" "seal_inv s" "sup_step e s = Some s'" "threads_start e"
  shows "seal_inv s'"
  using assms(3)
proof (cases rule: sup_step_cases)
  case 1 then show ?thesis
    using req_same[OF 1] sealed_req[OF _ 1] assms(2) by (auto simp: seal_inv_def same_close_def)
next
  case 2 then show ?thesis using seal_inv_close assms by blast
next
  case 3 then show ?thesis using seal_inv_fin assms by blast
next
  case 4 then show ?thesis
    using reap_same_close[OF 4] sealed_reap[OF _ 4] assms(2) by (auto simp: seal_inv_def same_close_def)
next
  case 5 then show ?thesis using sealed_other[OF _ 5] assms(2)
    by (cases e; clarsimp simp: seal_inv_def run_close_callbacks_def when_closed_def Let_def split: step_splits)
qed

lemma settled_upd [simp]:
  "settled (s\<lparr>sv_close := x\<rparr>) = settled s" "settled (s\<lparr>sv_fin_check := n\<rparr>) = settled s"
  by (simp_all add: settled_def sealed_def)

lemma end_inv_req:
  assumes "end_inv s" "req_step e s = Some s'" "threads_start e" "settled s \<longrightarrow> settled s'"
  shows "end_inv s'"
proof -
  have "sv_req s \<noteq> R_idle \<or> sv_finally s > 0 \<Longrightarrow> sv_close_waiting s \<Longrightarrow>
      sv_req s' \<noteq> R_idle \<or> sv_finally s' > 0 \<or> sv_fin_wait s' > 0"
    using assms(2,3) by (cases e; clarsimp simp: Let_def started_def split: step_splits)
  then show ?thesis
    using assms(1,4) req_same[OF assms(2)] unfolding end_inv_def fin_active_def same_close_def by auto
qed

lemma end_inv_close:
  assumes inv: "sup_inv s" "seal_inv s" "end_inv s" and step: "close_step e s = Some s'" and "settled s \<longrightarrow> settled s'"
  shows "end_inv s'"
proof (cases "e = E_close_final")
  case True
  then have "sv_close s = C_final" "s' = (final_release s)\<lparr>sv_close := C_idle\<rparr>" using step by (auto split: if_splits)
  moreover have "settled (final_release s)"
    using final_settled[of s] inv(1,2) \<open>sv_close s = C_final\<close> by (auto simp: sup_inv_def seal_inv_def)
  ultimately show ?thesis by (simp add: end_inv_def)
next
  case False
  have "sv_request_lock s \<and> \<not> close_locked (sv_close s) \<longrightarrow> sv_req s \<noteq> R_idle \<or> sv_fin s \<noteq> F_none"
    using inv(1) by (auto simp: sup_inv_def lock_inv_def)
  with False step inv(3) assms(5) show ?thesis unfolding end_inv_def fin_active_def
    by (cases e; clarsimp split: step_splits)
qed

lemma end_inv_fin:
  assumes inv: "sup_inv s" "seal_inv s" "end_inv s" and step: "fin_step e s = Some s'" and "settled s \<longrightarrow> settled s'"
  shows "end_inv s'"
proof (cases "e = E_fin_check")
  case True
  then have "sv_fin_check s > 0" "s' = (final_release s)\<lparr>sv_fin_check := sv_fin_check s - 1\<rparr>"
    using step by (auto split: if_splits)
  moreover have "settled (final_release s)"
    using final_settled[of s] inv(1,2) \<open>sv_fin_check s > 0\<close> by (auto simp: sup_inv_def seal_inv_def)
  ultimately show ?thesis by (simp add: end_inv_def)
next
  case False
  with step inv(3) assms(5) show ?thesis unfolding end_inv_def fin_active_def
    by (cases e; clarsimp split: step_splits)
qed

lemma end_inv_reap:
  assumes "end_inv s" "reap_step e s = Some s'" "settled s \<longrightarrow> settled s'"
  shows "end_inv s'"
proof -
  have "sv_req s' = sv_req s \<and> sv_finally s' = sv_finally s"
    using assms(2) by (cases e; clarsimp simp: Let_def split: step_splits)
  then show ?thesis
    using assms(1,3) reap_same_close[OF assms(2)] unfolding end_inv_def fin_active_def same_close_def by auto
qed

lemma end_inv_other:
  assumes "end_inv s" "other_step e s = Some s'" "settled s \<longrightarrow> settled s'"
  shows "end_inv s'"
  using assms unfolding end_inv_def fin_active_def
  by (cases e; clarsimp simp: run_close_callbacks_def when_closed_def Let_def split: step_splits) blast+

text \<open>A supervisor for the default device, in runs where threads can be started.\<close>

definition cpu_supervisor :: "supervisor \<Rightarrow> bool" where
  "cpu_supervisor s \<longleftrightarrow> (\<exists>m d n b g. valid_dimension n \<and> normalize_embedding_device d = DEFAULT_EMBEDDING_DEVICE \<and>
     s = new_supervisor m d n b g)"

definition threaded_move :: "supervisor \<Rightarrow> supervisor \<Rightarrow> bool" where
  "threaded_move s s' \<longleftrightarrow> (\<exists>e. threads_start e \<and> sup_step e s = Some s')"

definition full_inv :: "supervisor \<Rightarrow> bool" where
  "full_inv s \<longleftrightarrow> sup_inv s \<and> seal_inv s \<and> end_inv s"

lemma full_inv_step:
  assumes "full_inv s" "sup_step e s = Some s'" "threads_start e"
  shows "full_inv s'"
proof -
  have inv: "sup_inv s" "seal_inv s" "end_inv s" using assms(1) by (simp_all add: full_inv_def)
  have settled: "settled s \<longrightarrow> settled s'" using settled_step assms(2,3) by blast
  have "end_inv s'" using assms(2)
    by (cases rule: sup_step_cases)
      (use end_inv_req end_inv_close end_inv_fin end_inv_reap end_inv_other inv settled assms(3) in blast)+
  then show ?thesis using sup_inv_step seal_inv_step inv assms(2,3) by (auto simp: full_inv_def)
qed

lemma cpu_supervisor_inv: "cpu_supervisor s \<Longrightarrow> full_inv s"
  by (auto simp: cpu_supervisor_def full_inv_def sup_inv_def close_inv_def owner_inv_def seal_inv_def end_inv_def lock_inv_def
      worker_inv_def one_child_def held_pids_def new_supervisor_def Let_def)

interpretation sup_close: invariant_system cpu_supervisor threaded_move full_inv
  by unfold_locales (auto simp: threaded_move_def cpu_supervisor_inv intro: full_inv_step)

section \<open>The threads come to an end\<close>

text \<open>What is left to do, with the steps a thread can still cause in others.\<close>

fun retry_work :: "term_ctx \<Rightarrow> nat" where
  "retry_work (T_first k) = 11"
| "retry_work _ = 0"

fun req_work :: "req_pc \<Rightarrow> nat" where
  "req_work R_idle = 0"
| "req_work (R_release r) = 12"
| "req_work (R_tdone ctx f) = 13 + retry_work ctx"
| "req_work (R_tend ctx f p) = 18 + retry_work ctx"
| "req_work (R_tbegin ctx f) = 19 + retry_work ctx"
| "req_work (R_io rid n) = 20"
| "req_work (R_hello k second) = (if second then 21 else 31)"
| "req_work (R_spawned k second) = (if second then 22 else 32)"
| "req_work (R_popen k second) = (if second then 23 else 33)"
| "req_work (R_start k) = 34"
| "req_work (R_entry k) = 35"

fun close_work :: "close_pc \<Rightarrow> nat" where
  "close_work C_idle = 0"
| "close_work C_final = 2"
| "close_work C_clear = 3"
| "close_work C_spawn = 11"
| "close_work (C_tdone ctx) = (if ctx = C_waiting then 12 else 4)"
| "close_work (C_tend ctx p) = (if ctx = C_waiting then 17 else 9)"
| "close_work (C_tbegin ctx) = (if ctx = C_waiting then 18 else 10)"
| "close_work C_lock = 19"

fun fin_work :: "fin_pc \<Rightarrow> nat" where
  "fin_work F_none = 0"
| "fin_work F_done = 4"
| "fin_work (F_tend p) = 9"

definition work :: "supervisor \<Rightarrow> nat" where
  "work s = req_work (sv_req s) + close_work (sv_close s) + fin_work (sv_fin s) + 11 * sv_finally s + 10 * sv_fin_wait s +
     3 * sv_fin_clear s + 2 * sv_fin_check s + 4 * length (sv_reapers s) + 3 * sv_reap_flag s + 2 * sv_reap_last s +
     sv_releasing s + of_bool (sv_service_gate s)"

fun internal :: "sup_event \<Rightarrow> bool" where
  "internal (E_acquire k) = False"
| "internal E_close = False"
| "internal E_serve = False"
| "internal (E_when_closed cb) = False"
| "internal _ = True"

lemma release_work: "sv_releasing (final_release s) \<le> Suc (sv_releasing s)"
  by (simp add: release_owner_def final_release_def)

lemma work_req: "req_step e s = Some s' \<Longrightarrow> internal e \<Longrightarrow> work s' < work s"
  unfolding work_def
  by (cases e; clarsimp simp: Let_def started_def attempt_ctx_def term_end_pool split: step_splits; arith)

lemma work_close: "close_step e s = Some s' \<Longrightarrow> internal e \<Longrightarrow> work s' < work s"
  unfolding work_def using release_work[of s]
  by (cases e; clarsimp simp: term_end_pool split: step_splits)

lemma work_fin: "fin_step e s = Some s' \<Longrightarrow> internal e \<Longrightarrow> work s' < work s"
  unfolding work_def using release_work[of s]
  by (cases e; clarsimp simp: term_end_pool split: step_splits; arith)

lemma work_reap:
  assumes "reap_step e s = Some s'" "internal e"
  shows "work s' < work s"
proof (cases "\<exists>pid. e = E_reap pid")
  case True
  then obtain pid where e: "e = E_reap pid" ..
  then have pid: "pid \<in> set (sv_reapers s)" using assms(1) by (simp split: if_splits)
  then have "Suc (length (remove1 pid (sv_reapers s))) = length (sv_reapers s)"
    using length_pos_if_in_set[OF pid] by (simp add: length_remove1)
  then show ?thesis using pid assms(1) unfolding work_def e by clarsimp
next
  case False
  then show ?thesis using assms unfolding work_def
    by (cases e; clarsimp simp: Let_def release_owner_def split: step_splits; arith)
qed

lemma work_other: "other_step e s = Some s' \<Longrightarrow> internal e \<Longrightarrow> work s' < work s"
  unfolding work_def by (cases e; clarsimp simp: run_close_callbacks_def split: step_splits)

lemma work_step: "sup_step e s = Some s' \<Longrightarrow> internal e \<Longrightarrow> work s' < work s"
  by (erule sup_step_cases) (blast intro: work_req work_close work_fin work_reap work_other)+

lemma work_run: "sup_run es s = Some s' \<Longrightarrow> \<forall>e\<in>set es. internal e \<Longrightarrow> length es + work s' \<le> work s"
proof (induction es arbitrary: s)
  case (Cons e es)
  then obtain s1 where step: "sup_step e s = Some s1" and "sup_run es s1 = Some s'" by (auto split: option.splits)
  then have "length es + work s' \<le> work s1" using Cons by simp
  then show ?case using work_step[OF step] Cons.prems(2) by simp
qed simp

text \<open>Nothing is under way.\<close>

definition quiescent :: "supervisor \<Rightarrow> bool" where
  "quiescent s \<longleftrightarrow> sv_req s = R_idle \<and> sv_finally s = 0 \<and> sv_close s = C_idle \<and> \<not> fin_active s \<and> sv_reapers s = [] \<and>
     sv_reap_flag s = 0 \<and> sv_reap_last s = 0 \<and> sv_releasing s = 0"

definition enabled :: "supervisor \<Rightarrow> sup_event \<Rightarrow> bool" where
  "enabled s e \<longleftrightarrow> internal e \<and> threads_start e \<and> sup_step e s \<noteq> None"

lemma sup_step_defined:
  "req_step e s \<noteq> None \<or> close_step e s \<noteq> None \<or> fin_step e s \<noteq> None \<or> reap_step e s \<noteq> None \<or> other_step e s \<noteq> None
   \<Longrightarrow> sup_step e s \<noteq> None"
  by (auto simp: sup_step_def split: option.splits)

lemma enabledI:
  "internal e \<Longrightarrow> threads_start e \<Longrightarrow>
   req_step e s \<noteq> None \<or> close_step e s \<noteq> None \<or> fin_step e s \<noteq> None \<or> reap_step e s \<noteq> None \<or> other_step e s \<noteq> None
   \<Longrightarrow> \<exists>e. enabled s e"
  using sup_step_defined unfolding enabled_def by blast

text \<open>The thread that holds the lock can always go on.\<close>

lemma req_enabled:
  assumes "sv_req s \<noteq> R_idle"
  shows "\<exists>e. enabled s e"
proof (cases "sv_req s")
  case R_idle then show ?thesis using assms by simp
next
  case (R_entry k) then show ?thesis by (intro enabledI[of E_entry]) (simp_all split: req_kind.splits)
next
  case (R_start k) then show ?thesis by (intro enabledI[of "E_start 0"]) simp_all
next
  case (R_popen k b) then show ?thesis by (intro enabledI[of "E_popen True"]) simp_all
next
  case (R_spawned k b) then show ?thesis by (intro enabledI[of E_spawned]) simp_all
next
  case (R_hello k b) then show ?thesis by (intro enabledI[of "E_hello (Inl Bad_value)"]) simp_all
next
  case (R_io rid n) then show ?thesis by (intro enabledI[of "E_io (Inl Bad_value)"]) simp_all
next
  case (R_tbegin ctx f) then show ?thesis by (intro enabledI[of E_tbegin]) simp_all
next
  case (R_tend ctx f p) then show ?thesis by (intro enabledI[of "E_tend T_gone"]) simp_all
next
  case (R_tdone ctx f) then show ?thesis by (intro enabledI[of "E_tdone 0"]) (simp_all split: term_ctx.splits)
next
  case (R_release r) then show ?thesis by (intro enabledI[of E_release]) simp_all
qed

lemma fin_enabled:
  assumes "sv_fin s \<noteq> F_none"
  shows "\<exists>e. enabled s e"
proof (cases "sv_fin s")
  case F_none then show ?thesis using assms by simp
next
  case (F_tend p) then show ?thesis by (intro enabledI[of "E_fin_tend T_gone"]) simp_all
next
  case F_done then show ?thesis by (intro enabledI[of E_fin_unlock]) simp_all
qed

lemma close_enabled:
  assumes "sv_close s \<noteq> C_idle"
  shows "\<exists>e. enabled s e"
proof (cases "sv_close s")
  case C_idle then show ?thesis using assms by simp
next
  case C_lock then show ?thesis by (intro enabledI[of "E_close_lock (\<not> sv_request_lock s)"]) simp_all
next
  case (C_tbegin ctx) then show ?thesis by (intro enabledI[of E_close_tbegin]) simp_all
next
  case (C_tend ctx p) then show ?thesis by (intro enabledI[of "E_close_tend T_gone"]) simp_all
next
  case (C_tdone ctx) then show ?thesis by (intro enabledI[of E_close_tdone]) (simp_all split: close_ctx.splits)
next
  case C_spawn then show ?thesis by (intro enabledI[of "E_close_spawn True"]) simp_all
next
  case C_clear then show ?thesis by (intro enabledI[of E_close_clear]) simp_all
next
  case C_final then show ?thesis by (intro enabledI[of E_close_final]) simp_all
qed

lemma stuck_quiescent:
  assumes "lock_inv s" "\<nexists>e. enabled s e"
  shows "quiescent s"
proof -
  have pcs: "sv_req s = R_idle" "sv_fin s = F_none" "sv_close s = C_idle"
    using req_enabled fin_enabled close_enabled assms(2) by blast+
  then have "\<not> sv_request_lock s" using assms(1) by (simp add: lock_inv_def)
  then have "sv_fin_wait s = 0" using enabledI[of E_fin_lock s] assms(2) by (cases "sv_fin_wait s") auto
  moreover have "sv_finally s = 0" using enabledI[of E_finally s] assms(2) by (cases "sv_finally s") (auto simp: Let_def)
  moreover have "sv_fin_clear s = 0" using enabledI[of E_fin_clear s] assms(2) by (cases "sv_fin_clear s") (auto simp: Let_def)
  moreover have "sv_fin_check s = 0" using enabledI[of E_fin_check s] assms(2) by (cases "sv_fin_check s") (auto simp: Let_def)
  moreover have "sv_reap_flag s = 0" using enabledI[of E_reap_flag s] assms(2) by (cases "sv_reap_flag s") (auto simp: Let_def)
  moreover have "sv_reap_last s = 0" using enabledI[of E_reap_last s] assms(2) by (cases "sv_reap_last s") (auto simp: Let_def)
  moreover have "sv_releasing s = 0" using enabledI[of E_callbacks s] assms(2) by (cases "sv_releasing s") (auto simp: Let_def)
  moreover have "sv_reapers s = []"
    using enabledI[of "E_reap (hd (sv_reapers s))" s] assms(2) by (cases "sv_reapers s") auto
  ultimately show ?thesis using pcs by (simp add: quiescent_def fin_active_def)
qed

lemma quiescent_closed:
  assumes "full_inv s" "quiescent s" "sv_closed s"
  shows "\<not> sv_owner s \<and> sv_process s = None \<and> sv_children s = [] \<and> mset (sv_ran s) = mset (sv_registered s)"
proof -
  have settled: "settled s" using assms by (simp add: full_inv_def end_inv_def quiescent_def)
  then have "\<not> sv_owner s" "sv_process s = None" using assms(2) by (auto simp: settled_def sealed_def quiescent_def)
  moreover have "one_child s" "owner_inv s" using assms(1) by (simp_all add: full_inv_def sup_inv_def worker_inv_def)
  ultimately show ?thesis using assms(2) by (auto simp: one_child_def owner_inv_def quiescent_def)
qed

lemma threaded_run:
  "sup_run es s = Some s' \<Longrightarrow> \<forall>e\<in>set es. threads_start e \<Longrightarrow> threaded_move\<^sup>*\<^sup>* s s'"
proof (induction es arbitrary: s)
  case (Cons e es)
  then obtain s1 where "sup_step e s = Some s1" and "sup_run es s1 = Some s'" by (auto split: option.splits)
  then show ?case using Cons by (auto simp: threaded_move_def intro: converse_rtranclp_into_rtranclp)
qed simp

lemma closed_stays: "sup_step e s = Some s' \<Longrightarrow> sv_closed s \<Longrightarrow> sv_closed s'"
  by (erule sup_step_cases; cases e; clarsimp simp: Let_def run_close_callbacks_def when_closed_def split: step_splits split del: if_split)

lemma closed_stays_run: "sup_run es s = Some s' \<Longrightarrow> sv_closed s \<Longrightarrow> sv_closed s'"
  by (induction es arbitrary: s) (auto split: option.splits intro: closed_stays)

text \<open>
  C22: The end of a close. Take a supervisor for the default device in any state that its
  threads can reach, after \<^verbatim>\<open>close\<close>. Left to themselves (no new request, close or service
  call) its threads take a bounded number of steps, whatever they are; and when none can
  go on, the slot of the process is free, there is no worker process and every close
  callback has run. The threads that the code starts are assumed to start.
\<close>

theorem close_comes_to_an_end:
  assumes "cpu_supervisor s0" "threaded_move\<^sup>*\<^sup>* s0 s" "sv_closed s"
    "sup_run es s = Some s'" "\<forall>e\<in>set es. internal e \<and> threads_start e"
  shows "length es \<le> work s \<and>
    ((\<exists>e. enabled s' e) \<or>
     \<not> sv_owner s' \<and> sv_process s' = None \<and> sv_children s' = [] \<and> mset (sv_ran s') = mset (sv_registered s'))"
proof -
  have "threaded_move\<^sup>*\<^sup>* s0 s'" using assms(2) threaded_run[OF assms(4)] assms(5) by (auto intro: rtranclp_trans)
  then have inv: "full_inv s'" by (rule sup_close.inv_reachable[OF assms(1)])
  then have "lock_inv s'" by (simp add: full_inv_def sup_inv_def)
  then show ?thesis
    using work_run[OF assms(4)] assms(5) stuck_quiescent quiescent_closed[OF inv] closed_stays_run[OF assms(4,3)] by fastforce
qed

end
