(* ===== verification/SupervisorRuns.thy ===== *)
theory SupervisorRuns
  imports SupervisorProps
begin

text \<open>
  Runs of the embedding supervisor: a start and a close, with the instances of the theorems
  at it; and the two interleavings in which the slot of the process is given up while a
  worker still exists.
\<close>

lemma cpu_device: "normalize_embedding_device None = ''cpu''"
  by code_simp

lemma cuda_device: "normalize_embedding_device (Some ''cuda'') = ''cuda''"
  by code_simp

definition cpu_example :: supervisor where
  "cpu_example = new_supervisor ''m'' None 3 1 ''g''"

definition cuda_example :: supervisor where
  "cuda_example = new_supervisor ''m'' (Some ''cuda'') 3 1 ''g''"

definition hello_example :: pyval where
  "hello_example = PDict [(''op'', PStr ''hello''), (''version'', PInt 1), (''generation'', PStr ''g''), (''model'', PStr ''m''),
     (''requested_device'', PStr ''cpu''), (''device'', PStr ''cpu''), (''dimension'', PInt 3)]"

lemma hello_example_accepted: "accept_hello ''g'' ''m'' 3 ''cpu'' hello_example = Some (3, ''cpu'')"
  by (simp add: accept_hello_def hello_example_def dict_get_def MAX_DIMENSION_def DEFAULT_EMBEDDING_DEVICE_def)

lemmas run_simps = sup_step_def new_supervisor_def cpu_device cuda_device DEFAULT_EMBEDDING_DEVICE_def Let_def
  term_target_def term_end_def attempt_ctx_def attempt_device_def may_retry_cpu_def fall_back_to_cpu_def
  record_failure_def final_release_def release_owner_def run_close_callbacks_def when_closed_def
  hello_example_accepted hello_accepted_def hello_failure_def io_failed_def io_failure_def started_def backoff_delay_def

section \<open>A start and a close\<close>

definition open_and_close :: "sup_event list" where
  "open_and_close = [E_when_closed 7, E_acquire K_start, E_entry, E_start 0, E_popen True, E_spawned,
     E_hello (Inr hello_example), E_release, E_finally, E_close]"

definition end_of_close :: "sup_event list" where
  "end_of_close = [E_close_lock True, E_close_tbegin, E_close_tend T_gone, E_close_tdone, E_close_final, E_callbacks]"

lemma open_and_close_run:
  obtains s s' where "sup_run open_and_close cpu_example = Some s" "sup_run end_of_close s = Some s'"
    "sv_closed s" "sv_registered s' = [7]" "work s' = 0"
proof -
  obtain s where s: "sup_run open_and_close cpu_example = Some s"
    by (simp add: open_and_close_def cpu_example_def run_simps)
  obtain s' where s': "sup_run end_of_close s = Some s'"
    using s by (clarsimp simp: open_and_close_def end_of_close_def cpu_example_def run_simps)
  show thesis
    by (rule that[OF s s']) (use s s' in \<open>clarsimp simp: open_and_close_def end_of_close_def cpu_example_def run_simps work_def\<close>)+
qed

lemma cpu_example_ok: "cpu_supervisor cpu_example" "fresh_supervisor cpu_example"
proof -
  have "valid_dimension 3" by (simp add: valid_dimension_def MAX_DIMENSION_def)
  then show "cpu_supervisor cpu_example" "fresh_supervisor cpu_example"
    unfolding cpu_supervisor_def fresh_supervisor_def cpu_example_def
    using cpu_device DEFAULT_EMBEDDING_DEVICE_def by metis+
qed

lemma example_threads: "\<forall>e\<in>set open_and_close. threads_start e" "\<forall>e\<in>set end_of_close. internal e \<and> threads_start e"
  by (simp_all add: open_and_close_def end_of_close_def)

lemma idle_not_enabled: "work s = 0 \<Longrightarrow> \<not> enabled s e"
  using work_step[of e s] by (cases "sup_step e s") (auto simp: enabled_def)

theorem close_comes_to_an_end_witness:
  "\<exists>s s'. sup_run open_and_close cpu_example = Some s \<and> sup_run end_of_close s = Some s' \<and> length end_of_close \<le> work s \<and>
     \<not> sv_owner s' \<and> sv_process s' = None \<and> sv_children s' = [] \<and> mset (sv_ran s') = {#7#}"
proof -
  obtain s s' where run: "sup_run open_and_close cpu_example = Some s" "sup_run end_of_close s = Some s'"
    and closed: "sv_closed s" and "sv_registered s' = [7]" "work s' = 0"
    by (rule open_and_close_run)
  moreover have "threaded_move\<^sup>*\<^sup>* cpu_example s" by (rule threaded_run[OF run(1) example_threads(1)])
  note close_comes_to_an_end[OF cpu_example_ok(1) this closed run(2) example_threads(2)]
  ultimately show ?thesis using idle_not_enabled[of s'] by auto
qed

lemma sup_run_moves: "sup_run es s = Some s' \<Longrightarrow> sup_move\<^sup>*\<^sup>* s s'"
proof (induction es arbitrary: s)
  case (Cons e es)
  then obtain s1 where "sup_step e s = Some s1" and "sup_run es s1 = Some s'" by (auto split: option.splits)
  then show ?case using Cons by (auto simp: sup_move_def intro: converse_rtranclp_into_rtranclp)
qed simp

theorem close_callbacks_once_witness:
  "\<exists>s. sup_run open_and_close cpu_example = Some s \<and> mset (sv_ran s) + mset (sv_close_callbacks s) = mset (sv_registered s)"
proof -
  obtain s s' where run: "sup_run open_and_close cpu_example = Some s" "sup_run end_of_close s = Some s'"
    by (rule open_and_close_run)
  then show ?thesis using close_callbacks_once[OF cpu_example_ok(2) sup_run_moves[OF run(1)]] by blast
qed

theorem one_live_supervisor_witness:
  "sv_owner cpu_example \<and> create_supervisor ''m'' None 3 1 ''h'' [cpu_example] = Inl OWNED"
proof -
  have dim: "valid_dimension 3" by (simp add: valid_dimension_def MAX_DIMENSION_def)
  then have "create_supervisor ''m'' None 3 1 ''g'' [] = Inr [cpu_example]"
    by (simp add: create_supervisor_def claim_owner_def cpu_example_def)
  then have "world_step\<^sup>*\<^sup>* [] [cpu_example]" by (intro r_into_rtranclp W_create)
  moreover have "\<not> sv_closed ([cpu_example] ! 0)" by (simp add: cpu_example_def new_supervisor_def Let_def)
  ultimately show ?thesis
    using one_live_supervisor[of "[cpu_example]" 0 3 "''m''" None 1 "''h''"] dim by simp
qed

section \<open>A slot given up too early\<close>

text \<open>
  The closing thread waits for the first worker; the request thread finds it gone, may
  retry on the default device and starts a second worker; then the closing thread forgets
  the process, which is the second one by now.
\<close>

definition retry_race :: "sup_event list" where
  "retry_race =
     [E_acquire K_start, E_entry, E_start 0, E_popen True, E_spawned,
      E_close, E_close_lock False, E_close_tbegin,
      E_hello (Inl (Unavailable EXITED)), E_tbegin, E_tend T_gone, E_tdone 0, E_popen True,
      E_close_tend T_gone, E_close_tdone, E_close_spawn True,
      E_spawned, E_tbegin, E_tdone 0, E_release, E_finally,
      E_fin_lock, E_fin_unlock, E_fin_clear, E_fin_check,
      E_fin_lock, E_fin_unlock, E_fin_clear, E_fin_check, E_callbacks]"

text \<open>
  For a device other than the default one a close can leave a worker behind: there is
  a run, with every thread starting as it should, that ends with the supervisor closed,
  the slot free, no process recorded and nothing under way, and a worker that no one has
  waited for and no one will.
\<close>

theorem cpu_retry_can_leave_worker:
  "\<exists>s. sup_run retry_race cuda_example = Some s \<and> list_all threads_start retry_race \<and> sv_closed s \<and> quiescent s \<and>
     \<not> sv_owner s \<and> sv_process s = None \<and> sv_children s = [1]"
  by (simp add: retry_race_def cuda_example_def run_simps quiescent_def fin_active_def)

text \<open>
  And for every device the last test of a reaper may see a close that came after it, and
  give up the slot while the next request starts a worker.
\<close>

definition reaper_race :: "sup_event list" where
  "reaper_race =
     [E_acquire (K_encode ''r'' 1), E_entry, E_start 0, E_popen True, E_spawned, E_hello (Inr hello_example),
      E_io (Inl (Unavailable TIMEOUT)), E_tbegin, E_tend T_reaper, E_tdone 0, E_release, E_finally,
      E_reap 0, E_reap_flag,
      E_acquire K_start, E_entry, E_start 2, E_close, E_reap_last, E_popen True]"

theorem reaper_can_release_early:
  "\<exists>s. sup_run reaper_race cpu_example = Some s \<and> \<not> sv_owner s \<and> sv_children s = [1]"
  by (simp add: reaper_race_def cpu_example_def run_simps)

end
