(* ===== verification/Recall.thy ===== *)
theory Recall
  imports Provider "HOL-Library.List_Lexorder" "HOL-Library.Char_ord" "HOL-Library.Option_ord"
    "HOL-Library.Product_Lexorder" "HOL-Library.Multiset"
begin

text \<open>
  Recall from the graph by keywords and the text that recall returns: \<^verbatim>\<open>_keyword_search\<close>,
  \<^verbatim>\<open>_enrich_results\<close> and \<^verbatim>\<open>_format_context\<close> of \<^verbatim>\<open>__init__.py\<close>. The statement that the search
  builds is translated to a filter, an order and a limit on the rows of the table; rows
  that the order does not tell apart stay in the order of the table.
\<close>

section \<open>The search\<close>

text \<open>\<^verbatim>\<open>s.split()\<close>.\<close>

fun split_words :: "string \<Rightarrow> string \<Rightarrow> string list" where
  "split_words word [] = (if word = [] then [] else [rev word])"
| "split_words word (c # cs) =
     (if py_isspace c then (if word = [] then split_words [] cs else rev word # split_words [] cs)
      else split_words (c # word) cs)"

definition py_split :: "string \<Rightarrow> string list" where
  "py_split s = split_words [] s"

text \<open>\<^verbatim>\<open>x LIKE pattern\<close> of SQLite: letters of ASCII compare without case.\<close>

definition ascii_lower :: "char \<Rightarrow> char" where
  "ascii_lower c = (let n = (of_char c :: nat) in if 65 \<le> n \<and> n \<le> 90 then char_of (n + 32) else c)"

fun sql_like :: "string \<Rightarrow> string \<Rightarrow> bool" where
  "sql_like [] s = (s = [])"
| "sql_like (p # ps) [] = (p = CHR ''%'' \<and> sql_like ps [])"
| "sql_like (p # ps) (c # cs) =
     (if p = CHR ''%'' then sql_like ps (c # cs) \<or> sql_like (p # ps) cs
      else (p = CHR ''_'' \<or> ascii_lower p = ascii_lower c) \<and> sql_like ps cs)"

definition like_infix :: "string \<Rightarrow> string \<Rightarrow> bool" where
  "like_infix w s = sql_like (''%'' @ w @ ''%'') s"

text \<open>The \<^verbatim>\<open>WHERE\<close> clause; an empty string and \<^verbatim>\<open>None\<close> are the same to it.\<close>

definition given :: "string option \<Rightarrow> bool" where
  "given s \<longleftrightarrow> s \<noteq> None \<and> s \<noteq> Some []"

definition keyword_matches ::
    "string list \<Rightarrow> string option \<Rightarrow> string option \<Rightarrow> string list \<Rightarrow> recall_node \<Rightarrow> bool" where
  "keyword_matches words domain tag exclude_tags n \<longleftrightarrow>
     (rn_decayed n = None \<or> rn_decayed n = Some 0) \<and>
     (\<forall>w \<in> set words. like_infix w (rn_content n)) \<and>
     (given domain \<longrightarrow> rn_domain n = domain) \<and>
     (given tag \<longrightarrow> (case rn_tags n of None \<Rightarrow> False | Some t \<Rightarrow> like_infix (the tag) t)) \<and>
     (\<forall>ex \<in> set exclude_tags. ex \<noteq> [] \<longrightarrow> (case rn_tags n of None \<Rightarrow> True | Some t \<Rightarrow> \<not> like_infix ex t))"

text \<open>The \<^verbatim>\<open>ORDER BY\<close> clause: a larger key comes first; \<^verbatim>\<open>NULL\<close> is the smallest value.\<close>

definition recall_key :: "string \<Rightarrow> string list \<Rightarrow> recall_node \<Rightarrow> bool \<times> string option \<times> string option" where
  "recall_key query words n = (words \<noteq> [] \<and> like_infix query (rn_content n), rn_referent_time n, rn_timestamp n)"

fun insert_row :: "('a \<Rightarrow> 'k::linorder) \<Rightarrow> 'a \<Rightarrow> 'a list \<Rightarrow> 'a list" where
  "insert_row key x [] = [x]"
| "insert_row key x (y # ys) = (if key y \<le> key x then x # y # ys else y # insert_row key x ys)"

definition order_rows :: "('a \<Rightarrow> 'k::linorder) \<Rightarrow> 'a list \<Rightarrow> 'a list" where
  "order_rows key xs = foldr (insert_row key) xs []"

text \<open>\<^verbatim>\<open>LIMIT n\<close>: a negative number is no limit.\<close>

definition limit_rows :: "int \<Rightarrow> 'a list \<Rightarrow> 'a list" where
  "limit_rows n xs = (if n < 0 then xs else take (nat n) xs)"

definition keyword_search ::
    "recall_node list \<Rightarrow> string \<Rightarrow> int \<Rightarrow> string option \<Rightarrow> string option \<Rightarrow> string list \<Rightarrow> recall_node list" where
  "keyword_search rows query max_nodes domain tag exclude_tags =
     (let words = py_split query
      in limit_rows max_nodes (order_rows (recall_key query words)
           (filter (keyword_matches words domain tag exclude_tags) rows)))"

text \<open>\<^verbatim>\<open>_enrich_results\<close>: the rows with the given identifiers, in the order of the table.\<close>

definition enrich_results :: "recall_node list \<Rightarrow> string list \<Rightarrow> recall_node list" where
  "enrich_results rows node_ids = (if node_ids = [] then [] else filter (\<lambda>n. rn_id n \<in> set node_ids) rows)"

section \<open>The text\<close>

fun join :: "string \<Rightarrow> string list \<Rightarrow> string" where
  "join sep [] = []"
| "join sep [x] = x"
| "join sep (x # y # ys) = x @ sep @ join sep (y # ys)"

definition node_labels :: "recall_node \<Rightarrow> string list" where
  "node_labels n =
     (if given (rn_domain n) then [''domain: '' @ the (rn_domain n)] else []) @
     (if given (rn_node_type n) then [''type: '' @ the (rn_node_type n)] else []) @
     (if rn_permanent n = Some 1 then [''permanent''] else [])"

definition node_line :: "recall_node \<Rightarrow> string" where
  "node_line n =
     (if node_labels n \<noteq> [] then ''['' @ join '' | '' (node_labels n) @ ''] '' @ rn_content n else rn_content n)"

definition format_context :: "recall_node list \<Rightarrow> string" where
  "format_context nodes =
     (if nodes = [] then [] else join [CHR 0x0A] (''=== RELEVANT CONTEXT ==='' # map node_line nodes))"

section \<open>What a search returns\<close>

lemma mset_insert_row: "mset (insert_row key x xs) = add_mset x (mset xs)"
  by (induction xs) auto

lemma mset_order_rows: "mset (order_rows key xs) = mset xs"
  by (induction xs) (simp_all add: order_rows_def mset_insert_row)

lemma set_order_rows: "set (order_rows key xs) = set xs"
  using mset_order_rows by (metis set_mset_mset)

lemma sorted_insert_row:
  "sorted_wrt (\<lambda>a b. key b \<le> key a) xs \<Longrightarrow> sorted_wrt (\<lambda>a b. key b \<le> key a) (insert_row key x xs)"
proof (induction xs)
  case (Cons y ys)
  have "set (insert_row key x ys) = insert x (set ys)"
    by (metis mset_insert_row set_mset_add_mset_insert set_mset_mset)
  then show ?case using Cons by (auto intro: order_trans)
qed simp

lemma sorted_order_rows: "sorted_wrt (\<lambda>a b. key b \<le> key a) (order_rows key xs)"
  by (induction xs) (simp_all add: order_rows_def sorted_insert_row)

lemma like_percent: "sql_like ps s \<Longrightarrow> sql_like (CHR ''%'' # ps) (a @ s)"
proof (induction a)
  case Nil
  then show ?case by (cases s) auto
qed simp

lemma like_refl: "sql_like w w"
proof (induction w)
  case (Cons c w)
  then show ?case using like_percent[of w w "[]"] by auto
qed simp

lemma like_append: "sql_like ps s \<Longrightarrow> sql_like qs t \<Longrightarrow> sql_like (ps @ qs) (s @ t)"
proof (induction ps s rule: sql_like.induct)
  case (2 p ps)
  then show ?case using like_percent[of "ps @ qs" t "[]"] by simp
next
  case (3 p ps c cs)
  then show ?case by (auto split: if_splits)
qed simp

lemma like_infixI: "like_infix w (a @ w @ b)"
  unfolding like_infix_def
  using like_append[OF like_append[OF like_percent[of "[]" "[]" a] like_refl[of w]] like_percent[of "[]" "[]" b]] by simp

lemma keyword_search_member:
  "n \<in> set (keyword_search rows q k d t ex) \<Longrightarrow> n \<in> set rows \<and> keyword_matches (py_split q) d t ex n"
  by (auto simp: keyword_search_def limit_rows_def Let_def set_order_rows dest: in_set_takeD split: if_splits)


definition sample_nodes :: "recall_node list" where
  "sample_nodes =
     [\<lparr>rn_id = ''a'', rn_content = ''Red fox'', rn_node_type = Some ''fact'', rn_domain = Some ''user'', rn_tags = Some ''vault:private'',
       rn_permanent = None, rn_decayed = None, rn_referent_time = None, rn_timestamp = Some ''2026''\<rparr>,
      \<lparr>rn_id = ''b'', rn_content = ''a red door'', rn_node_type = None, rn_domain = None, rn_tags = None,
       rn_permanent = Some 1, rn_decayed = Some 0, rn_referent_time = None, rn_timestamp = Some ''2025''\<rparr>,
      \<lparr>rn_id = ''c'', rn_content = ''red'', rn_node_type = None, rn_domain = None, rn_tags = None,
       rn_permanent = None, rn_decayed = Some 0, rn_referent_time = Some ''2024'', rn_timestamp = None\<rparr>]"

lemma length_sample: "length sample_nodes = 3"
  by (simp add: sample_nodes_def)

lemma sample_matches: "filter (keyword_matches (py_split ''RED'') None None [''vault'']) sample_nodes = drop 1 sample_nodes"
  by code_simp


text \<open>The ranking of the retrieval is lost when its results are looked up.\<close>

lemma enrich_order: "map rn_id (enrich_results sample_nodes [''c'', ''a'']) = [''a'', ''c'']"
  by (simp add: enrich_results_def sample_nodes_def)

end
