(* ===== verification/Tools.thy ===== *)
theory Tools
  imports Recall
begin

text \<open>
  The tools the provider offers to the model: the answers of \<^verbatim>\<open>tools.py\<close> and
  \<^verbatim>\<open>handle_tool_call\<close> of \<^verbatim>\<open>__init__.py\<close>. An answer is the dictionary that is written as
  JSON. What the calls into the engine and the database do, and what other threads do
  to the provider meanwhile, are inputs.
\<close>

section \<open>Answers\<close>

definition TOOL_NAME :: string where
  "TOOL_NAME = ''cashew_query''"

definition EXTRACT_TOOL_NAME :: string where
  "EXTRACT_TOOL_NAME = ''cashew_extract''"

definition build_success_envelope :: "pyval \<Rightarrow> string \<Rightarrow> int \<Rightarrow> pydict" where
  "build_success_envelope query context node_count =
     [(''ok'', PBool True), (''tool'', PStr TOOL_NAME), (''query'', query), (''context'', PStr context),
      (''node_count'', PInt node_count)]"

definition build_error_envelope :: "pyval \<Rightarrow> string \<Rightarrow> pydict" where
  "build_error_envelope query error_message =
     [(''ok'', PBool False), (''tool'', PStr TOOL_NAME), (''error'', PStr error_message), (''query'', query)]"

definition build_extract_success_envelope :: "int \<Rightarrow> int \<Rightarrow> pydict" where
  "build_extract_success_envelope new_nodes new_edges =
     [(''ok'', PBool True), (''tool'', PStr EXTRACT_TOOL_NAME), (''new_nodes'', PInt new_nodes),
      (''new_edges'', PInt new_edges)]"

definition build_extract_error_envelope :: "string \<Rightarrow> pydict" where
  "build_extract_error_envelope error_message =
     [(''ok'', PBool False), (''tool'', PStr EXTRACT_TOOL_NAME), (''error'', PStr error_message)]"

section \<open>The calls\<close>

text \<open>
  The environment of one call: what other threads do before the call takes the lock and
  while it works; whether the admission is granted and its lease given back; what the
  retrieval by vectors answers (identifiers), what the rows for them and the keyword
  search answer; what the runtime identity check and the extraction answer.
\<close>

record tool_env =
  te_before :: "provider \<Rightarrow> provider"
  te_during :: "provider \<Rightarrow> provider"
  te_admission :: "exn option"
  te_release :: "exn option"
  te_vector :: "string list res"
  te_enrich :: "recall_node list res"
  te_keyword :: "recall_node list res"
  te_validate :: "exn option"
  te_session :: "(nat \<times> nat) res"
  te_elapsed_ms :: real

text \<open>\<^verbatim>\<open>len(x)\<close>: the length, or the \<^verbatim>\<open>TypeError\<close>.\<close>

fun py_len :: "pyval \<Rightarrow> nat res" where
  "py_len (PStr s) = Inr (length s)"
| "py_len (PList xs) = Inr (length xs)"
| "py_len (PDict d) = Inr (length d)"
| "py_len _ = raise C_TypeError ''object has no len()''"

definition py_index :: "pydict \<Rightarrow> string \<Rightarrow> pyval res" where
  "py_index d k = (case map_of d k of None \<Rightarrow> raise C_KeyError k | Some v \<Rightarrow> Inr v)"

definition keyword_result :: "tool_env \<Rightarrow> pyval \<Rightarrow> recall_node list res" where
  "keyword_result env query = (if is_str query then te_keyword env else raise C_AttributeError ''split'')"

text \<open>The rows of a query, and whether the retrieval by vectors failed.\<close>

definition query_nodes :: "tool_env \<Rightarrow> bool \<Rightarrow> pyval \<Rightarrow> (recall_node list \<times> bool) res" where
  "query_nodes env identity_ready query =
     (if \<not> identity_ready then bind_res (keyword_result env query) (\<lambda>nodes. Inr (nodes, False))
      else
        bind_res (raised (te_admission env)) (\<lambda>_.
        bind_res
          (case te_vector env of
             Inl e \<Rightarrow> if isinstance e C_Exception then map_sum id (\<lambda>nodes. (nodes, True)) (keyword_result env query) else Inl e
           | Inr ids \<Rightarrow>
               if ids \<noteq> [] then map_sum id (\<lambda>nodes. (nodes, False)) (te_enrich env)
               else map_sum id (\<lambda>nodes. (nodes, False)) (keyword_result env query)) (\<lambda>r.
        bind_res (raised (te_release env)) (\<lambda>_. Inr r))))"

definition query_body :: "tool_env \<Rightarrow> bool \<Rightarrow> pydict \<Rightarrow> provider \<Rightarrow> (pyval \<times> recall_node list \<times> bool) res" where
  "query_body env identity_ready args p =
     bind_res (py_index args ''query'') (\<lambda>query.
     bind_res (py_len query) (\<lambda>_.
     bind_res (if pv_config p = None then raise C_AttributeError ''recall_k'' else Inr ()) (\<lambda>_.
     bind_res (query_nodes env identity_ready query) (\<lambda>(nodes, vector_failed).
     Inr (query, nodes, vector_failed)))))"

definition query_succeeded :: "nat \<times> int \<Rightarrow> bool \<Rightarrow> bool \<Rightarrow> bool \<Rightarrow> provider \<Rightarrow> provider" where
  "query_succeeded h is_empty vector_failed identity_ready p =
     (if outcome_current_locked h p then
        let p = upd_outcomes (record_tool ''cashew_query'' True is_empty) p
        in if vector_failed \<and> identity_ready \<and> \<not> pv_shutdown_started p
           then set_health_locked ''degraded'' (Some ''vector_unavailable'') (Some ''keyword'') None None p else p
      else p)"

definition tool_failed :: "string \<Rightarrow> string option \<Rightarrow> nat \<times> int \<Rightarrow> exn \<Rightarrow> provider \<Rightarrow> provider" where
  "tool_failed tool fallback h e p =
     (if outcome_current_locked h p then
        set_health_locked ''degraded'' (Some ''backend_error'') fallback None (Some e)
          (upd_outcomes (record_tool tool False False) p)
      else p)"

text \<open>The answer of the handler of an exception, which first takes the length of an argument.\<close>

definition handler_answer :: "pydict \<Rightarrow> string \<Rightarrow> pydict \<Rightarrow> pydict res" where
  "handler_answer args key answer = bind_res (py_len (dict_get_default args key (PStr []))) (\<lambda>_. Inr answer)"

definition handle_query :: "tool_env \<Rightarrow> pydict \<Rightarrow> provider \<Rightarrow> provider \<times> pydict res" where
  "handle_query env args p =
     (let failed = build_error_envelope (dict_get args ''query'') ''cashew recall failed''
      in if pv_config p = None \<or> pv_initializing p \<or> pv_shutdown_started p then (p, Inr failed)
         else
           let p1 = te_before env p;
               h = (pv_ledger p1, pv_health_generation p1);
               identity_ready = pv_identity_ready p1;
               p2 = te_during env p1
           in case query_body env identity_ready args p1 of
                Inr (query, nodes, vector_failed) \<Rightarrow>
                  (upd_metrics (record_query False (te_elapsed_ms env))
                     (query_succeeded h (nodes = []) vector_failed identity_ready p2),
                   Inr (build_success_envelope query (format_context nodes) (int (length nodes))))
              | Inl e \<Rightarrow>
                  if isinstance e C_Exception
                  then (tool_failed ''cashew_query'' (Some ''keyword'') h e p2, handler_answer args ''query'' failed)
                  else (p2, Inl e))"

definition extract_body :: "tool_env \<Rightarrow> pydict \<Rightarrow> (nat \<times> nat) res" where
  "extract_body env args =
     bind_res (py_index args ''user_content'') (\<lambda>_.
     bind_res (py_index args ''assistant_content'') (\<lambda>_.
     bind_res (raised (te_admission env)) (\<lambda>_.
     bind_res (raised (te_validate env)) (\<lambda>_.
     bind_res (te_session env) (\<lambda>r.
     bind_res (raised (te_release env)) (\<lambda>_. Inr r))))))"

definition handle_extract :: "tool_env \<Rightarrow> pydict \<Rightarrow> provider \<Rightarrow> provider \<times> pydict res" where
  "handle_extract env args p =
     (let failed = build_extract_error_envelope ''cashew extract failed''
      in if \<not> pv_write_enabled p \<or> \<not> pv_identity_ready p \<or> pv_db_path p = None \<or> pv_config p = None \<or>
            pv_initializing p \<or> pv_shutdown_started p then (p, Inr failed)
         else
           let p1 = te_before env p;
               h = (pv_ledger p1, pv_health_generation p1);
               p2 = te_during env p1
           in case extract_body env args of
                Inr (new_nodes, new_edges) \<Rightarrow>
                  (if outcome_current_locked h p2
                   then upd_outcomes (record_tool ''cashew_extract'' True (new_nodes = 0 \<and> new_edges = 0)) p2 else p2,
                   Inr (build_extract_success_envelope (int new_nodes) (int new_edges)))
              | Inl e \<Rightarrow>
                  if isinstance e C_Exception
                  then (tool_failed ''cashew_extract'' None h e p2, handler_answer args ''user_content'' failed)
                  else (p2, Inl e))"

definition handle_tool_call :: "tool_env \<Rightarrow> string \<Rightarrow> pydict \<Rightarrow> provider \<Rightarrow> provider \<times> pydict res" where
  "handle_tool_call env name args p =
     (if name = ''cashew_query'' then handle_query env args p
      else if name = ''cashew_extract'' then handle_extract env args p
      else (p, Inr (build_error_envelope PNone ''unknown tool'')))"

section \<open>A call is answered\<close>

text \<open>The calls made on behalf of a tool raise ordinary exceptions only.\<close>

definition ordinary :: "'a res \<Rightarrow> bool" where
  "ordinary r \<longleftrightarrow> (\<forall>e. r = Inl e \<longrightarrow> isinstance e C_Exception)"

definition ordinary_env :: "tool_env \<Rightarrow> bool" where
  "ordinary_env env \<longleftrightarrow> ordinary (raised (te_admission env)) \<and> ordinary (raised (te_release env)) \<and> ordinary (te_vector env) \<and>
     ordinary (te_enrich env) \<and> ordinary (te_keyword env) \<and> ordinary (raised (te_validate env)) \<and> ordinary (te_session env)"

lemma ordinary_bind: "ordinary r \<Longrightarrow> (\<And>x. r = Inr x \<Longrightarrow> ordinary (f x)) \<Longrightarrow> ordinary (bind_res r f)"
  by (cases r) (auto simp: ordinary_def)

lemma ordinary_raise [simp]: "ordinary (raise c m) \<longleftrightarrow> C_Exception \<in> set (exc_mro c)"
  by (simp add: ordinary_def isinstance_def)

lemma ordinary_Inr [simp]: "ordinary (Inr x)"
  by (simp add: ordinary_def)

lemma ordinary_map [simp]: "ordinary (map_sum id f r) \<longleftrightarrow> ordinary r"
  by (cases r) (auto simp: ordinary_def)

lemma ordinary_len [simp]: "ordinary (py_len v)"
  by (cases v) simp_all

lemma ordinary_index [simp]: "ordinary (py_index d k)"
  by (simp add: py_index_def split: option.split)

lemma ordinary_keyword: "ordinary_env env \<Longrightarrow> ordinary (keyword_result env q)"
  by (simp add: keyword_result_def ordinary_env_def)

lemma ordinary_query_nodes: "ordinary_env env \<Longrightarrow> ordinary (query_nodes env ready q)"
  unfolding query_nodes_def
  by (auto intro!: ordinary_bind simp: ordinary_keyword ordinary_env_def split: sum.split)
    (auto simp: ordinary_def)

lemma ordinary_query: "ordinary_env env \<Longrightarrow> ordinary (query_body env ready args p)"
  unfolding query_body_def
  by (auto intro!: ordinary_bind ordinary_query_nodes split: prod.split)

lemma ordinary_extract: "ordinary_env env \<Longrightarrow> ordinary (extract_body env args)"
  unfolding extract_body_def by (auto intro!: ordinary_bind simp: ordinary_env_def)

text \<open>An argument whose length can be taken, or that is absent.\<close>

definition sized_arg :: "pydict \<Rightarrow> string \<Rightarrow> bool" where
  "sized_arg args key \<longleftrightarrow> (\<exists>n. py_len (dict_get_default args key (PStr [])) = Inr n)"

lemma handler_answer_sized: "sized_arg args key \<Longrightarrow> handler_answer args key d = Inr d"
  by (auto simp: sized_arg_def handler_answer_def)

definition TOOL_ERRORS :: "string set" where
  "TOOL_ERRORS = {''cashew recall failed'', ''cashew extract failed'', ''unknown tool''}"

definition well_formed_answer :: "pydict \<Rightarrow> bool" where
  "well_formed_answer d \<longleftrightarrow> dict_get d ''ok'' = PBool True \<or>
     dict_get d ''ok'' = PBool False \<and> dict_get d ''error'' \<in> PStr ` TOOL_ERRORS"

lemma answers_well_formed [simp]:
  "well_formed_answer (build_success_envelope q c n)" "well_formed_answer (build_extract_success_envelope a b)"
  "m \<in> TOOL_ERRORS \<Longrightarrow> well_formed_answer (build_error_envelope q m)"
  "m \<in> TOOL_ERRORS \<Longrightarrow> well_formed_answer (build_extract_error_envelope m)"
  by (simp_all add: well_formed_answer_def build_success_envelope_def build_extract_success_envelope_def
      build_error_envelope_def build_extract_error_envelope_def dict_get_def)

lemma handle_query_answers:
  assumes "ordinary_env env" "sized_arg args ''query''"
  shows "\<exists>d. snd (handle_query env args p) = Inr d \<and> well_formed_answer d"
  using ordinary_query[OF assms(1)] handler_answer_sized[OF assms(2)]
  by (auto simp: handle_query_def Let_def TOOL_ERRORS_def ordinary_def split: sum.split prod.split)

lemma handle_extract_answers:
  assumes "ordinary_env env" "sized_arg args ''user_content''"
  shows "\<exists>d. snd (handle_extract env args p) = Inr d \<and> well_formed_answer d"
  using ordinary_extract[OF assms(1)] handler_answer_sized[OF assms(2)]
  by (auto simp: handle_extract_def Let_def TOOL_ERRORS_def ordinary_def split: sum.split prod.split)

text \<open>
  C27: A tool call is answered. Whatever fails on the way (an admission, the retrieval,
  the database, the extraction) and whatever state the provider is in or is brought
  into meanwhile, the call returns an answer and raises nothing, as long as the text
  argument is a text (or is missing): a success, or a failure with one of three fixed
  labels and no trace of the cause.
\<close>

theorem tool_call_answers:
  assumes "ordinary_env env" "sized_arg args ''query''" "sized_arg args ''user_content''"
  shows "\<exists>d. snd (handle_tool_call env name args p) = Inr d \<and> well_formed_answer d"
  using handle_query_answers[OF assms(1,2)] handle_extract_answers[OF assms(1,3)]
  by (simp add: handle_tool_call_def TOOL_ERRORS_def)

section \<open>A call is counted\<close>

definition tool_admitted :: "string \<Rightarrow> provider \<Rightarrow> bool" where
  "tool_admitted name p \<longleftrightarrow> pv_config p \<noteq> None \<and> \<not> pv_initializing p \<and> \<not> pv_shutdown_started p \<and>
     (name = ''cashew_query'' \<or> name = ''cashew_extract'' \<and> pv_write_enabled p \<and> pv_identity_ready p \<and> pv_db_path p \<noteq> None)"

text \<open>Whether the generation a call belongs to is still the current one when it ends.\<close>

definition still_current :: "tool_env \<Rightarrow> provider \<Rightarrow> bool" where
  "still_current env p \<longleftrightarrow>
     outcome_current_locked (pv_ledger (te_before env p), pv_health_generation (te_before env p)) (te_during env (te_before env p))"

definition tool_counts :: "string \<Rightarrow> OutcomeLedger \<Rightarrow> int \<times> int" where
  "tool_counts name l = (if name = ''cashew_query'' then (ol_query_completed l, ol_query_failed l)
     else (ol_extract_completed l, ol_extract_failed l))"

lemma outcomes_set_health [simp]: "pv_outcomes (set_health_locked st r f c e p) = pv_outcomes p"
  by (simp add: set_health_locked_def Let_def split: option.split)

lemma outcomes_upd [simp]:
  "pv_outcomes (upd_outcomes f p) = f (pv_outcomes p)" "pv_outcomes (upd_metrics g p) = pv_outcomes p"
  by (simp_all add: upd_outcomes_def upd_metrics_def)

lemma query_succeeded_counts:
  "outcome_current_locked h p \<Longrightarrow>
   tool_counts ''cashew_query'' (pv_outcomes (query_succeeded h e v r p)) =
     (fst (tool_counts ''cashew_query'' (pv_outcomes p)) + 1, snd (tool_counts ''cashew_query'' (pv_outcomes p)))"
  by (simp add: query_succeeded_def tool_counts_def record_tool_def Let_def)

lemma extract_succeeded_counts:
  "tool_counts ''cashew_extract'' (record_tool ''cashew_extract'' True e l) =
     (fst (tool_counts ''cashew_extract'' l) + 1, snd (tool_counts ''cashew_extract'' l))"
  by (simp add: tool_counts_def record_tool_def Let_def)

lemma tool_failed_counts:
  "outcome_current_locked h p \<Longrightarrow> tool \<in> {''cashew_query'', ''cashew_extract''} \<Longrightarrow>
   tool_counts tool (pv_outcomes (tool_failed tool f h e p)) =
     (fst (tool_counts tool (pv_outcomes p)), snd (tool_counts tool (pv_outcomes p)) + 1)"
  by (auto simp: tool_failed_def tool_counts_def record_tool_def Let_def)

lemma answer_ok [simp]:
  "dict_get (build_success_envelope q c n) ''ok'' = PBool True" "dict_get (build_extract_success_envelope a b) ''ok'' = PBool True"
  "dict_get (build_error_envelope q m) ''ok'' = PBool False" "dict_get (build_extract_error_envelope m) ''ok'' = PBool False"
  by (simp_all add: build_success_envelope_def build_extract_success_envelope_def build_error_envelope_def
      build_extract_error_envelope_def dict_get_def)

text \<open>
  The outcome figures tell what the model was told. An admitted call whose generation
  is still current when it ends is counted exactly once, as completed if its answer is a
  success and as failed if it is a failure.
\<close>

theorem tool_call_counted:
  assumes "tool_admitted name p" "still_current env p" "snd (handle_tool_call env name args p) = Inr d"
  shows "let before = tool_counts name (pv_outcomes (te_during env (te_before env p)));
             after = tool_counts name (pv_outcomes (fst (handle_tool_call env name args p)))
         in after = (if dict_get d ''ok'' = PBool True then (fst before + 1, snd before) else (fst before, snd before + 1))"
proof (cases "name = ''cashew_query''")
  case True
  then show ?thesis
    using assms query_succeeded_counts tool_failed_counts
    by (auto simp: handle_tool_call_def handle_query_def tool_admitted_def still_current_def Let_def
        handler_answer_def res_simps split: sum.splits prod.splits if_splits)
next
  case False
  then have name: "name = ''cashew_extract''" using assms(1) by (simp add: tool_admitted_def)
  then show ?thesis
    using assms extract_succeeded_counts tool_failed_counts
    by (auto simp: handle_tool_call_def handle_extract_def tool_admitted_def still_current_def Let_def
        handler_answer_def res_simps split: sum.splits prod.splits if_splits)
qed

section \<open>A call that raises\<close>

text \<open>
  The handler of a failed call takes the length of the argument once more, so a text
  argument that is a number or null, which makes the call fail, makes the handler raise
  too: the exception reaches the host.
\<close>

lemma query_null_raises:
  assumes "tool_admitted ''cashew_query'' p" "map_of args ''query'' = Some PNone"
  shows "\<exists>e. snd (handle_tool_call env ''cashew_query'' args p) = Inl e \<and> exn_class e = C_TypeError"
  using assms by (simp add: handle_tool_call_def handle_query_def tool_admitted_def Let_def query_body_def py_index_def
      handler_answer_def dict_get_default_def isinstance_def)

section \<open>Examples\<close>

definition tool_example :: tool_env where
  "tool_example = \<lparr>te_before = id, te_during = id, te_admission = None, te_release = None,
     te_vector = raise C_EmbeddingUnavailable ''busy'', te_enrich = Inr [], te_keyword = Inr (drop 1 sample_nodes),
     te_validate = None, te_session = Inr (1, 0), te_elapsed_ms = 3\<rparr>"

definition serving_provider :: provider where
  "serving_provider = new_provider\<lparr>pv_config := Some (config_of_payload []), pv_health_state := ''ready'', pv_identity_ready := True\<rparr>"

lemma tool_example_ordinary: "ordinary_env tool_example"
  by (simp add: ordinary_env_def tool_example_def raised_def)

lemma query_example_sized: "sized_arg [(''query'', PStr ''red'')] ''query''" "sized_arg [(''query'', PStr ''red'')] ''user_content''"
  by (simp_all add: sized_arg_def dict_get_default_def)

theorem tool_call_answers_witness:
  "\<exists>d. snd (handle_tool_call tool_example ''cashew_query'' [(''query'', PStr ''red'')] serving_provider) = Inr d \<and> well_formed_answer d"
  using tool_call_answers[OF tool_example_ordinary query_example_sized] .

theorem tool_call_counted_witness:
  "tool_counts ''cashew_query''
     (pv_outcomes (fst (handle_tool_call tool_example ''cashew_query'' [(''query'', PStr ''red'')] serving_provider))) = (1, 0)"
proof -
  have "tool_admitted ''cashew_query'' serving_provider" "still_current tool_example serving_provider"
    by (simp_all add: tool_admitted_def still_current_def serving_provider_def new_provider_def tool_example_def
        outcome_current_locked_def)
  moreover have "snd (handle_tool_call tool_example ''cashew_query'' [(''query'', PStr ''red'')] serving_provider) =
      Inr (build_success_envelope (PStr ''red'') (format_context (drop 1 sample_nodes)) (int (length (drop 1 sample_nodes))))"
    by (simp add: handle_tool_call_def handle_query_def serving_provider_def new_provider_def tool_example_def Let_def
        query_body_def py_index_def query_nodes_def raised_def keyword_result_def isinstance_def)
  ultimately show ?thesis
    using tool_call_counted[of "''cashew_query''" serving_provider tool_example "[(''query'', PStr ''red'')]"]
    by (simp add: Let_def tool_counts_def tool_example_def serving_provider_def new_provider_def new_ledger_def)
qed

end
