(* ===== verification/Prefetch.thy ===== *)
theory Prefetch
  imports ProviderInv Recall
begin

text \<open>
  Warming the memory for the next turn: \<^verbatim>\<open>queue_prefetch\<close>, the worker that runs the newest
  request, the staging of its result and its consumption by \<^verbatim>\<open>prefetch\<close>, with
  \<^verbatim>\<open>on_session_switch\<close> (\<^verbatim>\<open>__init__.py\<close>). The definitions are the sections under the
  provider's lock; between them any step of the provider may happen. Retrieval, the
  language model and the JSON text of a configuration (\<open>fp\<close>) are inputs; a supervisor
  stands for its generation.
\<close>

section \<open>Requests\<close>

definition optional :: "string option \<Rightarrow> string option" where
  "optional s = (if given s then s else None)"

text \<open>\<^verbatim>\<open>_prefetch_request_identity\<close>; \<open>None\<close> is the failed assertion that there is a configuration.\<close>

definition prefetch_request_identity ::
    "(CashewConfig \<Rightarrow> string) \<Rightarrow> string \<Rightarrow> int \<Rightarrow> string option \<Rightarrow> string option \<Rightarrow> string list \<Rightarrow> provider \<Rightarrow>
     PrefetchRequestIdentity option" where
  "prefetch_request_identity fp session_id generation domain tag exclude_tags p =
     (case pv_config p of
        None \<Rightarrow> None
      | Some c \<Rightarrow>
          Some \<lparr>pri_generation = generation, pri_session_id = session_id,
                pri_db_path = (case pv_db_path p of None \<Rightarrow> [''None''] | Some d \<Rightarrow> d),
                pri_config_fingerprint = fp c, pri_recall_limit = cfg_recall_k c,
                pri_domain = optional domain, pri_tag = optional tag,
                pri_exclude_tags = sort (remdups (filter (\<lambda>t. t \<noteq> []) exclude_tags)),
                pri_embedding_epoch = pv_runtime_epoch p, pri_embedding_generation = pv_supervisor p\<rparr>)"

definition prefetch_open :: "provider \<Rightarrow> bool" where
  "prefetch_open p \<longleftrightarrow> pv_config p \<noteq> None \<and> pv_db_path p \<noteq> None \<and> \<not> pv_initializing p \<and> \<not> pv_shutdown_started p"

definition prefetch_request_is_current ::
    "(CashewConfig \<Rightarrow> string) \<Rightarrow> PrefetchRequestIdentity \<Rightarrow> provider \<Rightarrow> bool" where
  "prefetch_request_is_current fp i p \<longleftrightarrow> prefetch_open p \<and> pv_latest_identity p = Some i \<and>
     prefetch_request_identity fp (pri_session_id i) (pv_prefetch_generation p) (pri_domain i) (pri_tag i)
       (pri_exclude_tags i) p = Some i"

text \<open>
  \<^verbatim>\<open>queue_prefetch\<close>. \<open>alive\<close> tells whether the recorded worker thread runs, \<open>started\<close>
  whether a new one can be started; the new thread, if any, is part of the result.
\<close>

definition wake_prefetch_worker :: "bool \<Rightarrow> bool \<Rightarrow> provider \<Rightarrow> provider \<times> nat option" where
  "wake_prefetch_worker alive started p =
     (if pv_prefetch_worker p \<noteq> None \<and> alive then (p, None)
      else if started then
        (p\<lparr>pv_prefetch_worker := Some (pv_fresh p),
           pv_prefetch_threads := List.insert (pv_fresh p) (pv_prefetch_threads p),
           pv_fresh := Suc (pv_fresh p)\<rparr>, Some (pv_fresh p))
      else
        (upd_metrics record_prefetch_failed
           (p\<lparr>pv_prefetch_worker := None, pv_pending_request := None\<rparr>), None))"

definition new_prefetch_request :: "PrefetchRequestIdentity \<Rightarrow> string \<Rightarrow> provider \<Rightarrow> PrefetchRequest" where
  "new_prefetch_request identity query p =
     (let config = the (pv_config p)
      in \<lparr>prq_identity = identity, prq_query = query, prq_db_path = the (pv_db_path p),
          prq_top_k = cfg_prefetch_k config,
          prq_use_llm = (pv_identity_ready p \<and> pv_model_fn p \<and> cfg_prefetch_cues config > 0)\<rparr>)"

definition queue_prefetch ::
    "(CashewConfig \<Rightarrow> string) \<Rightarrow> bool \<Rightarrow> bool \<Rightarrow> string \<Rightarrow> string \<Rightarrow> provider \<Rightarrow> provider \<times> nat option" where
  "queue_prefetch fp alive started query session_id p =
     (if \<not> prefetch_open p then (p, None)
      else
        let p = p\<lparr>pv_prefetch_generation := pv_prefetch_generation p + 1, pv_prefetch_pending := None\<rparr>;
            identity = the (prefetch_request_identity fp (if session_id = [] then pv_session_id p else session_id)
                              (pv_prefetch_generation p) None None [] p)
        in if query = [] then (p\<lparr>pv_latest_identity := None\<rparr>, None)
           else
             let p = (if pv_pending_request p \<noteq> None then upd_metrics record_prefetch_coalesced p else p);
                 p = p\<lparr>pv_pending_request := Some (new_prefetch_request identity query p),
                       pv_latest_identity := Some identity\<rparr>
             in wake_prefetch_worker alive started p)"

definition on_session_switch :: "string \<Rightarrow> provider \<Rightarrow> provider" where
  "on_session_switch new_session_id p =
     (if pv_initializing p \<or> pv_shutdown_started p then p
      else p\<lparr>pv_session_id := new_session_id, pv_prefetch_generation := pv_prefetch_generation p + 1,
             pv_warm_cache := [], pv_prefetch_pending := None, pv_pending_request := None,
             pv_latest_identity := None, pv_last_assistant := []\<rparr>)"

section \<open>The worker\<close>

text \<open>
  Where a worker thread is: waiting, at the first test of a request, extracting its
  cues, before a cue (with the cues, those left and the nodes so far), retrieving a
  cue, staging, in the exception handler, after the request, gone.
\<close>

datatype pf_pc =
    PF_wait
  | PF_begin PrefetchRequest
  | PF_cues PrefetchRequest
  | PF_next PrefetchRequest "string list" "string list" "recall_node list"
  | PF_found PrefetchRequest "string list" "string list" "recall_node list"
  | PF_stage PrefetchRequest "string list" "recall_node list"
  | PF_failed PrefetchRequest
  | PF_end
  | PF_exit

definition stage_prefetch_result ::
    "(CashewConfig \<Rightarrow> string) \<Rightarrow> PrefetchRequestIdentity \<Rightarrow> string list \<Rightarrow> recall_node list \<Rightarrow> provider \<Rightarrow> provider option" where
  "stage_prefetch_result fp i cues nodes p =
     (case prefetch_request_identity fp (pri_session_id i) (pv_prefetch_generation p) (pri_domain i) (pri_tag i)
             (pri_exclude_tags i) p of
        None \<Rightarrow> None
      | Some current \<Rightarrow>
          Some (if i \<noteq> current then p
                else p\<lparr>pv_prefetch_pending :=
                         Some \<lparr>prr_identity = i, prr_cues = filter (\<lambda>cue. py_strip cue \<noteq> []) cues, prr_nodes = nodes\<rparr>\<rparr>))"

text \<open>The nodes of another cue, without those already there.\<close>

fun add_new_nodes :: "recall_node list \<Rightarrow> recall_node list \<Rightarrow> recall_node list" where
  "add_new_nodes acc [] = acc"
| "add_new_nodes acc (n # ns) =
     (if rn_id n \<in> rn_id ` set acc then add_new_nodes acc ns else add_new_nodes (acc @ [n]) ns)"

text \<open>\<^verbatim>\<open>s.split(sep)\<close> for one character.\<close>

fun split_char :: "char \<Rightarrow> string \<Rightarrow> string \<Rightarrow> string list" where
  "split_char sep acc [] = [rev acc]"
| "split_char sep acc (c # cs) = (if c = sep then rev acc # split_char sep [] cs else split_char sep (c # acc) cs)"

text \<open>\<^verbatim>\<open>_extract_prefetch_cues\<close>, with the answer of the language model.\<close>

definition extract_prefetch_cues :: "string \<Rightarrow> string res \<Rightarrow> provider \<Rightarrow> string list res" where
  "extract_prefetch_cues query raw p =
     (let n = (case pv_config p of None \<Rightarrow> 3 | Some c \<Rightarrow> nat (max 1 (cfg_prefetch_cues c)));
          fallback = (if query \<noteq> [] then [query] else []);
          keep = (\<lambda>line. line \<noteq> [] \<and> \<not> py_startswith ''```'' line \<and> \<not> py_startswith ''Here'' line \<and>
                    \<not> py_startswith ''Sure'' line)
      in if \<not> pv_model_fn p then Inr fallback
         else bind_res raw (\<lambda>raw.
                let cues = filter keep (map py_strip (split_char (CHR 0x0A) [] (py_strip raw)))
                in Inr (if cues \<noteq> [] then take n cues else fallback)))"

datatype pf_event =
    PE_take | PE_check | PE_cues "string res" | PE_nodes "recall_node list res" | PE_stage | PE_handle | PE_done

definition request_cues :: "PrefetchRequest \<Rightarrow> string res \<Rightarrow> provider \<Rightarrow> string list" where
  "request_cues r raw p =
     filter (\<lambda>cue. cue \<noteq> [] \<and> py_strip cue \<noteq> [])
       (if prq_use_llm r then
          (case extract_prefetch_cues (prq_query r) raw p of Inl _ \<Rightarrow> [prq_query r] | Inr cues \<Rightarrow> cues)
        else [prq_query r])"

definition worker_gone :: "nat \<Rightarrow> provider \<Rightarrow> provider" where
  "worker_gone tid p =
     p\<lparr>pv_prefetch_threads := remove1 tid (pv_prefetch_threads p),
       pv_prefetch_worker := (if pv_prefetch_worker p = Some tid then None else pv_prefetch_worker p),
       pv_active_identity := None\<rparr>"

definition cancelled :: "provider \<Rightarrow> pf_pc \<times> provider" where
  "cancelled p = (PF_end, upd_metrics record_prefetch_cancelled p)"

text \<open>\<^verbatim>\<open>_prefetch_worker_loop\<close> and \<^verbatim>\<open>_run_prefetch_request\<close>, a section at a time.\<close>

fun pf_worker :: "(CashewConfig \<Rightarrow> string) \<Rightarrow> nat \<Rightarrow> pf_event \<Rightarrow> pf_pc \<Rightarrow> provider \<Rightarrow> (pf_pc \<times> provider) option" where
  "pf_worker fp tid PE_take PF_wait p =
     (case pv_pending_request p of
        Some r \<Rightarrow> Some (PF_begin r, p\<lparr>pv_pending_request := None, pv_active_identity := Some (prq_identity r)\<rparr>)
      | None \<Rightarrow> if pv_shutdown_started p then Some (PF_exit, worker_gone tid p) else None)"
| "pf_worker fp tid PE_check (PF_begin r) p =
     Some (if prefetch_request_is_current fp (prq_identity r) p then (PF_cues r, p) else cancelled p)"
| "pf_worker fp tid (PE_cues raw) (PF_cues r) p =
     (let cues = request_cues r raw p
      in Some (if cues = [] then (PF_end, p)
               else if prefetch_request_is_current fp (prq_identity r) p then (PF_next r cues cues [], p)
               else cancelled p))"
| "pf_worker fp tid PE_check (PF_next r cues todo acc) p =
     Some (if \<not> prefetch_request_is_current fp (prq_identity r) p then cancelled p
           else if todo \<noteq> [] then (PF_found r cues todo acc, p)
           else if acc = [] then (PF_end, p) else (PF_stage r cues acc, p))"
| "pf_worker fp tid (PE_nodes found) (PF_found r cues todo acc) p =
     Some (case found of
             Inl e \<Rightarrow> (PF_failed r, p)
           | Inr nodes \<Rightarrow> (PF_next r cues (tl todo) (add_new_nodes acc nodes), p))"
| "pf_worker fp tid PE_stage (PF_stage r cues acc) p =
     Some (case stage_prefetch_result fp (prq_identity r) cues acc p of
             None \<Rightarrow> (PF_failed r, p)
           | Some p' \<Rightarrow> (PF_end, p'))"
| "pf_worker fp tid PE_handle (PF_failed r) p =
     Some (if prefetch_request_is_current fp (prq_identity r) p
           then (PF_end, upd_metrics record_prefetch_failed p) else cancelled p)"
| "pf_worker fp tid PE_done PF_end p = Some (PF_wait, p\<lparr>pv_active_identity := None\<rparr>)"
| "pf_worker fp tid _ _ p = None"

section \<open>Consumption\<close>

definition consume_prefetch_pending_locked ::
    "PrefetchRequestIdentity \<Rightarrow> provider \<Rightarrow> provider \<times> (string \<times> PrefetchResult) list" where
  "consume_prefetch_pending_locked i p =
     (p\<lparr>pv_prefetch_pending := None\<rparr>,
      case pv_prefetch_pending p of
        None \<Rightarrow> []
      | Some r \<Rightarrow> if prr_identity r \<noteq> i then [] else dict_merge [] (map (\<lambda>cue. (cue, r)) (prr_cues r)))"

record pf_snapshot =
  sn_identity :: PrefetchRequestIdentity
  sn_warm :: "(string \<times> PrefetchResult) list"
  sn_ready :: bool
  sn_handle :: "nat \<times> int"

text \<open>The section under the lock at the start of \<^verbatim>\<open>prefetch\<close>; \<open>None\<close> answers the empty text.\<close>

definition prefetch_begin ::
    "(CashewConfig \<Rightarrow> string) \<Rightarrow> string \<Rightarrow> string option \<Rightarrow> string option \<Rightarrow> string list \<Rightarrow> provider \<Rightarrow>
     (provider \<times> pf_snapshot) option" where
  "prefetch_begin fp session_id domain tag exclude_tags p =
     (if \<not> prefetch_open p then None
      else
        let i = the (prefetch_request_identity fp (if session_id = [] then pv_session_id p else session_id)
                       (pv_prefetch_generation p) domain tag exclude_tags p);
            (p1, pending) = consume_prefetch_pending_locked i p;
            warm = dict_merge (pv_warm_cache p1) pending
        in Some (p1\<lparr>pv_warm_cache := []\<rparr>,
                 \<lparr>sn_identity = i, sn_warm = warm, sn_ready = pv_identity_ready p,
                  sn_handle = (pv_ledger p, pv_health_generation p)\<rparr>))"

definition long_words :: "string \<Rightarrow> string set" where
  "long_words s = set (filter (\<lambda>w. length w > 3) (py_split s))"

definition warm_match :: "string \<Rightarrow> string \<Rightarrow> bool" where
  "warm_match query cue \<longleftrightarrow>
     py_contains (py_lower cue) (py_lower query) \<or> py_contains (py_lower query) (py_lower cue) \<or>
     card (long_words (py_lower cue) \<inter> long_words (py_lower query)) \<ge> 2"

definition warm_hit :: "string \<Rightarrow> pf_snapshot \<Rightarrow> (string \<times> PrefetchResult) option" where
  "warm_hit query sn =
     (if py_strip query = [] then None
      else find (\<lambda>(cue, r). cue \<noteq> [] \<and> prr_identity r = sn_identity sn \<and> warm_match query cue) (sn_warm sn))"

definition warm_text :: "string \<Rightarrow> pf_snapshot \<Rightarrow> string option" where
  "warm_text query sn =
     map_option (\<lambda>(cue, r). format_context (take (nat (pri_recall_limit (sn_identity sn))) (prr_nodes r))) (warm_hit query sn)"

text \<open>
  The retrieval when nothing is warm, with what its calls answer; the flags of the body
  are \<^verbatim>\<open>vector_failed\<close>, \<^verbatim>\<open>keyword_failed\<close> and whether the health was marked on the way.
\<close>

record recall_env =
  re_admission :: "exn option"
  re_vector :: "string list res"
  re_validate :: "exn option"
  re_enrich :: "recall_node list res"
  re_keyword :: "recall_node list res"
  re_validate_end :: "exn option"
  re_release :: "exn option"

text \<open>\<^verbatim>\<open>_prefetch_nodes_for_cue\<close>: what a worker retrieves for a cue.\<close>

definition prefetch_nodes_for_cue :: "recall_env \<Rightarrow> bool \<Rightarrow> recall_node list res" where
  "prefetch_nodes_for_cue env identity_ready =
     (if \<not> identity_ready then re_keyword env
      else
        bind_res (raised (re_admission env)) (\<lambda>_.
          let body = bind_res (re_vector env) (\<lambda>ids.
                       if ids = [] then Inr None
                       else bind_res (raised (re_validate env)) (\<lambda>_.
                            bind_res (re_enrich env) (\<lambda>nodes.
                            bind_res (raised (re_validate_end env)) (\<lambda>_. Inr (Some nodes)))))
          in case re_release env of
               Some e \<Rightarrow> Inl e
             | None \<Rightarrow> bind_res body (\<lambda>found. case found of Some nodes \<Rightarrow> Inr nodes | None \<Rightarrow> re_keyword env)))"

definition keyword_recall :: "recall_env \<Rightarrow> bool \<Rightarrow> (bool \<times> bool \<times> bool) \<times> string option res" where
  "keyword_recall env vector_failed =
     (case re_keyword env of
        Inl e \<Rightarrow> ((vector_failed, isinstance e C_Exception, False), Inl e)
      | Inr nodes \<Rightarrow>
          if nodes = [] then ((vector_failed, False, False), Inr None)
          else ((vector_failed, False, vector_failed),
                bind_res (raised (re_validate_end env)) (\<lambda>_. Inr (Some (format_context nodes)))))"

definition admitted_recall :: "recall_env \<Rightarrow> (bool \<times> bool \<times> bool) \<times> string option res" where
  "admitted_recall env =
     (case re_vector env of
        Inl e \<Rightarrow> if isinstance e C_Exception then keyword_recall env True else ((False, False, False), Inl e)
      | Inr ids \<Rightarrow>
          if ids \<noteq> [] then
            ((False, False, False),
             bind_res (raised (re_validate env)) (\<lambda>_.
             bind_res (re_enrich env) (\<lambda>nodes.
             bind_res (raised (re_validate_end env)) (\<lambda>_. Inr (Some (format_context nodes))))))
          else keyword_recall env False)"

definition cold_body :: "recall_env \<Rightarrow> (bool \<times> bool \<times> bool) \<times> string option res" where
  "cold_body env =
     (case re_admission env of
        Some e \<Rightarrow> ((False, False, False), Inl e)
      | None \<Rightarrow>
          (case admitted_recall env of
             (flags, r) \<Rightarrow> (flags, case re_release env of Some e \<Rightarrow> Inl e | None \<Rightarrow> r)))"

definition cold_recall :: "recall_env \<Rightarrow> nat \<times> int \<Rightarrow> provider \<Rightarrow> provider \<times> string res" where
  "cold_recall env h p =
     (case cold_body env of
        ((vector_failed, keyword_failed, marked), r) \<Rightarrow>
          let p = (if marked then mark_health_if_current h ''degraded'' ''vector_unavailable'' (Some ''keyword'') p else p)
          in case r of
               Inr (Some text) \<Rightarrow> (p, Inr text)
             | _ \<Rightarrow>
                 if \<exists>e. r = Inl e \<and> \<not> isinstance e C_Exception then (p, map_sum id (\<lambda>_. []) r)
                 else
                   (if keyword_failed then mark_health_if_current h ''degraded'' ''backend_error'' None p
                    else if vector_failed \<or> isl r
                    then mark_health_if_current h ''degraded'' ''vector_unavailable'' (Some ''keyword'') p
                    else p, Inr []))"

text \<open>\<^verbatim>\<open>prefetch\<close> after its first section; other threads change the provider with \<open>during\<close>.\<close>

definition prefetch_rest :: "recall_env \<Rightarrow> (provider \<Rightarrow> provider) \<Rightarrow> string \<Rightarrow> pf_snapshot \<Rightarrow> provider \<Rightarrow> provider \<times> string res" where
  "prefetch_rest env during query sn p =
     (case warm_text query sn of
        Some text \<Rightarrow> (during p, Inr text)
      | None \<Rightarrow>
          if \<not> sn_ready sn then
            (during p,
             case re_keyword env of
               Inr nodes \<Rightarrow> Inr (format_context nodes)
             | Inl e \<Rightarrow> if isinstance e C_Exception then Inr [] else Inl e)
          else cold_recall env (sn_handle sn) (during p))"

definition prefetch ::
    "(CashewConfig \<Rightarrow> string) \<Rightarrow> recall_env \<Rightarrow> (provider \<Rightarrow> provider) \<Rightarrow> string \<Rightarrow> string \<Rightarrow> string option \<Rightarrow>
     string option \<Rightarrow> string list \<Rightarrow> provider \<Rightarrow> provider \<times> string res" where
  "prefetch fp env during query session_id domain tag exclude_tags p =
     (case prefetch_begin fp session_id domain tag exclude_tags p of
        None \<Rightarrow> (p, Inr [])
      | Some (p1, sn) \<Rightarrow> prefetch_rest env during query sn p1)"

section \<open>Interleavings\<close>

text \<open>
  The provider, its worker threads and, newest first, what has happened to the prefetch
  generation: a request was queued, or everything queued before was made void.
\<close>

record pf_sys =
  ps_provider :: provider
  ps_workers :: "(nat \<times> pf_pc) list"
  ps_log :: "(int \<times> PrefetchRequest option) list"

definition void_if :: "provider \<Rightarrow> provider \<Rightarrow> (int \<times> PrefetchRequest option) list \<Rightarrow> (int \<times> PrefetchRequest option) list" where
  "void_if p p' evs =
     (if pv_prefetch_generation p' = pv_prefetch_generation p then evs else (pv_prefetch_generation p', None) # evs)"

definition log_queued :: "provider \<Rightarrow> provider \<Rightarrow> (int \<times> PrefetchRequest option) list \<Rightarrow> (int \<times> PrefetchRequest option) list" where
  "log_queued p p' evs =
     (let g = pv_prefetch_generation p'
      in if g = pv_prefetch_generation p then evs
         else (g, case pv_pending_request p' of
                    None \<Rightarrow> None
                  | Some r \<Rightarrow> if pri_generation (prq_identity r) = g then Some r else None) # evs)"

text \<open>\<open>retrieved r\<close> is what the retrieval answers for the cues of a request.\<close>

inductive pf_step :: "(CashewConfig \<Rightarrow> string) \<Rightarrow> (PrefetchRequest \<Rightarrow> recall_node set) \<Rightarrow> pf_sys \<Rightarrow> pf_sys \<Rightarrow> bool"
  for fp retrieved where
  pf_provider: "prov_step (ps_provider s) p \<Longrightarrow>
     pf_step fp retrieved s (s\<lparr>ps_provider := p, ps_log := void_if (ps_provider s) p (ps_log s)\<rparr>)"
| pf_switch: "p = on_session_switch sid (ps_provider s) \<Longrightarrow>
     pf_step fp retrieved s (s\<lparr>ps_provider := p, ps_log := void_if (ps_provider s) p (ps_log s)\<rparr>)"
| pf_queue: "queue_prefetch fp alive started query sid (ps_provider s) = (p, new) \<Longrightarrow>
     pf_step fp retrieved s
       (s\<lparr>ps_provider := p, ps_workers := map (\<lambda>tid. (tid, PF_wait)) (case new of None \<Rightarrow> [] | Some t \<Rightarrow> [t]) @ ps_workers s,
          ps_log := log_queued (ps_provider s) p (ps_log s)\<rparr>)"
| pf_worker_moves: "k < length (ps_workers s) \<Longrightarrow> ps_workers s ! k = (tid, pc) \<Longrightarrow>
     (\<And>r cues todo acc nodes. pc = PF_found r cues todo acc \<Longrightarrow> e = PE_nodes (Inr nodes) \<Longrightarrow> set nodes \<subseteq> retrieved r) \<Longrightarrow>
     (\<And>found. e = PE_nodes found \<Longrightarrow> found = prefetch_nodes_for_cue env (pv_identity_ready (ps_provider s))) \<Longrightarrow>
     pf_worker fp tid e pc (ps_provider s) = Some (pc', p) \<Longrightarrow>
     pf_step fp retrieved s (s\<lparr>ps_provider := p, ps_workers := (ps_workers s)[k := (tid, pc')]\<rparr>)"
| pf_prefetch: "prefetch_begin fp sid domain tag exclude_tags (ps_provider s) = Some (p, sn) \<Longrightarrow>
     pf_step fp retrieved s (s\<lparr>ps_provider := p\<rparr>)"

definition pf_init :: "pf_sys \<Rightarrow> bool" where
  "pf_init s \<longleftrightarrow> s = \<lparr>ps_provider = new_provider, ps_workers = [], ps_log = []\<rparr>"

end
