(* ===== verification/PrefetchProps.thy ===== *)
theory PrefetchProps
  imports Prefetch ProviderProps
begin

text \<open>
  What prefetching keeps through every interleaving: whatever a warm answer is made of
  was retrieved for the newest request, and for that one only.
\<close>

section \<open>What the steps of the provider do to prefetching\<close>

definition pf_part :: "provider \<Rightarrow> int \<times> (string \<times> PrefetchResult) list \<times> PrefetchResult option \<times> PrefetchRequest option" where
  "pf_part p = (pv_prefetch_generation p, pv_warm_cache p, pv_prefetch_pending p, pv_pending_request p)"

text \<open>Nothing comes in, and what is withdrawn is withdrawn by a new generation.\<close>

definition pf_shrinks :: "provider \<Rightarrow> provider \<Rightarrow> bool" where
  "pf_shrinks p p' \<longleftrightarrow> pv_prefetch_generation p \<le> pv_prefetch_generation p' \<and>
     pv_warm_cache p' \<in> {pv_warm_cache p, []} \<and> pv_prefetch_pending p' \<in> {pv_prefetch_pending p, None} \<and>
     pv_pending_request p' \<in> {pv_pending_request p, None}"

lemma pf_part_shrinks: "pf_part p' = pf_part p \<Longrightarrow> pf_shrinks p p'"
  by (simp add: pf_part_def pf_shrinks_def)

lemma pf_shrinks_trans: "pf_shrinks p p' \<Longrightarrow> pf_shrinks p' p'' \<Longrightarrow> pf_shrinks p p''"
  by (auto simp: pf_shrinks_def)

lemma pf_part_set_health [simp]: "pf_part (set_health_locked s r f c e p) = pf_part p"
  by (simp add: pf_part_def set_health_locked_def Let_def split: option.split)

lemma pf_part_small [simp]:
  "pf_part (upd_metrics f p) = pf_part p" "pf_part (upd_outcomes g p) = pf_part p" "pf_part (task_done p) = pf_part p"
  "pf_part (mark_health_if_current h s r fb p) = pf_part p" "pf_part (publish_health p) = pf_part p"
  "pf_part (finish_embedding_runtime_close sv m p) = pf_part p"
  by (simp_all add: upd_metrics_def upd_outcomes_def task_done_def mark_health_if_current_def publish_health_def
      finish_embedding_runtime_close_def Let_def) (simp_all add: pf_part_def)

lemma pf_shrinks_set_health [simp]: "pf_shrinks p (set_health_locked s r f c e p') = pf_shrinks p p'"
  by (simp add: pf_shrinks_def set_health_locked_def Let_def split: option.split)

lemma pf_part_queue [simp]:
  "pf_part (worker_get p) = pf_part p" "pf_part (sync_evict p) = pf_part p" "pf_part (fst (put_nowait x p)) = pf_part p"
  by (auto simp: worker_get_def pf_part_def task_done_def split: list.split worker_state.split qitem.split nat.split)
    (auto simp: sync_evict_def put_nowait_def pf_part_def upd_outcomes_def upd_metrics_def task_done_def Let_def
      split: list.split)

lemma pf_part_gets [simp]: "pf_part ((worker_get ^^ n) p) = pf_part p"
  by (induction n) simp_all

lemma pf_part_put: "put_nowait x p = (p', b) \<Longrightarrow> pf_part p' = pf_part p"
  by (metis fst_conv pf_part_queue(3))

lemma pf_part_last [simp]: "pf_part (p\<lparr>pv_last_assistant := a\<rparr>) = pf_part p"
  by (simp add: pf_part_def)

lemma pf_part_sync [simp]: "pf_part (sync_turn r1 r2 u a s p) = pf_part p"
proof -
  define q where "q = (if a \<noteq> [] then p\<lparr>pv_last_assistant := a\<rparr> else p)"
  have "pf_part q = pf_part p" by (simp add: q_def)
  then show ?thesis
    unfolding sync_turn_def Let_def q_def [symmetric]
    by (auto split: prod.split bool.split dest!: pf_part_put)
qed

lemma pf_part_drain: "drain_once env p = (p', r) \<Longrightarrow> pf_part p' = pf_part p"
  by (auto simp: drain_once_def drain_handler_def Let_def split: if_splits option.splits) (auto simp: pf_part_def)

lemma pf_part_turn_end [simp]:
  "pf_part (finish_worker_turn h c p) = pf_part p" "pf_part (fail_worker_turn h e ep p) = pf_part p"
  "pf_part (reject_worker_turn h p) = pf_part p"
  by (simp_all add: finish_worker_turn_def fail_worker_turn_def reject_worker_turn_def Let_def)

lemma pf_part_worker_turn [simp]: "pf_part (worker_turn env h p) = pf_part p"
  by (auto simp: worker_turn_def Let_def split: prod.split drain_outcome.split dest!: pf_part_drain)

lemma pf_part_th [simp]:
  "pf_part (p\<lparr>th_worker := w\<rparr>) = pf_part p" "pf_part (p\<lparr>th_init := i\<rparr>) = pf_part p"
  "pf_part (p\<lparr>th_closing := cl\<rparr>) = pf_part p" "pf_part (p\<lparr>th_cleanup := cu\<rparr>) = pf_part p"
  "pf_part (p\<lparr>th_shutdown := sd\<rparr>) = pf_part p" "pf_part (p\<lparr>pv_cleanup_pending := cp\<rparr>) = pf_part p"
  "pf_part (p\<lparr>pv_log_scrub := b\<rparr>) = pf_part p" "pf_part (p\<lparr>pv_clock := t\<rparr>) = pf_part p"
  by (simp_all add: pf_part_def)

lemma pf_part_worker_step [simp]: "pf_part (worker_step env p) = pf_part p"
  by (auto simp: worker_step_def split: worker_state.split list.split qitem.split)

lemma pf_part_close [simp]:
  "pf_part (close_embedding_runtime sv m p) = pf_part p" "pf_part (embedding_closed p) = pf_part p"
  by (auto simp: close_embedding_runtime_def embedding_closed_def split: option.split list.split)

lemma pf_part_publish [simp]: "pf_part (initialize_publish p) = pf_part p"
  by (simp add: initialize_publish_def Let_def) (simp add: pf_part_def)

lemma pf_part_abort [simp]: "pf_part (initialize_abort hr p) = pf_part p"
  by (simp add: initialize_abort_def Let_def split: init_state.split) (simp add: pf_part_def)

lemma pf_part_claim [simp]: "pf_part (initialize_claim p) = pf_part p"
  by (simp add: initialize_claim_def) (simp add: pf_part_def)

lemma pf_part_init [simp]:
  "pf_part (initialize_open sid home ctx sentry p) = pf_part p" "pf_part (initialize_register ienv p) = pf_part p"
  "pf_part (initialize_finally p) = pf_part p" "pf_part (shutdown_post p) = pf_part p"
  by (simp_all add: initialize_open_def initialize_register_def initialize_finally_def shutdown_post_def)
    (simp_all add: pf_part_def)

lemma pf_shrinks_part: "pf_part p' = pf_part q \<Longrightarrow> pf_shrinks p p' = pf_shrinks p q"
  by (simp add: pf_part_def pf_shrinks_def)

lemma pf_shrinks_refl [simp]: "pf_shrinks p p"
  by (simp add: pf_shrinks_def)

lemma pf_shrinks_clear: "pf_shrinks p (clear_runtime_state w q p)"
  by (simp add: clear_runtime_state_def Let_def pf_shrinks_part [OF pf_part_th(7)] pf_shrinks_part [OF pf_part_close(1)])
    (simp add: pf_shrinks_def)

lemma pf_shrinks_clear_from: "pf_part p' = pf_part p \<Longrightarrow> pf_shrinks p (clear_runtime_state w q p')"
  by (rule pf_shrinks_trans [OF pf_part_shrinks pf_shrinks_clear])

lemma pf_shrinks_schedule: "pf_part p' = pf_part p \<Longrightarrow> pf_shrinks p (schedule_shutdown_cleanup a st w q p')"
  by (simp add: schedule_shutdown_cleanup_def Let_def pf_shrinks_clear_from) (simp add: pf_part_shrinks)

lemma pf_shrinks_shutdown:
  "pf_shrinks p (shutdown_begin a st p)" "pf_shrinks p (shutdown_join a st p)"
  "pf_shrinks p (clear_state_after_workers_exit p)"
    apply (simp add: shutdown_begin_def Let_def pf_shrinks_schedule split: option.split prod.split)
    apply (simp add: pf_shrinks_def set_health_locked_def Let_def split: option.split)
   apply (simp add: shutdown_join_def Let_def pf_shrinks_schedule pf_shrinks_clear_from pf_part_shrinks split: option.split)
  apply (simp add: clear_state_after_workers_exit_def pf_shrinks_clear_from split: option.split prod.split)
  done

lemma pf_part_load: "setup_load env p = (p', e) \<Longrightarrow> pf_part p' = pf_part p"
  by (auto simp: setup_load_def check_def and_then_def Let_def pf_part_def split: sum.splits option.splits prod.splits)

lemma pf_part_bind: "setup_bind env p = (p', e) \<Longrightarrow> pf_part p' = pf_part p"
  by (auto simp: setup_bind_def check_def and_then_def Let_def pf_part_def
      split: sum.splits option.splits prod.splits if_splits)

lemma pf_part_close_fields [simp]:
  "pv_prefetch_generation (close_embedding_runtime sv m p) = pv_prefetch_generation p"
  "pv_warm_cache (close_embedding_runtime sv m p) = pv_warm_cache p"
  "pv_prefetch_pending (close_embedding_runtime sv m p) = pv_prefetch_pending p"
  "pv_pending_request (close_embedding_runtime sv m p) = pv_pending_request p"
  using pf_part_close(1) [of sv m p] by (simp_all add: pf_part_def)

lemma pf_shrinks_identity: "setup_identity env p = (p', e) \<Longrightarrow> pf_shrinks p p'"
  by (simp add: setup_identity_def and_then_def check_def Let_def pf_shrinks_def
      split: sum.splits option.splits prod.splits if_splits) auto

lemma pf_shrinks_setup: "pf_shrinks p (initialize_setup env p)"
  by (auto simp: initialize_setup_def and_then_def pf_shrinks_part [OF pf_part_th(2)] pf_part_shrinks
      dest!: pf_part_load pf_part_bind pf_shrinks_identity split: prod.splits option.splits
      intro: pf_shrinks_trans [OF pf_part_shrinks])

lemma prov_step_pf: "prov_step p p' \<Longrightarrow> pf_shrinks p p'"
  by (induction rule: prov_step.cases) (simp_all add: pf_part_shrinks pf_shrinks_shutdown pf_shrinks_setup)

section \<open>The invariant\<close>

text \<open>A request of the log; a result it accounts for; a worker that holds only such.\<close>

definition logged :: "pf_sys \<Rightarrow> PrefetchRequest \<Rightarrow> bool" where
  "logged s r \<longleftrightarrow> (pri_generation (prq_identity r), Some r) \<in> set (ps_log s)"

definition result_ok :: "(PrefetchRequest \<Rightarrow> recall_node set) \<Rightarrow> pf_sys \<Rightarrow> PrefetchResult \<Rightarrow> bool" where
  "result_ok retrieved s x \<longleftrightarrow>
     (\<exists>r. logged s r \<and> prr_identity x = prq_identity r \<and> set (prr_nodes x) \<subseteq> retrieved r)"

fun pc_ok :: "(PrefetchRequest \<Rightarrow> recall_node set) \<Rightarrow> pf_sys \<Rightarrow> pf_pc \<Rightarrow> bool" where
  "pc_ok retrieved s (PF_begin r) = logged s r"
| "pc_ok retrieved s (PF_cues r) = logged s r"
| "pc_ok retrieved s (PF_next r cues todo acc) = (logged s r \<and> set acc \<subseteq> retrieved r)"
| "pc_ok retrieved s (PF_found r cues todo acc) = (logged s r \<and> set acc \<subseteq> retrieved r)"
| "pc_ok retrieved s (PF_stage r cues acc) = (logged s r \<and> set acc \<subseteq> retrieved r)"
| "pc_ok retrieved s (PF_failed r) = logged s r"
| "pc_ok retrieved s _ = True"

definition log_ok :: "int \<Rightarrow> (int \<times> PrefetchRequest option) list \<Rightarrow> bool" where
  "log_ok g evs \<longleftrightarrow> sorted_wrt (\<lambda>x y. fst y < fst x) evs \<and> (\<forall>x \<in> set evs. fst x \<le> g) \<and>
     (evs \<noteq> [] \<longrightarrow> fst (hd evs) = g)"

definition pf_inv :: "(PrefetchRequest \<Rightarrow> recall_node set) \<Rightarrow> pf_sys \<Rightarrow> bool" where
  "pf_inv retrieved s \<longleftrightarrow>
     log_ok (pv_prefetch_generation (ps_provider s)) (ps_log s) \<and>
     (\<forall>r. pv_pending_request (ps_provider s) = Some r \<longrightarrow> logged s r) \<and>
     (\<forall>x. pv_prefetch_pending (ps_provider s) = Some x \<longrightarrow> result_ok retrieved s x) \<and>
     (\<forall>x \<in> snd ` set (pv_warm_cache (ps_provider s)). result_ok retrieved s x) \<and>
     (\<forall>pc \<in> snd ` set (ps_workers s). pc_ok retrieved s pc)"

lemma log_ok_push: "log_ok g evs \<Longrightarrow> g < g' \<Longrightarrow> log_ok g' ((g', x) # evs)"
  by (fastforce simp: log_ok_def)

lemma log_ok_newest: "log_ok g evs \<Longrightarrow> (g, x) \<in> set evs \<Longrightarrow> evs \<noteq> [] \<and> hd evs = (g, x)"
  by (cases evs) (auto simp: log_ok_def)

text \<open>A longer log accounts for more.\<close>

lemma logged_mono: "logged s r \<Longrightarrow> set (ps_log s) \<subseteq> set (ps_log t) \<Longrightarrow> logged t r"
  by (auto simp: logged_def)

lemma result_ok_mono: "result_ok R s x \<Longrightarrow> set (ps_log s) \<subseteq> set (ps_log t) \<Longrightarrow> result_ok R t x"
  by (auto simp: result_ok_def intro: logged_mono)

lemma pc_ok_mono: "pc_ok R s pc \<Longrightarrow> set (ps_log s) \<subseteq> set (ps_log t) \<Longrightarrow> pc_ok R t pc"
  by (cases pc) (auto intro: logged_mono)

lemma pf_inv_shrinks:
  assumes inv: "pf_inv R s" and shr: "pf_shrinks (ps_provider s) p"
  shows "pf_inv R (s\<lparr>ps_provider := p, ps_log := void_if (ps_provider s) p (ps_log s)\<rparr>)"
    (is "pf_inv R ?t")
proof -
  have sub: "set (ps_log s) \<subseteq> set (ps_log ?t)" by (auto simp: void_if_def)
  have "log_ok (pv_prefetch_generation p) (ps_log ?t)"
    using inv shr by (auto simp: pf_inv_def pf_shrinks_def void_if_def intro: log_ok_push)
  with inv shr show ?thesis
    unfolding pf_inv_def pf_shrinks_def
    by (auto intro: logged_mono [OF _ sub] result_ok_mono [OF _ sub] pc_ok_mono [OF _ sub])
qed

lemma pf_shrinks_switch: "pf_shrinks p (on_session_switch sid p)"
  by (simp add: on_session_switch_def pf_shrinks_def)

text \<open>Queueing: a new generation, no staged result, and at most one new request, of that generation.\<close>

lemma wake_part:
  assumes "wake_prefetch_worker alive started p = (p', new)"
  shows "pv_prefetch_generation p' = pv_prefetch_generation p \<and> pv_prefetch_pending p' = pv_prefetch_pending p \<and>
    pv_warm_cache p' = pv_warm_cache p \<and> pv_pending_request p' \<in> {pv_pending_request p, None}"
  using assms by (auto simp: wake_prefetch_worker_def upd_metrics_def split: if_splits)

lemma new_request_identity [simp]: "prq_identity (new_prefetch_request i q p) = i"
  by (simp add: new_prefetch_request_def Let_def)

lemma request_generation:
  "pv_config p \<noteq> None \<Longrightarrow> pri_generation (the (prefetch_request_identity fp sid g d t x p)) = g"
  by (auto simp: prefetch_request_identity_def)

lemma queue_prefetch_part:
  assumes "queue_prefetch fp alive started query sid p = (p', new)" "prefetch_open p"
  shows "pv_prefetch_generation p' = pv_prefetch_generation p + 1 \<and> pv_prefetch_pending p' = None \<and>
    pv_warm_cache p' = pv_warm_cache p \<and>
    (pv_pending_request p' \<in> {pv_pending_request p, None} \<or>
     (\<exists>r. pv_pending_request p' = Some r \<and> pri_generation (prq_identity r) = pv_prefetch_generation p'))"
proof (cases "query = []")
  case True
  with assms show ?thesis by (auto simp: queue_prefetch_def Let_def)
next
  case False
  from assms False obtain q where "wake_prefetch_worker alive started q = (p', new)"
      and "pv_prefetch_generation q = pv_prefetch_generation p + 1" "pv_prefetch_pending q = None"
      and "pv_warm_cache q = pv_warm_cache p"
      and "\<exists>r. pv_pending_request q = Some r \<and> pri_generation (prq_identity r) = pv_prefetch_generation q"
    by (simp add: queue_prefetch_def Let_def)
      (drule meta_spec, drule meta_mp, assumption,
       simp add: upd_metrics_def request_generation prefetch_open_def split: if_splits)
  with wake_part show ?thesis by fastforce
qed

lemma pf_inv_queue:
  assumes inv: "pf_inv R s" and q: "queue_prefetch fp alive started query sid (ps_provider s) = (p, new)"
    and t: "t = s\<lparr>ps_provider := p,
           ps_workers := map (\<lambda>tid. (tid, PF_wait)) (case new of None \<Rightarrow> [] | Some t \<Rightarrow> [t]) @ ps_workers s,
           ps_log := log_queued (ps_provider s) p (ps_log s)\<rparr>"
  shows "pf_inv R t"
proof (cases "prefetch_open (ps_provider s)")
  case True
  note part = queue_prefetch_part [OF q True]
  have prov: "ps_provider t = p" by (simp add: t)
  have sub: "set (ps_log s) \<subseteq> set (ps_log t)" by (auto simp: t log_queued_def Let_def)
  have "log_ok (pv_prefetch_generation p) (ps_log t)"
    using inv part by (auto simp: t pf_inv_def log_queued_def Let_def intro!: log_ok_push)
  moreover have "logged t r" if "pv_pending_request p = Some r" for r
  proof (cases "pri_generation (prq_identity r) = pv_prefetch_generation p")
    case True
    with part that show ?thesis by (auto simp: t log_queued_def logged_def)
  next
    case False
    with part that inv have "logged s r" by (auto simp: pf_inv_def)
    then show ?thesis by (rule logged_mono [OF _ sub])
  qed
  moreover have "pc_ok R t (snd w)" if "w \<in> set (ps_workers t)" for w
    using that inv by (auto simp: t pf_inv_def intro: pc_ok_mono [OF _ sub [unfolded t]])
  moreover have "result_ok R t (snd w)" if "w \<in> set (pv_warm_cache p)" for w
    using that inv part by (auto simp: pf_inv_def intro: result_ok_mono [OF _ sub])
  ultimately show ?thesis
    using part by (simp add: pf_inv_def prov)
next
  case False
  with q have "p = ps_provider s" "new = None" by (simp_all add: queue_prefetch_def)
  with t have "t = s" by (simp add: log_queued_def)
  with inv show ?thesis by simp
qed

lemma set_add_new_nodes: "set (add_new_nodes acc ns) \<subseteq> set acc \<union> set ns"
  by (induction acc ns rule: add_new_nodes.induct) auto

lemma pf_worker_part:
  assumes "pf_worker fp tid e pc p = Some (pc', p')" "pc_ok R s pc"
    and "\<And>r cues todo acc nodes. pc = PF_found r cues todo acc \<Longrightarrow> e = PE_nodes (Inr nodes) \<Longrightarrow> set nodes \<subseteq> R r"
    and "\<And>r. pv_pending_request p = Some r \<Longrightarrow> logged s r"
  shows "pc_ok R s pc' \<and> pv_prefetch_generation p' = pv_prefetch_generation p \<and> pv_warm_cache p' = pv_warm_cache p \<and>
    pv_pending_request p' \<in> {pv_pending_request p, None} \<and>
    (pv_prefetch_pending p' = pv_prefetch_pending p \<or> (\<exists>x. pv_prefetch_pending p' = Some x \<and> result_ok R s x))"
  using assms(1)
proof (cases rule: pf_worker.elims)
  case prems: 5
  with assms show ?thesis
    by (auto split: sum.splits dest!: subsetD [OF set_add_new_nodes])
next
  case prems: 6
  with assms show ?thesis
    by (auto simp: stage_prefetch_result_def result_ok_def split: option.splits if_splits)
qed (use assms in \<open>auto simp: cancelled_def worker_gone_def upd_metrics_def Let_def split: option.splits if_splits\<close>)

lemma pf_inv_worker:
  assumes inv: "pf_inv R s" and k: "k < length (ps_workers s)" "ps_workers s ! k = (tid, pc)"
    and found: "\<And>r cues todo acc nodes. pc = PF_found r cues todo acc \<Longrightarrow> e = PE_nodes (Inr nodes) \<Longrightarrow> set nodes \<subseteq> R r"
    and w: "pf_worker fp tid e pc (ps_provider s) = Some (pc', p)"
  shows "pf_inv R (s\<lparr>ps_provider := p, ps_workers := (ps_workers s)[k := (tid, pc')]\<rparr>)"
    (is "pf_inv R ?t")
proof -
  have same: "logged ?t = logged s" "result_ok R ?t = result_ok R s"
    by (simp_all add: fun_eq_iff logged_def result_ok_def)
  have ok: "pc_ok R ?t pc = pc_ok R s pc" for pc
    by (cases pc) (simp_all add: same)
  have "(tid, pc) \<in> set (ps_workers s)" using k by (metis nth_mem)
  then have "pc_ok R s pc" using inv by (auto simp: pf_inv_def)
  from pf_worker_part [OF w this found] inv
  have part: "pc_ok R s pc'" "pv_prefetch_generation p = pv_prefetch_generation (ps_provider s)"
      "pv_warm_cache p = pv_warm_cache (ps_provider s)"
      "pv_pending_request p \<in> {pv_pending_request (ps_provider s), None}"
      "pv_prefetch_pending p = pv_prefetch_pending (ps_provider s) \<or>
       (\<exists>x. pv_prefetch_pending p = Some x \<and> result_ok R s x)"
    by (auto simp: pf_inv_def)
  have "pc_ok R s (snd w)" if "w \<in> set (ps_workers ?t)" for w
    using that set_update_subset_insert [of "ps_workers s" k "(tid, pc')"] part(1) inv
    by (auto simp: pf_inv_def)
  with part inv show ?thesis
    by (auto simp: pf_inv_def same ok)
qed

lemma dict_merge_values: "snd ` set (dict_merge d e) \<subseteq> snd ` set d \<union> snd ` set e"
proof (induction d e rule: dict_merge.induct)
  case (2 a k v b)
  have "snd ` set (AList.update k v a) \<subseteq> insert v (snd ` set a)"
    by (induction a) auto
  with 2 show ?case by auto
qed simp

text \<open>What \<^verbatim>\<open>prefetch\<close> takes out, and what it leaves.\<close>

lemma prefetch_begin_part:
  assumes "prefetch_begin fp sid d t x p = Some (p', sn)"
  shows "pf_shrinks p p' \<and> pv_prefetch_generation p' = pv_prefetch_generation p \<and>
    pri_generation (sn_identity sn) = pv_prefetch_generation p \<and>
    snd ` set (sn_warm sn) \<subseteq> snd ` set (pv_warm_cache p) \<union> set_option (pv_prefetch_pending p)"
proof -
  define i where "i = the (prefetch_request_identity fp (if sid = [] then pv_session_id p else sid)
    (pv_prefetch_generation p) d t x p)"
  define pend where "pend = (case pv_prefetch_pending p of None \<Rightarrow> []
    | Some r \<Rightarrow> if prr_identity r \<noteq> i then [] else dict_merge [] (map (\<lambda>cue. (cue, r)) (prr_cues r)))"
  have "snd ` set pend \<subseteq> set_option (pv_prefetch_pending p)"
  proof (cases "pv_prefetch_pending p")
    case (Some r)
    have "snd ` set (map (\<lambda>cue. (cue, r)) (prr_cues r)) \<subseteq> {r}" by auto
    with dict_merge_values [of "[]" "map (\<lambda>cue. (cue, r)) (prr_cues r)"] Some show ?thesis
      by (auto simp: pend_def simp del: set_map)
  qed (simp add: pend_def)
  moreover have "pf_shrinks p (p\<lparr>pv_prefetch_pending := None, pv_warm_cache := []\<rparr>)"
    by (simp add: pf_shrinks_def)
  moreover from assms have popen: "prefetch_open p"
    by (simp add: prefetch_begin_def split: if_splits)
  have "consume_prefetch_pending_locked i p = (p\<lparr>pv_prefetch_pending := None\<rparr>, pend)"
    by (simp add: consume_prefetch_pending_locked_def pend_def)
  with assms popen have "p' = p\<lparr>pv_prefetch_pending := None, pv_warm_cache := []\<rparr> \<and> sn_identity sn = i \<and>
      sn_warm sn = dict_merge (pv_warm_cache p) pend"
    by (simp add: prefetch_begin_def Let_def i_def [symmetric]) (elim conjE, hypsubst, simp)
  moreover have "pri_generation i = pv_prefetch_generation p"
    using popen by (simp add: i_def request_generation prefetch_open_def)
  moreover from calculation have
    "snd ` set (dict_merge (pv_warm_cache p) pend) \<subseteq> snd ` set (pv_warm_cache p) \<union> set_option (pv_prefetch_pending p)"
    using dict_merge_values [of "pv_warm_cache p" pend] by blast
  ultimately show ?thesis by simp
qed

lemma pf_inv_prefetch:
  assumes "pf_inv R s" "prefetch_begin fp sid d t x (ps_provider s) = Some (p, sn)"
  shows "pf_inv R (s\<lparr>ps_provider := p\<rparr>)"
  using pf_inv_shrinks [OF assms(1), of p] prefetch_begin_part [OF assms(2)] by (simp add: void_if_def)

interpretation pf: invariant_system pf_init "pf_step fp R" "pf_inv R" for fp R
proof
  show "pf_inv R s" if "pf_init s" for s
    using that by (simp add: pf_init_def pf_inv_def log_ok_def new_provider_def)
  show "pf_inv R t" if "pf_inv R s" "pf_step fp R s t" for s t
    using that(2,1)
  proof cases
    case (pf_provider p)
    with that show ?thesis by (simp add: pf_inv_shrinks prov_step_pf)
  next
    case (pf_switch p sid)
    with that show ?thesis by (simp add: pf_inv_shrinks pf_shrinks_switch)
  next
    case (pf_queue alive started query sid p new)
    from pf_inv_queue [OF that(1) pf_queue(2) pf_queue(1)] show ?thesis .
  next
    case (pf_worker_moves k tid pc e env pc' p)
    with that pf_inv_worker show ?thesis by blast
  next
    case (pf_prefetch sid domain tag exclude_tags p sn)
    with that pf_inv_prefetch show ?thesis by blast
  qed
qed

lemma warm_hit_result:
  assumes "warm_hit query sn = Some (cue, x)"
  shows "prr_identity x = sn_identity sn \<and> x \<in> snd ` set (sn_warm sn)"
proof -
  from assms have "(cue, x) \<in> set (sn_warm sn) \<and> prr_identity x = sn_identity sn"
    by (auto simp: warm_hit_def find_Some_iff in_set_conv_nth split: if_splits)
  then show ?thesis by force
qed

text \<open>
  C28: A warm answer is never stale. In every interleaving of the provider's own steps,
  session switches, queued requests, any number of prefetch workers and other consumers:
  when \<^verbatim>\<open>prefetch\<close> finds a warm result, the newest event of the prefetch generation is the
  queueing of one request, the result carries that request's identity (its session,
  database, configuration, limit and embedding epoch), and all its nodes were retrieved for it.
\<close>

theorem warm_hit_is_latest:
  assumes "pf_init s\<^sub>0" "(pf_step fp retrieved)\<^sup>*\<^sup>* s\<^sub>0 s"
    and "prefetch_begin fp sid domain tag exclude_tags (ps_provider s) = Some (p, sn)"
    and "warm_hit query sn = Some (cue, x)"
  shows "\<exists>req. ps_log s \<noteq> [] \<and> hd (ps_log s) = (pv_prefetch_generation (ps_provider s), Some req) \<and>
    prq_identity req = sn_identity sn \<and> prr_identity x = sn_identity sn \<and> set (prr_nodes x) \<subseteq> retrieved req"
proof -
  have inv: "pf_inv retrieved s" using assms(1,2) by (rule pf.inv_reachable)
  from warm_hit_result [OF assms(4)] prefetch_begin_part [OF assms(3)]
  have id: "prr_identity x = sn_identity sn"
    and g: "pri_generation (sn_identity sn) = pv_prefetch_generation (ps_provider s)"
    and "x \<in> snd ` set (pv_warm_cache (ps_provider s)) \<union> set_option (pv_prefetch_pending (ps_provider s))"
    by auto
  with inv have x: "prr_identity x = sn_identity sn" "result_ok retrieved s x"
    by (auto simp: pf_inv_def)
  from x obtain req where req: "logged s req" "prr_identity x = prq_identity req" "set (prr_nodes x) \<subseteq> retrieved req"
    by (auto simp: result_ok_def)
  then have "(pv_prefetch_generation (ps_provider s), Some req) \<in> set (ps_log s)"
    using x g by (simp add: logged_def)
  with inv have "ps_log s \<noteq> [] \<and> hd (ps_log s) = (pv_prefetch_generation (ps_provider s), Some req)"
    by (intro log_ok_newest) (simp_all add: pf_inv_def)
  with req x show ?thesis by auto
qed

end
