(* ===== verification/PrefetchRuns.thy ===== *)
theory PrefetchRuns
  imports PrefetchProps
begin

text \<open>A run in which a request is queued, retrieved, staged and answered from the warm result.\<close>

lemma lift_provider:
  "prov_step\<^sup>*\<^sup>* p p' \<Longrightarrow> ps_provider s = p \<Longrightarrow>
   \<exists>t. (pf_step fp R)\<^sup>*\<^sup>* s t \<and> ps_provider t = p' \<and> ps_workers t = ps_workers s"
proof (induction rule: rtranclp_induct)
  case (step y z)
  then obtain t where t: "(pf_step fp R)\<^sup>*\<^sup>* s t" "ps_provider t = y" "ps_workers t = ps_workers s" by blast
  with step have "pf_step fp R t (t\<lparr>ps_provider := z, ps_log := void_if (ps_provider t) z (ps_log t)\<rparr>)"
    by (intro pf_provider) simp
  with t show ?case
    by (intro exI [of _ "t\<lparr>ps_provider := z, ps_log := void_if (ps_provider t) z (ps_log t)\<rparr>"])
      (simp add: rtranclp.rtrancl_into_rtrancl)
qed blast

definition move :: "pf_pc \<Rightarrow> provider \<Rightarrow> pf_sys \<Rightarrow> pf_sys" where
  "move pc p s = s\<lparr>ps_provider := p, ps_workers := (ps_workers s)[0 := (fst (hd (ps_workers s)), pc)]\<rparr>"

lemma move_simps [simp]: "ps_provider (move pc p s) = p" "ps_workers (move pc p s) = (ps_workers s)[0 := (fst (hd (ps_workers s)), pc)]"
  by (simp_all add: move_def)

text \<open>A retrieval that finds nodes by their words only.\<close>

definition calm_recall :: "recall_node list \<Rightarrow> recall_env" where
  "calm_recall nodes = \<lparr>re_admission = None, re_vector = Inr [], re_validate = None, re_enrich = Inr [],
     re_keyword = Inr nodes, re_validate_end = None, re_release = None\<rparr>"

lemma calm_recall: "prefetch_nodes_for_cue (calm_recall nodes) b = Inr nodes"
  by (simp add: prefetch_nodes_for_cue_def calm_recall_def raised_def)

lemma first_worker_moves:
  assumes "(pf_step fp R)\<^sup>*\<^sup>* s\<^sub>0 s" "ps_workers s = (tid, pc) # ws"
    and "pf_worker fp tid e pc (ps_provider s) = Some (pc', p)"
    and "\<And>r cues todo acc nodes. pc = PF_found r cues todo acc \<Longrightarrow> e = PE_nodes (Inr nodes) \<Longrightarrow> set nodes \<subseteq> R r"
    and "\<And>found. e = PE_nodes found \<Longrightarrow> \<exists>nodes. found = Inr nodes"
  shows "(pf_step fp R)\<^sup>*\<^sup>* s\<^sub>0 (move pc' p s)"
proof -
  have "move pc' p s = s\<lparr>ps_provider := p, ps_workers := (ps_workers s)[0 := (tid, pc')]\<rparr>"
    using assms(2) by (simp add: move_def)
  moreover have "0 < length (ps_workers s)" "ps_workers s ! 0 = (tid, pc)" using assms(2) by simp_all
  moreover define nodes where "nodes = (case e of PE_nodes (Inr ns) \<Rightarrow> ns | _ \<Rightarrow> [])"
  have "found = prefetch_nodes_for_cue (calm_recall nodes) b" if "e = PE_nodes found" for found b
    using that assms(5) [OF that] by (auto simp: calm_recall nodes_def)
  ultimately have "pf_step fp R s (move pc' p s)"
    using assms(3,4) pf_worker_moves [where k = 0 and s = s and tid = tid and pc = pc and e = e and pc' = pc' and p = p
        and env = "calm_recall nodes" and fp = fp and retrieved = R]
    by metis
  with assms(1) show ?thesis by (rule rtranclp.rtrancl_into_rtrancl)
qed

lemma identity_frame [simp]:
  "prefetch_request_identity fp sid g d t x (p\<lparr>pv_pending_request := q\<rparr>) = prefetch_request_identity fp sid g d t x p"
  "prefetch_request_identity fp sid g d t x (p\<lparr>pv_active_identity := a\<rparr>) = prefetch_request_identity fp sid g d t x p"
  "prefetch_request_identity fp sid g d t x (p\<lparr>pv_prefetch_pending := b\<rparr>) = prefetch_request_identity fp sid g d t x p"
  "prefetch_request_identity fp sid g d t x (p\<lparr>pv_prefetch_generation := n\<rparr>) = prefetch_request_identity fp sid g d t x p"
  "prefetch_request_identity fp sid g d t x (p\<lparr>pv_latest_identity := l\<rparr>) = prefetch_request_identity fp sid g d t x p"
  "prefetch_request_identity fp sid g d t x (p\<lparr>pv_prefetch_worker := w\<rparr>) = prefetch_request_identity fp sid g d t x p"
  "prefetch_request_identity fp sid g d t x (p\<lparr>pv_prefetch_threads := th\<rparr>) = prefetch_request_identity fp sid g d t x p"
  "prefetch_request_identity fp sid g d t x (p\<lparr>pv_fresh := f\<rparr>) = prefetch_request_identity fp sid g d t x p"
  by (simp_all add: prefetch_request_identity_def split: option.split)

lemma current_frame [simp]:
  "prefetch_request_is_current fp i (p\<lparr>pv_pending_request := q, pv_active_identity := a\<rparr>) =
   prefetch_request_is_current fp i p"
  by (simp add: prefetch_request_is_current_def prefetch_open_def)

text \<open>A worker that is not overtaken stages what was found.\<close>

definition staged :: "PrefetchRequest \<Rightarrow> recall_node list \<Rightarrow> provider \<Rightarrow> provider" where
  "staged r nodes p = p\<lparr>pv_pending_request := None, pv_active_identity := Some (prq_identity r),
     pv_prefetch_pending := Some \<lparr>prr_identity = prq_identity r, prr_cues = [prq_query r], prr_nodes = nodes\<rparr>\<rparr>"

lemma worker_stages:
  assumes reach: "(pf_step fp R)\<^sup>*\<^sup>* s\<^sub>0 s" and w: "ps_workers s = (tid, PF_wait) # ws"
    and r: "pv_pending_request (ps_provider s) = Some r" "\<not> prq_use_llm r" "py_strip (prq_query r) \<noteq> []"
    and cur: "prefetch_request_is_current fp (prq_identity r) (ps_provider s)"
    and n: "nodes = [n]" "n \<in> R r"
  shows "\<exists>t. (pf_step fp R)\<^sup>*\<^sup>* s\<^sub>0 t \<and> ps_provider t = staged r nodes (ps_provider s)"
proof -
  let ?p = "(ps_provider s)\<lparr>pv_pending_request := None, pv_active_identity := Some (prq_identity r)\<rparr>"
  let ?c = "[prq_query r]"
  have q: "prq_query r \<noteq> []" using r(3) by (auto simp: py_strip_def)
  have cues: "request_cues r raw p = ?c" for raw p
    using r q by (simp add: request_cues_def)
  note step = first_worker_moves [where e = PE_take] first_worker_moves [where e = PE_check]
    first_worker_moves [where e = "PE_cues (Inr [])"]
  have 1: "(pf_step fp R)\<^sup>*\<^sup>* s\<^sub>0 (move (PF_begin r) ?p s)"
    using reach w r by (intro step(1)) auto
  let ?s1 = "move (PF_begin r) ?p s"
  have 2: "(pf_step fp R)\<^sup>*\<^sup>* s\<^sub>0 (move (PF_cues r) ?p ?s1)"
    using w cur by (intro step(2) [OF 1]) auto
  let ?s2 = "move (PF_cues r) ?p ?s1"
  have 3: "(pf_step fp R)\<^sup>*\<^sup>* s\<^sub>0 (move (PF_next r ?c ?c []) ?p ?s2)"
    using w cur by (intro step(3) [OF 2]) (auto simp: cues Let_def)
  let ?s3 = "move (PF_next r ?c ?c []) ?p ?s2"
  have 4: "(pf_step fp R)\<^sup>*\<^sup>* s\<^sub>0 (move (PF_found r ?c ?c []) ?p ?s3)"
    using w cur by (intro step(2) [OF 3]) auto
  let ?s4 = "move (PF_found r ?c ?c []) ?p ?s3"
  have 5: "(pf_step fp R)\<^sup>*\<^sup>* s\<^sub>0 (move (PF_next r ?c [] nodes) ?p ?s4)"
    using w n by (intro first_worker_moves [OF 4, where e = "PE_nodes (Inr nodes)"]) auto
  let ?s5 = "move (PF_next r ?c [] nodes) ?p ?s4"
  have 6: "(pf_step fp R)\<^sup>*\<^sup>* s\<^sub>0 (move (PF_stage r ?c nodes) ?p ?s5)"
    using w cur n by (intro step(2) [OF 5]) auto
  let ?s6 = "move (PF_stage r ?c nodes) ?p ?s5"
  have "stage_prefetch_result fp (prq_identity r) ?c nodes ?p = Some (staged r nodes (ps_provider s))"
    using cur r(3) by (simp add: stage_prefetch_result_def prefetch_request_is_current_def staged_def)
  then have "(pf_step fp R)\<^sup>*\<^sup>* s\<^sub>0 (move PF_end (staged r nodes (ps_provider s)) ?s6)"
    using w by (intro first_worker_moves [OF 6, where e = PE_stage]) auto
  then show ?thesis by (intro exI conjI) (assumption, simp)
qed

text \<open>The first request of the initialized provider.\<close>

definition booted_identity :: PrefetchRequestIdentity where
  "booted_identity =
     \<lparr>pri_generation = 1, pri_session_id = ''s'', pri_db_path = [''home'', ''brain.db''], pri_config_fingerprint = [],
      pri_recall_limit = cfg_recall_k (config_of_payload DEFAULTS), pri_domain = None, pri_tag = None,
      pri_exclude_tags = [], pri_embedding_epoch = Some 1, pri_embedding_generation = pv_supervisor booted\<rparr>"

definition queued :: provider where
  "queued = fst (queue_prefetch (\<lambda>_. []) False True ''red'' [] booted)"

definition first_request :: PrefetchRequest where
  "first_request = \<lparr>prq_identity = booted_identity, prq_query = ''red'', prq_db_path = [''home'', ''brain.db''],
     prq_top_k = cfg_prefetch_k (config_of_payload DEFAULTS), prq_use_llm = False\<rparr>"

lemma booted_prefetch:
  "pv_prefetch_generation booted = 0" "pv_db_path booted = Some [''home'', ''brain.db'']" "\<not> pv_model_fn booted"
  "pv_pending_request booted = None" "pv_warm_cache booted = []" "pv_runtime_epoch booted = Some 1"
  "pv_prefetch_worker booted = None"
  by (simp_all add: boot_defs Let_def)

lemma booted_request:
  "prefetch_request_identity (\<lambda>_. []) ''s'' 1 None None [] booted = Some booted_identity" "prefetch_open booted"
  using booted_fields booted_prefetch
  by (simp_all add: prefetch_request_identity_def booted_identity_def optional_def given_def prefetch_open_def)

lemma queued_eq: "queue_prefetch (\<lambda>_. []) False True ''red'' [] booted = (queued, Some (pv_fresh booted))"
  and queued_fields: "pv_pending_request queued = Some first_request" "pv_latest_identity queued = Some booted_identity"
  "pv_prefetch_generation queued = 1" "pv_warm_cache queued = []" "prefetch_open queued" "pv_session_id queued = ''s''"
  "prefetch_request_identity (\<lambda>_. []) ''s'' 1 None None [] queued = Some booted_identity"
  using booted_request booted_prefetch booted_fields
  by (simp_all add: queued_def queue_prefetch_def wake_prefetch_worker_def Let_def new_prefetch_request_def
      first_request_def prefetch_open_def)

lemma queued_current: "prefetch_request_is_current (\<lambda>_. []) booted_identity queued"
  using queued_fields by (simp add: prefetch_request_is_current_def booted_identity_def)

definition found_node :: recall_node where
  "found_node = hd sample_nodes"

definition warm :: provider where
  "warm = staged first_request [found_node] queued"

lemma warm_reachable: "\<exists>s. (pf_step (\<lambda>_. []) (\<lambda>_. {found_node}))\<^sup>*\<^sup>* \<lparr>ps_provider = new_provider, ps_workers = [], ps_log = []\<rparr> s \<and>
    ps_provider s = warm"
proof -
  let ?s0 = "\<lparr>ps_provider = new_provider, ps_workers = [], ps_log = []\<rparr>" and ?S = "pf_step (\<lambda>_. []) (\<lambda>_. {found_node})"
  from lift_provider [OF booted_reachable, of ?s0 "\<lambda>_. []" "\<lambda>_. {found_node}"]
  obtain s where s: "?S\<^sup>*\<^sup>* ?s0 s" "ps_provider s = booted" "ps_workers s = []" by auto
  let ?t = "s\<lparr>ps_provider := queued, ps_workers := map (\<lambda>tid. (tid, PF_wait))
     (case Some (pv_fresh booted) of None \<Rightarrow> [] | Some t \<Rightarrow> [t]) @ ps_workers s,
     ps_log := log_queued (ps_provider s) queued (ps_log s)\<rparr>"
  have "?S s ?t" using queued_eq by (intro pf_queue) (simp add: s(2))
  with s(1) have "?S\<^sup>*\<^sup>* ?s0 ?t" by (rule rtranclp.rtrancl_into_rtrancl)
  moreover have "py_strip ''red'' \<noteq> []" by code_simp
  ultimately have "\<exists>t. ?S\<^sup>*\<^sup>* ?s0 t \<and> ps_provider t = staged first_request [found_node] (ps_provider ?t)"
    by (rule_tac worker_stages) (use s(3) queued_fields queued_current in \<open>auto simp: first_request_def\<close>)
  then show ?thesis by (simp add: warm_def)
qed

definition warm_snapshot :: pf_snapshot where
  "warm_snapshot = snd (the (prefetch_begin (\<lambda>_. []) [] None None [] warm))"

lemma warm_begin:
  "prefetch_begin (\<lambda>_. []) [] None None [] warm = Some (warm\<lparr>pv_prefetch_pending := None, pv_warm_cache := []\<rparr>, warm_snapshot)"
  "sn_identity warm_snapshot = booted_identity"
  "sn_warm warm_snapshot = [(''red'', \<lparr>prr_identity = booted_identity, prr_cues = [''red''], prr_nodes = [found_node]\<rparr>)]"
  using queued_fields
  by (simp_all add: warm_snapshot_def prefetch_begin_def warm_def staged_def prefetch_open_def
      consume_prefetch_pending_locked_def first_request_def Let_def)

theorem warm_hit_is_latest_witness:
  "\<exists>(s :: pf_sys) req. ps_provider s = warm \<and> hd (ps_log s) = (1, Some req) \<and> prq_identity req = booted_identity"
proof -
  obtain s where s: "(pf_step (\<lambda>_. []) (\<lambda>_. {found_node}))\<^sup>*\<^sup>* \<lparr>ps_provider = new_provider, ps_workers = [], ps_log = []\<rparr> s"
      "ps_provider s = warm"
    using warm_reachable by blast
  have hit: "warm_hit ''RED door'' warm_snapshot =
      Some (''red'', \<lparr>prr_identity = booted_identity, prr_cues = [''red''], prr_nodes = [found_node]\<rparr>)"
  proof -
    have "py_strip ''RED door'' \<noteq> []" "warm_match ''RED door'' ''red''" by code_simp+
    then show ?thesis by (simp add: warm_hit_def warm_begin)
  qed
  have "pv_prefetch_generation warm = 1" using queued_fields by (simp add: warm_def staged_def)
  moreover have "prefetch_begin (\<lambda>_. []) [] None None [] (ps_provider s) =
      Some (warm\<lparr>pv_prefetch_pending := None, pv_warm_cache := []\<rparr>, warm_snapshot)"
    by (simp add: s(2) warm_begin)
  moreover have "pf_init \<lparr>ps_provider = new_provider, ps_workers = [], ps_log = []\<rparr>"
    by (simp add: pf_init_def)
  ultimately obtain req where "hd (ps_log s) = (1, Some req)" "prq_identity req = booted_identity"
    using warm_hit_is_latest [OF _ s(1) _ hit] s(2) warm_begin(2) by metis
  with s(2) show ?thesis by blast
qed

end
