(* ===== verification/Telemetry.thy ===== *)
theory Telemetry
  imports Provider
begin

text \<open>
  Diagnostics that leave the process: the Sentry events of \<^verbatim>\<open>error_tracking.py\<close> with the queue
  and the worker that own the client. The client library is an input: which event an
  envelope carries after the client has enriched it.
\<close>

section \<open>Allowed values\<close>

definition SAFE_OPERATIONS :: "string set" where
  "SAFE_OPERATIONS = {''cashew.initialize'', ''cashew.sync'', ''cashew.query'', ''cashew.extract'',
     ''cashew.prefetch'', ''cashew.sleep'', ''cashew.verify''}"

definition SAFE_STATES :: "string set" where
  "SAFE_STATES = {''initializing'', ''ready'', ''degraded'', ''stopping'', ''stopped'', ''failed''}"

definition SAFE_FALLBACKS :: "string set" where
  "SAFE_FALLBACKS = {''none'', ''keyword'', ''bfs'', ''cpu'', ''disabled''}"

definition EVENT_ERROR_CLASSES :: "string set" where
  "EVENT_ERROR_CLASSES = {''Exception'', ''ImportError'', ''KeyError'', ''OSError'', ''OperationalError'',
     ''RuntimeError'', ''TimeoutError'', ''TypeError'', ''ValueError''}"

definition event_error_class :: "exn \<Rightarrow> string" where
  "event_error_class e =
     (let nm = exc_name (exn_class e) in if nm \<in> EVENT_ERROR_CLASSES then nm else ''Exception'')"

definition safe_string :: "string set \<Rightarrow> pyval \<Rightarrow> string option" where
  "safe_string allowed v = (case v of PStr s \<Rightarrow> if s \<in> allowed then Some s else None | _ \<Rightarrow> None)"

definition operation_tag :: "pyval \<Rightarrow> string" where
  "operation_tag v = (case safe_string SAFE_OPERATIONS v of Some s \<Rightarrow> s | None \<Rightarrow> ''cashew.unknown'')"

definition bounded_int :: "pyval \<Rightarrow> int option" where
  "bounded_int v = (case v of PInt i \<Rightarrow> Some (max 0 (min i 1000000000)) | _ \<Rightarrow> None)"

definition BUCKETS :: "int list" where
  "BUCKETS = [1, 10, 100, 1000, 10000, 60000, 600000, 3600000, 86400000]"

definition bucket_of :: "real \<Rightarrow> int" where
  "bucket_of ms =
     (let milliseconds = max 0 (min ms 86400000)
      in case find (\<lambda>b. milliseconds \<le> real_of_int b) BUCKETS of
           Some b \<Rightarrow> b
         | None \<Rightarrow> 86400000)"

text \<open>An integer too large for a double raises, in \<^verbatim>\<open>float(value)\<close> or in \<^verbatim>\<open>math.isfinite(value)\<close>.\<close>

definition duration_bucket :: "pyval \<Rightarrow> int option res" where
  "duration_bucket v =
     (case v of
        PInt i \<Rightarrow>
          if double_overflow i then raise C_OverflowError ''int too large to convert to float''
          else return (Some (bucket_of (real_of_int i)))
      | PFloat (Fin r) \<Rightarrow> return (Some (bucket_of r))
      | _ \<Rightarrow> return None)"

section \<open>Events\<close>

record metadata =
  md_generation :: pyval
  md_state :: pyval
  md_fallback :: pyval
  md_duration_ms :: pyval
  md_count :: pyval
  md_queue_depth :: pyval

definition no_metadata :: metadata where
  "no_metadata = \<lparr>md_generation = PNone, md_state = PNone, md_fallback = PNone, md_duration_ms = PNone,
     md_count = PNone, md_queue_depth = PNone\<rparr>"

definition merge_extra :: "pydict option \<Rightarrow> metadata \<Rightarrow> metadata" where
  "merge_extra extra m =
     (case extra of
        None \<Rightarrow> m
      | Some d \<Rightarrow>
          if d = [] then m
          else \<lparr>md_generation = dict_get_default d ''generation'' (md_generation m),
                md_state = dict_get_default d ''state'' (md_state m),
                md_fallback = dict_get_default d ''fallback'' (md_fallback m),
                md_duration_ms = dict_get_default d ''duration_ms''
                   (dict_get_default d ''duration_bucket_ms'' (md_duration_ms m)),
                md_count = dict_get_default d ''count'' (md_count m),
                md_queue_depth = dict_get_default d ''queue_depth'' (md_queue_depth m)\<rparr>)"

definition opt_entry :: "string \<Rightarrow> pyval option \<Rightarrow> pydict" where
  "opt_entry k v = (case v of None \<Rightarrow> [] | Some x \<Rightarrow> [(k, x)])"

definition safe_metadata :: "metadata \<Rightarrow> pydict option \<Rightarrow> pydict res" where
  "safe_metadata m extra =
     (let m = merge_extra extra m
      in bind_res (duration_bucket (md_duration_ms m)) (\<lambda>bucket. return
           (opt_entry ''generation'' (map_option PInt (bounded_int (md_generation m))) @
            opt_entry ''count'' (map_option PInt (bounded_int (md_count m))) @
            opt_entry ''queue_depth'' (map_option PInt (bounded_int (md_queue_depth m))) @
            opt_entry ''state'' (map_option PStr (safe_string SAFE_STATES (md_state m))) @
            opt_entry ''fallback'' (map_option PStr (safe_string SAFE_FALLBACKS (md_fallback m))) @
            opt_entry ''duration_bucket_ms'' (map_option PInt bucket))))"

definition envelope_event :: "string \<Rightarrow> pydict \<Rightarrow> string \<Rightarrow> pyval" where
  "envelope_event operation context error_type =
     PDict [(''level'', PStr ''error''), (''platform'', PStr ''python''),
       (''message'', PStr ''cashew operation failed''),
       (''tags'', PDict [(''operation'', PStr operation)]),
       (''contexts'', PDict [(''cashew'', PDict context)]),
       (''breadcrumbs'', PDict [(''values'', PList [])]),
       (''exception'', PDict [(''values'', PList [PDict [(''type'', PStr error_type), (''value'', PStr ''redacted'')]])])]"

definition sentry_event :: "exn \<Rightarrow> pyval \<Rightarrow> metadata \<Rightarrow> pydict option \<Rightarrow> pyval res" where
  "sentry_event error operation m extra =
     bind_res (safe_metadata m extra) (\<lambda>context.
       return (envelope_event (operation_tag operation) context (event_error_class error)))"

text \<open>\<^verbatim>\<open>x.get(k) if isinstance(x, dict) else None\<close>.\<close>

definition get_if_dict :: "pyval \<Rightarrow> string \<Rightarrow> pyval" where
  "get_if_dict v k = (case v of PDict d \<Rightarrow> dict_get d k | _ \<Rightarrow> PNone)"

definition canonical_event :: "pyval \<Rightarrow> pyval res" where
  "canonical_event event =
     (let operation = get_if_dict (get_if_dict event ''tags'') ''operation'';
          raw_context = get_if_dict (get_if_dict event ''contexts'') ''cashew'';
          raw_values = get_if_dict (get_if_dict event ''exception'') ''values'';
          first = (case raw_values of PList (v # _) \<Rightarrow> v | _ \<Rightarrow> PDict []);
          error_type = get_if_dict first ''type''
      in bind_res (safe_metadata no_metadata (case raw_context of PDict d \<Rightarrow> Some d | _ \<Rightarrow> None)) (\<lambda>context.
           return (envelope_event (operation_tag operation) context
             (case safe_string EVENT_ERROR_CLASSES error_type of Some s \<Rightarrow> s | None \<Rightarrow> ''Exception''))))"

section \<open>The shape of what is sent\<close>

text \<open>
  The schema, independent of the functions above: every place of an event holds a fixed
  word, a word of a fixed list, or a bounded number.
\<close>

fun metadata_entry_ok :: "string \<times> pyval \<Rightarrow> bool" where
  "metadata_entry_ok (k, PInt i) =
     (k \<in> {''generation'', ''count'', ''queue_depth''} \<and> 0 \<le> i \<and> i \<le> 1000000000 \<or>
      k = ''duration_bucket_ms'' \<and> i \<in> set BUCKETS)"
| "metadata_entry_ok (k, PStr s) = (k = ''state'' \<and> s \<in> SAFE_STATES \<or> k = ''fallback'' \<and> s \<in> SAFE_FALLBACKS)"
| "metadata_entry_ok _ = False"

definition event_typed :: "pyval \<Rightarrow> bool" where
  "event_typed v \<longleftrightarrow>
     (\<exists>operation context error_type.
        v = envelope_event operation context error_type \<and>
        operation \<in> insert ''cashew.unknown'' SAFE_OPERATIONS \<and> error_type \<in> EVENT_ERROR_CLASSES \<and>
        distinct (map fst context) \<and> list_all metadata_entry_ok context)"

lemma bucket_of_in: "bucket_of r \<in> set BUCKETS"
  by (auto simp: bucket_of_def Let_def find_Some_iff BUCKETS_def split: option.split)

lemma bucket_of_bucket: "b \<in> set BUCKETS \<Longrightarrow> bucket_of (real_of_int b) = b"
  by (auto simp: BUCKETS_def bucket_of_def Let_def)

lemma small_no_overflow: "\<bar>i\<bar> \<le> 1000000000 \<Longrightarrow> \<not> double_overflow i"
  by (simp add: double_overflow_def)

lemma duration_bucket_Inr: "duration_bucket v = Inr (Some b) \<Longrightarrow> b \<in> set BUCKETS"
  by (auto simp: duration_bucket_def bucket_of_in split: pyval.splits pyfloat.splits if_splits)

lemma duration_bucket_again: "b \<in> set BUCKETS \<Longrightarrow> duration_bucket (PInt b) = Inr (Some b)"
proof -
  assume b: "b \<in> set BUCKETS"
  then have "\<not> double_overflow b" by (intro small_no_overflow) (auto simp: BUCKETS_def)
  with bucket_of_bucket [OF b] show ?thesis by (simp add: duration_bucket_def)
qed

lemma safe_string_Some: "safe_string A v = Some s \<longleftrightarrow> v = PStr s \<and> s \<in> A"
  by (auto simp: safe_string_def split: pyval.splits)

lemma bounded_int_range: "bounded_int v = Some i \<Longrightarrow> 0 \<le> i \<and> i \<le> 1000000000"
  by (auto simp: bounded_int_def split: pyval.splits)

lemma bounded_int_again: "0 \<le> i \<Longrightarrow> i \<le> 1000000000 \<Longrightarrow> bounded_int (PInt i) = Some i"
  by (simp add: bounded_int_def)

definition metadata_of :: "metadata \<Rightarrow> int option \<Rightarrow> pydict" where
  "metadata_of m bucket =
     opt_entry ''generation'' (map_option PInt (bounded_int (md_generation m))) @
     opt_entry ''count'' (map_option PInt (bounded_int (md_count m))) @
     opt_entry ''queue_depth'' (map_option PInt (bounded_int (md_queue_depth m))) @
     opt_entry ''state'' (map_option PStr (safe_string SAFE_STATES (md_state m))) @
     opt_entry ''fallback'' (map_option PStr (safe_string SAFE_FALLBACKS (md_fallback m))) @
     opt_entry ''duration_bucket_ms'' (map_option PInt bucket)"

lemma safe_metadata_eq:
  "safe_metadata m extra = Inr c \<longleftrightarrow>
     (\<exists>b. duration_bucket (md_duration_ms (merge_extra extra m)) = Inr b \<and> c = metadata_of (merge_extra extra m) b)"
  by (auto simp: safe_metadata_def metadata_of_def Let_def res_simps)

lemma opt_entry_props [simp]:
  "distinct (map fst (opt_entry k v))" "fst ` set (opt_entry k v) \<subseteq> {k}"
  "list_all P (opt_entry k v) \<longleftrightarrow> (\<forall>x. v = Some x \<longrightarrow> P (k, x))"
  "map_of (opt_entry k v) k' = (if k' = k then v else None)"
  by (auto simp: opt_entry_def split: option.split)

lemma distinct_metadata: "distinct (map fst (metadata_of m b))"
proof -
  have "fst ` set (opt_entry k v) \<inter> fst ` set (opt_entry k' v') = {}" if "k \<noteq> k'" for k k' v v'
    using that opt_entry_props(2) [of k v] opt_entry_props(2) [of k' v'] by blast
  then show ?thesis
    by (simp add: metadata_of_def Int_Un_distrib)
qed

lemma typed_metadata:
  assumes "\<forall>i. b = Some i \<longrightarrow> i \<in> set BUCKETS"
  shows "list_all metadata_entry_ok (metadata_of m b)"
  using assms by (simp add: metadata_of_def safe_string_Some) (auto dest: bounded_int_range)

lemma safe_metadata_typed:
  assumes "safe_metadata m extra = Inr c"
  shows "distinct (map fst c) \<and> list_all metadata_entry_ok c"
  using assms unfolding safe_metadata_eq
  by (auto intro!: distinct_metadata typed_metadata dest: duration_bucket_Inr)

text \<open>Scrubbing what is already scrubbed changes nothing.\<close>

lemma merge_again:
  "merge_extra (Some d) no_metadata =
     \<lparr>md_generation = dict_get d ''generation'', md_state = dict_get d ''state'', md_fallback = dict_get d ''fallback'',
      md_duration_ms = dict_get_default d ''duration_ms'' (dict_get d ''duration_bucket_ms''),
      md_count = dict_get d ''count'', md_queue_depth = dict_get d ''queue_depth''\<rparr>"
  by (simp add: merge_extra_def no_metadata_def dict_get_def dict_get_default_def)

lemma get_metadata:
  "map_of (metadata_of m b) ''generation'' = map_option PInt (bounded_int (md_generation m))"
  "map_of (metadata_of m b) ''count'' = map_option PInt (bounded_int (md_count m))"
  "map_of (metadata_of m b) ''queue_depth'' = map_option PInt (bounded_int (md_queue_depth m))"
  "map_of (metadata_of m b) ''state'' = map_option PStr (safe_string SAFE_STATES (md_state m))"
  "map_of (metadata_of m b) ''fallback'' = map_option PStr (safe_string SAFE_FALLBACKS (md_fallback m))"
  "map_of (metadata_of m b) ''duration_bucket_ms'' = map_option PInt b"
  "map_of (metadata_of m b) ''duration_ms'' = None"
  by (simp_all add: metadata_of_def map_add_def split: option.split)

lemma bounded_twice:
  "bounded_int (case map_option PInt (bounded_int v) of None \<Rightarrow> PNone | Some w \<Rightarrow> w) = bounded_int v"
  by (auto simp: bounded_int_def split: pyval.splits)

lemma safe_twice:
  "safe_string A (case map_option PStr (safe_string A v) of None \<Rightarrow> PNone | Some w \<Rightarrow> w) = safe_string A v"
  by (auto simp: safe_string_def split: pyval.splits)

lemma safe_metadata_again:
  assumes "safe_metadata m extra = Inr c"
  shows "safe_metadata no_metadata (Some c) = Inr c"
proof -
  from assms obtain b m' where b: "\<forall>i. b = Some i \<longrightarrow> i \<in> set BUCKETS" and c: "c = metadata_of m' b"
    unfolding safe_metadata_eq by (metis duration_bucket_Inr)
  let ?n = "merge_extra (Some c) no_metadata"
  have "duration_bucket (md_duration_ms ?n) = Inr b"
    using b by (cases b) (simp_all add: c merge_again dict_get_def dict_get_default_def get_metadata
        duration_bucket_again, simp add: duration_bucket_def)
  moreover have "metadata_of ?n b = c"
    unfolding merge_again dict_get_def c get_metadata
    by (simp only: metadata_of_def bounded_twice safe_twice metadata.simps)
  ultimately show ?thesis by (auto simp: safe_metadata_eq)
qed

lemma event_error_class_safe: "event_error_class e \<in> EVENT_ERROR_CLASSES"
  by (simp add: event_error_class_def Let_def EVENT_ERROR_CLASSES_def)

lemma operation_tag_safe: "operation_tag v \<in> insert ''cashew.unknown'' SAFE_OPERATIONS"
  by (auto simp: operation_tag_def safe_string_Some split: option.split)

lemma sentry_event_typed: "sentry_event e op m extra = Inr v \<Longrightarrow> event_typed v"
  unfolding event_typed_def sentry_event_def
  using event_error_class_safe operation_tag_safe safe_metadata_typed by (fastforce simp: res_simps)

lemma canonical_event_is_typed: "canonical_event e = Inr v \<Longrightarrow> event_typed v"
  unfolding event_typed_def canonical_event_def Let_def
  using operation_tag_safe safe_metadata_typed
  by (fastforce simp: res_simps safe_string_Some EVENT_ERROR_CLASSES_def split: option.splits)

lemma canonical_again:
  assumes "safe_metadata m extra = Inr c" "op \<in> insert ''cashew.unknown'' SAFE_OPERATIONS" "err \<in> EVENT_ERROR_CLASSES"
  shows "canonical_event (envelope_event op c err) = Inr (envelope_event op c err)"
proof -
  have "operation_tag (PStr op) = op" using assms(2) by (auto simp: operation_tag_def safe_string_def)
  with assms(3) safe_metadata_again [OF assms(1)] show ?thesis
    by (simp add: canonical_event_def envelope_event_def get_if_dict_def dict_get_def safe_string_def)
qed

text \<open>
  C29: Whatever the client library put into an event, the event that is sent has the schema
  of an envelope: every place holds a fixed word, a word of a fixed list or a bounded number, and
  applying the allowlist again changes nothing. The only failure is an integer duration beyond
  the range of a double, and then nothing is produced.
\<close>

theorem canonical_event_typed:
  "case canonical_event event of
     Inr v \<Rightarrow> event_typed v \<and> canonical_event v = Inr v
   | Inl e \<Rightarrow> exn_class e = C_OverflowError"
proof (cases "canonical_event event")
  case (Inl e)
  then show ?thesis
    by (auto simp: canonical_event_def Let_def res_simps safe_metadata_def duration_bucket_def
        split: pyval.splits pyfloat.splits if_splits)
next
  case (Inr v)
  then obtain op m extra c err where "v = envelope_event op c err" "safe_metadata m extra = Inr c"
      "op \<in> insert ''cashew.unknown'' SAFE_OPERATIONS" "err \<in> EVENT_ERROR_CLASSES"
    unfolding canonical_event_def Let_def
    using operation_tag_safe by (fastforce simp: res_simps safe_string_Some EVENT_ERROR_CLASSES_def split: option.splits)
  with canonical_again canonical_event_is_typed [OF Inr] Inr show ?thesis by auto
qed

section \<open>The queue of events and its worker\<close>

text \<open>
  \<^verbatim>\<open>SentryTelemetry\<close> with its queue of at most 16 events, its process and, as ghost state,
  what was sent. \<open>None\<close> in the queue is the request to stop.
\<close>

definition EVENTS_MAXSIZE :: nat where
  "EVENTS_MAXSIZE = 16"

record telemetry =
  tm_closed :: bool
  tm_queue_closed :: bool
  tm_queue :: "pyval option list"
  tm_alive :: bool
  tm_sent :: "pyval list"

definition start_sentry_telemetry :: "string option \<Rightarrow> exn option \<Rightarrow> telemetry option res" where
  "start_sentry_telemetry dsn spawn =
     (if py_strip (case dsn of None \<Rightarrow> [] | Some d \<Rightarrow> d) = [] then return None
      else case spawn of
        None \<Rightarrow> return (Some \<lparr>tm_closed = False, tm_queue_closed = False, tm_queue = [], tm_alive = True, tm_sent = []\<rparr>)
      | Some e \<Rightarrow> if isinstance e C_Exception then return None else Inl e)"

text \<open>\<^verbatim>\<open>put_nowait\<close>: nothing is queued when the queue is full or closed, and both are caught.\<close>

definition put_event :: "pyval option \<Rightarrow> telemetry \<Rightarrow> telemetry" where
  "put_event x t =
     (if tm_queue_closed t \<or> EVENTS_MAXSIZE \<le> length (tm_queue t) then t else t\<lparr>tm_queue := tm_queue t @ [x]\<rparr>)"

text \<open>\<^verbatim>\<open>capture\<close>: the test under the lock, and the section after it.\<close>

definition capture_open :: "telemetry \<Rightarrow> bool" where
  "capture_open t \<longleftrightarrow> \<not> tm_closed t"

definition capture_put :: "pyval \<Rightarrow> telemetry \<Rightarrow> telemetry" where
  "capture_put event t =
     (if \<not> tm_alive t then t
      else case canonical_event event of Inl _ \<Rightarrow> t | Inr v \<Rightarrow> put_event (Some v) t)"

text \<open>\<^verbatim>\<open>capture_exception\<close> up to the call of \<^verbatim>\<open>capture\<close>: the event it prepares, if it can.\<close>

definition capture_exception :: "exn \<Rightarrow> pyval \<Rightarrow> metadata \<Rightarrow> pydict option \<Rightarrow> pyval option" where
  "capture_exception error operation m extra =
     (case sentry_event error operation m extra of Inl _ \<Rightarrow> None | Inr v \<Rightarrow> Some v)"

definition close_claim :: "telemetry \<Rightarrow> telemetry \<times> bool" where
  "close_claim t = (if tm_closed t then (t, False) else (t\<lparr>tm_closed := True\<rparr>, True))"

definition close_queue :: "telemetry \<Rightarrow> telemetry" where
  "close_queue t = (put_event None t)\<lparr>tm_queue_closed := True\<rparr>"

text \<open>The join, and the termination of a process that is still running.\<close>

definition close_process :: "telemetry \<Rightarrow> telemetry" where
  "close_process t = t\<lparr>tm_alive := False\<rparr>"

text \<open>
  The worker takes an event; the client hands envelopes to the transport, whose events it has
  enriched as it likes (\<open>enriched\<close>). The transport sends the event of each after the allowlist;
  one that raises there is not sent.
\<close>

definition transport :: "pyval list \<Rightarrow> pyval list" where
  "transport enriched = concat (map (\<lambda>e. case canonical_event e of Inl _ \<Rightarrow> [] | Inr v \<Rightarrow> [v]) enriched)"

definition sentry_worker :: "pyval list \<Rightarrow> telemetry \<Rightarrow> telemetry" where
  "sentry_worker enriched t =
     (if \<not> tm_alive t then t
      else case tm_queue t of
        [] \<Rightarrow> t
      | None # q \<Rightarrow> t\<lparr>tm_queue := q, tm_alive := False\<rparr>
      | Some event # q \<Rightarrow>
          let t = t\<lparr>tm_queue := q\<rparr>
          in case canonical_event event of
               Inl _ \<Rightarrow> t
             | Inr _ \<Rightarrow> t\<lparr>tm_sent := tm_sent t @ transport enriched\<rparr>)"

text \<open>Threads of the provider that are inside \<^verbatim>\<open>capture\<close>, and one inside \<^verbatim>\<open>close\<close>.\<close>

record telemetry_sys =
  ts_telemetry :: telemetry
  ts_capturing :: "pyval list"
  ts_closing :: nat

inductive telemetry_step :: "telemetry_sys \<Rightarrow> telemetry_sys \<Rightarrow> bool" where
  tm_capture: "capture_open (ts_telemetry s) \<Longrightarrow> telemetry_step s (s\<lparr>ts_capturing := event # ts_capturing s\<rparr>)"
| tm_put: "ts_capturing s = xs @ event # ys \<Longrightarrow>
     telemetry_step s (s\<lparr>ts_telemetry := capture_put event (ts_telemetry s), ts_capturing := xs @ ys\<rparr>)"
| tm_close: "close_claim (ts_telemetry s) = (t, True) \<Longrightarrow>
     telemetry_step s (s\<lparr>ts_telemetry := t, ts_closing := 1\<rparr>)"
| tm_close_queue: "ts_closing s = 1 \<Longrightarrow>
     telemetry_step s (s\<lparr>ts_telemetry := close_queue (ts_telemetry s), ts_closing := 2\<rparr>)"
| tm_close_process: "ts_closing s = 2 \<Longrightarrow>
     telemetry_step s (s\<lparr>ts_telemetry := close_process (ts_telemetry s), ts_closing := 3\<rparr>)"
| tm_worker: "telemetry_step s (s\<lparr>ts_telemetry := sentry_worker enriched (ts_telemetry s)\<rparr>)"

definition telemetry_init :: "telemetry_sys \<Rightarrow> bool" where
  "telemetry_init s \<longleftrightarrow> (\<exists>t. start_sentry_telemetry (Some ''dsn'') None = return (Some t) \<and>
     s = \<lparr>ts_telemetry = t, ts_capturing = [], ts_closing = 0\<rparr>)"

definition telemetry_inv :: "telemetry_sys \<Rightarrow> bool" where
  "telemetry_inv s \<longleftrightarrow>
     (let t = ts_telemetry s
      in list_all event_typed (tm_sent t) \<and> length (tm_queue t) \<le> EVENTS_MAXSIZE \<and>
         list_all (\<lambda>x. case x of None \<Rightarrow> True | Some v \<Rightarrow> event_typed v) (tm_queue t) \<and>
         (tm_closed t \<longleftrightarrow> ts_closing s > 0) \<and> (tm_queue_closed t \<longleftrightarrow> ts_closing s > 1) \<and>
         (ts_closing s > 2 \<longrightarrow> \<not> tm_alive t))"

lemma put_event_inv:
  "telemetry_inv s \<Longrightarrow> (\<forall>v. x = Some v \<longrightarrow> event_typed v) \<Longrightarrow>
   telemetry_inv (s\<lparr>ts_telemetry := put_event x (ts_telemetry s), ts_capturing := cs\<rparr>)"
  by (auto simp: telemetry_inv_def Let_def put_event_def split: option.split)

lemma transport_typed: "list_all event_typed (transport enriched)"
  by (auto simp: transport_def list_all_iff intro: canonical_event_is_typed [OF sym] split: sum.splits)

interpretation tm: invariant_system telemetry_init telemetry_step telemetry_inv
proof
  show "telemetry_inv s" if "telemetry_init s" for s
    using that by (auto simp: telemetry_init_def telemetry_inv_def start_sentry_telemetry_def EVENTS_MAXSIZE_def split: if_splits)
  show "telemetry_inv u" if "telemetry_inv s" "telemetry_step s u" for s u
    using that(2,1)
  proof cases
    case (tm_put xs event ys)
    then show ?thesis
      using that(1) put_event_inv [OF that(1)]
      by (auto simp: capture_put_def telemetry_inv_def dest: canonical_event_is_typed split: sum.split)
  next
    case (tm_close t)
    then show ?thesis
      using that(1) by (auto simp: close_claim_def telemetry_inv_def Let_def split: if_splits)
  next
    case tm_close_queue
    then show ?thesis
      using put_event_inv [OF that(1), of None "ts_capturing s"]
      by (auto simp: close_queue_def telemetry_inv_def Let_def put_event_def)
  next
    case (tm_worker enriched)
    then show ?thesis
      using that(1) transport_typed [of enriched]
      by (auto simp: sentry_worker_def telemetry_inv_def Let_def split: list.split option.split sum.split)
  qed (auto simp: telemetry_inv_def close_process_def Let_def)
qed

text \<open>
  C30: In every interleaving of captures from any thread with any event, the closing of the
  client, and a worker whose client library may enrich events as it likes: every event that was
  sent has the schema, at most 16 wait, the client is closed at most once, and once it is
  closed no process of it is left and nothing is sent any more.
\<close>

theorem telemetry_sends_only_typed_events:
  assumes "telemetry_init s\<^sub>0" "telemetry_step\<^sup>*\<^sup>* s\<^sub>0 s"
  shows "list_all event_typed (tm_sent (ts_telemetry s)) \<and> length (tm_queue (ts_telemetry s)) \<le> 16 \<and>
    (ts_closing s = 3 \<longrightarrow>
       \<not> tm_alive (ts_telemetry s) \<and> (\<forall>x. tm_sent (sentry_worker x (ts_telemetry s)) = tm_sent (ts_telemetry s)))"
proof -
  have "telemetry_inv s" using assms by (rule tm.inv_reachable)
  then show ?thesis by (simp add: telemetry_inv_def Let_def EVENTS_MAXSIZE_def sentry_worker_def)
qed

text \<open>An event with a secret is captured, and enriched with it by the client.\<close>

definition leaky_event :: pyval where
  "leaky_event = PDict [(''message'', PStr ''secret''), (''tags'', PDict [(''operation'', PStr ''cashew.sync'')]),
     (''user'', PStr ''secret'')]"

definition telemetry_started :: telemetry_sys where
  "telemetry_started = \<lparr>ts_telemetry = \<lparr>tm_closed = False, tm_queue_closed = False, tm_queue = [], tm_alive = True,
     tm_sent = []\<rparr>, ts_capturing = [], ts_closing = 0\<rparr>"

definition telemetry_run :: telemetry_sys where
  "telemetry_run =
     (let t = capture_put leaky_event (ts_telemetry telemetry_started)
      in telemetry_started\<lparr>ts_telemetry := sentry_worker [leaky_event] t\<rparr>)"

lemma leaky_canonical: "canonical_event leaky_event = Inr (envelope_event ''cashew.sync'' [] ''Exception'')"
  by (simp add: canonical_event_def leaky_event_def get_if_dict_def dict_get_def safe_metadata_def Let_def
      merge_extra_def no_metadata_def duration_bucket_def bounded_int_def safe_string_def opt_entry_def
      operation_tag_def SAFE_OPERATIONS_def)

lemma telemetry_run_reachable: "telemetry_step\<^sup>*\<^sup>* telemetry_started telemetry_run"
proof -
  let ?s1 = "telemetry_started\<lparr>ts_capturing := leaky_event # ts_capturing telemetry_started\<rparr>"
  let ?s2 = "?s1\<lparr>ts_telemetry := capture_put leaky_event (ts_telemetry ?s1), ts_capturing := [] @ []\<rparr>"
  have "telemetry_step telemetry_started ?s1"
    by (rule tm_capture) (simp add: capture_open_def telemetry_started_def)
  moreover have "telemetry_step ?s1 ?s2"
    by (rule tm_put) (simp add: telemetry_started_def)
  moreover have "telemetry_step ?s2 (?s2\<lparr>ts_telemetry := sentry_worker [leaky_event] (ts_telemetry ?s2)\<rparr>)"
    by (rule tm_worker)
  moreover have "?s2\<lparr>ts_telemetry := sentry_worker [leaky_event] (ts_telemetry ?s2)\<rparr> = telemetry_run"
    by (simp add: telemetry_run_def telemetry_started_def Let_def)
  ultimately show ?thesis by (metis converse_rtranclp_into_rtranclp rtranclp.rtrancl_refl)
qed

theorem telemetry_sends_only_typed_events_witness:
  "tm_sent (ts_telemetry telemetry_run) = [envelope_event ''cashew.sync'' [] ''Exception''] \<and>
   event_typed (envelope_event ''cashew.sync'' [] ''Exception'')"
proof -
  have sent: "tm_sent (ts_telemetry telemetry_run) = [envelope_event ''cashew.sync'' [] ''Exception'']"
    using canonical_again [of no_metadata None "[]" "''cashew.sync''" "''Exception''"]
    by (simp add: telemetry_run_def telemetry_started_def capture_put_def put_event_def sentry_worker_def transport_def
        leaky_canonical EVENTS_MAXSIZE_def Let_def safe_metadata_def merge_extra_def no_metadata_def
        duration_bucket_def bounded_int_def safe_string_def opt_entry_def SAFE_OPERATIONS_def EVENT_ERROR_CLASSES_def)
  have "py_strip ''dsn'' \<noteq> []" by code_simp
  then have "telemetry_init telemetry_started"
    by (simp add: telemetry_init_def start_sentry_telemetry_def telemetry_started_def)
  with telemetry_sends_only_typed_events [OF _ telemetry_run_reachable] sent show ?thesis by simp
qed

end
