(* ===== verification/Tracing.thy ===== *)
theory Tracing
  imports Telemetry
begin

text \<open>
  The OpenTelemetry spans of \<^verbatim>\<open>tracing.py\<close>. The client library is an input: what each of its
  calls raises. Its sets of allowed words are those of \<^verbatim>\<open>error_tracking.py\<close>, word for word.
\<close>

section \<open>Spans\<close>

text \<open>
  What the client library does: the environment variable, the imports, and what each of its
  calls raises. The calls that reach the real span are recorded in order.
\<close>

datatype otel_state = Otel_none | Otel_false | Otel_tracer

datatype span_call =
    Span_start string
  | Span_attribute string pyval
  | Span_event string string
  | Span_error string
  | Span_exit

record tracer_env =
  tr_enabled :: "string option"
  tr_import :: "exn option"
  tr_kind :: "exn option"
  tr_start :: "exn option"
  tr_attribute :: "exn option"
  tr_event :: "exn option"
  tr_status_import :: "exn option"
  tr_status :: "exn option"
  tr_exit :: "exn option"

definition tracer_for_call :: "tracer_env \<Rightarrow> otel_state \<Rightarrow> otel_state \<times> bool res" where
  "tracer_for_call env otel =
     (if tr_enabled env \<noteq> Some ''1'' then (otel, return False)
      else if otel = Otel_none then
        (case tr_import env of
           None \<Rightarrow> (Otel_tracer, return True)
         | Some e \<Rightarrow> if isinstance e C_Exception then (Otel_false, return False) else (Otel_none, Inl e))
      else (otel, return (otel = Otel_tracer)))"

definition span_value :: "string \<Rightarrow> pyval \<Rightarrow> pyval option res" where
  "span_value key v =
     (if key \<in> {''state'', ''fallback''} then
        return (map_option PStr (safe_string (if key = ''state'' then SAFE_STATES else SAFE_FALLBACKS) v))
      else if key \<in> {''generation'', ''count'', ''queue_depth'', ''input_length'', ''result_count''} then
        return (map_option PInt (bounded_int v))
      else if key = ''duration_bucket_ms'' then bind_res (duration_bucket v) (\<lambda>b. return (map_option PInt b))
      else return None)"

text \<open>A computation on the span: its calls, and a value or what was raised.\<close>

type_synonym 'a spanned = "span_call list \<times> 'a res"

definition sbind :: "'a spanned \<Rightarrow> ('a \<Rightarrow> 'b spanned) \<Rightarrow> 'b spanned" where
  "sbind m f = (case m of (cs, Inl e) \<Rightarrow> (cs, Inl e) | (cs, Inr x) \<Rightarrow> (case f x of (ds, r) \<Rightarrow> (cs @ ds, r)))"

text \<open>\<^verbatim>\<open>try: call() except Exception: pass\<close>.\<close>

definition quiet_call :: "span_call \<Rightarrow> exn option \<Rightarrow> unit spanned" where
  "quiet_call c r = ([c], case r of None \<Rightarrow> return () | Some e \<Rightarrow> if isinstance e C_Exception then return () else Inl e)"

definition set_attribute :: "tracer_env \<Rightarrow> string \<Rightarrow> pyval \<Rightarrow> unit spanned" where
  "set_attribute env key v =
     (case span_value key v of
        Inl e \<Rightarrow> ([], Inl e)
      | Inr None \<Rightarrow> ([], return ())
      | Inr (Some safe) \<Rightarrow> quiet_call (Span_attribute key safe) (tr_attribute env))"

definition record_exception :: "tracer_env \<Rightarrow> exn \<Rightarrow> unit spanned" where
  "record_exception env e = quiet_call (Span_event (event_error_class e) ''redacted'') (tr_event env)"

definition set_error :: "tracer_env \<Rightarrow> exn \<Rightarrow> unit spanned" where
  "set_error env e =
     sbind (record_exception env e) (\<lambda>_.
       case tr_status_import env of
         Some i \<Rightarrow> ([], if isinstance i C_Exception then return () else Inl i)
       | None \<Rightarrow> quiet_call (Span_error ''cashew operation failed'') (tr_status env))"

text \<open>What the body of the \<^verbatim>\<open>with\<close> statement does with its span, before it ends.\<close>

datatype span_op = Op_attribute string pyval | Op_event string | Op_exception exn | Op_status string

fun run_op :: "tracer_env \<Rightarrow> span_op \<Rightarrow> unit spanned" where
  "run_op env (Op_attribute k v) = set_attribute env k v"
| "run_op env (Op_event nm) = ([], return ())"
| "run_op env (Op_exception e) = record_exception env e"
| "run_op env (Op_status st) = ([], return ())"

fun span_ops :: "tracer_env \<Rightarrow> span_op list \<Rightarrow> 'a res \<Rightarrow> 'a spanned" where
  "span_ops env [] r = ([], r)"
| "span_ops env (x # xs) r = sbind (run_op env x) (\<lambda>_. span_ops env xs r)"

definition exit_span :: "tracer_env \<Rightarrow> unit spanned" where
  "exit_span env = quiet_call Span_exit (tr_exit env)"

text \<open>\<^verbatim>\<open>trace_operation\<close> around a body; without a span the body runs on one that does nothing.\<close>

definition traced_body :: "tracer_env \<Rightarrow> span_op list \<Rightarrow> 'a res \<Rightarrow> 'a spanned" where
  "traced_body env ops r =
     (case span_ops env ops r of
        (cs, Inl e) \<Rightarrow> sbind (cs, return ()) (\<lambda>_. sbind (set_error env e) (\<lambda>_. sbind (exit_span env) (\<lambda>_. ([], Inl e))))
      | (cs, Inr x) \<Rightarrow> sbind (cs, return ()) (\<lambda>_. sbind (exit_span env) (\<lambda>_. ([], return x))))"

definition enter_span :: "tracer_env \<Rightarrow> string \<Rightarrow> bool spanned" where
  "enter_span env nm =
     (let operation = (if nm \<in> SAFE_OPERATIONS then nm else ''cashew.unknown'');
          attempt = (case tr_kind env of
             Some e \<Rightarrow> if isinstance e C_ImportError then ([Span_start operation], raised (tr_start env)) else ([], Inl e)
           | None \<Rightarrow> ([Span_start operation], raised (tr_start env)))
      in (fst attempt, case snd attempt of
            Inr _ \<Rightarrow> return True
          | Inl e \<Rightarrow> if isinstance e C_Exception then return False else Inl e))"

definition trace_operation ::
    "tracer_env \<Rightarrow> otel_state \<Rightarrow> string \<Rightarrow> (string \<times> pyval) list \<Rightarrow> span_op list \<Rightarrow> 'a res \<Rightarrow> otel_state \<times> 'a spanned" where
  "trace_operation env otel nm attributes ops r =
     (case tracer_for_call env otel of
        (otel, Inl e) \<Rightarrow> (otel, [], Inl e)
      | (otel, Inr False) \<Rightarrow> (otel, [], r)
      | (otel, Inr True) \<Rightarrow>
          (otel, sbind (enter_span env nm) (\<lambda>entered.
             if \<not> entered then ([], r)
             else sbind (span_ops env (map (\<lambda>(k, v). Op_attribute k v) attributes) (return ())) (\<lambda>_.
                    traced_body env ops r))))"

fun call_safe :: "span_call \<Rightarrow> bool" where
  "call_safe (Span_start op) = (op \<in> insert ''cashew.unknown'' SAFE_OPERATIONS)"
| "call_safe (Span_attribute k v) =
     (metadata_entry_ok (k, v) \<or>
      k \<in> {''input_length'', ''result_count''} \<and> (\<exists>i. v = PInt i \<and> 0 \<le> i \<and> i \<le> 1000000000))"
| "call_safe (Span_event c m) = (c \<in> EVENT_ERROR_CLASSES \<and> m = ''redacted'')"
| "call_safe (Span_error m) = (m = ''cashew operation failed'')"
| "call_safe Span_exit = True"

abbreviation safe_calls :: "'a spanned \<Rightarrow> bool" where
  "safe_calls m \<equiv> list_all call_safe (fst m)"

lemma safe_sbind: "safe_calls m \<Longrightarrow> (\<And>x. safe_calls (f x)) \<Longrightarrow> safe_calls (sbind m f)"
  by (auto simp: sbind_def split: prod.split sum.split) (metis fst_conv)

lemma safe_quiet [simp]: "safe_calls (quiet_call c r) = call_safe c"
  by (simp add: quiet_call_def)

lemma safe_attribute: "safe_calls (set_attribute env k v)"
  by (auto simp: set_attribute_def span_value_def res_simps safe_string_Some
      dest!: bounded_int_range duration_bucket_Inr split: sum.split option.split if_splits)

lemma safe_exception: "safe_calls (record_exception env e)"
  by (simp add: record_exception_def event_error_class_safe)

lemma safe_ops: "safe_calls (span_ops env ops r)"
proof (induction ops)
  case (Cons x xs)
  have "safe_calls (run_op env x)" by (cases x) (simp_all add: safe_attribute safe_exception)
  with Cons show ?case by (simp add: safe_sbind)
qed simp

lemma safe_set_error: "safe_calls (set_error env e)"
  unfolding set_error_def by (intro safe_sbind safe_exception) (simp split: option.split)

lemma safe_traced: "safe_calls (traced_body env ops r)"
proof -
  have "list_all call_safe (fst (span_ops env ops r))" by (rule safe_ops)
  then show ?thesis
    by (auto simp: traced_body_def exit_span_def split: prod.split sum.split intro!: safe_sbind safe_set_error)
qed

lemma safe_trace: "safe_calls (snd (trace_operation env otel nm attributes ops r))"
  unfolding trace_operation_def
  by (auto split: prod.split sum.split bool.split intro!: safe_sbind safe_traced safe_ops)
    (auto simp: enter_span_def Let_def split: option.split)

text \<open>The library raises nothing beyond \<^verbatim>\<open>Exception\<close>, and no duration is beyond a double.\<close>

definition polite :: "exn option \<Rightarrow> bool" where
  "polite e \<longleftrightarrow> (\<forall>x. e = Some x \<longrightarrow> isinstance x C_Exception)"

definition polite_tracer :: "tracer_env \<Rightarrow> bool" where
  "polite_tracer env \<longleftrightarrow> polite (tr_import env) \<and> polite (tr_kind env) \<and> polite (tr_start env) \<and>
     polite (tr_attribute env) \<and> polite (tr_event env) \<and> polite (tr_status_import env) \<and> polite (tr_status env) \<and>
     polite (tr_exit env)"

fun op_fits :: "span_op \<Rightarrow> bool" where
  "op_fits (Op_attribute k (PInt i)) = (k = ''duration_bucket_ms'' \<longrightarrow> \<not> double_overflow i)"
| "op_fits _ = True"

lemma quiet_ok: "polite r \<Longrightarrow> snd (quiet_call c r) = return ()"
  by (auto simp: quiet_call_def polite_def split: option.split)

lemma sbind_ok: "snd m = return x \<Longrightarrow> snd (sbind m f) = snd (f x)"
  by (auto simp: sbind_def split: prod.split)

lemma attribute_ok:
  assumes "polite (tr_attribute env)" "op_fits (Op_attribute k v)"
  shows "snd (set_attribute env k v) = return ()"
proof -
  have "\<exists>s. span_value k v = Inr s"
    using assms(2) by (cases v) (auto simp: span_value_def duration_bucket_def split: pyfloat.split)
  with assms(1) show ?thesis by (auto simp: set_attribute_def quiet_ok split: option.split)
qed

lemma ops_ok: "polite_tracer env \<Longrightarrow> list_all op_fits ops \<Longrightarrow> snd (span_ops env ops r) = r"
proof (induction ops)
  case (Cons x xs)
  then have "snd (run_op env x) = return ()"
    by (cases x) (simp_all add: attribute_ok record_exception_def quiet_ok polite_tracer_def)
  with Cons show ?case by (simp add: sbind_ok)
qed simp

lemma set_error_ok: "polite_tracer env \<Longrightarrow> snd (set_error env e) = return ()"
  by (auto simp: set_error_def sbind_ok record_exception_def quiet_ok polite_tracer_def split: option.split)
    (auto simp: polite_def)

lemma traced_ok: "polite_tracer env \<Longrightarrow> list_all op_fits ops \<Longrightarrow> snd (traced_body env ops r) = r"
proof -
  assume a: "polite_tracer env" "list_all op_fits ops"
  then have "snd (exit_span env) = return ()" by (simp add: exit_span_def quiet_ok polite_tracer_def)
  with ops_ok [OF a, of r] set_error_ok [OF a(1)] show ?thesis
    by (auto simp: traced_body_def sbind_ok split: prod.split sum.split)
qed

lemma enter_ok: "polite_tracer env \<Longrightarrow> \<exists>b. snd (enter_span env nm) = return b"
  by (auto simp: enter_span_def Let_def raised_def polite_tracer_def polite_def split: option.split)

lemma tracer_ok: "polite_tracer env \<Longrightarrow> \<exists>b. snd (tracer_for_call env otel) = return b"
  by (auto simp: tracer_for_call_def polite_tracer_def polite_def split: option.split)

text \<open>
  C31: Tracing sends nothing but allowed values and never changes an operation. Whatever the body
  does with its span, only known operation names, bounded numbers, fixed words and redacted
  exceptions reach the client library; and if that library raises no more than \<^verbatim>\<open>Exception\<close>
  and no integer duration is beyond the range of a double, the body's value or exception
  comes out unchanged, wherever the library fails.
\<close>

theorem trace_operation_transparent:
  "list_all call_safe (fst (snd (trace_operation env otel nm attributes ops r))) \<and>
   (polite_tracer env \<and> list_all op_fits (map (\<lambda>(k, v). Op_attribute k v) attributes @ ops) \<longrightarrow>
      snd (snd (trace_operation env otel nm attributes ops r)) = r)"
proof (intro conjI impI)
  show "list_all call_safe (fst (snd (trace_operation env otel nm attributes ops r)))" by (rule safe_trace)
  assume a: "polite_tracer env \<and> list_all op_fits (map (\<lambda>(k, v). Op_attribute k v) attributes @ ops)"
  then obtain b c where b: "snd (tracer_for_call env otel) = return b" "snd (enter_span env nm) = return c"
    using tracer_ok enter_ok by blast
  have "snd (span_ops env (map (\<lambda>(k, v). Op_attribute k v) attributes) (return ())) = return ()"
    using a by (intro ops_ok) simp_all
  with a b traced_ok [of env ops r] show "snd (snd (trace_operation env otel nm attributes ops r)) = r"
    by (auto simp: trace_operation_def sbind_ok split: prod.split bool.split)
qed

definition failing_tracer :: tracer_env where
  "failing_tracer = \<lparr>tr_enabled = Some ''1'', tr_import = None, tr_kind = None, tr_start = None,
     tr_attribute = Some (mk_exn C_RuntimeError ''exporter''), tr_event = None, tr_status_import = None,
     tr_status = None, tr_exit = Some (mk_exn C_OSError [])\<rparr>"

theorem trace_operation_transparent_witness:
  "snd (snd (trace_operation failing_tracer Otel_none ''cashew.sync'' [(''count'', PInt 3)] []
     (Inl (mk_exn C_ValueError ''secret'') :: int res))) = Inl (mk_exn C_ValueError ''secret'')"
  using trace_operation_transparent [of failing_tracer Otel_none "''cashew.sync''" "[(''count'', PInt 3)]" "[]"
      "Inl (mk_exn C_ValueError ''secret'') :: int res"]
  by (simp add: polite_tracer_def polite_def failing_tracer_def isinstance_def)

text \<open>
  An integer duration beyond a double does change the operation: its body never runs, and the
  span that was entered is not left.
\<close>

lemma huge_duration_escapes:
  assumes "double_overflow i" "tr_enabled env = Some ''1''" "tr_import env = None" "tr_kind env = None" "tr_start env = None"
  shows "snd (trace_operation env Otel_none ''cashew.sync'' [(''duration_bucket_ms'', PInt i)] ops r) =
    ([Span_start ''cashew.sync''], raise C_OverflowError ''int too large to convert to float'')"
  using assms by (simp add: trace_operation_def tracer_for_call_def enter_span_def Let_def raised_def sbind_def
      set_attribute_def span_value_def duration_bucket_def SAFE_OPERATIONS_def)

end
