(* ===== verification/Scrub.thy ===== *)
theory Scrub
  imports Provider
begin

text \<open>
  Local logging (\<^verbatim>\<open>log_filter.py\<close>): what the filter makes of a record.
\<close>

section \<open>Records\<close>

datatype log_args = Args_none | Args_tuple "pyval list" | Args_map "(string \<times> pyval) list" | Args_other

datatype log_exc = Exc_none | Exc_tuple "string option" string

text \<open>
  \<open>lr_source\<close> is \<^verbatim>\<open>Path(record.pathname).resolve()\<close>. An \<open>Exc_tuple\<close> has the class name of the
  exception, if there is one, and the text it prints, traceback included.
\<close>

record log_record =
  lr_name :: string
  lr_source :: "path res"
  lr_levelno :: int
  lr_msg :: pyval
  lr_args :: log_args
  lr_exc_info :: log_exc
  lr_exc_text :: "string option"
  lr_stack_info :: "string option"
  lr_scrubbed :: bool

definition SAFE_EXCEPTION_CLASSES :: "string set" where
  "SAFE_EXCEPTION_CLASSES = {''Exception'', ''ImportError'', ''KeyError'', ''OSError'', ''OperationalError'',
     ''RuntimeError'', ''TimeoutError'', ''TypeError'', ''ValueError''}"

definition SAFE_EMBED_OPERATIONS :: "string set" where
  "SAFE_EMBED_OPERATIONS = {''start'', ''encode'', ''close''}"

definition SAFE_EMBED_REASONS :: "string set" where
  "SAFE_EMBED_REASONS = {''busy'', ''closed'', ''exited'', ''owned'', ''protocol'', ''startup'', ''timeout''}"

definition SAFE_IDENTITY_STATES :: "string set" where
  "SAFE_IDENTITY_STATES = {''could not be verified'', ''inspection deferred''}"

record source_dirs =
  sd_package :: path
  sd_upstream :: "path option"

definition is_relative_to :: "path \<Rightarrow> path \<Rightarrow> bool" where
  "is_relative_to p d \<longleftrightarrow> take (length d) p = d"

text \<open>Both handlers take \<^verbatim>\<open>OSError\<close> and \<^verbatim>\<open>ValueError\<close>.\<close>

definition source_test :: "(path \<Rightarrow> bool) \<Rightarrow> path res \<Rightarrow> bool res" where
  "source_test f src =
     (case src of
        Inr p \<Rightarrow> return (f p)
      | Inl e \<Rightarrow> if isinstance e C_OSError \<or> isinstance e C_ValueError then return False else Inl e)"

definition is_owned_source :: "source_dirs \<Rightarrow> log_record \<Rightarrow> bool res" where
  "is_owned_source dirs r =
     source_test (\<lambda>p. is_relative_to p (sd_package dirs) \<or>
       (case sd_upstream dirs of None \<Rightarrow> False | Some d \<Rightarrow> is_relative_to p d)) (lr_source r)"

definition is_adapter_source :: "source_dirs \<Rightarrow> log_record \<Rightarrow> bool res" where
  "is_adapter_source dirs r =
     (if py_startswith ''plugins.memory.cashew'' (lr_name r)
      then source_test (\<lambda>p. is_relative_to p (sd_package dirs)) (lr_source r)
      else return False)"

text \<open>The regular expression of the setting names.\<close>

definition setting_char :: "char \<Rightarrow> bool" where
  "setting_char c \<longleftrightarrow> (let n = (of_char c :: nat) in 65 \<le> n \<and> n \<le> 90 \<or> 48 \<le> n \<and> n \<le> 57 \<or> n = 95)"

definition safe_env_name :: "string \<Rightarrow> bool" where
  "safe_env_name s \<longleftrightarrow> py_startswith ''CASHEW_'' s \<and> length s > 7 \<and> list_all setting_char (drop 7 s)"

definition REDACTED :: pyval where
  "REDACTED = PStr ''<redacted>''"

definition safe_argument :: "pyval \<Rightarrow> pyval" where
  "safe_argument v =
     (case v of
        PBool _ \<Rightarrow> v
      | PInt _ \<Rightarrow> v
      | PFloat _ \<Rightarrow> v
      | PStr s \<Rightarrow> if safe_env_name s then v else REDACTED
      | _ \<Rightarrow> REDACTED)"

definition safe_arguments :: "log_args \<Rightarrow> log_args" where
  "safe_arguments args =
     (case args of
        Args_map m \<Rightarrow> Args_map (map (\<lambda>(k, v). (k, safe_argument v)) m)
      | Args_tuple vs \<Rightarrow> Args_tuple (map safe_argument vs)
      | _ \<Rightarrow> Args_tuple [])"

text \<open>\<^verbatim>\<open>v if v in words else "<redacted>"\<close>; a list or a dictionary cannot be looked up.\<close>

fun hashable :: "pyval \<Rightarrow> bool" where
  "hashable (PList _) = False"
| "hashable (PDict _) = False"
| "hashable _ = True"

definition word_or_redacted :: "string set \<Rightarrow> pyval \<Rightarrow> pyval res" where
  "word_or_redacted words v =
     (if \<not> hashable v then raise C_TypeError ''unhashable type''
      else return (case v of PStr s \<Rightarrow> if s \<in> words then v else REDACTED | _ \<Rightarrow> REDACTED))"

definition safe_embedding_failure_arguments :: "log_args \<Rightarrow> log_args res" where
  "safe_embedding_failure_arguments args =
     (case args of
        Args_tuple vs \<Rightarrow>
          if length vs \<noteq> 10 then return (safe_arguments args)
          else bind_res (word_or_redacted SAFE_EMBED_OPERATIONS (vs ! 0)) (\<lambda>operation.
               bind_res (word_or_redacted SAFE_EMBED_REASONS (vs ! 7)) (\<lambda>reason.
                 return (Args_tuple [operation, safe_argument (vs ! 1), REDACTED, REDACTED, REDACTED, REDACTED,
                   safe_argument (vs ! 6), reason, safe_argument (vs ! 8), safe_argument (vs ! 9)])))
      | _ \<Rightarrow> return (safe_arguments args))"

definition safe_identity_lock_arguments :: "log_args \<Rightarrow> log_args res" where
  "safe_identity_lock_arguments args =
     (case args of
        Args_tuple vs \<Rightarrow>
          if length vs \<noteq> 2 then return (safe_arguments args)
          else bind_res (word_or_redacted SAFE_IDENTITY_STATES (vs ! 0)) (\<lambda>state. return (Args_tuple [state, REDACTED]))
      | _ \<Rightarrow> return (safe_arguments args))"

definition record_error :: "log_record \<Rightarrow> string option" where
  "record_error r = (case lr_exc_info r of Exc_tuple (Some c) _ \<Rightarrow> Some c | _ \<Rightarrow> None)"

definition log_error_class :: "string \<Rightarrow> string" where
  "log_error_class c = (if c \<in> SAFE_EXCEPTION_CLASSES then c else ''Exception'')"

definition suffix_of :: "log_record \<Rightarrow> string" where
  "suffix_of r = (case record_error r of None \<Rightarrow> [] | Some c \<Rightarrow> '' error='' @ log_error_class c)"

definition template_of :: "log_record \<Rightarrow> string" where
  "template_of r = (case lr_msg r of PStr s \<Rightarrow> s | _ \<Rightarrow> [])"

definition args_for :: "string \<Rightarrow> log_args \<Rightarrow> log_args res" where
  "args_for template args =
     (if py_startswith ''embedding worker failure:'' template then safe_embedding_failure_arguments args
      else if py_startswith ''embedding identity %s; unable to acquire'' template then safe_identity_lock_arguments args
      else return (safe_arguments args))"

definition scrub_rest :: "log_record \<Rightarrow> log_record" where
  "scrub_rest r =
     (let r' = (case record_error r of
                  None \<Rightarrow> r
                | Some c \<Rightarrow> r\<lparr>lr_exc_info := Exc_tuple (Some ''Exception'') (''cashew error '' @ log_error_class c)\<rparr>)
      in r'\<lparr>lr_exc_text := None, lr_stack_info := None, lr_scrubbed := True\<rparr>)"

text \<open>\<^verbatim>\<open>ScrubFilter.filter\<close>; it always lets the record through, unless it raises.\<close>

definition scrub :: "source_dirs \<Rightarrow> log_record \<Rightarrow> log_record \<times> unit res" where
  "scrub dirs r =
     (case is_adapter_source dirs r of
        Inl e \<Rightarrow> (r, Inl e)
      | Inr True \<Rightarrow>
          let r' = r\<lparr>lr_msg := PStr (template_of r @ suffix_of r)\<rparr>
          in (case args_for (template_of r) (lr_args r) of
                Inl e \<Rightarrow> (r', Inl e)
              | Inr args \<Rightarrow> (scrub_rest (r'\<lparr>lr_args := args\<rparr>), return ()))
      | Inr False \<Rightarrow>
          (scrub_rest (r\<lparr>lr_msg := PStr (''cashew local log event'' @ suffix_of r), lr_args := Args_none\<rparr>), return ()))"

definition scrub_filter :: "source_dirs \<Rightarrow> bool \<Rightarrow> log_record \<Rightarrow> log_record \<times> unit res" where
  "scrub_filter dirs source_scoped r =
     (if lr_scrubbed r then (r, return ())
      else if source_scoped then
        (case is_owned_source dirs r of
           Inl e \<Rightarrow> (r, Inl e)
         | Inr False \<Rightarrow> (r, return ())
         | Inr True \<Rightarrow> scrub dirs r)
      else scrub dirs r)"

section \<open>What a scrubbed record can tell\<close>

text \<open>
  Two arguments that must not be told apart: neither is a number, a setting name or a word of
  the fixed lists.
\<close>

definition secret :: "pyval \<Rightarrow> bool" where
  "secret v \<longleftrightarrow> (case v of
      PBool _ \<Rightarrow> False | PInt _ \<Rightarrow> False | PFloat _ \<Rightarrow> False
    | PStr s \<Rightarrow> \<not> safe_env_name s \<and> s \<notin> SAFE_EMBED_OPERATIONS \<union> SAFE_EMBED_REASONS \<union> SAFE_IDENTITY_STATES
    | _ \<Rightarrow> True)"

definition alike :: "pyval \<Rightarrow> pyval \<Rightarrow> bool" where
  "alike v w \<longleftrightarrow> v = w \<or> secret v \<and> secret w \<and> hashable v = hashable w"

fun args_alike :: "log_args \<Rightarrow> log_args \<Rightarrow> bool" where
  "args_alike (Args_tuple vs) (Args_tuple ws) = list_all2 alike vs ws"
| "args_alike (Args_map m) (Args_map n) = list_all2 (\<lambda>(k, v) (l, w). k = l \<and> alike v w) m n"
| "args_alike a b = (a = b)"

text \<open>
  Two records a reader may confuse: the same source and level, errors of the same safe class,
  and, from a module of the adapter, the same template and arguments that are alike. Everything
  else may differ: the text of the error, the stack and the arguments' secrets, and for
  every other source the message itself.
\<close>

definition records_alike :: "source_dirs \<Rightarrow> log_record \<Rightarrow> log_record \<Rightarrow> bool" where
  "records_alike dirs r s \<longleftrightarrow>
     lr_name r = lr_name s \<and> lr_source r = lr_source s \<and> lr_levelno r = lr_levelno s \<and> \<not> lr_scrubbed r \<and> \<not> lr_scrubbed s \<and>
     map_option log_error_class (record_error r) = map_option log_error_class (record_error s) \<and>
     (record_error r = None \<longrightarrow> lr_exc_info r = lr_exc_info s) \<and>
     (is_adapter_source dirs r = return True \<longrightarrow> lr_msg r = lr_msg s \<and> args_alike (lr_args r) (lr_args s))"

lemma safe_argument_alike: "alike v w \<Longrightarrow> safe_argument v = safe_argument w"
  by (auto simp: alike_def secret_def safe_argument_def split: pyval.splits)

lemma word_alike:
  "alike v w \<Longrightarrow> W \<subseteq> SAFE_EMBED_OPERATIONS \<union> SAFE_EMBED_REASONS \<union> SAFE_IDENTITY_STATES \<Longrightarrow>
   word_or_redacted W v = word_or_redacted W w"
  by (auto simp: alike_def secret_def word_or_redacted_def split: pyval.splits)

lemma list_alike: "list_all2 alike vs ws \<Longrightarrow> map safe_argument vs = map safe_argument ws"
  by (induction rule: list_all2_induct) (simp_all add: safe_argument_alike)

lemma safe_arguments_alike: "args_alike a b \<Longrightarrow> safe_arguments a = safe_arguments b"
proof (induction a b rule: args_alike.induct)
  case (2 m n)
  then have "list_all2 (\<lambda>(k, v) (l, w). k = l \<and> alike v w) m n" by simp
  then have "map (\<lambda>(k, v). (k, safe_argument v)) m = map (\<lambda>(k, v). (k, safe_argument v)) n"
    by (induction rule: list_all2_induct) (auto simp: safe_argument_alike)
  then show ?case by (simp add: safe_arguments_def)
qed (simp_all add: safe_arguments_def list_alike)

lemma nth_alike:
  assumes "list_all2 alike vs ws" "i < length vs"
  shows "safe_argument (vs ! i) = safe_argument (ws ! i)"
    and "word_or_redacted SAFE_EMBED_OPERATIONS (vs ! i) = word_or_redacted SAFE_EMBED_OPERATIONS (ws ! i)"
    and "word_or_redacted SAFE_EMBED_REASONS (vs ! i) = word_or_redacted SAFE_EMBED_REASONS (ws ! i)"
    and "word_or_redacted SAFE_IDENTITY_STATES (vs ! i) = word_or_redacted SAFE_IDENTITY_STATES (ws ! i)"
  using list_all2_nthD [OF assms] by (auto intro: safe_argument_alike word_alike)

lemma special_arguments_alike:
  assumes "args_alike a b"
  shows "safe_embedding_failure_arguments a = safe_embedding_failure_arguments b"
    and "safe_identity_lock_arguments a = safe_identity_lock_arguments b"
proof -
  have "safe_embedding_failure_arguments a = safe_embedding_failure_arguments b \<and>
    safe_identity_lock_arguments a = safe_identity_lock_arguments b"
  proof (cases "\<exists>vs. a = Args_tuple vs")
    case True
    then obtain vs ws where ab: "a = Args_tuple vs" "b = Args_tuple ws" "list_all2 alike vs ws"
      using assms by (cases b) auto
    note n = nth_alike [OF ab(3)] list_all2_lengthD [OF ab(3)] safe_arguments_alike [OF assms, unfolded ab(1,2)]
    show ?thesis
    proof
      show "safe_embedding_failure_arguments a = safe_embedding_failure_arguments b"
        using n(5,6) n(1) [of 1] n(1) [of 6] n(1) [of 8] n(1) [of 9] n(2) [of 0] n(3) [of 7]
        by (cases "ws = []") (auto simp: safe_embedding_failure_arguments_def ab)
      show "safe_identity_lock_arguments a = safe_identity_lock_arguments b"
        using n(5,6) n(4) [of 0] by (cases "ws = []") (auto simp: safe_identity_lock_arguments_def ab)
    qed
  next
    case False
    with assms safe_arguments_alike [OF assms] show ?thesis
      by (cases a; cases b)
        (auto simp: safe_embedding_failure_arguments_def safe_identity_lock_arguments_def)
  qed
  then show "safe_embedding_failure_arguments a = safe_embedding_failure_arguments b"
    "safe_identity_lock_arguments a = safe_identity_lock_arguments b" by blast+
qed

lemma args_for_alike: "args_alike a b \<Longrightarrow> args_for t a = args_for t b"
  by (simp add: args_for_def special_arguments_alike safe_arguments_alike)

lemma suffix_alike:
  "map_option log_error_class (record_error r) = map_option log_error_class (record_error s) \<Longrightarrow> suffix_of r = suffix_of s"
  by (cases "record_error r"; cases "record_error s") (auto simp: suffix_of_def)

text \<open>The parts of a record that the rest of the filter leaves to be read.\<close>

lemma record_error_update [simp]:
  "record_error (r\<lparr>lr_msg := m\<rparr>) = record_error r" "record_error (r\<lparr>lr_args := a\<rparr>) = record_error r"
  by (simp_all add: record_error_def)

lemma scrub_rest_fields [simp]:
  "lr_name (scrub_rest r) = lr_name r" "lr_source (scrub_rest r) = lr_source r" "lr_levelno (scrub_rest r) = lr_levelno r"
  "lr_msg (scrub_rest r) = lr_msg r" "lr_args (scrub_rest r) = lr_args r"
  "lr_exc_text (scrub_rest r) = None" "lr_stack_info (scrub_rest r) = None" "lr_scrubbed (scrub_rest r)"
  "lr_exc_info (scrub_rest r) = (case map_option log_error_class (record_error r) of
      None \<Rightarrow> lr_exc_info r | Some c \<Rightarrow> Exc_tuple (Some ''Exception'') (''cashew error '' @ c))"
  by (simp_all add: scrub_rest_def Let_def split: option.split)

lemma scrub_rest_alike:
  assumes "map_option log_error_class (record_error r) = map_option log_error_class (record_error s)"
    and "record_error r = None \<Longrightarrow> lr_exc_info r = lr_exc_info s"
    and "lr_name r = lr_name s" "lr_source r = lr_source s" "lr_levelno r = lr_levelno s"
  shows "scrub_rest (r\<lparr>lr_msg := m, lr_args := a\<rparr>) = scrub_rest (s\<lparr>lr_msg := m, lr_args := a\<rparr>)"
proof (rule log_record.equality)
  show "lr_exc_info (scrub_rest (r\<lparr>lr_msg := m, lr_args := a\<rparr>)) = lr_exc_info (scrub_rest (s\<lparr>lr_msg := m, lr_args := a\<rparr>))"
    using assms(1,2) by (cases "record_error r"; cases "record_error s") simp_all
qed (use assms in simp_all)

lemma adapter_alike: "records_alike dirs r s \<Longrightarrow> is_adapter_source dirs r = is_adapter_source dirs s"
  by (simp add: records_alike_def is_adapter_source_def)

lemma scrub_alike:
  assumes "records_alike dirs r s" "snd (scrub dirs r) = return ()"
  shows "scrub dirs s = scrub dirs r"
proof (cases "is_adapter_source dirs r")
  case (Inl e)
  with assms show ?thesis by (simp add: scrub_def)
next
  case (Inr b)
  note al = assms(1) [unfolded records_alike_def]
  have suf: "suffix_of r = suffix_of s" using al by (intro suffix_alike) simp
  have rest: "scrub_rest (s\<lparr>lr_msg := m, lr_args := a\<rparr>) = scrub_rest (r\<lparr>lr_msg := m, lr_args := a\<rparr>)" for m a
    by (rule scrub_rest_alike [symmetric]) (use al in auto)
  show ?thesis
  proof (cases b)
    case True
    with al Inr have "template_of r = template_of s" "args_for (template_of s) (lr_args r) = args_for (template_of s) (lr_args s)"
      by (simp_all add: template_of_def args_for_alike)
    with True Inr adapter_alike [OF assms(1)] assms(2) suf rest show ?thesis
      by (auto simp: scrub_def Let_def split: sum.split)
  next
    case False
    with Inr adapter_alike [OF assms(1)] suf rest show ?thesis
      by (simp add: scrub_def)
  qed
qed

lemma scrubbed_scrub: "snd (scrub dirs r) = return () \<Longrightarrow> lr_scrubbed (fst (scrub dirs r))"
  by (auto simp: scrub_def scrub_rest_def Let_def split: sum.splits bool.splits)


definition sample_dirs :: source_dirs where
  "sample_dirs = \<lparr>sd_package = [''cashew''], sd_upstream = None\<rparr>"

definition sample_record :: "string \<Rightarrow> log_record" where
  "sample_record secret_text = \<lparr>lr_name = ''plugins.memory.cashew'', lr_source = return [''cashew'', ''x.py''],
     lr_levelno = 30, lr_msg = PStr ''sync %s after %d'', lr_args = Args_tuple [PStr secret_text, PInt 3],
     lr_exc_info = Exc_tuple (Some ''ValueError'') secret_text, lr_exc_text = Some secret_text,
     lr_stack_info = None, lr_scrubbed = False\<rparr>"


end
