(* ===== verification/ScrubBoundary.thy ===== *)
theory ScrubBoundary
  imports Scrub
begin

text \<open>
  The boundary that providers install on the loggers of the package, of the engine and on the
  root (\<^verbatim>\<open>log_filter.py\<close>). Loggers and handlers are those of the standard library: a record
  goes to the handlers of its logger and of the ancestors, a handler runs its filters on
  the shared record and then emits it.
\<close>

section \<open>Loggers and handlers\<close>

text \<open>
  A filter of a handler is one of the host, or a scrubber with its \<^verbatim>\<open>source_scoped\<close> flag; a
  handler belongs to the host, or is the boundary of a logger. \<open>lg_fresh\<close> numbers new objects.
\<close>

datatype log_filter = Host_filter nat | Scrubber nat bool

datatype handler_kind = Host_handler | Boundary string

record logging =
  lg_handlers :: "string \<Rightarrow> nat list"
  lg_propagate :: "string \<Rightarrow> bool"
  lg_filters :: "nat \<Rightarrow> log_filter list"
  lg_kind :: "nat \<Rightarrow> handler_kind"
  lg_level :: "nat \<Rightarrow> int"
  lg_fresh :: nat
  lg_refs :: nat
  lg_installs :: "(string \<times> bool \<times> (nat \<times> log_filter) list \<times> nat) list"

definition scrub_loggers :: "(string \<times> bool) list" where
  "scrub_loggers = [(''plugins.memory.cashew'', False), (''core'', True), (''root'', True)]"

definition add_filter :: "nat \<Rightarrow> log_filter \<Rightarrow> logging \<Rightarrow> logging" where
  "add_filter h f l = l\<lparr>lg_filters := (lg_filters l)(h := lg_filters l h @ [f])\<rparr>"

text \<open>The loop over the handlers a logger has.\<close>

fun install_filters :: "bool \<Rightarrow> nat list \<Rightarrow> logging \<Rightarrow> logging \<times> (nat \<times> log_filter) list" where
  "install_filters scoped [] l = (l, [])"
| "install_filters scoped (h # hs) l =
     (let f = Scrubber (lg_fresh l) scoped;
          (l', fs) = install_filters scoped hs (add_filter h f (l\<lparr>lg_fresh := Suc (lg_fresh l)\<rparr>))
      in (l', (h, f) # fs))"

definition install_boundary :: "string \<times> bool \<Rightarrow> logging \<Rightarrow> logging" where
  "install_boundary ls l =
     (case ls of (name, scoped) \<Rightarrow>
        let (l, installed) = install_filters scoped (lg_handlers l name) l;
            b = lg_fresh l;
            l = l\<lparr>lg_fresh := Suc (Suc b), lg_filters := (lg_filters l)(b := [Scrubber (Suc b) scoped]),
                  lg_kind := (lg_kind l)(b := Boundary name), lg_level := (lg_level l)(b := 0),
                  lg_handlers := (lg_handlers l)(name := lg_handlers l name @ [b])\<rparr>
        in l\<lparr>lg_installs := lg_installs l @ [(name, lg_propagate l name, installed, b)],
             lg_propagate := (lg_propagate l)(name := False)\<rparr>)"

definition acquire_provider_scrub_filters :: "logging \<Rightarrow> logging" where
  "acquire_provider_scrub_filters l =
     (let l = l\<lparr>lg_refs := Suc (lg_refs l)\<rparr>
      in if lg_refs l \<noteq> 1 then l else fold install_boundary scrub_loggers l)"

definition remove_filter :: "nat \<times> log_filter \<Rightarrow> logging \<Rightarrow> logging" where
  "remove_filter hf l = (case hf of (h, f) \<Rightarrow> l\<lparr>lg_filters := (lg_filters l)(h := remove1 f (lg_filters l h))\<rparr>)"

definition remove_boundary :: "string \<times> bool \<times> (nat \<times> log_filter) list \<times> nat \<Rightarrow> logging \<Rightarrow> logging" where
  "remove_boundary install l =
     (case install of (name, original, installed, b) \<Rightarrow>
        let l = l\<lparr>lg_handlers := (lg_handlers l)(name := remove1 b (lg_handlers l name))\<rparr>;
            l = fold remove_filter installed l
        in if lg_propagate l name = False then l\<lparr>lg_propagate := (lg_propagate l)(name := original)\<rparr> else l)"

definition release_provider_scrub_filters :: "logging \<Rightarrow> logging" where
  "release_provider_scrub_filters l =
     (if lg_refs l = 0 then l
      else let l = l\<lparr>lg_refs := lg_refs l - 1\<rparr>
           in if lg_refs l \<noteq> 0 then l
              else (fold remove_boundary (rev (lg_installs l)) l)\<lparr>lg_installs := []\<rparr>)"

section \<open>Delivery\<close>

text \<open>
  Filters of the host decide by \<open>dv_accepts\<close> and leave the record as it is; \<open>dv_last_resort\<close> is
  the standard library's handler for records nobody handles. A delivery is the shared
  record, what host handlers emitted, and whether something was raised.
\<close>

record delivery_env =
  dv_dirs :: source_dirs
  dv_accepts :: "nat \<Rightarrow> log_record \<Rightarrow> bool"
  dv_last_resort :: "nat option"

type_synonym delivery = "log_record \<times> (nat \<times> log_record) list \<times> unit res"

fun run_filters :: "delivery_env \<Rightarrow> log_filter list \<Rightarrow> log_record \<Rightarrow> log_record \<times> bool res" where
  "run_filters env [] r = (r, return True)"
| "run_filters env (Host_filter i # fs) r =
     (if dv_accepts env i r then run_filters env fs r else (r, return False))"
| "run_filters env (Scrubber i scoped # fs) r =
     (case scrub_filter (dv_dirs env) scoped r of
        (r', Inl e) \<Rightarrow> (r', Inl e)
      | (r', Inr _) \<Rightarrow> run_filters env fs r')"

definition then_deliver :: "delivery \<Rightarrow> (log_record \<Rightarrow> delivery) \<Rightarrow> delivery" where
  "then_deliver d f =
     (case d of
        (r, out, Inl e) \<Rightarrow> (r, out, Inl e)
      | (r, out, Inr _) \<Rightarrow> (case f r of (r', out', x) \<Rightarrow> (r', out @ out', x)))"

text \<open>\<^verbatim>\<open>if record.levelno >= handler.level: handler.handle(record)\<close>.\<close>

definition handle_record :: "delivery_env \<Rightarrow> logging \<Rightarrow> (log_record \<Rightarrow> delivery) \<Rightarrow> nat \<Rightarrow> log_record \<Rightarrow> delivery" where
  "handle_record env l forward h r =
     (if lr_levelno r < lg_level l h then (r, [], return ())
      else case run_filters env (lg_filters l h) r of
        (r, Inl e) \<Rightarrow> (r, [], Inl e)
      | (r, Inr False) \<Rightarrow> (r, [], return ())
      | (r, Inr True) \<Rightarrow> (case lg_kind l h of Host_handler \<Rightarrow> (r, [(h, r)], return ()) | Boundary _ \<Rightarrow> forward r))"

fun handle_all :: "(nat \<Rightarrow> log_record \<Rightarrow> delivery) \<Rightarrow> nat list \<Rightarrow> log_record \<Rightarrow> delivery" where
  "handle_all f [] r = (r, [], return ())"
| "handle_all f (h # hs) r = then_deliver (f h r) (handle_all f hs)"

text \<open>The loggers a walk from the first of \<open>chain\<close> towards the root visits.\<close>

fun walk :: "logging \<Rightarrow> string list \<Rightarrow> string list" where
  "walk l [] = []"
| "walk l (n # ns) = n # (if lg_propagate l n then walk l ns else [])"

text \<open>
  The walk with the last resort, given the handling of the chain: \<^verbatim>\<open>Logger.callHandlers\<close>, and
  \<^verbatim>\<open>emit\<close> of a boundary for the chain of its logger's ancestors.
\<close>

definition boundary_emit :: "delivery_env \<Rightarrow> logging \<Rightarrow> string list \<Rightarrow> (log_record \<Rightarrow> delivery) \<Rightarrow> log_record \<Rightarrow> delivery" where
  "boundary_emit env l chain handle_chain r =
     (if chain = [] then (r, [], return ())
      else if \<exists>n \<in> set (walk l chain). lg_handlers l n \<noteq> [] then handle_chain r
      else case dv_last_resort env of
        None \<Rightarrow> (r, [], return ())
      | Some h \<Rightarrow> if lr_levelno r < lg_level l h then (r, [], return ()) else (r, [(h, r)], return ()))"

primrec call_handlers :: "delivery_env \<Rightarrow> logging \<Rightarrow> string list \<Rightarrow> log_record \<Rightarrow> delivery" where
  "call_handlers env l [] = (\<lambda>r. (r, [], return ()))"
| "call_handlers env l (name # chain) = (\<lambda>r.
     then_deliver
       (handle_all (handle_record env l (boundary_emit env l chain (call_handlers env l chain))) (lg_handlers l name) r)
       (if lg_propagate l name then call_handlers env l chain else (\<lambda>r. (r, [], return ()))))"

definition log_call :: "delivery_env \<Rightarrow> logging \<Rightarrow> string list \<Rightarrow> log_record \<Rightarrow> delivery" where
  "log_call env l chain = boundary_emit env l chain (call_handlers env l chain)"

section \<open>What reaches the host\<close>

definition emitted :: "delivery \<Rightarrow> log_record set" where
  "emitted d = snd ` set (fst (snd d))"

lemma emitted_none: "emitted (r, [], x) = {}"
  by (simp add: emitted_def)

abbreviation went_well :: "delivery \<Rightarrow> bool" where
  "went_well d \<equiv> snd (snd d) = return ()"

text \<open>A delivery that leaves a scrubbed record as it is and emits only that record.\<close>

definition keeps :: "(log_record \<Rightarrow> delivery) \<Rightarrow> bool" where
  "keeps f \<longleftrightarrow> (\<forall>r. lr_scrubbed r \<longrightarrow> fst (f r) = r \<and> emitted (f r) \<subseteq> {r})"

lemma keepsD: "keeps f \<Longrightarrow> lr_scrubbed r \<Longrightarrow> fst (f r) = r \<and> emitted (f r) \<subseteq> {r}"
  by (simp add: keeps_def)

lemma keeps_none: "keeps (\<lambda>r. (r, [], x))"
  by (simp add: keeps_def emitted_def)

lemma then_deliver_fst: "fst (then_deliver d f) = (if went_well d then fst (f (fst d)) else fst d)"
  by (auto simp: then_deliver_def split: prod.split sum.split)

lemma then_deliver_emitted:
  "emitted (then_deliver d f) = emitted d \<union> (if went_well d then emitted (f (fst d)) else {})"
  by (auto simp: then_deliver_def emitted_def image_iff split: prod.split sum.split)

lemma keeps_then: "keeps f \<Longrightarrow> keeps g \<Longrightarrow> keeps (\<lambda>r. then_deliver (f r) g)"
  by (auto simp: keeps_def then_deliver_fst then_deliver_emitted)

lemma run_filters_scrubbed: "lr_scrubbed r \<Longrightarrow> fst (run_filters env fs r) = r"
  by (induction env fs r rule: run_filters.induct) (auto simp: scrub_filter_def)

lemma keeps_handle: "keeps forward \<Longrightarrow> keeps (handle_record env l forward h)"
  unfolding keeps_def
proof (intro allI impI)
  fix r :: log_record
  assume f: "\<forall>r. lr_scrubbed r \<longrightarrow> fst (forward r) = r \<and> emitted (forward r) \<subseteq> {r}" and r: "lr_scrubbed r"
  obtain x where "run_filters env (lg_filters l h) r = (r, x)"
    using run_filters_scrubbed [OF r, of env "lg_filters l h"] by (cases "run_filters env (lg_filters l h) r") auto
  with f r show "fst (handle_record env l forward h r) = r \<and> emitted (handle_record env l forward h r) \<subseteq> {r}"
    by (auto simp: handle_record_def emitted_def split: sum.split bool.split handler_kind.split)
qed

lemma keeps_all: "(\<And>h. keeps (f h)) \<Longrightarrow> keeps (handle_all f hs)"
proof (induction hs)
  case (Cons h hs)
  then show ?case using keeps_then [of "f h" "handle_all f hs"] by simp
qed (simp add: keeps_def emitted_def)

lemma keeps_emit: "keeps f \<Longrightarrow> keeps (boundary_emit env l chain f)"
  by (auto simp: keeps_def boundary_emit_def emitted_def split: option.split)

lemma keeps_call: "keeps (call_handlers env l chain)"
proof (induction chain)
  case (Cons name chain)
  then have "keeps (handle_all (handle_record env l (boundary_emit env l chain (call_handlers env l chain))) (lg_handlers l name))"
    by (intro keeps_all keeps_handle keeps_emit)
  moreover have "keeps (if lg_propagate l name then call_handlers env l chain else (\<lambda>r. (r, [], return ())))"
    using Cons keeps_none by simp
  ultimately show ?case using keeps_then by simp
qed (simp add: keeps_def emitted_def)

text \<open>A record that a scrubber of the given scope takes, and has not yet taken.\<close>

definition in_scope :: "delivery_env \<Rightarrow> bool \<Rightarrow> log_record \<Rightarrow> bool" where
  "in_scope env scoped r \<longleftrightarrow> \<not> scoped \<or> is_owned_source (dv_dirs env) r = return True"

lemma scrub_source [simp]: "lr_source (fst (scrub dirs r)) = lr_source r" "lr_levelno (fst (scrub dirs r)) = lr_levelno r"
  by (auto simp: scrub_def Let_def split: sum.split bool.split)

lemma scrub_filter_source [simp]:
  "lr_source (fst (scrub_filter dirs sc r)) = lr_source r" "lr_levelno (fst (scrub_filter dirs sc r)) = lr_levelno r"
  by (auto simp: scrub_filter_def split: sum.split bool.split)

lemma in_scope_filter [simp]: "in_scope env sc (fst (scrub_filter dirs sc' r)) = in_scope env sc r"
  by (simp add: in_scope_def is_owned_source_def)

lemma scrub_filter_scrubs:
  assumes "in_scope env sc r" "snd (scrub_filter (dv_dirs env) sc r) = return ()"
  shows "lr_scrubbed (fst (scrub_filter (dv_dirs env) sc r))"
  using assms scrubbed_scrub [of "dv_dirs env" r] by (auto simp: scrub_filter_def in_scope_def split: if_splits)

lemma run_filters_source:
  "lr_levelno (fst (run_filters env fs r)) = lr_levelno r \<and> in_scope env sc (fst (run_filters env fs r)) = in_scope env sc r"
proof (induction env fs r rule: run_filters.induct)
  case (3 env i scoped fs r)
  obtain r' x where s: "scrub_filter (dv_dirs env) scoped r = (r', x)" by (cases "scrub_filter (dv_dirs env) scoped r")
  with scrub_filter_source(2) [of "dv_dirs env" scoped r] in_scope_filter [of env sc "dv_dirs env" scoped r]
  have "lr_levelno r' = lr_levelno r" "in_scope env sc r' = in_scope env sc r" by simp_all
  with 3 s show ?case by (cases x) auto
qed simp_all

lemma run_filters_scrubs:
  assumes "Scrubber i sc \<in> set fs" "in_scope env sc r" "snd (run_filters env fs r) = return True"
  shows "lr_scrubbed (fst (run_filters env fs r))"
  using assms
proof (induction env fs r rule: run_filters.induct)
  case (2 env j fs r)
  then show ?case by (auto split: if_splits)
next
  case (3 env j scoped fs r)
  obtain r' x where s: "scrub_filter (dv_dirs env) scoped r = (r', x)" by (cases "scrub_filter (dv_dirs env) scoped r")
  with 3 have x: "x = return ()" by (cases x) auto
  have sc: "in_scope env sc r'" using 3(3) in_scope_filter [of env sc "dv_dirs env" scoped r] s by simp
  show ?case
  proof (cases "Scrubber i sc \<in> set fs")
    case True
    with 3 s x sc show ?thesis by auto
  next
    case False
    with 3(2) have "scoped = sc" by auto
    with scrub_filter_scrubs [OF 3(3)] s x have "lr_scrubbed r'" by auto
    with run_filters_scrubbed s x show ?thesis by auto
  qed
qed simp

text \<open>
  A logger that is guarded: the handlers before its boundary have a scrubber, the boundary takes
  every level and scrubs first, and nothing propagates past it.
\<close>

definition guarded :: "logging \<Rightarrow> string \<Rightarrow> bool \<Rightarrow> bool" where
  "guarded l name sc \<longleftrightarrow>
     (\<exists>pre b post. lg_handlers l name = pre @ b # post \<and>
        (\<forall>h \<in> set pre. lg_kind l h = Host_handler \<and> (\<exists>i. Scrubber i sc \<in> set (lg_filters l h))) \<and>
        lg_kind l b = Boundary name \<and> lg_level l b = 0 \<and> (\<exists>i. lg_filters l b = [Scrubber i sc])) \<and>
     \<not> lg_propagate l name"

lemma guardedI:
  "lg_handlers l name = pre @ b # post \<Longrightarrow>
   \<forall>h \<in> set pre. lg_kind l h = Host_handler \<and> (\<exists>i. Scrubber i sc \<in> set (lg_filters l h)) \<Longrightarrow>
   lg_kind l b = Boundary name \<Longrightarrow> lg_level l b = 0 \<Longrightarrow> lg_filters l b = [Scrubber i sc] \<Longrightarrow> \<not> lg_propagate l name \<Longrightarrow>
   guarded l name sc"
  unfolding guarded_def by blast

text \<open>What is emitted is scrubbed, and what comes out is scrubbed or the record it was.\<close>

definition safe_delivery :: "delivery_env \<Rightarrow> bool \<Rightarrow> int \<Rightarrow> delivery \<Rightarrow> bool" where
  "safe_delivery env sc lev d \<longleftrightarrow>
     Ball (emitted d) lr_scrubbed \<and> in_scope env sc (fst d) \<and> lr_levelno (fst d) = lev"

lemma handle_host_safe:
  assumes "lg_kind l h = Host_handler" "Scrubber i sc \<in> set (lg_filters l h)" "in_scope env sc r"
  shows "safe_delivery env sc (lr_levelno r) (handle_record env l f h r)"
proof -
  obtain r' x where s: "run_filters env (lg_filters l h) r = (r', x)" by (cases "run_filters env (lg_filters l h) r")
  with run_filters_source [of env "lg_filters l h" r sc] assms(3)
  have "in_scope env sc r'" "lr_levelno r' = lr_levelno r" by simp_all
  moreover have "lr_scrubbed r'" if "x = return True"
    using run_filters_scrubs [OF assms(2,3)] s that by simp
  ultimately show ?thesis
    using s assms(1,3) by (auto simp: safe_delivery_def handle_record_def emitted_def split: sum.split bool.split)
qed

lemma handle_hosts_safe:
  assumes "\<forall>h \<in> set pre. lg_kind l h = Host_handler \<and> (\<exists>i. Scrubber i sc \<in> set (lg_filters l h))" "in_scope env sc r"
  shows "safe_delivery env sc (lr_levelno r) (handle_all (handle_record env l f) pre r)"
  using assms
proof (induction pre arbitrary: r)
  case (Cons h hs)
  then have one: "safe_delivery env sc (lr_levelno r) (handle_record env l f h r)"
    using handle_host_safe by auto
  let ?r = "fst (handle_record env l f h r)"
  have "safe_delivery env sc (lr_levelno ?r) (handle_all (handle_record env l f) hs ?r)"
    by (rule Cons.IH) (use Cons.prems one in \<open>simp_all add: safe_delivery_def\<close>)
  with one show ?case
    by (auto simp: safe_delivery_def then_deliver_fst then_deliver_emitted)
qed (simp add: safe_delivery_def emitted_def)

lemma handle_boundary_safe:
  assumes "lg_kind l b = Boundary name" "lg_level l b = 0" "lg_filters l b = [Scrubber i sc]"
    and "in_scope env sc r" "0 \<le> lr_levelno r" "keeps f"
  shows "Ball (emitted (handle_record env l f b r)) lr_scrubbed \<and>
    (went_well (handle_record env l f b r) \<longrightarrow> lr_scrubbed (fst (handle_record env l f b r)))"
proof -
  obtain r' x where s: "scrub_filter (dv_dirs env) sc r = (r', x)" by (cases "scrub_filter (dv_dirs env) sc r")
  show ?thesis
  proof (cases x)
    case (Inl e)
    with s assms show ?thesis by (simp add: handle_record_def emitted_def)
  next
    case (Inr u)
    with scrub_filter_scrubs [OF assms(4)] s have "lr_scrubbed r'" by simp
    with keepsD [OF assms(6) this] s Inr assms show ?thesis by (auto simp: handle_record_def)
  qed
qed

lemma handle_all_append: "handle_all f (xs @ ys) r = then_deliver (handle_all f xs r) (handle_all f ys)"
proof (induction xs arbitrary: r)
  case (Cons x xs)
  then show ?case by (auto simp: then_deliver_def split: prod.split sum.split)
qed (simp add: then_deliver_def)

lemma guarded_safe:
  assumes g: "guarded l name sc" and r: "in_scope env sc r" "0 \<le> lr_levelno r"
  shows "Ball (emitted (call_handlers env l (name # chain) r)) lr_scrubbed"
proof -
  let ?f = "boundary_emit env l chain (call_handlers env l chain)"
  let ?h = "handle_record env l ?f"
  obtain pre b post i where hs: "lg_handlers l name = pre @ b # post"
    and pre: "\<forall>h \<in> set pre. lg_kind l h = Host_handler \<and> (\<exists>i. Scrubber i sc \<in> set (lg_filters l h))"
    and b: "lg_kind l b = Boundary name" "lg_level l b = 0" "lg_filters l b = [Scrubber i sc]"
    and p: "\<not> lg_propagate l name"
    using g by (auto simp: guarded_def)
  have k: "keeps ?f" by (intro keeps_emit keeps_call)
  note first = handle_hosts_safe [OF pre r(1), of ?f]
  let ?r = "fst (handle_all ?h pre r)"
  have "in_scope env sc ?r" "0 \<le> lr_levelno ?r" using first r(2) by (simp_all add: safe_delivery_def)
  note second = handle_boundary_safe [OF b this k]
  have third: "keeps (handle_all ?h post)" by (intro keeps_all keeps_handle k)
  have "Ball (emitted (handle_all ?h (lg_handlers l name) r)) lr_scrubbed"
    using first second keepsD [OF third]
    by (auto simp: hs handle_all_append then_deliver_emitted safe_delivery_def subset_iff)
  then show ?thesis using p by (simp add: then_deliver_emitted emitted_none)
qed

lemma child_chain:
  assumes "\<forall>c \<in> set cs. lg_handlers l c = [] \<and> lg_propagate l c"
  shows "call_handlers env l (cs @ chain) r = call_handlers env l chain r"
  using assms by (induction cs) (auto simp: then_deliver_def split: prod.split)

section \<open>Acquiring\<close>

text \<open>
  Well-formed: all objects are older than the next fresh number. No boundary: all handlers are
  the host's.
\<close>

definition logging_wf :: "logging \<Rightarrow> bool" where
  "logging_wf l \<longleftrightarrow> (\<forall>n. \<forall>h \<in> set (lg_handlers l n). h < lg_fresh l) \<and>
     (\<forall>h i sc. Scrubber i sc \<in> set (lg_filters l h) \<longrightarrow> i < lg_fresh l)"

definition host_only :: "logging \<Rightarrow> string \<Rightarrow> bool" where
  "host_only l name \<longleftrightarrow> (\<forall>h \<in> set (lg_handlers l name). lg_kind l h = Host_handler)"

text \<open>What installing filters leaves and what it adds.\<close>

lemma install_filters_props:
  assumes "install_filters sc hs l = (l', fs)"
  shows "lg_handlers l' = lg_handlers l \<and> lg_propagate l' = lg_propagate l \<and> lg_kind l' = lg_kind l \<and>
    lg_level l' = lg_level l \<and> lg_refs l' = lg_refs l \<and> lg_installs l' = lg_installs l \<and> lg_fresh l \<le> lg_fresh l' \<and>
    (\<forall>h. set (lg_filters l h) \<subseteq> set (lg_filters l' h)) \<and>
    (\<forall>h. h \<notin> set hs \<longrightarrow> lg_filters l' h = lg_filters l h) \<and>
    (\<forall>h \<in> set hs. \<exists>i. Scrubber i sc \<in> set (lg_filters l' h)) \<and>
    (logging_wf l \<longrightarrow> logging_wf l') \<and> fst ` set fs \<subseteq> set hs"
  using assms
proof (induction sc hs l arbitrary: l' fs rule: install_filters.induct)
  case (2 sc h hs l)
  let ?l = "add_filter h (Scrubber (lg_fresh l) sc) (l\<lparr>lg_fresh := Suc (lg_fresh l)\<rparr>)"
  from 2(2) obtain fs' where ins: "install_filters sc hs ?l = (l', fs')" and fs: "fs = (h, Scrubber (lg_fresh l) sc) # fs'"
    by (auto simp: Let_def split: prod.splits)
  have wf: "logging_wf ?l" if "logging_wf l"
    using that by (fastforce simp: logging_wf_def add_filter_def less_Suc_eq)
  note ih = 2(1) [OF refl ins]
  have step: "set (lg_filters l k) \<subseteq> set (lg_filters ?l k)" "k \<noteq> h \<Longrightarrow> lg_filters ?l k = lg_filters l k" for k
    by (auto simp: add_filter_def)
  have keep: "lg_handlers ?l = lg_handlers l" "lg_propagate ?l = lg_propagate l" "lg_kind ?l = lg_kind l"
      "lg_level ?l = lg_level l" "lg_refs ?l = lg_refs l" "lg_installs ?l = lg_installs l" "lg_fresh ?l = Suc (lg_fresh l)"
    by (simp_all add: add_filter_def)
  have "Scrubber (lg_fresh l) sc \<in> set (lg_filters ?l h)" by (simp add: add_filter_def)
  with ih have "\<forall>k \<in> set (h # hs). \<exists>i. Scrubber i sc \<in> set (lg_filters l' k)" by auto
  moreover have "\<forall>k. set (lg_filters l k) \<subseteq> set (lg_filters l' k)" using ih step(1) by (meson order_trans)
  moreover have "\<forall>k. k \<notin> set (h # hs) \<longrightarrow> lg_filters l' k = lg_filters l k" using ih step(2) by simp
  moreover have "fst ` set fs \<subseteq> set (h # hs)" using ih fs by auto
  ultimately show ?case
    using ih wf keep by simp
qed simp

lemma install_boundary_props:
  assumes wf: "logging_wf l" and host: "host_only l name" and l'_def: "l' = install_boundary (name, sc) l"
  shows "guarded l' name sc \<and> logging_wf l' \<and> lg_refs l' = lg_refs l \<and>
    (\<forall>n. n \<noteq> name \<longrightarrow> lg_handlers l' n = lg_handlers l n \<and> lg_propagate l' n = lg_propagate l n) \<and>
    (\<forall>h < lg_fresh l. lg_kind l' h = lg_kind l h \<and> lg_level l' h = lg_level l h \<and>
       set (lg_filters l h) \<subseteq> set (lg_filters l' h) \<and> (h \<notin> set (lg_handlers l name) \<longrightarrow> lg_filters l' h = lg_filters l h)) \<and>
    lg_fresh l \<le> lg_fresh l'"
proof -
  obtain l1 fs where ins: "install_filters sc (lg_handlers l name) l = (l1, fs)"
    by (cases "install_filters sc (lg_handlers l name) l")
  note p = install_filters_props [OF ins]
  have lt: "h < lg_fresh l1" if "h \<in> set (lg_handlers l n)" for h n
    using that wf p by (fastforce simp: logging_wf_def)
  have l': "l' = (let b = lg_fresh l1; l = l1\<lparr>lg_fresh := Suc (Suc b), lg_filters := (lg_filters l1)(b := [Scrubber (Suc b) sc]),
                  lg_kind := (lg_kind l1)(b := Boundary name), lg_level := (lg_level l1)(b := 0),
                  lg_handlers := (lg_handlers l1)(name := lg_handlers l1 name @ [b])\<rparr>
        in l\<lparr>lg_installs := lg_installs l @ [(name, lg_propagate l name, fs, b)],
             lg_propagate := (lg_propagate l)(name := False)\<rparr>)"
    by (simp add: l'_def install_boundary_def ins Let_def)
  have "lg_handlers l' name = lg_handlers l name @ [lg_fresh l1]" "lg_kind l' (lg_fresh l1) = Boundary name"
      "lg_level l' (lg_fresh l1) = 0" "lg_filters l' (lg_fresh l1) = [Scrubber (Suc (lg_fresh l1)) sc]" "\<not> lg_propagate l' name"
    using p by (simp_all add: l' Let_def)
  moreover have "\<forall>h \<in> set (lg_handlers l name). lg_kind l' h = Host_handler \<and> (\<exists>i. Scrubber i sc \<in> set (lg_filters l' h))"
    using p host lt [of _ name] by (auto simp: l' Let_def host_only_def)
  ultimately have "guarded l' name sc" by (intro guardedI)
  moreover have "logging_wf l'"
    using p wf by (fastforce simp: l' Let_def logging_wf_def less_Suc_eq)
  moreover have "h \<noteq> lg_fresh l1" if "h < lg_fresh l" for h using that p by simp
  ultimately show ?thesis
    using p by (simp add: l' Let_def)
qed

lemma guarded_later:
  assumes g: "guarded l n sc" and wf: "logging_wf l" and host: "host_only l name" and ne: "n \<noteq> name"
  shows "guarded (install_boundary (name, sc') l) n sc"
proof -
  note p = install_boundary_props [OF wf host refl, of sc']
  obtain pre b post i where hs: "lg_handlers l n = pre @ b # post"
    and pre: "\<forall>h \<in> set pre. lg_kind l h = Host_handler \<and> (\<exists>i. Scrubber i sc \<in> set (lg_filters l h))"
    and b: "lg_kind l b = Boundary n" "lg_level l b = 0" "lg_filters l b = [Scrubber i sc]"
    and pr: "\<not> lg_propagate l n"
    using g by (auto simp: guarded_def)
  have lt: "h < lg_fresh l" if "h \<in> set (pre @ b # post)" for h
    using wf that by (auto simp: logging_wf_def hs [symmetric])
  have "b \<notin> set (lg_handlers l name)" using host b(1) by (auto simp: host_only_def)
  then have "lg_filters (install_boundary (name, sc') l) b = [Scrubber i sc]"
    using p lt [of b] b by simp
  moreover have "\<forall>h \<in> set pre. lg_kind (install_boundary (name, sc') l) h = Host_handler \<and>
      (\<exists>i. Scrubber i sc \<in> set (lg_filters (install_boundary (name, sc') l) h))"
    using pre p lt by (metis Un_iff set_append subsetD)
  moreover have "lg_handlers (install_boundary (name, sc') l) n = pre @ b # post"
      "lg_kind (install_boundary (name, sc') l) b = Boundary n" "lg_level (install_boundary (name, sc') l) b = 0"
      "\<not> lg_propagate (install_boundary (name, sc') l) n"
    using p lt [of b] b hs pr ne by simp_all
  ultimately show ?thesis by (intro guardedI)
qed

lemma host_only_later:
  "logging_wf l \<Longrightarrow> host_only l name \<Longrightarrow> host_only l n \<Longrightarrow> n \<noteq> name \<Longrightarrow> host_only (install_boundary (name, sc) l) n"
  using install_boundary_props [of l name _ sc, OF _ _ refl] by (auto simp: host_only_def logging_wf_def)

lemma acquired_guarded:
  assumes wf: "logging_wf l" and refs: "lg_refs l = 0"
    and host: "host_only l ''plugins.memory.cashew''" "host_only l ''core''" "host_only l ''root''"
    and n: "(name, sc) \<in> set scrub_loggers"
  shows "guarded (acquire_provider_scrub_filters l) name sc"
proof -
  let ?c = "''plugins.memory.cashew''"
  define l0 where "l0 = l\<lparr>lg_refs := 1\<rparr>"
  define l1 where "l1 = install_boundary (?c, False) l0"
  define l2 where "l2 = install_boundary (''core'', True) l1"
  define l3 where "l3 = install_boundary (''root'', True) l2"
  have acq: "acquire_provider_scrub_filters l = l3"
    by (simp add: acquire_provider_scrub_filters_def scrub_loggers_def refs l0_def l1_def l2_def l3_def)
  have h0: "logging_wf l0" "host_only l0 ?c" "host_only l0 ''core''" "host_only l0 ''root''"
    using wf host by (simp_all add: l0_def logging_wf_def host_only_def)
  note p1 = install_boundary_props [OF h0(1,2) l1_def]
  have h1: "logging_wf l1" "host_only l1 ''core''" "host_only l1 ''root''"
    using p1 host_only_later [OF h0(1,2)] h0(3,4) by (simp_all add: l1_def)
  note p2 = install_boundary_props [OF h1(1,2) l2_def]
  have h2: "logging_wf l2" "host_only l2 ''root''"
    using p2 host_only_later [OF h1(1,2)] h1(3) by (simp_all add: l2_def)
  note p3 = install_boundary_props [OF h2 l3_def]
  have "guarded l3 ''core'' True"
    using p2 guarded_later [OF _ h2, of "''core''" True True] by (simp add: l3_def)
  moreover have "guarded l2 ?c False"
    using p1 guarded_later [OF _ h1(1,2), of ?c False True] by (simp add: l2_def)
  then have "guarded l3 ?c False"
    using guarded_later [OF _ h2, of ?c False True] by (simp add: l3_def)
  ultimately show ?thesis
    using n p3 by (auto simp: acq scrub_loggers_def)
qed

text \<open>Handlers the host adds later come after the boundary.\<close>

lemma guarded_host_adds:
  assumes "guarded l name sc"
  shows "guarded (l\<lparr>lg_handlers := (\<lambda>n. lg_handlers l n @ added n)\<rparr>) name sc"
proof -
  obtain pre b post i where "lg_handlers l name = pre @ b # post"
    and b: "\<forall>h \<in> set pre. lg_kind l h = Host_handler \<and> (\<exists>i. Scrubber i sc \<in> set (lg_filters l h))"
      "lg_kind l b = Boundary name" "lg_level l b = 0" "lg_filters l b = [Scrubber i sc]" "\<not> lg_propagate l name"
    using assms by (auto simp: guarded_def)
  then show ?thesis by (intro guardedI [of _ _ pre b "post @ added name"]) simp_all
qed

text \<open>
  C33: While a provider holds the filters, the host's handlers emit only scrubbed records. A
  record of the package, of the engine or of a root-level call from their sources, logged on one
  of the three guarded loggers or on a child of one without handlers of its own, comes out
  scrubbed at every handler that emits it, however the ancestors, levels, host filters and
  the handlers added later are.
\<close>

theorem acquired_emits_scrubbed:
  assumes "logging_wf l" "lg_refs l = 0"
    and "host_only l ''plugins.memory.cashew''" "host_only l ''core''" "host_only l ''root''"
    and "(name, sc) \<in> set scrub_loggers"
    and "l' = (acquire_provider_scrub_filters l)
           \<lparr>lg_handlers := (\<lambda>n. lg_handlers (acquire_provider_scrub_filters l) n @ added n)\<rparr>"
    and "\<forall>c \<in> set children. lg_handlers l' c = [] \<and> lg_propagate l' c"
    and "in_scope env sc r" "0 \<le> lr_levelno r"
  shows "\<forall>(h, q) \<in> set (fst (snd (log_call env l' (children @ name # ancestors) r))). lr_scrubbed q"
proof -
  have g: "guarded l' name sc"
    unfolding assms(7) by (rule guarded_host_adds [OF acquired_guarded [OF assms(1-6)]])
  have call: "call_handlers env l' (children @ name # ancestors) = call_handlers env l' (name # ancestors)"
    using child_chain [OF assms(8)] by (rule ext)
  have "lg_handlers l' name \<noteq> []" using g by (auto simp: guarded_def)
  moreover have "walk l' (children @ name # ancestors) = children @ walk l' (name # ancestors)"
    using assms(8) by (induction children) auto
  ultimately have "log_call env l' (children @ name # ancestors) r = call_handlers env l' (name # ancestors) r"
    by (simp add: log_call_def boundary_emit_def call del: call_handlers.simps)
  with guarded_safe [OF g assms(9,10), of ancestors] show ?thesis
    by (auto simp: emitted_def simp del: call_handlers.simps)
qed

section \<open>Releasing\<close>

text \<open>What the host sees of the first \<open>k\<close> handlers.\<close>

definition host_view :: "nat \<Rightarrow> logging \<Rightarrow> (string \<Rightarrow> nat list) \<times> (string \<Rightarrow> bool) \<times> (nat \<Rightarrow> log_filter list)" where
  "host_view k l = (lg_handlers l, lg_propagate l, \<lambda>h. if h < k then lg_filters l h else [])"

lemma host_viewD:
  assumes "host_view k l' = host_view k l"
  shows "lg_handlers l' = lg_handlers l \<and> lg_propagate l' = lg_propagate l \<and> (\<forall>h < k. lg_filters l' h = lg_filters l h)"
proof -
  from assms have f: "(\<lambda>h. if h < k then lg_filters l' h else []) = (\<lambda>h. if h < k then lg_filters l h else [])"
    and hp: "lg_handlers l' = lg_handlers l" "lg_propagate l' = lg_propagate l"
    unfolding host_view_def by blast+
  have "lg_filters l' h = lg_filters l h" if "h < k" for h using fun_cong [OF f, of h] that by simp
  with hp show ?thesis by blast
qed

lemma fold_remove_filter [simp]:
  "lg_handlers (fold remove_filter fs l) = lg_handlers l" "lg_propagate (fold remove_filter fs l) = lg_propagate l"
  by (induction fs arbitrary: l) (auto simp: remove_filter_def split: prod.split)

lemma filters_remove: "lg_filters (remove_filter (h, f) l) = (lg_filters l)(h := remove1 f (lg_filters l h))"
  by (simp add: remove_filter_def)

lemma filters_fold_remove:
  "lg_filters (fold remove_filter fs l) = fold (\<lambda>(h, f) F. F(h := remove1 f (F h))) fs (lg_filters l)"
  by (induction fs arbitrary: l) (auto simp: filters_remove)

lemma remove_filter_host_view:
  "host_view k (remove_filter (h, f) l) = map_prod id (map_prod id (\<lambda>c. c(h := remove1 f (c h)))) (host_view k l)"
  by (simp add: host_view_def remove_filter_def fun_eq_iff)

lemma remove_filter_view:
  "host_view k l = host_view k l' \<Longrightarrow> host_view k (remove_filter hf l) = host_view k (remove_filter hf l')"
  by (cases hf) (simp only: remove_filter_host_view)

lemma fold_remove_view:
  "host_view k l = host_view k l' \<Longrightarrow> host_view k (fold remove_filter fs l) = host_view k (fold remove_filter fs l')"
proof (induction fs arbitrary: l l')
  case (Cons x fs)
  from Cons.IH [OF remove_filter_view [OF Cons.prems]] show ?case by simp
qed simp

lemma host_view_handlers: "host_view k (l\<lparr>lg_handlers := hs\<rparr>) = (hs, snd (host_view k l))"
  and host_view_propagate: "host_view k (l\<lparr>lg_propagate := g\<rparr>) = (fst (host_view k l), g, snd (snd (host_view k l)))"
  by (simp_all add: host_view_def cong: if_cong)

lemma remove_boundary_view:
  assumes "host_view k l = host_view k l'"
  shows "host_view k (remove_boundary i l) = host_view k (remove_boundary i l')"
proof -
  obtain name orig fs b where i: "i = (name, orig, fs, b)" by (metis prod_cases4)
  let ?u = "\<lambda>l. l\<lparr>lg_handlers := (lg_handlers l)(name := remove1 b (lg_handlers l name))\<rparr>"
  have v: "lg_handlers l = lg_handlers l'" using assms by (simp add: host_view_def)
  have "host_view k (?u l) = host_view k (?u l')" unfolding host_view_handlers v assms ..
  from fold_remove_view [OF this, of fs]
  have w: "host_view k (fold remove_filter fs (?u l)) = host_view k (fold remove_filter fs (?u l'))" .
  then have "lg_propagate (fold remove_filter fs (?u l)) name = lg_propagate (fold remove_filter fs (?u l')) name"
      "lg_propagate (fold remove_filter fs (?u l)) = lg_propagate (fold remove_filter fs (?u l'))"
    by (simp_all add: host_view_def)
  with w show ?thesis
    by (simp add: i remove_boundary_def Let_def host_view_propagate)
qed

lemma remove_filter_commute: "remove_filter x (remove_filter y l) = remove_filter y (remove_filter x l)"
  by (cases x; cases y) (auto simp: remove_filter_def fun_eq_iff remove1_commute)

lemma fold_remove_commute: "fold remove_filter fs (remove_filter y l) = remove_filter y (fold remove_filter fs l)"
proof (induction fs arbitrary: l)
  case (Cons x fs)
  have "fold remove_filter fs (remove_filter x (remove_filter y l)) = fold remove_filter fs (remove_filter y (remove_filter x l))"
    by (subst remove_filter_commute) (rule refl)
  with Cons show ?case by simp
qed simp

lemma install_remove_filters:
  assumes "install_filters sc hs l = (l', fs)" "logging_wf l"
  shows "lg_filters (fold remove_filter fs l') = lg_filters l"
  using assms
proof (induction sc hs l arbitrary: l' fs rule: install_filters.induct)
  case (2 sc h hs l)
  let ?f = "Scrubber (lg_fresh l) sc"
  let ?l = "add_filter h ?f (l\<lparr>lg_fresh := Suc (lg_fresh l)\<rparr>)"
  from 2(2) obtain fs' where ins: "install_filters sc hs ?l = (l', fs')" and fs: "fs = (h, ?f) # fs'"
    by (auto simp: Let_def split: prod.splits)
  have "logging_wf ?l" using 2(3) by (fastforce simp: logging_wf_def add_filter_def less_Suc_eq)
  from 2(1) [OF refl ins this] have ih: "lg_filters (fold remove_filter fs' l') = lg_filters ?l" .
  have "?f \<notin> set (lg_filters l h)" using 2(3) by (metis logging_wf_def less_irrefl)
  then have "(lg_filters ?l)(h := remove1 ?f (lg_filters ?l h)) = lg_filters l"
    by (auto simp: add_filter_def remove1_append)
  then show ?case
    by (simp add: fs fold_remove_commute filters_remove ih)
qed simp

lemma remove_installed:
  assumes wf: "logging_wf l" and k: "k \<le> lg_fresh l"
  shows "\<exists>i. lg_installs (install_boundary (name, sc) l) = lg_installs l @ [i] \<and>
    host_view k (remove_boundary i (install_boundary (name, sc) l)) = host_view k l"
proof -
  obtain l1 fs where ins: "install_filters sc (lg_handlers l name) l = (l1, fs)"
    by (cases "install_filters sc (lg_handlers l name) l")
  note p = install_filters_props [OF ins]
  define b where "b = lg_fresh l1"
  have b: "b \<notin> set (lg_handlers l name)" "k \<le> b" using wf p k by (fastforce simp: logging_wf_def b_def)+
  let ?i = "(name, lg_propagate l name, fs, b)" and ?l = "install_boundary (name, sc) l"
  let ?u = "?l\<lparr>lg_handlers := (lg_handlers ?l)(name := remove1 b (lg_handlers ?l name))\<rparr>"
  have hp: "lg_handlers ?u = lg_handlers l" "lg_propagate ?u = (lg_propagate l)(name := False)"
    using p b(1) by (simp_all add: install_boundary_def ins Let_def b_def fun_eq_iff remove1_append)
  have "lg_filters ?l h = lg_filters l1 h" if "h < k" for h
    using that b(2) by (simp add: install_boundary_def ins Let_def b_def)
  then have "snd (snd (host_view k ?u)) = snd (snd (host_view k l1))" by (simp add: host_view_def fun_eq_iff)
  moreover have "fst (host_view k ?u) = fst (host_view k l1)" using hp(1) p by (simp add: host_view_def)
  ultimately have "host_view k (?u\<lparr>lg_propagate := g\<rparr>) = host_view k (l1\<lparr>lg_propagate := g\<rparr>)" for g
    by (simp only: host_view_propagate)
  from fold_remove_view [OF this, of fs] have
    v: "host_view k (fold remove_filter fs (?u\<lparr>lg_propagate := g\<rparr>)) = host_view k (fold remove_filter fs (l1\<lparr>lg_propagate := g\<rparr>))" for g .
  have flt: "lg_filters (fold remove_filter fs (x\<lparr>lg_propagate := g\<rparr>)) = lg_filters (fold remove_filter fs x)" for x :: logging and g
    by (simp add: filters_fold_remove)
  have "host_view k (remove_boundary ?i ?l) = host_view k l"
  proof -
    let ?w = "fold remove_filter fs ?u"
    have w: "host_view k ?w = host_view k (fold remove_filter fs (l1\<lparr>lg_propagate := lg_propagate ?u\<rparr>))"
      using v [of "lg_propagate ?u"] by simp
    have "snd (snd (host_view k (fold remove_filter fs (l1\<lparr>lg_propagate := g\<rparr>)))) = snd (snd (host_view k l))" for g
      unfolding host_view_def snd_conv flt install_remove_filters [OF ins wf] ..
    with w have "snd (snd (host_view k ?w)) = snd (snd (host_view k l))" by simp
    moreover have "lg_propagate ?w = (lg_propagate l)(name := False)" "lg_handlers ?w = lg_handlers l"
      using hp by simp_all
    moreover from this have "remove_boundary ?i ?l = ?w\<lparr>lg_propagate := (lg_propagate l)(name := lg_propagate l name)\<rparr>"
      by (simp add: remove_boundary_def)
    ultimately show ?thesis by (simp only: host_view_propagate) (simp add: host_view_def)
  qed
  moreover have "lg_installs ?l = lg_installs l @ [?i]"
    using p by (simp add: install_boundary_def ins Let_def b_def)
  ultimately show ?thesis by blast
qed

definition boundary_free :: "logging \<Rightarrow> bool" where
  "boundary_free l \<longleftrightarrow> logging_wf l \<and> lg_refs l = 0 \<and> lg_installs l = [] \<and>
     host_only l ''plugins.memory.cashew'' \<and> host_only l ''core'' \<and> host_only l ''root''"

lemma acquire_release_view:
  assumes "boundary_free l"
  shows "host_view (lg_fresh l) (release_provider_scrub_filters (acquire_provider_scrub_filters l)) = host_view (lg_fresh l) l \<and>
    lg_refs (release_provider_scrub_filters (acquire_provider_scrub_filters l)) = 0 \<and>
    lg_installs (release_provider_scrub_filters (acquire_provider_scrub_filters l)) = []"
proof -
  let ?c = "''plugins.memory.cashew''" and ?k = "lg_fresh l"
  define l0 where "l0 = l\<lparr>lg_refs := 1\<rparr>"
  define l1 where "l1 = install_boundary (?c, False) l0"
  define l2 where "l2 = install_boundary (''core'', True) l1"
  define l3 where "l3 = install_boundary (''root'', True) l2"
  have acq: "acquire_provider_scrub_filters l = l3"
    using assms by (simp add: boundary_free_def acquire_provider_scrub_filters_def scrub_loggers_def l0_def l1_def l2_def l3_def)
  have h0: "logging_wf l0" "host_only l0 ?c" "host_only l0 ''core''" "host_only l0 ''root''" "lg_fresh l0 = ?k"
    using assms by (simp_all add: boundary_free_def l0_def logging_wf_def host_only_def)
  note p1 = install_boundary_props [OF h0(1,2) l1_def]
  have h1: "logging_wf l1" "host_only l1 ''core''" "host_only l1 ''root''"
    using p1 host_only_later [OF h0(1,2)] h0(3,4) by (simp_all add: l1_def)
  note p2 = install_boundary_props [OF h1(1,2) l2_def]
  have h2: "logging_wf l2" "host_only l2 ''root''"
    using p2 host_only_later [OF h1(1,2)] h1(3) by (simp_all add: l2_def)
  note p3 = install_boundary_props [OF h2 l3_def]
  have k: "?k \<le> lg_fresh l0" "?k \<le> lg_fresh l1" "?k \<le> lg_fresh l2" using h0(5) p1 p2 by simp_all
  obtain i1 i2 i3 where i: "lg_installs l1 = lg_installs l0 @ [i1]" "lg_installs l2 = lg_installs l1 @ [i2]"
      "lg_installs l3 = lg_installs l2 @ [i3]"
    and v: "host_view ?k (remove_boundary i1 l1) = host_view ?k l0" "host_view ?k (remove_boundary i2 l2) = host_view ?k l1"
      "host_view ?k (remove_boundary i3 l3) = host_view ?k l2"
    using remove_installed [OF h0(1) k(1), of ?c False] remove_installed [OF h1(1) k(2), of "''core''" True]
      remove_installed [OF h2(1) k(3), of "''root''" True]
    unfolding l1_def [symmetric] l2_def [symmetric] l3_def [symmetric] by blast
  have refs: "lg_refs l3 = 1" using p1 p2 p3 by (simp add: l0_def)
  have upd: "host_view ?k (x\<lparr>lg_refs := n\<rparr>) = host_view ?k x" "host_view ?k (x\<lparr>lg_installs := is\<rparr>) = host_view ?k x" for x n "is"
    by (simp_all add: host_view_def cong: if_cong)
  have refs': "lg_refs (remove_boundary i x) = lg_refs x" for i x
  proof -
    have "lg_refs (fold remove_filter fs y) = lg_refs y" for fs y
      by (induction fs arbitrary: y) (auto simp: remove_filter_def split: prod.split)
    then show ?thesis by (cases i) (simp add: remove_boundary_def Let_def)
  qed
  have "lg_installs l3 = [i1, i2, i3]" using i assms by (simp add: l0_def boundary_free_def)
  then have rel: "release_provider_scrub_filters l3 =
      (remove_boundary i1 (remove_boundary i2 (remove_boundary i3 (l3\<lparr>lg_refs := 0\<rparr>))))\<lparr>lg_installs := []\<rparr>"
    by (simp add: release_provider_scrub_filters_def refs)
  have "host_view ?k (remove_boundary i3 (l3\<lparr>lg_refs := 0\<rparr>)) = host_view ?k l2"
    using remove_boundary_view [OF upd(1)] v(3) by metis
  then have "host_view ?k (remove_boundary i2 (remove_boundary i3 (l3\<lparr>lg_refs := 0\<rparr>))) = host_view ?k l1"
    using remove_boundary_view v(2) by metis
  then have "host_view ?k (remove_boundary i1 (remove_boundary i2 (remove_boundary i3 (l3\<lparr>lg_refs := 0\<rparr>)))) = host_view ?k l0"
    using remove_boundary_view v(1) by metis
  then show ?thesis
    by (simp add: acq rel upd refs' l0_def)
qed

lemma nested_acquire:
  "lg_refs l > 0 \<Longrightarrow> acquire_provider_scrub_filters l = l\<lparr>lg_refs := Suc (lg_refs l)\<rparr>"
  by (simp add: acquire_provider_scrub_filters_def)

lemma nested_release:
  "lg_refs l > 1 \<Longrightarrow> release_provider_scrub_filters l = l\<lparr>lg_refs := lg_refs l - 1\<rparr>"
  by (simp add: release_provider_scrub_filters_def Let_def)

lemma acquire_refs: "boundary_free l \<Longrightarrow> lg_refs (acquire_provider_scrub_filters l) = 1"
proof -
  have "lg_refs (install_boundary x y) = lg_refs y" for x y
    using install_filters_props
    by (cases x) (auto simp: install_boundary_def Let_def split: prod.split)
  then show "boundary_free l \<Longrightarrow> ?thesis"
    by (simp add: acquire_provider_scrub_filters_def scrub_loggers_def boundary_free_def)
qed

lemma more_acquires:
  "lg_refs l = 1 \<Longrightarrow> (acquire_provider_scrub_filters ^^ n) l = l\<lparr>lg_refs := Suc n\<rparr>"
  by (induction n) (simp_all add: nested_acquire)

lemma more_releases:
  "lg_refs l = 1 \<Longrightarrow> (release_provider_scrub_filters ^^ n) (l\<lparr>lg_refs := Suc n\<rparr>) = l"
proof (induction n)
  case (Suc n)
  have "release_provider_scrub_filters (l\<lparr>lg_refs := Suc (Suc n)\<rparr>) = l\<lparr>lg_refs := Suc n\<rparr>"
    by (simp add: nested_release)
  with Suc show ?case by (simp add: funpow_swap1)
qed simp

text \<open>
  The boundary is reversible. However many providers acquire it, when each has released it the
  handlers of every logger, their filters and the propagation flags are those from before the
  first acquisition, and nothing is recorded as installed.
\<close>

theorem acquire_release_restores:
  assumes "boundary_free l"
  shows "let l' = (release_provider_scrub_filters ^^ Suc n) ((acquire_provider_scrub_filters ^^ Suc n) l)
    in lg_handlers l' = lg_handlers l \<and> lg_propagate l' = lg_propagate l \<and>
       (\<forall>h < lg_fresh l. lg_filters l' h = lg_filters l h) \<and> lg_refs l' = 0 \<and> lg_installs l' = []"
proof -
  let ?a = "acquire_provider_scrub_filters l"
  have "(acquire_provider_scrub_filters ^^ Suc n) l = ?a\<lparr>lg_refs := Suc n\<rparr>"
    using more_acquires [OF acquire_refs [OF assms], of n] by (simp add: funpow_swap1)
  then have eq: "(release_provider_scrub_filters ^^ Suc n) ((acquire_provider_scrub_filters ^^ Suc n) l) =
      release_provider_scrub_filters ?a"
    using more_releases [OF acquire_refs [OF assms], of n] by simp
  from acquire_release_view [OF assms] host_viewD show ?thesis
    unfolding eq Let_def by blast
qed

text \<open>A host with one handler on the root and one on the package's logger.\<close>

definition sample_logging :: logging where
  "sample_logging = \<lparr>lg_handlers = (\<lambda>n. if n = ''root'' then [0] else if n = ''plugins.memory.cashew'' then [1] else []),
     lg_propagate = (\<lambda>_. True), lg_filters = (\<lambda>_. []), lg_kind = (\<lambda>_. Host_handler), lg_level = (\<lambda>_. 10),
     lg_fresh = 2, lg_refs = 0, lg_installs = []\<rparr>"

lemma sample_boundary_free: "boundary_free sample_logging"
  by (simp add: boundary_free_def sample_logging_def logging_wf_def host_only_def)

theorem acquire_release_restores_witness:
  "lg_handlers ((release_provider_scrub_filters ^^ 2) ((acquire_provider_scrub_filters ^^ 2) sample_logging)) ''root'' = [0]"
  using acquire_release_restores [OF sample_boundary_free, of 1] by (simp add: Let_def sample_logging_def numeral_2_eq_2)

definition sample_delivery :: delivery_env where
  "sample_delivery = \<lparr>dv_dirs = sample_dirs, dv_accepts = (\<lambda>_ _. True), dv_last_resort = None\<rparr>"

definition sample_delivered :: "(nat \<times> log_record) list" where
  "sample_delivered = fst (snd (log_call sample_delivery (acquire_provider_scrub_filters sample_logging)
     [''plugins.memory.cashew'', ''root''] (sample_record ''my diary'')))"

lemma sample_delivered_handlers: "map fst sample_delivered = [1, 0]"
  by code_simp

theorem acquired_emits_scrubbed_witness:
  "map fst sample_delivered = [1, 0] \<and> list_all (\<lambda>(h, q). lr_scrubbed q) sample_delivered"
  using acquired_emits_scrubbed [of sample_logging "''plugins.memory.cashew''" False
      "acquire_provider_scrub_filters sample_logging" "\<lambda>_. []" "[]" sample_delivery "sample_record ''my diary''" "[''root'']"]
    sample_boundary_free sample_delivered_handlers
  by (simp add: boundary_free_def scrub_loggers_def in_scope_def sample_record_def list_all_iff sample_delivered_def)

end
