(* ===== verification/Sleep.thy ===== *)
theory Sleep
  imports Admission GraphDb Config
begin

text \<open>
  The scheduled sleep cycle: the adapter around the engine's cycle (\<^verbatim>\<open>sleep_adapter.py\<close>) and the
  script the scheduler runs (\<^verbatim>\<open>sleep_cron_script.py\<close>), over the lock table and the admissions
  of the theories \<^verbatim>\<open>Locking\<close> and \<^verbatim>\<open>Admission\<close>. The engine, the supervisor, the loading of modules
  and the database are inputs; every call of the engine is recorded with what the
  process held at that moment.
\<close>

section \<open>The adapter\<close>

record upstream_call =
  uc_locks :: "lockfd list"
  uc_model :: "string option"
  uc_dimension :: "int option"
  uc_journal :: string

record sleep_world =
  sw_adm :: adm_world
  sw_journal :: journal_conn
  sw_calls :: "upstream_call list"

record sleep_env =
  se_resolve :: "path \<Rightarrow> path res"
  se_faults :: "nat \<Rightarrow> lock_faults"
  se_version :: "int \<times> int \<times> int"
  se_connect :: "exn option"
  se_upstream :: "pydict res"

text \<open>The embedding client is seen through its dimension.\<close>

record sleep_args =
  sa_db_path :: path
  sa_background :: bool
  sa_model :: "string option"
  sa_client :: "int option option"

definition owned_admission :: "sleep_env \<Rightarrow> path \<Rightarrow> adm_world \<Rightarrow> bool res" where
  "owned_admission env db w =
     (case aw_current w of
        None \<Rightarrow> return False
      | Some a \<Rightarrow> bind_res (se_resolve env db) (\<lambda>p.
          if oa_graph_path a \<noteq> Some p then raise C_OperationAdmissionError ''sleep admission graph identity mismatch''
          else if \<not> oa_exclusive a then raise C_OperationAdmissionError ''sleep requires an exclusive graph admission''
          else if oa_cache_path a \<noteq> None \<and> oa_cache_lease a = None
          then raise C_OperationAdmissionError ''sleep admission cache lease is missing''
          else return True))"

definition with_kernel :: "kernel \<Rightarrow> sleep_world \<Rightarrow> sleep_world" where
  "with_kernel k w = w\<lparr>sw_adm := (sw_adm w)\<lparr>aw_kernel := k\<rparr>\<rparr>"

text \<open>\<^verbatim>\<open>with _maintenance_lease(db_path): body\<close>.\<close>

definition maintenance_lease ::
    "sleep_env \<Rightarrow> path \<Rightarrow> (sleep_world \<Rightarrow> sleep_world \<times> 'a res) \<Rightarrow> sleep_world \<Rightarrow> sleep_world \<times> 'a res" where
  "maintenance_lease env db body w =
     (case owned_admission env db (sw_adm w) of
        Inl e \<Rightarrow> (w, Inl e)
      | Inr True \<Rightarrow> body w
      | Inr False \<Rightarrow>
          (case lock_enter (se_resolve env) (se_faults env) True LOCK_EX db (aw_kernel (sw_adm w)) of
             (k1, Inl e) \<Rightarrow> (with_kernel k1 w, Inl e)
           | (k1, Inr cm) \<Rightarrow>
               (case if cm_acquired cm then body (with_kernel k1 w)
                     else (with_kernel k1 w, raise C_MaintenanceLockAcquisitionError ''contended'') of
                  (w2, r) \<Rightarrow>
                    (case lock_exit (se_faults env) False (case r of Inl e \<Rightarrow> Some e | Inr _ \<Rightarrow> None) cm
                            (aw_kernel (sw_adm w2)) of
                       (k3, None) \<Rightarrow> (with_kernel k3 w2, r)
                     | (k3, Some e) \<Rightarrow> (with_kernel k3 w2, Inl e)))))"

text \<open>A connection for the journal test: it may fail, and it may set the mode.\<close>

definition guard_journal :: "sleep_env \<Rightarrow> sleep_world \<Rightarrow> sleep_world \<times> unit res" where
  "guard_journal env w =
     (case se_connect env of
        Some e \<Rightarrow> (w, Inl e)
      | None \<Rightarrow>
          (case guard_sqlite_journal (se_version env) (sw_journal w) of
             (c, r) \<Rightarrow> (w\<lparr>sw_journal := c\<rparr>, bind_res r (\<lambda>_. return ()))))"

definition admission_mismatch :: "sleep_args \<Rightarrow> adm_world \<Rightarrow> string option" where
  "admission_mismatch args w =
     (case (aw_current w, sa_client args) of
        (Some a, Some d) \<Rightarrow>
          if oa_model a \<noteq> None \<and> oa_model a \<noteq> sa_model args then Some ''sleep admission model identity mismatch''
          else if oa_embedding_dim a \<noteq> None \<and> oa_embedding_dim a \<noteq> d then Some ''sleep admission dimension identity mismatch''
          else None
      | _ \<Rightarrow> None)"

definition call_upstream :: "sleep_env \<Rightarrow> sleep_args \<Rightarrow> sleep_world \<Rightarrow> sleep_world \<times> pydict res" where
  "call_upstream env args w =
     (w\<lparr>sw_calls := sw_calls w @
          [\<lparr>uc_locks = own_locks (aw_kernel (sw_adm w)),
            uc_model = (if sa_client args \<noteq> None then sa_model args else None),
            uc_dimension = (case sa_client args of None \<Rightarrow> None | Some d \<Rightarrow> d),
            uc_journal = jc_mode (sw_journal w)\<rparr>]\<rparr>, se_upstream env)"

definition sleep_body :: "sleep_env \<Rightarrow> sleep_args \<Rightarrow> sleep_world \<Rightarrow> sleep_world \<times> pydict res" where
  "sleep_body env args w =
     (case guard_journal env w of
        (w, Inl e) \<Rightarrow> (w, Inl e)
      | (w, Inr _) \<Rightarrow>
          (case admission_mismatch args (sw_adm w) of
             Some m \<Rightarrow> (w, raise C_OperationAdmissionError m)
           | None \<Rightarrow> call_upstream env args w))"

definition run_sleep_cycle :: "sleep_env \<Rightarrow> sleep_args \<Rightarrow> sleep_world \<Rightarrow> sleep_world \<times> pydict res" where
  "run_sleep_cycle env args w =
     (if sa_background args then
        (w, return [(''status'', PStr ''rejected''), (''error'', PStr ''background_dream_unsupported'')])
      else case maintenance_lease env (sa_db_path args) (sleep_body env args) w of
        (w, Inr d) \<Rightarrow> (w, return d)
      | (w, Inl e) \<Rightarrow> (w, if isinstance e C_Exception then return [] else Inl e))"

section \<open>The script\<close>

text \<open>\<^verbatim>\<open>_runtime_epoch\<close>: the rows of the metadata table, or what reading them raises.\<close>

definition cron_runtime_epoch :: "meta_rows res \<Rightarrow> string \<Rightarrow> int \<Rightarrow> int res" where
  "cron_runtime_epoch rows model dimension =
     bind_res rows (\<lambda>m.
       let number = (\<lambda>k. case map_of m k of None \<Rightarrow> None | Some v \<Rightarrow> int_of_str v)
       in case (number ''maintenance_epoch'', number ''embedding_dim'', number ''vec_dim'') of
            (Some epoch, Some embedding_dim, Some vec_dim) \<Rightarrow>
              if epoch < 1 \<or> map_of m ''embedding_model'' \<noteq> Some model \<or> embedding_dim \<noteq> dimension \<or> vec_dim \<noteq> dimension
              then raise C_CronAdmissionError ''Cashew cron runtime identity is stale''
              else return epoch
          | _ \<Rightarrow> raise C_CronAdmissionError ''Cashew cron runtime identity is incomplete'')"

text \<open>
  What the steps of \<^verbatim>\<open>main\<close> answer: the profile's modules, the configuration of the marker, the
  database path, the auxiliary model, the supervisor's construction, start, dimension and
  generation, the metadata rows, and the close.
\<close>

record cron_env =
  ce_home :: "string option"
  ce_modules :: "exn option"
  ce_config :: "CashewConfig res"
  ce_db_path :: "path res"
  ce_model_fn :: "exn option"
  ce_supervisor :: "nat res"
  ce_start :: "exn option"
  ce_dimension :: int
  ce_generation :: pyval
  ce_rows :: "meta_rows res"
  ce_close :: "exn option"
  ce_schedule :: schedule
  ce_fuel :: nat
  ce_sleep :: sleep_env

record cron_state =
  cs_world :: sleep_world
  cs_scrub_refs :: nat
  cs_supervisors :: "(nat \<times> bool) list"
  cs_printed :: "pydict list"

definition cache_path_of :: "path \<Rightarrow> path" where
  "cache_path_of db = butlast db @ [''embedding-cache.db'']"

definition cron_request :: "cron_env \<Rightarrow> CashewConfig \<Rightarrow> path \<Rightarrow> nat \<Rightarrow> adm_request" where
  "cron_request ce config db supervisor =
     \<lparr>rq_graph_path = Some db, rq_cache_path = Some (cache_path_of db), rq_model = Some (cfg_embedding_model config),
      rq_embedding_dim = Some (ce_dimension ce), rq_vec_dim = Some (ce_dimension ce), rq_epoch = None,
      rq_supervisor = Some supervisor, rq_embedding_generation = Some (ce_generation ce),
      rq_exclusive = True, rq_cache_exclusive = True, rq_deadline = 3 / 2\<rparr>"

text \<open>The body of the admission.\<close>

definition admitted_cycle :: "cron_env \<Rightarrow> CashewConfig \<Rightarrow> path \<Rightarrow> sleep_world \<Rightarrow> sleep_world \<times> pydict res" where
  "admitted_cycle ce config db w =
     (case cron_runtime_epoch (ce_rows ce) (cfg_embedding_model config) (ce_dimension ce) of
        Inl e \<Rightarrow> (w, Inl e)
      | Inr _ \<Rightarrow>
          (case guard_journal (ce_sleep ce) w of
             (w, Inl e) \<Rightarrow> (w, Inl e)
           | (w, Inr _) \<Rightarrow>
               run_sleep_cycle (ce_sleep ce)
                 \<lparr>sa_db_path = db, sa_background = False, sa_model = Some (cfg_embedding_model config),
                  sa_client = Some (Some (ce_dimension ce))\<rparr> w))"

text \<open>From the start of the supervisor to the end of the admission; \<open>None\<close> is fuel that ran out.\<close>

definition supervised_cycle ::
    "cron_env \<Rightarrow> CashewConfig \<Rightarrow> path \<Rightarrow> nat \<Rightarrow> sleep_world \<Rightarrow> (sleep_world \<times> pydict res) option" where
  "supervised_cycle ce config db supervisor w =
     (case ce_start ce of
        Some e \<Rightarrow> Some (w, Inl e)
      | None \<Rightarrow>
          (case admit_operation (se_resolve (ce_sleep ce)) (se_faults (ce_sleep ce)) (ce_schedule ce) False (ce_fuel ce)
                  (cron_request ce config db supervisor) (sw_adm w) of
             None \<Rightarrow> None
           | Some (a, Inl e) \<Rightarrow> Some (w\<lparr>sw_adm := a\<rparr>, Inl e)
           | Some (a, Inr token) \<Rightarrow>
               Some (case admitted_cycle ce config db (w\<lparr>sw_adm := a\<rparr>) of
                  (w2, r) \<Rightarrow>
                    (case admit_exit (se_faults (ce_sleep ce)) False False token
                            (case r of Inl e \<Rightarrow> Some e | Inr _ \<Rightarrow> None) (sw_adm w2) of
                       (a3, None) \<Rightarrow> (w2\<lparr>sw_adm := a3\<rparr>, r)
                     | (a3, Some e) \<Rightarrow> (w2\<lparr>sw_adm := a3\<rparr>, Inl e)))))"

definition best_effort :: "exn \<Rightarrow> bool" where
  "best_effort e \<longleftrightarrow> isinstance e C_CronAdmissionError \<or> isinstance e C_OperationAdmissionError \<or>
     isinstance e C_MaintenanceLockAcquisitionError \<or> isinstance e C_SQLiteWALUnsupportedError"

text \<open>The \<^verbatim>\<open>try\<close> statement around the supervisor, with its \<^verbatim>\<open>finally\<close>.\<close>

definition closed_supervisor :: "nat \<Rightarrow> cron_state \<Rightarrow> cron_state" where
  "closed_supervisor i s = s\<lparr>cs_supervisors := map (\<lambda>(j, c). (j, c \<or> j = i)) (cs_supervisors s)\<rparr>"

definition cron_cycle :: "cron_env \<Rightarrow> CashewConfig \<Rightarrow> path \<Rightarrow> cron_state \<Rightarrow> (cron_state \<times> unit res) option" where
  "cron_cycle ce config db s =
     (case ce_supervisor ce of
        Inl e \<Rightarrow> Some (s, Inl e)
      | Inr i \<Rightarrow>
          let s = s\<lparr>cs_supervisors := cs_supervisors s @ [(i, False)]\<rparr>
          in case supervised_cycle ce config db i (cs_world s) of
               None \<Rightarrow> None
             | Some (w, r) \<Rightarrow>
                 let r = (case r of Inl e \<Rightarrow> if best_effort e then return [] else Inl e | Inr d \<Rightarrow> return d);
                     s = closed_supervisor i (s\<lparr>cs_world := w\<rparr>)
                 in Some (case ce_close ce of
                      Some e \<Rightarrow> (s, Inl e)
                    | None \<Rightarrow> (case r of Inl e \<Rightarrow> (s, Inl e) | Inr d \<Rightarrow> (s\<lparr>cs_printed := cs_printed s @ [d]\<rparr>, return ()))))"

definition cron_body :: "cron_env \<Rightarrow> cron_state \<Rightarrow> (cron_state \<times> unit res) option" where
  "cron_body ce s =
     (case ce_config ce of
        Inl e \<Rightarrow> Some (s, Inl e)
      | Inr config \<Rightarrow>
          if \<not> cfg_sleep_cycles config \<or> cfg_sleep_schedule config = [] then
            Some (s\<lparr>cs_printed := cs_printed s @ [[]]\<rparr>, return ())
          else case ce_db_path ce of
            Inl e \<Rightarrow> Some (s, Inl e)
          | Inr db \<Rightarrow>
              (case ce_model_fn ce of
                 Some e \<Rightarrow> Some (s, Inl e)
               | None \<Rightarrow> cron_cycle ce config db s))"

definition find_hermes_home :: "string option \<Rightarrow> string res" where
  "find_hermes_home v =
     (case v of
        Some h \<Rightarrow> if h = [] then raise C_RuntimeError ''HERMES_HOME is not set'' else return h
      | None \<Rightarrow> raise C_RuntimeError ''HERMES_HOME is not set'')"

definition cron_main :: "cron_env \<Rightarrow> cron_state \<Rightarrow> (cron_state \<times> unit res) option" where
  "cron_main ce s =
     (case bind_res (find_hermes_home (ce_home ce)) (\<lambda>_. raised (ce_modules ce)) of
        Inl e \<Rightarrow> Some (s, Inl e)
      | Inr _ \<Rightarrow>
          (case cron_body ce (s\<lparr>cs_scrub_refs := Suc (cs_scrub_refs s)\<rparr>) of
             None \<Rightarrow> None
           | Some (s, r) \<Rightarrow> Some (s\<lparr>cs_scrub_refs := cs_scrub_refs s - 1\<rparr>, r)))"

section \<open>What a run keeps\<close>

lemma guard_journal_keeps:
  "guard_journal env w = (w', r) \<Longrightarrow> sw_adm w' = sw_adm w \<and> sw_calls w' = sw_calls w"
  by (auto simp: guard_journal_def split: option.splits prod.splits)

lemma guard_journal_mode:
  assumes "guard_journal env w = (w', Inr x)" "sqlite_wal_reset_vulnerable (se_version env)"
  shows "py_lower (jc_mode (sw_journal w')) = ''delete''"
  using assms by (auto simp: guard_journal_def guard_sqlite_journal_def Let_def res_simps pragma_journal_mode_def
      split: option.splits prod.splits if_splits)

text \<open>A call of the engine that was made with everything it needs.\<close>

definition call_guarded :: "sleep_env \<Rightarrow> string \<Rightarrow> int \<Rightarrow> path \<Rightarrow> upstream_call \<Rightarrow> bool" where
  "call_guarded env model dimension db c \<longleftrightarrow>
     (\<exists>g \<in> set (uc_locks c). lf_mode g = Some LOCK_EX \<and> lock_path_for_db (se_resolve env) db = Inr (lf_path g)) \<and>
     (\<exists>h \<in> set (uc_locks c). lf_mode h = Some LOCK_EX \<and> lock_path_for_db (se_resolve env) (cache_path_of db) = Inr (lf_path h)) \<and>
     uc_model c = Some model \<and> uc_dimension c = Some dimension \<and>
     (sqlite_wal_reset_vulnerable (se_version env) \<longrightarrow> py_lower (uc_journal c) = ''delete'')"

text \<open>Under an admission the adapter takes no lease of its own and calls the engine at most once.\<close>

lemma nested_sleep_cycle:
  assumes "aw_current (sw_adm w) = Some a" "run_sleep_cycle env args w = (w', r)"
  shows "sw_adm w' = sw_adm w \<and>
    (sw_calls w' = sw_calls w \<or>
     (\<exists>w1. guard_journal env w = (w1, Inr ()) \<and> sw_calls w' = sw_calls (fst (call_upstream env args w1))))"
proof (cases "sa_background args")
  case True
  with assms show ?thesis by (simp add: run_sleep_cycle_def)
next
  case False
  obtain w2 x where m: "maintenance_lease env (sa_db_path args) (sleep_body env args) w = (w2, x)"
    by (cases "maintenance_lease env (sa_db_path args) (sleep_body env args) w")
  with False assms(2) have w': "w' = w2" by (cases x) (auto simp: run_sleep_cycle_def)
  show ?thesis
  proof (cases "owned_admission env (sa_db_path args) (sw_adm w)")
    case (Inl e)
    with m w' show ?thesis by (simp add: maintenance_lease_def)
  next
    case (Inr b)
    have "b" using Inr assms(1) by (auto simp: owned_admission_def res_simps split: if_splits)
    with Inr m have "sleep_body env args w = (w2, x)" by (simp add: maintenance_lease_def)
    moreover obtain w1 y where g: "guard_journal env w = (w1, y)" by (cases "guard_journal env w")
    ultimately show ?thesis
      using w' guard_journal_keeps [OF g]
      by (auto simp: sleep_body_def call_upstream_def split: sum.splits option.splits)
  qed
qed

lemma admitted_cycle_keeps:
  assumes "aw_current (sw_adm w) = Some a" "admitted_cycle ce config db w = (w', r)"
  shows "sw_adm w' = sw_adm w \<and>
    (sw_calls w' = sw_calls w \<or>
     (\<exists>c. sw_calls w' = sw_calls w @ [c] \<and> uc_locks c = own_locks (aw_kernel (sw_adm w)) \<and>
        uc_model c = Some (cfg_embedding_model config) \<and> uc_dimension c = Some (ce_dimension ce) \<and>
        (sqlite_wal_reset_vulnerable (se_version (ce_sleep ce)) \<longrightarrow> py_lower (uc_journal c) = ''delete'')))"
proof (cases "cron_runtime_epoch (ce_rows ce) (cfg_embedding_model config) (ce_dimension ce)")
  case (Inl e)
  with assms show ?thesis by (simp add: admitted_cycle_def)
next
  case (Inr ep)
  obtain w1 y where g: "guard_journal (ce_sleep ce) w = (w1, y)" by (cases "guard_journal (ce_sleep ce) w")
  note k = guard_journal_keeps [OF g]
  show ?thesis
  proof (cases y)
    case (Inl e)
    with Inr g assms(2) k show ?thesis by (simp add: admitted_cycle_def)
  next
    case y: (Inr u)
    let ?args = "\<lparr>sa_db_path = db, sa_background = False, sa_model = Some (cfg_embedding_model config),
                  sa_client = Some (Some (ce_dimension ce))\<rparr>"
    have "run_sleep_cycle (ce_sleep ce) ?args w1 = (w', r)"
      using Inr g y assms(2) by (simp add: admitted_cycle_def)
    from nested_sleep_cycle [OF _ this] k assms(1) have
      n: "sw_adm w' = sw_adm w" "sw_calls w' = sw_calls w \<or>
        (\<exists>w2. guard_journal (ce_sleep ce) w1 = (w2, Inr ()) \<and> sw_calls w' = sw_calls (fst (call_upstream (ce_sleep ce) ?args w2)))"
      by auto
    from n(2) show ?thesis
    proof
      assume "\<exists>w2. guard_journal (ce_sleep ce) w1 = (w2, Inr ()) \<and> sw_calls w' = sw_calls (fst (call_upstream (ce_sleep ce) ?args w2))"
      then obtain w2 where w2: "guard_journal (ce_sleep ce) w1 = (w2, Inr ())"
          "sw_calls w' = sw_calls (fst (call_upstream (ce_sleep ce) ?args w2))" by blast
      show ?thesis
        using n(1) w2 k guard_journal_keeps [OF w2(1)] guard_journal_mode [OF w2(1)]
        by (auto simp: call_upstream_def)
    qed (use n(1) in simp)
  qed
qed

text \<open>The leases of the script's admission: both lock files, exclusively.\<close>

lemma cron_leases:
  assumes "admitted resolve graph cache (cron_request ce config db i) w w' token"
    and "canonical resolve (Some db) = Inr graph" "canonical resolve (Some (cache_path_of db)) = Inr cache"
    and "\<And>p q. resolve p = Inr q \<Longrightarrow> resolve q = Inr q"
  shows "(\<exists>g \<in> set (own_locks (aw_kernel w')). lf_mode g = Some LOCK_EX \<and> lock_path_for_db resolve db = Inr (lf_path g)) \<and>
    (\<exists>h \<in> set (own_locks (aw_kernel w')). lf_mode h = Some LOCK_EX \<and> lock_path_for_db resolve (cache_path_of db) = Inr (lf_path h))"
proof -
  obtain g c where gc: "graph = Some g" "cache = Some c" "resolve db = Inr g" "resolve (cache_path_of db) = Inr c"
    using assms(2,3) by (auto simp: canonical_def res_simps)
  have same: "lock_path_for_db resolve g = lock_path_for_db resolve db"
      "lock_path_for_db resolve c = lock_path_for_db resolve (cache_path_of db)"
    using gc(3,4) assms(4) by (simp_all add: lock_path_for_db_def)
  obtain l es where es: "own_locks (aw_kernel w') = es @ own_locks (aw_kernel w)"
      "holds es (stack_of l) (wanted resolve graph cache (cron_request ce config db i))"
    using assms(1) by (auto simp: admitted_def)
  then have "map (\<lambda>e. (Inr (lf_path e), lf_mode e)) es =
      [(lock_path_for_db resolve (cache_path_of db), Some LOCK_EX), (lock_path_for_db resolve db, Some LOCK_EX)]"
    by (simp add: holds_def wanted_def gc cron_request_def same)
  then show ?thesis using es(1) by (auto simp: map_eq_Cons_conv)
qed

definition cycle_guarded :: "cron_env \<Rightarrow> sleep_world \<Rightarrow> sleep_world \<Rightarrow> bool" where
  "cycle_guarded ce w w' \<longleftrightarrow>
     own_locks (aw_kernel (sw_adm w')) = own_locks (aw_kernel (sw_adm w)) \<and> aw_current (sw_adm w') = None \<and>
     (sw_calls w' = sw_calls w \<or>
      (\<exists>c config db. sw_calls w' = sw_calls w @ [c] \<and> ce_config ce = Inr config \<and> ce_db_path ce = Inr db \<and>
         call_guarded (ce_sleep ce) (cfg_embedding_model config) (ce_dimension ce) db c \<and>
         (\<exists>epoch \<ge> 1. cron_runtime_epoch (ce_rows ce) (cfg_embedding_model config) (ce_dimension ce) = Inr epoch)))"

lemma cron_epoch_positive: "cron_runtime_epoch rows m d = Inr epoch \<Longrightarrow> 1 \<le> epoch"
  by (cases rows) (auto simp: cron_runtime_epoch_def Let_def split: option.split_asm if_split_asm)

lemma admitted_cycle_epoch:
  assumes "admitted_cycle ce config db w = (w', r)" "sw_calls w' \<noteq> sw_calls w"
  shows "\<exists>epoch \<ge> 1. cron_runtime_epoch (ce_rows ce) (cfg_embedding_model config) (ce_dimension ce) = Inr epoch"
proof (cases "cron_runtime_epoch (ce_rows ce) (cfg_embedding_model config) (ce_dimension ce)")
  case (Inr ep)
  then show ?thesis using cron_epoch_positive by blast
qed (use assms in \<open>simp add: admitted_cycle_def\<close>)

lemma supervised_cycle_guarded:
  assumes run: "supervised_cycle ce config db i w = Some (w', r)"
    and fair: "fair_schedule (ce_schedule ce)" "locks_ok (aw_kernel (sw_adm w))" "aw_current (sw_adm w) = None"
    and idem: "\<And>p q. se_resolve (ce_sleep ce) p = Inr q \<Longrightarrow> se_resolve (ce_sleep ce) q = Inr q"
    and conf: "ce_config ce = Inr config" "ce_db_path ce = Inr db"
  shows "cycle_guarded ce w w'"
proof (cases "ce_start ce")
  case (Some e)
  with run fair(3) show ?thesis by (simp add: supervised_cycle_def cycle_guarded_def)
next
  case None
  let ?rq = "cron_request ce config db i" and ?env = "ce_sleep ce"
  obtain a x where adm: "admit_operation (se_resolve ?env) (se_faults ?env) (ce_schedule ce) False (ce_fuel ce) ?rq (sw_adm w) = Some (a, x)"
    using run None by (auto simp: supervised_cycle_def split: option.splits)
  show ?thesis
  proof (cases x)
    case (Inl e)
    with run None adm have "w' = w\<lparr>sw_adm := a\<rparr>" by (simp add: supervised_cycle_def)
    with admit_outermost [OF fair adm] Inl fair(3) show ?thesis
      by (simp add: cycle_guarded_def refused_def)
  next
    case (Inr token)
    obtain w2 y where body: "admitted_cycle ce config db (w\<lparr>sw_adm := a\<rparr>) = (w2, y)"
      by (cases "admitted_cycle ce config db (w\<lparr>sw_adm := a\<rparr>)")
    obtain a3 e where ex: "admit_exit (se_faults ?env) False False token (case y of Inl e \<Rightarrow> Some e | Inr _ \<Rightarrow> None) (sw_adm w2) = (a3, e)"
      by (cases "admit_exit (se_faults ?env) False False token (case y of Inl e \<Rightarrow> Some e | Inr _ \<Rightarrow> None) (sw_adm w2)")
    have w': "w' = w2\<lparr>sw_adm := a3\<rparr>"
      using run None adm Inr body ex by (cases e) (auto simp: supervised_cycle_def)
    from admit_outermost [OF fair adm] Inr obtain graph cache where
      gc: "canonical (se_resolve ?env) (Some db) = Inr graph" "canonical (se_resolve ?env) (Some (cache_path_of db)) = Inr cache"
        "admitted (se_resolve ?env) graph cache ?rq (sw_adm w) a token"
      by (auto simp: cron_request_def)
    have cur: "aw_current (sw_adm (w\<lparr>sw_adm := a\<rparr>)) = Some token" using gc(3) by (auto simp: admitted_def)
    note keep = admitted_cycle_keeps [OF cur body]
    have rel: "own_locks (aw_kernel a3) = own_locks (aw_kernel (sw_adm w))" "aw_current a3 = None"
      using admit_then_exit [OF fair adm [unfolded Inr] _ _ ex] keep by simp_all
    show ?thesis
      using keep admitted_cycle_epoch [OF body] cron_leases [OF gc(3,1,2) idem] rel w' conf
      by (auto simp: cycle_guarded_def call_guarded_def)
  qed
qed

lemma cron_main_world:
  assumes run: "cron_main ce s = Some (s', r)"
    and fair: "fair_schedule (ce_schedule ce)" "locks_ok (aw_kernel (sw_adm (cs_world s)))" "aw_current (sw_adm (cs_world s)) = None"
    and idem: "\<And>p q. se_resolve (ce_sleep ce) p = Inr q \<Longrightarrow> se_resolve (ce_sleep ce) q = Inr q"
  shows "cycle_guarded ce (cs_world s) (cs_world s') \<and> cs_scrub_refs s' = cs_scrub_refs s \<and>
    (list_all snd (cs_supervisors s) \<longrightarrow> list_all snd (cs_supervisors s'))"
proof -
  have same: "cycle_guarded ce w w" if "aw_current (sw_adm w) = None" for w
    using that by (simp add: cycle_guarded_def)
  have cyc: "cycle_guarded ce (cs_world t) (cs_world t') \<and> cs_scrub_refs t' = cs_scrub_refs t \<and>
      (list_all snd (cs_supervisors t) \<longrightarrow> list_all snd (cs_supervisors t'))"
    if c: "cron_cycle ce config db t = Some (t', x)" "ce_config ce = Inr config" "ce_db_path ce = Inr db" "cs_world t = cs_world s"
    for config db t t' x
  proof (cases "ce_supervisor ce")
    case (Inl e)
    with c same fair(3) show ?thesis by (simp add: cron_cycle_def)
  next
    case (Inr i)
    then obtain w y where y: "supervised_cycle ce config db i (cs_world t) = Some (w, y)"
      using c(1) by (auto simp: cron_cycle_def Let_def split: option.splits)
    have "cycle_guarded ce (cs_world t) w"
      using supervised_cycle_guarded [OF y fair(1) _ _ idem c(2,3)] fair c(4) by simp
    moreover have "cs_world t' = w" "cs_scrub_refs t' = cs_scrub_refs t"
        "cs_supervisors t' = map (\<lambda>(j, cl). (j, cl \<or> j = i)) (cs_supervisors t @ [(i, False)])"
      using c(1) Inr y by (auto simp: cron_cycle_def Let_def closed_supervisor_def split: option.splits sum.splits if_splits)
    ultimately show ?thesis by (auto simp: list_all_iff)
  qed
  let ?s = "s\<lparr>cs_scrub_refs := Suc (cs_scrub_refs s)\<rparr>"
  show ?thesis
  proof (cases "bind_res (find_hermes_home (ce_home ce)) (\<lambda>_. raised (ce_modules ce))")
    case (Inl e)
    with run same fair(3) show ?thesis by (simp add: cron_main_def)
  next
    case (Inr u)
    then obtain t where b: "cron_body ce ?s = Some (t, r)" and s': "s' = t\<lparr>cs_scrub_refs := cs_scrub_refs t - 1\<rparr>"
      using run by (auto simp: cron_main_def split: option.splits)
    from b consider (idle) "cs_world t = cs_world s" "cs_scrub_refs t = cs_scrub_refs ?s" "cs_supervisors t = cs_supervisors s"
      | (cycle) config db where "cron_cycle ce config db ?s = Some (t, r)" "ce_config ce = Inr config" "ce_db_path ce = Inr db"
      by (auto simp: cron_body_def split: sum.splits option.splits if_splits)
    then show ?thesis
    proof cases
      case idle
      with s' same fair(3) show ?thesis by simp
    next
      case cycle
      from cyc [OF cycle] s' show ?thesis by simp
    qed
  qed
qed

text \<open>
  C34: A scheduled cycle touches the profile only under full protection and leaves nothing behind.
  However the script ends, the process holds the leases it held before and no admission, the log
  filters are released, and every supervisor it made is closed. The engine is called at most
  once, and then with the exclusive leases of the graph and of the embedding cache held, for the
  configured model and the worker's dimension, with a persisted identity that matches both in an
  epoch of at least 1, and on a vulnerable SQLite only in DELETE journal mode.
\<close>

theorem cron_cycle_protected:
  assumes "cron_main ce s = Some (s', r)"
    and "fair_schedule (ce_schedule ce)" "locks_ok (aw_kernel (sw_adm (cs_world s)))" "aw_current (sw_adm (cs_world s)) = None"
    and "\<And>p q. se_resolve (ce_sleep ce) p = Inr q \<Longrightarrow> se_resolve (ce_sleep ce) q = Inr q"
    and "list_all snd (cs_supervisors s)" "sw_calls (cs_world s) = []"
  shows "own_locks (aw_kernel (sw_adm (cs_world s'))) = own_locks (aw_kernel (sw_adm (cs_world s))) \<and>
    aw_current (sw_adm (cs_world s')) = None \<and> cs_scrub_refs s' = cs_scrub_refs s \<and> list_all snd (cs_supervisors s') \<and>
    length (sw_calls (cs_world s')) \<le> 1 \<and>
    (\<forall>c \<in> set (sw_calls (cs_world s')). \<exists>config db epoch.
       ce_config ce = Inr config \<and> ce_db_path ce = Inr db \<and> 1 \<le> epoch \<and>
       cron_runtime_epoch (ce_rows ce) (cfg_embedding_model config) (ce_dimension ce) = Inr epoch \<and>
       call_guarded (ce_sleep ce) (cfg_embedding_model config) (ce_dimension ce) db c)"
proof -
  have w: "cycle_guarded ce (cs_world s) (cs_world s') \<and> cs_scrub_refs s' = cs_scrub_refs s \<and>
      (list_all snd (cs_supervisors s) \<longrightarrow> list_all snd (cs_supervisors s'))"
    by (rule cron_main_world [OF assms(1-4)]) (rule assms(5))
  then have "cycle_guarded ce (cs_world s) (cs_world s')" by blast
  then show ?thesis
    using w assms(6,7) unfolding cycle_guarded_def by auto
qed

section \<open>A run\<close>

definition cron_example :: cron_env where
  "cron_example =
     \<lparr>ce_home = Some ''/home'', ce_modules = None, ce_config = return (config_of_payload DEFAULTS),
      ce_db_path = return [''home'', ''brain.db''], ce_model_fn = None, ce_supervisor = return 7, ce_start = None,
      ce_dimension = 3, ce_generation = PStr ''g'',
      ce_rows = return [(''maintenance_epoch'', ''1''), (''embedding_dim'', ''3''), (''vec_dim'', ''3''),
        (''embedding_model'', cfg_embedding_model (config_of_payload DEFAULTS))],
      ce_close = None, ce_schedule = quiet, ce_fuel = 1,
      ce_sleep = \<lparr>se_resolve = return, se_faults = no_faults, se_version = (3, 46, 0), se_connect = None,
        se_upstream = return [(''status'', PStr ''ok'')]\<rparr>\<rparr>"

definition cron_start :: cron_state where
  "cron_start =
     \<lparr>cs_world = \<lparr>sw_adm = idle_world, sw_journal = \<lparr>jc_mode = ''delete'', jc_set = id\<rparr>, sw_calls = []\<rparr>,
      cs_scrub_refs = 0, cs_supervisors = [], cs_printed = []\<rparr>"

lemma cron_example_fields:
  "ce_home cron_example = Some ''/home''" "ce_modules cron_example = None"
  "ce_config cron_example = return (config_of_payload DEFAULTS)" "ce_db_path cron_example = return [''home'', ''brain.db'']"
  "ce_model_fn cron_example = None" "ce_supervisor cron_example = return 7" "ce_start cron_example = None"
  "ce_dimension cron_example = 3" "ce_close cron_example = None" "ce_schedule cron_example = quiet" "ce_fuel cron_example = 1"
  "se_resolve (ce_sleep cron_example) = return" "se_faults (ce_sleep cron_example) = no_faults"
  "se_upstream (ce_sleep cron_example) = return [(''status'', PStr ''ok'')]"
  by (simp_all add: cron_example_def)

lemma cron_example_epoch: "cron_runtime_epoch (ce_rows cron_example) (cfg_embedding_model (config_of_payload DEFAULTS)) 3 = return 1"
proof -
  have "int_of_str ''1'' = Some 1" "int_of_str ''3'' = Some 3" by code_simp+
  then show ?thesis by (simp add: cron_runtime_epoch_def cron_example_def Let_def)
qed

lemma quiet_exit: "snd (exitstack_close (lock_exit no_faults) False None stack k) = None"
  by (induction stack arbitrary: k) (auto simp: lock_exit_def no_faults_def Let_def split: prod.split)

lemma quiet_admit_exit: "\<exists>a. admit_exit no_faults False False token None w = (a, None)"
proof -
  have close: "\<exists>v'. close_owner no_faults False i v = (v', None)" for i v
  proof -
    obtain k where "exitstack_close (lock_exit no_faults) False None (lo_stack (aw_owners v ! i)) (aw_kernel v) = (k, None)"
      using quiet_exit by (metis prod.collapse)
    then show ?thesis by (simp add: close_owner_def Let_def)
  qed
  show ?thesis
  proof (cases "oa_lease_owner token")
    case (Some i)
    obtain v where "close_owner no_faults False i (w\<lparr>aw_current := None\<rparr>) = (v, None)" using close by blast
    with Some show ?thesis by (simp add: admit_exit_def Let_def)
  qed (simp add: admit_exit_def)
qed

lemma cron_example_admits:
  "\<exists>a token. admit_operation return no_faults quiet False 1
      (cron_request cron_example (config_of_payload DEFAULTS) [''home'', ''brain.db''] 7) idle_world = Some (a, Inr token) \<and>
      aw_current a = Some token \<and> oa_graph_path token = Some [''home'', ''brain.db''] \<and> oa_exclusive token \<and>
      oa_cache_lease token \<noteq> None \<and> oa_model token = Some (cfg_embedding_model (config_of_payload DEFAULTS)) \<and>
      oa_embedding_dim token = Some 3"
  by (simp add: admit_operation_def canonical_def cron_request_def cron_example_def idle_world_def quiet_def cache_path_of_def
      acquire_leases_def lease_enter_def lock_enter_def lock_path_for_db_def no_faults_def no_locks_def
      open_lock_file_def set_lock_def flock_grant_def Let_def grant_def stack_of_def make_token_def)

lemma cron_example_runs:
  "\<exists>s. cron_main cron_example cron_start = Some (s, return ()) \<and> length (sw_calls (cs_world s)) = 1 \<and>
     cs_printed s = [[(''status'', PStr ''ok'')]]"
proof -
  let ?c = "config_of_payload DEFAULTS" and ?db = "[''home'', ''brain.db'']"
  have on: "cfg_sleep_cycles ?c" "cfg_sleep_schedule ?c \<noteq> []" by code_simp+
  have jrn: "py_lower ''delete'' = ''delete''" by code_simp
  obtain a token where adm: "admit_operation return no_faults quiet False 1 (cron_request cron_example ?c ?db 7) idle_world = Some (a, Inr token)"
      "aw_current a = Some token" "oa_graph_path token = Some ?db" "oa_exclusive token" "oa_cache_lease token \<noteq> None"
      "oa_model token = Some (cfg_embedding_model ?c)" "oa_embedding_dim token = Some 3"
    using cron_example_admits by blast
  let ?w = "(cs_world cron_start)\<lparr>sw_adm := a\<rparr>"
  have guard: "guard_journal (ce_sleep cron_example) ?w = (?w, Inr ())"
    by (simp add: guard_journal_def cron_example_def guard_sqlite_journal_def sqlite_wal_reset_vulnerable_def Let_def cron_start_def jrn)
  let ?args = "\<lparr>sa_db_path = ?db, sa_background = False, sa_model = Some (cfg_embedding_model ?c), sa_client = Some (Some 3)\<rparr>"
  have own: "owned_admission (ce_sleep cron_example) ?db a = Inr True"
    using adm by (simp add: owned_admission_def cron_example_def)
  have body: "admitted_cycle cron_example ?c ?db ?w = call_upstream (ce_sleep cron_example) ?args ?w"
    using guard own adm cron_example_epoch
    by (simp add: admitted_cycle_def run_sleep_cycle_def maintenance_lease_def sleep_body_def admission_mismatch_def
        call_upstream_def cron_example_def)
  obtain a3 where ex: "admit_exit no_faults False False token None a = (a3, None)" using quiet_admit_exit by blast
  obtain w2 where up: "call_upstream (ce_sleep cron_example) ?args ?w = (w2, Inr [(''status'', PStr ''ok'')])"
      "sw_adm w2 = a" "length (sw_calls w2) = 1"
    by (simp add: call_upstream_def cron_example_fields cron_start_def)
  have start: "sw_adm (cs_world cron_start) = idle_world" "cs_printed cron_start = []" by (simp_all add: cron_start_def)
  have sup: "supervised_cycle cron_example ?c ?db 7 (cs_world cron_start) =
      Some (w2\<lparr>sw_adm := a3\<rparr>, Inr [(''status'', PStr ''ok'')])"
    using adm(1) body ex up start by (simp add: supervised_cycle_def cron_example_fields)
  show ?thesis
    using sup on up(3) start
    by (simp add: cron_main_def find_hermes_home_def raised_def cron_body_def cron_cycle_def closed_supervisor_def Let_def
        cron_example_fields)
qed

theorem cron_cycle_protected_witness:
  "\<exists>s c. cron_main cron_example cron_start = Some (s, return ()) \<and> sw_calls (cs_world s) = [c] \<and>
     call_guarded (ce_sleep cron_example) ''thenlper/gte-large'' 3 [''home'', ''brain.db''] c \<and>
     own_locks (aw_kernel (sw_adm (cs_world s))) = []"
proof -
  obtain s c where s: "cron_main cron_example cron_start = Some (s, return ())" "sw_calls (cs_world s) = [c]"
    using cron_example_runs by (auto simp: length_Suc_conv)
  have m: "cfg_embedding_model (config_of_payload DEFAULTS) = ''thenlper/gte-large''" by code_simp
  have i: "locks_ok (aw_kernel (sw_adm (cs_world cron_start)))" "aw_current (sw_adm (cs_world cron_start)) = None"
      "own_locks (aw_kernel (sw_adm (cs_world cron_start))) = []" "list_all snd (cs_supervisors cron_start)"
      "sw_calls (cs_world cron_start) = []"
    using idle_ok by (simp_all add: cron_start_def idle_world_def no_locks_def own_locks_def)
  have "fair_schedule (ce_schedule cron_example)" by (simp add: cron_example_fields quiet_fair)
  from cron_cycle_protected [OF s(1) this i(1,2) _ i(4,5)] show ?thesis
    using s i(3) m by (auto simp: cron_example_fields)
qed

end
