(* ===== verification/Auxiliary.thy ===== *)
theory Auxiliary
  imports Config
begin

text \<open>
  The auxiliary language model (\<^verbatim>\<open>config.py\<close>): which role of the host may be used, and the
  bounded call through it. A call claims one of four places of the process, hands the request to
  a thread of its own and waits for 30 seconds at most; the thread gives the place back when it
  ends, however late that is.

  The host's configuration, its client and the thread library are inputs. A step is a section
  under one of the two locks, or what a thread does between two of them; the thread that is
  started touches nothing shared while it talks to the host.
\<close>

section \<open>Roles, prompts and responses\<close>

definition AUXILIARY_PROMPT_LIMIT :: nat where
  "AUXILIARY_PROMPT_LIMIT = 32000"

definition AUXILIARY_PROMPT_PREFIX :: nat where
  "AUXILIARY_PROMPT_PREFIX = 4096"

definition AUXILIARY_MAX_TOKENS :: int where
  "AUXILIARY_MAX_TOKENS = 1024"

definition AUXILIARY_DEADLINE_SECONDS :: real where
  "AUXILIARY_DEADLINE_SECONDS = 30"

definition MAX_OUTSTANDING_AUXILIARY_CALLS :: int where
  "MAX_OUTSTANDING_AUXILIARY_CALLS = 4"

definition ROUTE_FIELDS :: "string list" where
  "ROUTE_FIELDS = [''base_url'', ''api_key'', ''key_env'', ''api_key_env'', ''api_mode'']"

text \<open>The tests on one role's mapping: a provider is named, and every route field is text.\<close>

definition role_enabled :: "pydict \<Rightarrow> bool" where
  "role_enabled m \<longleftrightarrow>
     (case dict_get m ''provider'' of PStr p \<Rightarrow> py_strip p \<noteq> [] | _ \<Rightarrow> False) \<and>
     (case map_of m ''model'' of None \<Rightarrow> True | Some (PStr v) \<Rightarrow> py_strip v \<noteq> [] | Some _ \<Rightarrow> False) \<and>
     list_all (\<lambda>f. case map_of m f of None \<Rightarrow> True | Some PNone \<Rightarrow> True | Some (PStr _) \<Rightarrow> True | Some _ \<Rightarrow> False)
       ROUTE_FIELDS"

definition raw_role_mapping :: "pyval res \<Rightarrow> string \<Rightarrow> bool res" where
  "raw_role_mapping raw role =
     (case raw of
        Inl e \<Rightarrow> if isinstance e C_Exception then return False else Inl e
      | Inr (PDict d) \<Rightarrow>
          (case dict_get d ''auxiliary'' of
             PDict auxiliary \<Rightarrow>
               (case dict_get auxiliary role of PDict m \<Rightarrow> return (role_enabled m) | _ \<Rightarrow> return False)
           | _ \<Rightarrow> return False)
      | Inr _ \<Rightarrow> return False)"

definition TRUNCATED :: string where
  "TRUNCATED = [CHR 0x0A, CHR 0x0A] @ ''[Cashew truncated older prompt content.]'' @ [CHR 0x0A, CHR 0x0A]"

definition trim_auxiliary_prompt :: "string \<Rightarrow> string" where
  "trim_auxiliary_prompt prompt =
     (if length prompt \<le> AUXILIARY_PROMPT_LIMIT then prompt
      else
        let prefix = take AUXILIARY_PROMPT_PREFIX prompt;
            suffix_size = AUXILIARY_PROMPT_LIMIT - length prefix - length TRUNCATED
        in prefix @ TRUNCATED @ drop (length prompt - suffix_size) prompt)"

text \<open>
  What \<^verbatim>\<open>response.choices[0].message.content\<close> gives: an attribute, index or type error, another
  exception, or a value.
\<close>

datatype aux_response = Malformed | Broken exn | Content pyval

definition message_content :: "aux_response \<Rightarrow> string res" where
  "message_content response =
     (case response of
        Malformed \<Rightarrow> return []
      | Broken e \<Rightarrow> Inl e
      | Content (PStr content) \<Rightarrow> return (if py_strip content = [] then [] else content)
      | Content _ \<Rightarrow> return [])"

section \<open>One request\<close>

text \<open>
  \<open>ax_scope\<close> is the import and the call of \<^verbatim>\<open>set_hermes_home_override\<close>, \<open>ax_reset\<close> its undoing;
  \<open>ax_client\<close> whether there is a client, and the model.
\<close>

record aux_env =
  ax_scope :: "exn option"
  ax_raw :: "pyval res"
  ax_client :: "(bool \<times> pyval) res"
  ax_response :: "aux_response res"
  ax_reset :: "exn option"

record aux_request =
  ar_home :: path
  ar_role :: string
  ar_model :: string
  ar_prompt :: string
  ar_max_tokens :: int
  ar_timeout :: real

definition client_request :: "aux_env \<Rightarrow> path \<Rightarrow> string \<Rightarrow> string \<Rightarrow> aux_request list \<times> string option res" where
  "client_request env home role prompt =
     (case ax_client env of
        Inl e \<Rightarrow> ([], Inl e)
      | Inr (client, PStr model) \<Rightarrow>
          if \<not> client \<or> model = [] then ([], return None)
          else ([\<lparr>ar_home = home, ar_role = role, ar_model = model, ar_prompt = prompt,
                  ar_max_tokens = AUXILIARY_MAX_TOKENS, ar_timeout = AUXILIARY_DEADLINE_SECONDS\<rparr>],
                bind_res (ax_response env) (\<lambda>r. bind_res (message_content r) (\<lambda>t. return (Some t))))
      | Inr (client, _) \<Rightarrow> ([], return None))"

definition scoped_request :: "aux_env \<Rightarrow> path \<Rightarrow> string \<Rightarrow> string \<Rightarrow> aux_request list \<times> string option res" where
  "scoped_request env home role prompt =
     (case raw_role_mapping (ax_raw env) role of
        Inl e \<Rightarrow> ([], Inl e)
      | Inr False \<Rightarrow> ([], return None)
      | Inr True \<Rightarrow> client_request env home role prompt)"

text \<open>
  \<^verbatim>\<open>_run\<close> up to \<^verbatim>\<open>_finish\<close>: the requests made, the text that was stored, and an exception that
  the thread does not catch.
\<close>

definition uncaught :: "exn option \<Rightarrow> exn option" where
  "uncaught e = (case e of Some x \<Rightarrow> if isinstance x C_Exception then None else e | None \<Rightarrow> None)"

definition aux_run :: "aux_env \<Rightarrow> path \<Rightarrow> string \<Rightarrow> string \<Rightarrow> aux_request list \<times> string option \<times> exn option" where
  "aux_run env home role prompt =
     (case ax_scope env of
        Some e \<Rightarrow> ([], None, uncaught (Some e))
      | None \<Rightarrow>
          (case scoped_request env home role prompt of
             (sent, r) \<Rightarrow>
               (sent, (case r of Inr t \<Rightarrow> t | Inl _ \<Rightarrow> None),
                uncaught (case ax_reset env of Some e \<Rightarrow> Some e | None \<Rightarrow> (case r of Inl e \<Rightarrow> Some e | Inr _ \<Rightarrow> None)))))"

section \<open>Choosing the model\<close>

record aux_model =
  md_home :: path
  md_role :: string
  md_active :: bool
  md_closed :: bool

definition read_cashew_config ::
    "(string \<Rightarrow> pyfloat option) \<Rightarrow> (string \<Rightarrow> pyval option) \<Rightarrow> (path \<Rightarrow> path res) \<Rightarrow> path \<Rightarrow>
     (string \<rightharpoonup> string) \<Rightarrow> config_file \<Rightarrow> CashewConfig option res" where
  "read_cashew_config float_of json_loads fs_resolve home env file =
     (if file = Absent then return None
      else case load_config float_of json_loads fs_resolve home env file of
        Inr config \<Rightarrow> return (Some config)
      | Inl e \<Rightarrow> if isinstance e C_Exception then return None else Inl e)"

text \<open>The test of the role inside the scope of the profile; any failure there means no.\<close>

definition role_in_scope :: "aux_env \<Rightarrow> string \<Rightarrow> bool option res" where
  "role_in_scope env role =
     (let attempt = bind_res (raised (ax_scope env)) (\<lambda>_.
            let r = raw_role_mapping (ax_raw env) role in bind_res (raised (ax_reset env)) (\<lambda>_. r))
      in case attempt of
           Inr enabled \<Rightarrow> return (Some enabled)
         | Inl e \<Rightarrow> if isinstance e C_Exception then return None else Inl e)"

text \<open>\<^verbatim>\<open>resolve_model_fn\<close>; \<open>stored\<close> is what \<open>read_cashew_config\<close> gives when no configuration is passed.\<close>

definition resolve_model_fn ::
    "aux_env \<Rightarrow> path \<Rightarrow> CashewConfig option \<Rightarrow> CashewConfig option res \<Rightarrow> aux_model option res" where
  "resolve_model_fn env home config stored =
     bind_res (if config = None then stored else return config) (\<lambda>config.
       case config of
         None \<Rightarrow> return None
       | Some config \<Rightarrow>
           (case cfg_llm_aux_role config of
              None \<Rightarrow> return None
            | Some role \<Rightarrow>
                if role = [] then return None
                else bind_res (role_in_scope env role) (\<lambda>enabled.
                  if enabled = Some True
                  then return (Some \<lparr>md_home = home, md_role = role, md_active = False, md_closed = False\<rparr>)
                  else return None)))"

definition build_model_fn ::
    "aux_env \<Rightarrow> path option \<Rightarrow> CashewConfig option \<Rightarrow> CashewConfig option res \<Rightarrow> aux_model option res" where
  "build_model_fn env home config stored =
     (case config of
        None \<Rightarrow> return None
      | Some c \<Rightarrow>
          if cfg_llm_aux_role c = None \<or> cfg_llm_aux_role c = Some [] then return None
          else case home of None \<Rightarrow> return None | Some h \<Rightarrow> resolve_model_fn env h config stored)"

section \<open>Calls\<close>

text \<open>
  The threads of one call: its caller, and the worker it starts. Both may run \<^verbatim>\<open>_finish\<close>, whose
  three parts are the section under the callable's lock, the one under the lock of the process,
  and the event.
\<close>

datatype finish_pc = F_lock | F_gate | F_event

datatype aux_worker = W_none | W_run | W_finish finish_pc | W_end

datatype aux_caller = K_start | K_finish finish_pc | K_wait | K_return string | K_raise exn

record aux_call =
  cl_model :: nat
  cl_prompt :: string
  cl_finished :: bool
  cl_event :: bool
  cl_text :: string
  cl_worker :: aux_worker
  cl_caller :: aux_caller

record aux_sys =
  as_outstanding :: int
  as_models :: "aux_model list"
  as_calls :: "aux_call list"
  as_sent :: "(pyval res \<times> aux_request) list"

definition claim_auxiliary_call :: "int \<Rightarrow> int option" where
  "claim_auxiliary_call outstanding =
     (if outstanding \<ge> MAX_OUTSTANDING_AUXILIARY_CALLS then None else Some (outstanding + 1))"

definition release_auxiliary_call :: "int \<Rightarrow> int" where
  "release_auxiliary_call outstanding = outstanding - 1"

abbreviation upd_call :: "nat \<Rightarrow> (aux_call \<Rightarrow> aux_call) \<Rightarrow> aux_sys \<Rightarrow> aux_sys" where
  "upd_call c f s \<equiv> s\<lparr>as_calls := (as_calls s)[c := f (as_calls s ! c)]\<rparr>"

abbreviation upd_model :: "nat \<Rightarrow> (aux_model \<Rightarrow> aux_model) \<Rightarrow> aux_sys \<Rightarrow> aux_sys" where
  "upd_model i f s \<equiv> s\<lparr>as_models := (as_models s)[i := f (as_models s ! i)]\<rparr>"

definition close_model :: "nat \<Rightarrow> aux_sys \<Rightarrow> aux_sys" where
  "close_model i s = upd_model i (md_closed_update (\<lambda>_. True)) s"

definition new_call :: "nat \<Rightarrow> string \<Rightarrow> aux_call" where
  "new_call i prompt = \<lparr>cl_model = i, cl_prompt = prompt, cl_finished = False, cl_event = False, cl_text = [],
     cl_worker = W_none, cl_caller = K_start\<rparr>"

text \<open>The section of \<^verbatim>\<open>__call__\<close> under the lock; \<open>None\<close> is a call that answers the empty text at once.\<close>

definition call_begin :: "nat \<Rightarrow> string \<Rightarrow> aux_sys \<Rightarrow> aux_sys option" where
  "call_begin i prompt s =
     (let bounded_prompt = trim_auxiliary_prompt prompt; m = as_models s ! i
      in if md_closed m \<or> md_active m then None
         else case claim_auxiliary_call (as_outstanding s) of
           None \<Rightarrow> None
         | Some n \<Rightarrow>
             Some (upd_model i (md_active_update (\<lambda>_. True))
               (s\<lparr>as_outstanding := n, as_calls := as_calls s @ [new_call i bounded_prompt]\<rparr>)))"

definition start_worker :: "exn option \<Rightarrow> aux_call \<Rightarrow> aux_call" where
  "start_worker failure cl =
     (case failure of
        None \<Rightarrow> cl\<lparr>cl_worker := W_run, cl_caller := K_wait\<rparr>
      | Some e \<Rightarrow> cl\<lparr>cl_caller := if isinstance e C_Exception then K_finish F_lock else K_raise e\<rparr>)"

definition run_aux_worker :: "aux_env \<Rightarrow> nat \<Rightarrow> aux_sys \<Rightarrow> aux_sys" where
  "run_aux_worker env c s =
     (let cl = as_calls s ! c; m = as_models s ! cl_model cl
      in case aux_run env (md_home m) (md_role m) (cl_prompt cl) of
           (sent, t, _) \<Rightarrow>
             (upd_call c (\<lambda>cl. cl\<lparr>cl_text := (case t of Some x \<Rightarrow> x | None \<Rightarrow> cl_text cl), cl_worker := W_finish F_lock\<rparr>) s)
               \<lparr>as_sent := as_sent s @ map (Pair (ax_raw env)) sent\<rparr>)"

text \<open>A part of \<^verbatim>\<open>_finish\<close> of call \<open>c\<close>, and where its thread goes on.\<close>

fun finish_part :: "finish_pc \<Rightarrow> nat \<Rightarrow> aux_sys \<Rightarrow> aux_sys \<times> finish_pc option" where
  "finish_part F_lock c s =
     (let cl = as_calls s ! c
      in if cl_finished cl then (s, None)
         else (upd_model (cl_model cl) (md_active_update (\<lambda>_. False)) (upd_call c (cl_finished_update (\<lambda>_. True)) s),
               Some F_gate))"
| "finish_part F_gate c s = (s\<lparr>as_outstanding := release_auxiliary_call (as_outstanding s)\<rparr>, Some F_event)"
| "finish_part F_event c s = (upd_call c (cl_event_update (\<lambda>_. True)) s, None)"

definition worker_finish :: "finish_pc \<Rightarrow> nat \<Rightarrow> aux_sys \<Rightarrow> aux_sys" where
  "worker_finish f c s =
     (case finish_part f c s of
        (s, k) \<Rightarrow> upd_call c (cl_worker_update (\<lambda>_. case k of None \<Rightarrow> W_end | Some g \<Rightarrow> W_finish g)) s)"

definition caller_finish :: "finish_pc \<Rightarrow> nat \<Rightarrow> aux_sys \<Rightarrow> aux_sys" where
  "caller_finish f c s =
     (case finish_part f c s of
        (s, k) \<Rightarrow> upd_call c (cl_caller_update (\<lambda>_. case k of None \<Rightarrow> K_return [] | Some g \<Rightarrow> K_finish g)) s)"

text \<open>The end of the wait: the event is set, or the time is up.\<close>

definition call_answer :: "aux_call \<Rightarrow> aux_call" where
  "call_answer cl = cl\<lparr>cl_caller := K_return (if cl_event cl then cl_text cl else [])\<rparr>"

inductive aux_step :: "aux_sys \<Rightarrow> aux_sys \<Rightarrow> bool" where
  ax_resolved: "build_model_fn env home config stored = Inr (Some m) \<Longrightarrow>
     aux_step s (s\<lparr>as_models := as_models s @ [m]\<rparr>)"
| ax_closed: "i < length (as_models s) \<Longrightarrow> aux_step s (close_model i s)"
| ax_called: "i < length (as_models s) \<Longrightarrow> call_begin i prompt s = Some t \<Longrightarrow> aux_step s t"
| ax_started: "c < length (as_calls s) \<Longrightarrow> cl_caller (as_calls s ! c) = K_start \<Longrightarrow>
     aux_step s (upd_call c (start_worker failure) s)"
| ax_ran: "c < length (as_calls s) \<Longrightarrow> cl_worker (as_calls s ! c) = W_run \<Longrightarrow> aux_step s (run_aux_worker env c s)"
| ax_worker: "c < length (as_calls s) \<Longrightarrow> cl_worker (as_calls s ! c) = W_finish f \<Longrightarrow> aux_step s (worker_finish f c s)"
| ax_caller: "c < length (as_calls s) \<Longrightarrow> cl_caller (as_calls s ! c) = K_finish f \<Longrightarrow> aux_step s (caller_finish f c s)"
| ax_waited: "c < length (as_calls s) \<Longrightarrow> cl_caller (as_calls s ! c) = K_wait \<Longrightarrow> aux_step s (upd_call c call_answer s)"

definition no_calls :: aux_sys where
  "no_calls = \<lparr>as_outstanding = 0, as_models = [], as_calls = [], as_sent = []\<rparr>"

section \<open>The budget of calls\<close>

text \<open>
  What holds of one call: who of its two threads is where, and whether it is finished.
\<close>

fun phase_ok :: "aux_worker \<Rightarrow> aux_caller \<Rightarrow> bool \<Rightarrow> bool" where
  "phase_ok W_none K_start f = (\<not> f)"
| "phase_ok W_none (K_finish F_lock) f = (\<not> f)"
| "phase_ok W_none (K_finish _) f = f"
| "phase_ok W_none (K_raise _) f = (\<not> f)"
| "phase_ok W_none (K_return _) f = f"
| "phase_ok W_none K_wait f = False"
| "phase_ok W_run k f = (\<not> f \<and> (k = K_wait \<or> (\<exists>t. k = K_return t)))"
| "phase_ok (W_finish F_lock) k f = (\<not> f \<and> (k = K_wait \<or> (\<exists>t. k = K_return t)))"
| "phase_ok (W_finish _) k f = (f \<and> (k = K_wait \<or> (\<exists>t. k = K_return t)))"
| "phase_ok W_end k f = (f \<and> (k = K_wait \<or> (\<exists>t. k = K_return t)))"

definition aux_text_ok :: "string \<Rightarrow> bool" where
  "aux_text_ok t \<longleftrightarrow> t = [] \<or> py_strip t \<noteq> []"

definition call_ok :: "aux_call \<Rightarrow> bool" where
  "call_ok cl \<longleftrightarrow> phase_ok (cl_worker cl) (cl_caller cl) (cl_finished cl) \<and>
     length (cl_prompt cl) \<le> AUXILIARY_PROMPT_LIMIT \<and> aux_text_ok (cl_text cl) \<and>
     (\<forall>t. cl_caller cl = K_return t \<longrightarrow> aux_text_ok t)"

definition unreleased :: "aux_call \<Rightarrow> bool" where
  "unreleased cl \<longleftrightarrow> \<not> cl_finished cl \<or> cl_worker cl = W_finish F_gate \<or> cl_caller cl = K_finish F_gate"

definition unfinished_of :: "nat \<Rightarrow> aux_call \<Rightarrow> bool" where
  "unfinished_of i cl \<longleftrightarrow> cl_model cl = i \<and> \<not> cl_finished cl"

text \<open>A request the host's user has asked for: the role is there and names a provider.\<close>

definition explicitly_enabled :: "pyval res \<Rightarrow> string \<Rightarrow> bool" where
  "explicitly_enabled raw role \<longleftrightarrow>
     (\<exists>d a m p. raw = Inr (PDict d) \<and> map_of d ''auxiliary'' = Some (PDict a) \<and> map_of a role = Some (PDict m) \<and>
        map_of m ''provider'' = Some (PStr p) \<and> py_strip p \<noteq> [])"

definition sent_ok :: "aux_model list \<Rightarrow> pyval res \<times> aux_request \<Rightarrow> bool" where
  "sent_ok models = (\<lambda>(raw, r). explicitly_enabled raw (ar_role r) \<and>
     (\<exists>m \<in> set models. md_home m = ar_home r \<and> md_role m = ar_role r) \<and> ar_model r \<noteq> [] \<and>
     length (ar_prompt r) \<le> AUXILIARY_PROMPT_LIMIT \<and> ar_max_tokens r = AUXILIARY_MAX_TOKENS \<and>
     ar_timeout r = AUXILIARY_DEADLINE_SECONDS)"

text \<open>The fields of a callable that never change.\<close>

abbreviation model_names :: "aux_model list \<Rightarrow> (path \<times> string) set" where
  "model_names models \<equiv> (\<lambda>m. (md_home m, md_role m)) ` set models"

lemma sent_ok_mono: "model_names ms \<subseteq> model_names ms' \<Longrightarrow> sent_ok ms x \<Longrightarrow> sent_ok ms' x"
  by (fastforce simp: sent_ok_def split: prod.splits)

definition aux_inv :: "aux_sys \<Rightarrow> bool" where
  "aux_inv s \<longleftrightarrow>
     as_outstanding s = int (length (filter unreleased (as_calls s))) \<and>
     as_outstanding s \<le> MAX_OUTSTANDING_AUXILIARY_CALLS \<and>
     (\<forall>cl \<in> set (as_calls s). call_ok cl \<and> cl_model cl < length (as_models s)) \<and>
     (\<forall>i < length (as_models s).
        length (filter (unfinished_of i) (as_calls s)) = of_bool (md_active (as_models s ! i))) \<and>
     (\<forall>x \<in> set (as_sent s). sent_ok (as_models s) x)"

lemma count_update:
  "c < length xs \<Longrightarrow>
   int (length (filter P (xs[c := y]))) = int (length (filter P xs)) - of_bool (P (xs ! c)) + of_bool (P y)"
proof (induction xs arbitrary: c)
  case (Cons x xs)
  then show ?case by (cases c) auto
qed simp

lemma trim_length: "length (trim_auxiliary_prompt prompt) \<le> AUXILIARY_PROMPT_LIMIT"
  by (simp add: trim_auxiliary_prompt_def AUXILIARY_PROMPT_LIMIT_def AUXILIARY_PROMPT_PREFIX_def TRUNCATED_def Let_def)

lemma trim_keeps:
  assumes "AUXILIARY_PROMPT_LIMIT < length prompt"
  shows "\<exists>u v w. prompt = u @ w @ v \<and> trim_auxiliary_prompt prompt = u @ TRUNCATED @ v \<and>
    length u = AUXILIARY_PROMPT_PREFIX \<and> length (trim_auxiliary_prompt prompt) = AUXILIARY_PROMPT_LIMIT"
proof -
  let ?n = "AUXILIARY_PROMPT_LIMIT - AUXILIARY_PROMPT_PREFIX - length TRUNCATED"
  let ?m = "length prompt - ?n"
  have m: "AUXILIARY_PROMPT_PREFIX \<le> ?m" "?m \<le> length prompt" "AUXILIARY_PROMPT_PREFIX \<le> length prompt"
    using assms by (simp_all add: AUXILIARY_PROMPT_LIMIT_def AUXILIARY_PROMPT_PREFIX_def TRUNCATED_def)
  have t: "trim_auxiliary_prompt prompt = take AUXILIARY_PROMPT_PREFIX prompt @ TRUNCATED @ drop ?m prompt"
    using assms m(3) by (simp add: trim_auxiliary_prompt_def Let_def min_absorb2)
  have "prompt = take AUXILIARY_PROMPT_PREFIX prompt @ drop AUXILIARY_PROMPT_PREFIX (take ?m prompt) @ drop ?m prompt"
    using m(1) by (metis append.assoc append_take_drop_id min.absorb1 take_take)
  moreover have "length (trim_auxiliary_prompt prompt) = AUXILIARY_PROMPT_LIMIT"
    using assms m by (simp add: t) (simp add: AUXILIARY_PROMPT_LIMIT_def AUXILIARY_PROMPT_PREFIX_def TRUNCATED_def)
  ultimately show ?thesis
    using t m(3) by (metis length_take min.absorb2)
qed

lemma aux_inv_call:
  assumes "aux_inv s" "c < length (as_calls s)" "call_ok y" "cl_model y = cl_model (as_calls s ! c)"
    and "cl_finished y = cl_finished (as_calls s ! c)" "unreleased y = unreleased (as_calls s ! c)"
  shows "aux_inv (s\<lparr>as_calls := (as_calls s)[c := y]\<rparr>)"
proof -
  have u: "length (filter unreleased ((as_calls s)[c := y])) = length (filter unreleased (as_calls s))"
    using count_update [OF assms(2), of unreleased y] assms(6) by simp
  have f: "length (filter (unfinished_of i) ((as_calls s)[c := y])) = length (filter (unfinished_of i) (as_calls s))" for i
    using count_update [OF assms(2), of "unfinished_of i" y] assms(4,5) by (simp add: unfinished_of_def)
  have "\<forall>cl \<in> set ((as_calls s)[c := y]). call_ok cl \<and> cl_model cl < length (as_models s)"
    using assms(1-4) by (auto simp: aux_inv_def dest!: set_update_subset_insert [THEN subsetD])
  then show ?thesis
    using assms(1) u f by (simp add: aux_inv_def)
qed

lemma call_okD: "aux_inv s \<Longrightarrow> c < length (as_calls s) \<Longrightarrow> call_ok (as_calls s ! c) \<and> cl_model (as_calls s ! c) < length (as_models s)"
  by (simp add: aux_inv_def)

lemma model_names_update:
  "i < length ms \<Longrightarrow> md_home m = md_home (ms ! i) \<Longrightarrow> md_role m = md_role (ms ! i) \<Longrightarrow> model_names (ms[i := m]) = model_names ms"
  by (metis (no_types, lifting) list.set_map list_update_id map_update)

lemma aux_inv_begin:
  assumes "aux_inv s" "i < length (as_models s)" "call_begin i prompt s = Some t"
  shows "aux_inv t"
proof -
  let ?m = "as_models s ! i" and ?cl = "new_call i (trim_auxiliary_prompt prompt)"
  have n: "\<not> md_active ?m" "as_outstanding s < MAX_OUTSTANDING_AUXILIARY_CALLS"
    and t: "t = s\<lparr>as_outstanding := as_outstanding s + 1, as_models := (as_models s)[i := ?m\<lparr>md_active := True\<rparr>],
      as_calls := as_calls s @ [?cl]\<rparr>"
    using assms(3) by (auto simp: call_begin_def Let_def claim_auxiliary_call_def split: if_splits)
  have ok: "call_ok ?cl"
    using trim_length by (simp add: new_call_def call_ok_def aux_text_ok_def)
  have u: "unreleased ?cl" "unfinished_of j ?cl \<longleftrightarrow> j = i" for j
    by (auto simp: new_call_def unreleased_def unfinished_of_def)
  have nm: "model_names ((as_models s)[i := ?m\<lparr>md_active := True\<rparr>]) \<supseteq> model_names (as_models s)"
    using model_names_update [of i "as_models s" "?m\<lparr>md_active := True\<rparr>"] assms(2) by simp
  have a: "length (filter (unfinished_of j) (as_calls s @ [?cl])) = of_bool (md_active ((as_models s)[i := ?m\<lparr>md_active := True\<rparr>] ! j))"
    if "j < length (as_models s)" for j
    using assms(1) that n(1) u(2) by (cases "j = i") (auto simp: aux_inv_def nth_list_update)
  have o: "as_outstanding s + 1 = int (length (filter unreleased (as_calls s @ [?cl])))"
    using assms(1) u(1) by (simp add: aux_inv_def)
  have c: "\<forall>cl \<in> set (as_calls s @ [?cl]). call_ok cl \<and> cl_model cl < length (as_models s)"
    using assms(1,2) ok by (auto simp: aux_inv_def) (simp add: new_call_def)
  have x: "\<forall>x \<in> set (as_sent s). sent_ok ((as_models s)[i := ?m\<lparr>md_active := True\<rparr>]) x"
    using assms(1) sent_ok_mono [OF nm] by (simp add: aux_inv_def)
  show ?thesis
    unfolding t aux_inv_def using o c a x n(2) by simp
qed

lemma raw_role_explicit: "raw_role_mapping raw role = Inr True \<Longrightarrow> explicitly_enabled raw role"
  by (auto simp: raw_role_mapping_def explicitly_enabled_def role_enabled_def dict_get_def
      split: sum.splits pyval.splits option.splits if_splits)

lemma message_text: "message_content r = Inr t \<Longrightarrow> aux_text_ok t"
  by (auto simp: message_content_def aux_text_ok_def split: aux_response.splits pyval.splits if_splits)

lemma client_request_sent:
  "client_request env home role prompt = (sent, q) \<Longrightarrow>
   (\<forall>r \<in> set sent. ar_home r = home \<and> ar_role r = role \<and> ar_prompt r = prompt \<and> ar_model r \<noteq> [] \<and>
      ar_max_tokens r = AUXILIARY_MAX_TOKENS \<and> ar_timeout r = AUXILIARY_DEADLINE_SECONDS) \<and>
   (\<forall>x. q = Inr (Some x) \<longrightarrow> aux_text_ok x)"
  by (auto simp: client_request_def res_simps message_text split: sum.splits pyval.splits if_splits)

lemma aux_run_sent:
  assumes "aux_run env home role prompt = (sent, t, u)" "length prompt \<le> AUXILIARY_PROMPT_LIMIT"
    and "m \<in> set models" "md_home m = home" "md_role m = role"
  shows "(\<forall>r \<in> set sent. sent_ok models (ax_raw env, r)) \<and> (\<forall>x. t = Some x \<longrightarrow> aux_text_ok x)"
proof (cases "ax_scope env = None \<and> raw_role_mapping (ax_raw env) role = Inr True")
  case True
  obtain q where q: "client_request env home role prompt = (sent, q)" "t = (case q of Inr t \<Rightarrow> t | Inl _ \<Rightarrow> None)"
    using assms(1) True by (auto simp: aux_run_def scoped_request_def split: prod.splits)
  have e: "explicitly_enabled (ax_raw env) role" using True raw_role_explicit by blast
  show ?thesis
    using client_request_sent [OF q(1)] e assms(2-5) by (auto simp: sent_ok_def q(2) split: sum.splits)
next
  case False
  then have "sent = [] \<and> t = None"
    using assms(1) by (auto simp: aux_run_def scoped_request_def split: option.splits sum.splits bool.splits)
  then show ?thesis by simp
qed

lemma aux_inv_run:
  assumes "aux_inv s" "c < length (as_calls s)" "cl_worker (as_calls s ! c) = W_run"
  shows "aux_inv (run_aux_worker env c s)"
proof -
  let ?cl = "as_calls s ! c"
  let ?m = "as_models s ! cl_model ?cl"
  obtain sent t u where run: "aux_run env (md_home ?m) (md_role ?m) (cl_prompt ?cl) = (sent, t, u)"
    by (cases "aux_run env (md_home ?m) (md_role ?m) (cl_prompt ?cl)") auto
  let ?y = "?cl\<lparr>cl_text := (case t of Some x \<Rightarrow> x | None \<Rightarrow> cl_text ?cl), cl_worker := W_finish F_lock\<rparr>"
  let ?s = "s\<lparr>as_calls := (as_calls s)[c := ?y]\<rparr>"
  note ok = call_okD [OF assms(1,2)]
  have sent: "\<forall>r \<in> set sent. sent_ok (as_models s) (ax_raw env, r)" and t: "\<forall>x. t = Some x \<longrightarrow> aux_text_ok x"
    using aux_run_sent [OF run, of ?m "as_models s"] ok by (auto simp: call_ok_def)
  have "call_ok ?y" using ok assms(3) t by (auto simp: call_ok_def split: option.split)
  then have "aux_inv ?s"
    using assms(3) by (intro aux_inv_call [OF assms(1,2)]) (simp_all add: unreleased_def)
  moreover have "run_aux_worker env c s = ?s\<lparr>as_sent := as_sent s @ map (Pair (ax_raw env)) sent\<rparr>"
    by (simp add: run_aux_worker_def Let_def run)
  ultimately show ?thesis using sent by (auto simp: aux_inv_def)
qed

text \<open>
  The three parts of \<^verbatim>\<open>_finish\<close>, for the thread of a call whose place \<open>g\<close> sets: the caller or the
  worker.
\<close>

lemma aux_inv_gate:
  assumes "aux_inv s" "c < length (as_calls s)" "call_ok y" "cl_model y = cl_model (as_calls s ! c)"
    and "cl_finished y = cl_finished (as_calls s ! c)" "unreleased (as_calls s ! c)" "\<not> unreleased y"
  shows "aux_inv (s\<lparr>as_outstanding := as_outstanding s - 1, as_calls := (as_calls s)[c := y]\<rparr>)"
proof -
  have u: "int (length (filter unreleased ((as_calls s)[c := y]))) = int (length (filter unreleased (as_calls s))) - 1"
    using count_update [OF assms(2), of unreleased y] assms(6,7) by simp
  have f: "length (filter (unfinished_of i) ((as_calls s)[c := y])) = length (filter (unfinished_of i) (as_calls s))" for i
    using count_update [OF assms(2), of "unfinished_of i" y] assms(4,5) by (simp add: unfinished_of_def)
  have "\<forall>cl \<in> set ((as_calls s)[c := y]). call_ok cl \<and> cl_model cl < length (as_models s)"
    using assms(1-4) by (auto simp: aux_inv_def dest!: set_update_subset_insert [THEN subsetD])
  then show ?thesis
    using assms(1) u f by (simp add: aux_inv_def)
qed

lemma aux_inv_lock:
  assumes "aux_inv s" "c < length (as_calls s)" "call_ok y" "cl_model y = cl_model (as_calls s ! c)"
    and "\<not> cl_finished (as_calls s ! c)" "cl_finished y" "unreleased y"
    and m: "m = as_models s ! cl_model y"
  shows "aux_inv (s\<lparr>as_models := (as_models s)[cl_model y := m\<lparr>md_active := False\<rparr>], as_calls := (as_calls s)[c := y]\<rparr>)"
proof -
  let ?i = "cl_model y" and ?ms = "(as_models s)[cl_model y := m\<lparr>md_active := False\<rparr>]"
  have i: "?i < length (as_models s)" using call_okD [OF assms(1,2)] assms(4) by simp
  have u: "int (length (filter unreleased ((as_calls s)[c := y]))) = int (length (filter unreleased (as_calls s)))"
    using count_update [OF assms(2), of unreleased y] assms(5,7) by (simp add: unreleased_def)
  have f: "int (length (filter (unfinished_of j) ((as_calls s)[c := y]))) =
      int (length (filter (unfinished_of j) (as_calls s))) - of_bool (j = ?i)" for j
    using count_update [OF assms(2), of "unfinished_of j" y] assms(4-6) by (auto simp: unfinished_of_def)
  have o: "length (filter (unfinished_of j) (as_calls s)) = of_bool (md_active (as_models s ! j))"
    if "j < length (as_models s)" for j using assms(1) that by (simp add: aux_inv_def)
  have "0 \<le> int (length (filter (unfinished_of ?i) ((as_calls s)[c := y])))" by simp
  then have "md_active (as_models s ! ?i)" using f [of ?i] o [OF i] by (simp split: if_splits)
  then have a: "length (filter (unfinished_of j) ((as_calls s)[c := y])) = of_bool (md_active (?ms ! j))"
    if "j < length (as_models s)" for j
  proof (cases "j = ?i")
    case True
    then show ?thesis using f [of j] o [OF that] that \<open>md_active (as_models s ! ?i)\<close> by simp
  next
    case False
    then have "length (filter (unfinished_of j) ((as_calls s)[c := y])) = length (filter (unfinished_of j) (as_calls s))"
      using f [of j] by simp
    then show ?thesis using o [OF that] False by simp
  qed
  have c: "\<forall>cl \<in> set ((as_calls s)[c := y]). call_ok cl \<and> cl_model cl < length (as_models s)"
    using assms(1-3) i by (auto simp: aux_inv_def dest!: set_update_subset_insert [THEN subsetD])
  have "model_names ?ms = model_names (as_models s)" using i by (intro model_names_update) (simp_all add: m)
  then have x: "\<forall>x \<in> set (as_sent s). sent_ok ?ms x"
    using assms(1) sent_ok_mono [of "as_models s" ?ms] by (simp add: aux_inv_def)
  show ?thesis
    using assms(1) u a c x by (simp add: aux_inv_def)
qed

lemma aux_inv_worker:
  assumes "aux_inv s" "c < length (as_calls s)" "cl_worker (as_calls s ! c) = W_finish f"
  shows "aux_inv (worker_finish f c s)"
proof -
  let ?cl = "as_calls s ! c"
  note ok = call_okD [OF assms(1,2)]
  show ?thesis
  proof (cases f)
    case F_lock
    let ?y = "?cl\<lparr>cl_finished := True, cl_worker := W_finish F_gate\<rparr>"
    have "\<not> cl_finished ?cl" "call_ok ?y"
      using ok assms(3) F_lock by (auto simp: call_ok_def)
    then show ?thesis
      using aux_inv_lock [OF assms(1,2), of ?y] assms(2)
      by (simp add: worker_finish_def F_lock Let_def unreleased_def)
  next
    case F_gate
    let ?y = "?cl\<lparr>cl_worker := W_finish F_event\<rparr>"
    have "call_ok ?y" "cl_finished ?cl" "cl_caller ?cl \<noteq> K_finish F_gate"
      using ok assms(3) F_gate by (auto simp: call_ok_def)
    then show ?thesis
      using aux_inv_gate [OF assms(1,2), of ?y] assms(3)
      by (simp add: worker_finish_def F_gate unreleased_def release_auxiliary_call_def)
  next
    case F_event
    let ?y = "?cl\<lparr>cl_event := True, cl_worker := W_end\<rparr>"
    have "call_ok ?y" using ok assms(3) F_event by (auto simp: call_ok_def)
    then show ?thesis
      using aux_inv_call [OF assms(1,2), of ?y] assms(2,3) by (simp add: worker_finish_def F_event unreleased_def)
  qed
qed

lemma phase_finish: "phase_ok w (K_finish f) b \<Longrightarrow> w = W_none \<and> b = (f \<noteq> F_lock)"
  by (cases w; cases f) (auto elim: phase_ok.elims)

lemma aux_inv_caller:
  assumes "aux_inv s" "c < length (as_calls s)" "cl_caller (as_calls s ! c) = K_finish f"
  shows "aux_inv (caller_finish f c s)"
proof -
  let ?cl = "as_calls s ! c"
  note ok = call_okD [OF assms(1,2)]
  then have w: "cl_worker ?cl = W_none" "cl_finished ?cl = (f \<noteq> F_lock)"
    using assms(3) phase_finish by (auto simp: call_ok_def)
  show ?thesis
  proof (cases f)
    case F_lock
    let ?y = "?cl\<lparr>cl_finished := True, cl_caller := K_finish F_gate\<rparr>"
    have "call_ok ?y" using ok w by (simp add: call_ok_def)
    then show ?thesis
      using aux_inv_lock [OF assms(1,2), of ?y] assms(2) w
      by (simp add: caller_finish_def F_lock Let_def unreleased_def)
  next
    case F_gate
    let ?y = "?cl\<lparr>cl_caller := K_finish F_event\<rparr>"
    have "call_ok ?y" using ok w F_gate by (simp add: call_ok_def)
    then show ?thesis
      using aux_inv_gate [OF assms(1,2), of ?y] assms(3) w
      by (simp add: caller_finish_def F_gate unreleased_def release_auxiliary_call_def)
  next
    case F_event
    let ?y = "?cl\<lparr>cl_event := True, cl_caller := K_return []\<rparr>"
    have "call_ok ?y" using ok w F_event by (simp add: call_ok_def aux_text_ok_def)
    then show ?thesis
      using aux_inv_call [OF assms(1,2), of ?y] assms(2,3) w by (simp add: caller_finish_def F_event unreleased_def)
  qed
qed

lemma aux_inv_close: "aux_inv s \<Longrightarrow> i < length (as_models s) \<Longrightarrow> aux_inv (close_model i s)"
proof -
  assume s: "aux_inv s" "i < length (as_models s)"
  let ?ms = "(as_models s)[i := (as_models s ! i)\<lparr>md_closed := True\<rparr>]"
  have "model_names ?ms = model_names (as_models s)" using s(2) by (intro model_names_update) simp_all
  then have "\<forall>x \<in> set (as_sent s). sent_ok ?ms x"
    using s(1) sent_ok_mono [of "as_models s" ?ms] by (simp add: aux_inv_def)
  moreover have "md_active (?ms ! j) = md_active (as_models s ! j)" for j
    using s(2) by (cases "j = i") simp_all
  ultimately show ?thesis using s by (simp add: close_model_def aux_inv_def)
qed

lemma build_model_new: "build_model_fn env home config stored = Inr (Some m) \<Longrightarrow> \<not> md_active m"
  by (auto simp: build_model_fn_def resolve_model_fn_def res_simps split: if_splits option.splits)

lemma aux_inv_resolved:
  assumes "aux_inv s" "\<not> md_active m"
  shows "aux_inv (s\<lparr>as_models := as_models s @ [m]\<rparr>)"
proof -
  have "\<forall>x \<in> set (as_sent s). sent_ok (as_models s @ [m]) x"
    using assms(1) sent_ok_mono [of "as_models s" "as_models s @ [m]"] by (simp add: aux_inv_def subset_insertI)
  moreover have "length (filter (unfinished_of i) (as_calls s)) = of_bool (md_active ((as_models s @ [m]) ! i))"
    if "i < Suc (length (as_models s))" for i
  proof (cases "i = length (as_models s)")
    case True
    have "filter (unfinished_of i) (as_calls s) = []"
      using assms(1) by (auto simp: filter_empty_conv unfinished_of_def True aux_inv_def)
    then show ?thesis using assms(2) True by simp
  next
    case False
    then show ?thesis using assms(1) that by (simp add: aux_inv_def nth_append)
  qed
  ultimately show ?thesis using assms(1) by (auto simp: aux_inv_def)
qed

interpretation aux: invariant_system "\<lambda>s. s = no_calls" aux_step aux_inv
proof
  show "aux_inv s" if "s = no_calls" for s
    using that by (simp add: no_calls_def aux_inv_def MAX_OUTSTANDING_AUXILIARY_CALLS_def)
  show "aux_inv t" if "aux_inv s" "aux_step s t" for s t
    using that(2)
  proof cases
    case (ax_started c failure)
    have "call_ok (start_worker failure (as_calls s ! c))" "cl_worker (as_calls s ! c) = W_none"
      using call_okD [OF that(1) ax_started(2)] ax_started(3)
      by (auto simp: call_ok_def start_worker_def elim: phase_ok.elims split: option.split)
    then show ?thesis
      unfolding ax_started(1) using ax_started
      by (intro aux_inv_call [OF that(1)]) (auto simp: start_worker_def unreleased_def split: option.split)
  next
    case (ax_waited c)
    have "call_ok (call_answer (as_calls s ! c))"
      using call_okD [OF that(1) ax_waited(2)] ax_waited(3)
      by (auto simp: call_ok_def call_answer_def aux_text_ok_def elim!: phase_ok.elims)
    then show ?thesis
      unfolding ax_waited(1) using ax_waited
      by (intro aux_inv_call [OF that(1)]) (auto simp: call_answer_def unreleased_def)
  qed (use that(1) in \<open>auto intro: aux_inv_close aux_inv_begin aux_inv_run aux_inv_worker aux_inv_caller aux_inv_resolved dest: build_model_new\<close>)
qed

definition call_over :: "aux_call \<Rightarrow> bool" where
  "call_over cl \<longleftrightarrow> (\<exists>t. cl_caller cl = K_return t) \<and> cl_worker cl \<in> {W_none, W_end}"

lemma filter_length_mono: "(\<And>x. x \<in> set xs \<Longrightarrow> P x \<Longrightarrow> Q x) \<Longrightarrow> length (filter P xs) \<le> length (filter Q xs)"
  by (induction xs) (auto intro: le_SucI)

lemma running_unfinished: "call_ok cl \<Longrightarrow> cl_worker cl = W_run \<Longrightarrow> \<not> cl_finished cl"
  by (auto simp: call_ok_def)

lemma call_over_released: "call_ok cl \<Longrightarrow> call_over cl \<Longrightarrow> cl_finished cl \<and> \<not> unreleased cl"
  by (auto simp: call_ok_def call_over_def unreleased_def)

text \<open>
  C35: In every interleaving of any number of callables, their callers and their workers, whatever
  the host does and however late it answers: at most four requests of the process are under way,
  at most one per callable, and the counter says how many calls have not given their place back;
  when all calls are over it is zero and every callable is free again.
\<close>

theorem aux_calls_bounded:
  assumes "aux_step\<^sup>*\<^sup>* no_calls s"
  shows "as_outstanding s = int (length (filter unreleased (as_calls s))) \<and> as_outstanding s \<le> 4 \<and>
    length (filter (\<lambda>cl. cl_worker cl = W_run) (as_calls s)) \<le> 4 \<and>
    (\<forall>i. length (filter (\<lambda>cl. cl_model cl = i \<and> cl_worker cl = W_run) (as_calls s)) \<le> 1) \<and>
    (list_all call_over (as_calls s) \<longrightarrow> as_outstanding s = 0 \<and> (\<forall>m \<in> set (as_models s). \<not> md_active m))"
proof -
  have inv: "aux_inv s" by (rule aux.inv_reachable [OF refl assms])
  then have ok: "call_ok cl" "cl_model cl < length (as_models s)" if "cl \<in> set (as_calls s)" for cl
    using that by (simp_all add: aux_inv_def)
  have one: "length (filter (unfinished_of i) (as_calls s)) = of_bool (md_active (as_models s ! i))"
    if "i < length (as_models s)" for i using inv that by (simp add: aux_inv_def)
  have four: "as_outstanding s = int (length (filter unreleased (as_calls s)))" "as_outstanding s \<le> 4"
    using inv by (simp_all add: aux_inv_def MAX_OUTSTANDING_AUXILIARY_CALLS_def)
  have "length (filter (\<lambda>cl. cl_worker cl = W_run) (as_calls s)) \<le> length (filter unreleased (as_calls s))"
    by (rule filter_length_mono) (use ok running_unfinished in \<open>auto simp: unreleased_def\<close>)
  moreover have "length (filter (\<lambda>cl. cl_model cl = i \<and> cl_worker cl = W_run) (as_calls s)) \<le> 1" for i
  proof (cases "i < length (as_models s)")
    case True
    have "length (filter (\<lambda>cl. cl_model cl = i \<and> cl_worker cl = W_run) (as_calls s)) \<le> length (filter (unfinished_of i) (as_calls s))"
      by (rule filter_length_mono) (use ok running_unfinished in \<open>auto simp: unfinished_of_def\<close>)
    also have "\<dots> \<le> 1" using one [OF True] by simp
    finally show ?thesis .
  next
    case False
    then have "filter (\<lambda>cl. cl_model cl = i \<and> cl_worker cl = W_run) (as_calls s) = []"
      using ok(2) by (auto simp: filter_empty_conv)
    then show ?thesis by simp
  qed
  moreover have "as_outstanding s = 0 \<and> (\<forall>m \<in> set (as_models s). \<not> md_active m)" if "list_all call_over (as_calls s)"
  proof -
    have "filter unreleased (as_calls s) = []" "filter (unfinished_of i) (as_calls s) = []" for i
      using that ok(1) call_over_released by (auto simp: filter_empty_conv list_all_iff unfinished_of_def)
    then show ?thesis using four(1) one by (auto simp: in_set_conv_nth)
  qed
  ultimately show ?thesis using four by auto
qed

text \<open>
  C36: A request reaches the host only through a callable that was resolved for its profile and
  role, when the configuration that was read for this very request enables the role with a named
  provider; it has a model, at most 32000 characters of prompt, a limit of 1024 tokens and of 30
  seconds. What a caller is given is empty or has text.
\<close>

theorem aux_requests_authorized:
  assumes "aux_step\<^sup>*\<^sup>* no_calls s"
  shows "((raw, r) \<in> set (as_sent s) \<longrightarrow>
      explicitly_enabled raw (ar_role r) \<and> (\<exists>m \<in> set (as_models s). md_home m = ar_home r \<and> md_role m = ar_role r) \<and>
      ar_model r \<noteq> [] \<and> length (ar_prompt r) \<le> 32000 \<and> ar_max_tokens r = 1024 \<and> ar_timeout r = 30) \<and>
    (cl \<in> set (as_calls s) \<and> cl_caller cl = K_return t \<longrightarrow> t = [] \<or> py_strip t \<noteq> [])"
proof -
  have inv: "aux_inv s" by (rule aux.inv_reachable [OF refl assms])
  have "sent_ok (as_models s) (raw, r)" if "(raw, r) \<in> set (as_sent s)"
    using inv that by (auto simp: aux_inv_def)
  moreover have "aux_text_ok t" if "cl \<in> set (as_calls s)" "cl_caller cl = K_return t"
    using inv that by (simp add: aux_inv_def call_ok_def)
  ultimately show ?thesis
    by (simp add: sent_ok_def aux_text_ok_def AUXILIARY_PROMPT_LIMIT_def AUXILIARY_MAX_TOKENS_def AUXILIARY_DEADLINE_SECONDS_def)
qed

text \<open>Nothing a closed callable is asked comes to a request, and a caller never waits for the host.\<close>

lemma closed_refuses: "md_closed (as_models s ! i) \<Longrightarrow> call_begin i prompt s = None"
  by (simp add: call_begin_def Let_def)

fun caller_left :: "aux_caller \<Rightarrow> nat" where
  "caller_left K_start = 4"
| "caller_left (K_finish F_lock) = 3"
| "caller_left (K_finish F_gate) = 2"
| "caller_left (K_finish F_event) = 1"
| "caller_left K_wait = 1"
| "caller_left _ = 0"

lemma caller_goes_on:
  assumes "c < length (as_calls s)" "caller_left (cl_caller (as_calls s ! c)) \<noteq> 0"
  shows "\<exists>t. aux_step s t \<and> caller_left (cl_caller (as_calls t ! c)) < caller_left (cl_caller (as_calls s ! c))"
proof (cases "cl_caller (as_calls s ! c)")
  case K_start
  then have "aux_step s (upd_call c (start_worker None) s)" using assms(1) by (intro ax_started)
  then show ?thesis using assms(1) K_start by (force simp: start_worker_def)
next
  case (K_finish f)
  then have "aux_step s (caller_finish f c s)" using assms(1) by (intro ax_caller)
  then show ?thesis using assms(1) K_finish by (cases f) (force simp: caller_finish_def Let_def)+
next
  case K_wait
  then have "aux_step s (upd_call c call_answer s)" using assms(1) by (intro ax_waited)
  then show ?thesis using assms(1) K_wait by (force simp: call_answer_def)
qed (use assms(2) in auto)

section \<open>A run\<close>

text \<open>The role of the default configuration, enabled by the host; a call is made and answered.\<close>

definition aux_example_env :: aux_env where
  "aux_example_env = \<lparr>ax_scope = None,
     ax_raw = Inr (PDict [(''auxiliary'', PDict [(''memory'', PDict [(''provider'', PStr ''auto'')])])]),
     ax_client = Inr (True, PStr ''small''), ax_response = Inr (Content (PStr ''yes'')), ax_reset = None\<rparr>"

definition aux_example_model :: aux_model where
  "aux_example_model = \<lparr>md_home = [''home''], md_role = ''memory'', md_active = False, md_closed = False\<rparr>"

definition aux_example_call :: aux_call where
  "aux_example_call = (new_call 0 ''hello'')\<lparr>cl_worker := W_run, cl_caller := K_wait\<rparr>"

definition aux_running :: aux_sys where
  "aux_running = \<lparr>as_outstanding = 1, as_models = [aux_example_model\<lparr>md_active := True\<rparr>],
     as_calls = [aux_example_call], as_sent = []\<rparr>"

definition aux_over :: aux_sys where
  "aux_over = upd_call 0 call_answer (worker_finish F_event 0 (worker_finish F_gate 0 (worker_finish F_lock 0
     (run_aux_worker aux_example_env 0 aux_running))))"

lemma aux_example_resolved:
  "build_model_fn aux_example_env (Some [''home'']) (Some (config_of_payload DEFAULTS)) (Inr None) = Inr (Some aux_example_model)"
  by (simp add: build_model_fn_def resolve_model_fn_def role_in_scope_def raw_role_mapping_def role_enabled_def
      aux_example_env_def aux_example_model_def config_of_payload_def DEFAULTS_def dict_get_def ROUTE_FIELDS_def raised_def
      py_strip_def py_isspace_def)

lemma aux_running_reachable: "aux_step\<^sup>*\<^sup>* no_calls aux_running"
proof -
  let ?s1 = "no_calls\<lparr>as_models := as_models no_calls @ [aux_example_model]\<rparr>"
  let ?s2 = "?s1\<lparr>as_outstanding := 1, as_models := [aux_example_model\<lparr>md_active := True\<rparr>], as_calls := [new_call 0 ''hello'']\<rparr>"
  have "aux_step no_calls ?s1" by (rule ax_resolved [OF aux_example_resolved])
  moreover have "aux_step ?s1 ?s2"
    by (rule ax_called [of 0 _ "''hello''"])
      (simp_all add: call_begin_def no_calls_def aux_example_model_def claim_auxiliary_call_def
        MAX_OUTSTANDING_AUXILIARY_CALLS_def trim_auxiliary_prompt_def AUXILIARY_PROMPT_LIMIT_def)
  moreover have "aux_step ?s2 (upd_call 0 (start_worker None) ?s2)"
    by (rule ax_started) (simp_all add: new_call_def)
  moreover have "upd_call 0 (start_worker None) ?s2 = aux_running"
    by (simp add: aux_running_def aux_example_call_def no_calls_def start_worker_def)
  ultimately show ?thesis by (metis (no_types, lifting) rtranclp.rtrancl_into_rtrancl rtranclp.rtrancl_refl)
qed

lemmas aux_example_simps = aux_running_def aux_example_call_def aux_example_env_def aux_example_model_def new_call_def
  run_aux_worker_def aux_run_def scoped_request_def client_request_def raw_role_mapping_def role_enabled_def message_content_def
  dict_get_def ROUTE_FIELDS_def py_strip_def py_isspace_def worker_finish_def release_auxiliary_call_def call_answer_def

lemma aux_over_eq:
  "as_outstanding aux_over = 0 \<and> map cl_caller (as_calls aux_over) = [K_return ''yes''] \<and>
   map cl_worker (as_calls aux_over) = [W_end] \<and> map (ar_prompt \<circ> snd) (as_sent aux_over) = [''hello'']"
  by (simp add: aux_over_def aux_example_simps)

lemma aux_over_reachable: "aux_step\<^sup>*\<^sup>* no_calls aux_over"
proof -
  let ?s1 = "run_aux_worker aux_example_env 0 aux_running"
  let ?s2 = "worker_finish F_lock 0 ?s1"
  let ?s3 = "worker_finish F_gate 0 ?s2"
  let ?s4 = "worker_finish F_event 0 ?s3"
  have "aux_step aux_running ?s1" by (rule ax_ran) (simp_all add: aux_running_def aux_example_call_def)
  moreover have "aux_step ?s1 ?s2" by (rule ax_worker) (simp_all add: aux_example_simps)
  moreover have "aux_step ?s2 ?s3" by (rule ax_worker) (simp_all add: aux_example_simps)
  moreover have "aux_step ?s3 ?s4" by (rule ax_worker) (simp_all add: aux_example_simps)
  moreover have "aux_step ?s4 aux_over" unfolding aux_over_def by (rule ax_waited) (simp_all add: aux_example_simps)
  ultimately show ?thesis
    using aux_running_reachable by (meson rtranclp.rtrancl_into_rtrancl)
qed

theorem aux_calls_bounded_witness:
  "as_outstanding aux_over = 0 \<and> list_all call_over (as_calls aux_over) \<and> list_all (\<lambda>m. \<not> md_active m) (as_models aux_over)"
proof -
  have "list_all call_over (as_calls aux_over)"
    using aux_over_eq by (auto simp: call_over_def list_all_iff Cons_eq_map_conv)
  then show ?thesis
    using aux_calls_bounded [OF aux_over_reachable] unfolding list_all_iff by blast
qed

theorem aux_requests_authorized_witness:
  "map (ar_max_tokens \<circ> snd) (as_sent aux_over) = [1024] \<and> map (ar_prompt \<circ> snd) (as_sent aux_over) = [''hello'']"
proof -
  obtain raw r where "as_sent aux_over = [(raw, r)]" "ar_prompt r = ''hello''"
    using aux_over_eq by (auto simp: map_eq_Cons_conv)
  then show ?thesis
    using aux_requests_authorized [OF aux_over_reachable, of raw r] by simp
qed

end
