(* ===== verification/CronReg.thy ===== *)
theory CronReg
  imports ConfigProps Provider
begin

text \<open>
  The registration of the sleep cycle with the host's scheduler (\<^verbatim>\<open>cron_reconcile.py\<close>,
  \<^verbatim>\<open>_register_sleep_cron\<close> and \<^verbatim>\<open>_suspend_sleep_cron\<close> of \<^verbatim>\<open>__init__.py\<close>) and the tests that the
  generated script makes of its registration before it loads anything (\<^verbatim>\<open>_load_profile_modules\<close> of
  \<^verbatim>\<open>sleep_cron_script.py\<close>).

  The scheduler is an argument: a store of unknown type and the host's functions on it.
  \<open>scheduler_laws\<close> is what they promise. \<open>sha\<close> is the hexadecimal SHA-256 digest of a text and
  \<open>fp\<close> that of a snapshot's JSON text; \<open>py_repr\<close> is \<^verbatim>\<open>repr\<close> of the marker.
\<close>

section \<open>Ownership\<close>

definition CRON_JOB_NAME :: string where
  "CRON_JOB_NAME = ''cashew-sleep-cycle''"

definition CRON_SCRIPT_NAME :: string where
  "CRON_SCRIPT_NAME = ''cashew-sleep-cycle.py''"

definition path_text :: "path \<Rightarrow> string" where
  "path_text p = (if p = [] then ''/'' else concat (map (\<lambda>c. CHR ''/'' # c) p))"

definition cron_profile_identity :: "(string \<Rightarrow> string) \<Rightarrow> (path \<Rightarrow> path res) \<Rightarrow> path \<Rightarrow> string res" where
  "cron_profile_identity sha fs_resolve home = bind_res (fs_resolve home) (\<lambda>p. return (take 16 (sha (path_text p))))"

definition config_identity :: "(pydict \<Rightarrow> string) \<Rightarrow> pydict \<Rightarrow> string" where
  "config_identity fp snap = take 16 (fp snap)"

definition cron_prompt :: "string \<Rightarrow> string" where
  "cron_prompt profile_id = ''hermes-cashew sleep cycle ['' @ profile_id @ '']''"

definition owns_job :: "pydict \<Rightarrow> string \<Rightarrow> bool" where
  "owns_job job profile_id \<longleftrightarrow>
     dict_get job ''name'' = PStr CRON_JOB_NAME \<and> dict_get job ''script'' = PStr CRON_SCRIPT_NAME \<and>
     dict_get job ''prompt'' = PStr (cron_prompt profile_id) \<and> dict_get job ''no_agent'' = PBool True \<and>
     (case dict_get job ''repeat'' of PNone \<Rightarrow> True | PDict d \<Rightarrow> dict_get d ''times'' = PNone | _ \<Rightarrow> False)"

section \<open>The marker and the script\<close>

definition installation_marker ::
    "(string \<Rightarrow> string) \<Rightarrow> (pydict \<Rightarrow> string) \<Rightarrow> (path \<Rightarrow> path res) \<Rightarrow> path \<Rightarrow> path \<Rightarrow> CashewConfig \<Rightarrow> pydict res" where
  "installation_marker sha fp fs_resolve home implementation config =
     bind_res (fs_resolve (home @ [''plugins'', ''cashew'', ''plugins'', ''memory'', ''cashew''])) (\<lambda>flat.
     bind_res
       (if flat = implementation then return (''flat'', ''plugins/cashew'')
        else bind_res (fs_resolve (home @ [''hermes-agent'', ''plugins'', ''memory'', ''cashew''])) (\<lambda>dev.
          if dev = implementation then return (''development'', ''hermes-agent/plugins/memory/cashew'')
          else raise C_RuntimeError ''Cashew must be installed at the selected HERMES_HOME''))
       (\<lambda>(kind, anchor).
     let snap = effective_config_snapshot config
     in bind_res (cron_profile_identity sha fs_resolve home) (\<lambda>profile_id.
       return [(''version'', PInt 2), (''kind'', PStr kind), (''anchor'', PStr anchor),
         (''implementation'', PStr (path_text implementation)), (''profile_id'', PStr profile_id),
         (''config_id'', PStr (config_identity fp snap)), (''config'', PDict snap)])))"

definition MARKER_SENTINEL :: string where
  "MARKER_SENTINEL = ''_INSTALLATION_MARKER = None''"

lemma sentinel_length: "length MARKER_SENTINEL = 27"
  by (simp add: MARKER_SENTINEL_def)

text \<open>\<^verbatim>\<open>template.count(_MARKER_SENTINEL)\<close> and \<^verbatim>\<open>template.replace(_MARKER_SENTINEL, new, 1)\<close>.\<close>

function marker_count :: "string \<Rightarrow> nat" where
  "marker_count [] = 0"
| "marker_count (c # cs) =
     (if py_startswith MARKER_SENTINEL (c # cs) then Suc (marker_count (drop (length MARKER_SENTINEL) (c # cs)))
      else marker_count cs)"
  by pat_completeness auto
termination by (relation "measure length") (simp_all add: sentinel_length)

fun replace_marker :: "string \<Rightarrow> string \<Rightarrow> string" where
  "replace_marker new [] = []"
| "replace_marker new (c # cs) =
     (if py_startswith MARKER_SENTINEL (c # cs) then new @ drop (length MARKER_SENTINEL) (c # cs)
      else c # replace_marker new cs)"

definition render_script :: "(pydict \<Rightarrow> string) \<Rightarrow> string \<Rightarrow> pydict \<Rightarrow> string res" where
  "render_script py_repr template marker =
     (if marker_count template \<noteq> 1 then raise C_RuntimeError ''Cashew cron script template is invalid''
      else return (replace_marker (''_INSTALLATION_MARKER = '' @ py_repr marker) template))"

text \<open>
  The directory of the script: its content, and how many staged files are left. The faults are
  those of reading, of creating the staged file, of filling it, of the replacement and of the
  removal of the staged file in the handler.
\<close>

record script_dir =
  sd_script :: "string option"
  sd_staged :: nat

record stage_faults =
  sf_read :: "exn option"
  sf_create :: "exn option"
  sf_write :: "exn option"
  sf_replace :: "exn option"
  sf_unlink :: "exn option"

definition unstage :: "stage_faults \<Rightarrow> exn \<Rightarrow> script_dir \<Rightarrow> script_dir \<times> bool res" where
  "unstage flt e d =
     (case sf_unlink flt of
        None \<Rightarrow> (d\<lparr>sd_staged := sd_staged d - 1\<rparr>, Inl e)
      | Some u \<Rightarrow> (d, Inl u))"

definition stage_script :: "stage_faults \<Rightarrow> string \<Rightarrow> script_dir \<Rightarrow> script_dir \<times> bool res" where
  "stage_script flt content d =
     (if sd_script d \<noteq> None \<and> sf_read flt \<noteq> None then (d, Inl (the (sf_read flt)))
      else if sd_script d = Some content then (d, return False)
      else case sf_create flt of
        Some e \<Rightarrow> (d, Inl e)
      | None \<Rightarrow>
          (let d = d\<lparr>sd_staged := sd_staged d + 1\<rparr>
           in case sf_write flt of
                Some e \<Rightarrow> unstage flt e d
              | None \<Rightarrow>
                  (case sf_replace flt of
                     Some e \<Rightarrow> unstage flt e d
                   | None \<Rightarrow> (\<lparr>sd_script = Some content, sd_staged = sd_staged d - 1\<rparr>, return True))))"

section \<open>Reconciliation\<close>

text \<open>
  The host's scheduler: \<^verbatim>\<open>list_jobs\<close>, \<^verbatim>\<open>parse_schedule\<close> with the equality of what it returns,
  \<^verbatim>\<open>remove_job\<close>, \<^verbatim>\<open>update_job\<close> with a new schedule, and \<^verbatim>\<open>create_job\<close>, of whose answer only the
  entry \<^verbatim>\<open>id\<close> is used.
\<close>

record 's cron_api =
  ca_list :: "'s \<Rightarrow> pyval list res"
  ca_parse :: "string \<Rightarrow> pyval res"
  ca_eq :: "pyval \<Rightarrow> pyval \<Rightarrow> bool"
  ca_remove :: "string \<Rightarrow> 's \<Rightarrow> 's \<times> exn option"
  ca_update :: "string \<Rightarrow> string \<Rightarrow> 's \<Rightarrow> 's \<times> exn option"
  ca_create :: "string \<Rightarrow> string \<Rightarrow> pydict \<Rightarrow> 's \<Rightarrow> 's \<times> string option res"

text \<open>
  What else the registration meets: the import, entering and leaving the profile's lock and the
  profile's store, the place of the implementation, the template and the faults of staging.
\<close>

record cron_reg_env =
  cr_import :: "exn option"
  cr_enter :: "exn option"
  cr_exit :: "exn option"
  cr_implementation :: path
  cr_template :: "string res"
  cr_stage :: stage_faults
  cr_sha :: "string \<Rightarrow> string"
  cr_fp :: "pydict \<Rightarrow> string"
  cr_repr :: "pydict \<Rightarrow> string"
  cr_resolve :: "path \<Rightarrow> path res"

record 's cron_world =
  cw_jobs :: 's
  cw_dir :: script_dir

definition dicts :: "pyval list \<Rightarrow> pydict list" where
  "dicts vs = concat (map (\<lambda>v. case v of PDict d \<Rightarrow> [d] | _ \<Rightarrow> []) vs)"

fun remove_jobs :: "'s cron_api \<Rightarrow> pydict list \<Rightarrow> 's \<Rightarrow> 's \<times> unit res" where
  "remove_jobs api [] s = (s, return ())"
| "remove_jobs api (job # rest) s =
     (case dict_get job ''id'' of
        PStr i \<Rightarrow> (case ca_remove api i s of (s, Some e) \<Rightarrow> (s, Inl e) | (s, None) \<Rightarrow> remove_jobs api rest s)
      | _ \<Rightarrow> remove_jobs api rest s)"

datatype cron_result = Cron_disabled | Cron_adopted string | Cron_created "string option"

definition prepare_script :: "cron_reg_env \<Rightarrow> path \<Rightarrow> CashewConfig \<Rightarrow> script_dir \<Rightarrow> script_dir \<times> bool res" where
  "prepare_script env home config d =
     (case bind_res (installation_marker (cr_sha env) (cr_fp env) (cr_resolve env) home (cr_implementation env) config)
             (\<lambda>marker. bind_res (cr_template env) (\<lambda>template. render_script (cr_repr env) template marker)) of
        Inl e \<Rightarrow> (d, Inl e)
      | Inr rendered \<Rightarrow> stage_script (cr_stage env) rendered d)"

definition replace_job ::
    "'s cron_api \<Rightarrow> string \<Rightarrow> string \<Rightarrow> pydict list \<Rightarrow> 's \<Rightarrow> 's \<times> cron_result res" where
  "replace_job api profile_id schedule owned s =
     (case remove_jobs api owned s of
        (s, Inl e) \<Rightarrow> (s, Inl e)
      | (s, Inr _) \<Rightarrow>
          (case ca_create api (cron_prompt profile_id) schedule
                  [(''name'', PStr CRON_JOB_NAME), (''script'', PStr CRON_SCRIPT_NAME), (''no_agent'', PBool True),
                   (''repeat'', PNone)] s of
             (s, r) \<Rightarrow> (s, bind_res r (\<lambda>i. return (Cron_created i)))))"

definition adopt_job ::
    "'s cron_api \<Rightarrow> string \<Rightarrow> string \<Rightarrow> pyval \<Rightarrow> pydict list \<Rightarrow> 's \<Rightarrow> 's \<times> cron_result res" where
  "adopt_job api profile_id schedule parsed owned s =
     (case owned of
        [job] \<Rightarrow>
          (case dict_get job ''id'' of
             PStr i \<Rightarrow>
               if \<not> ca_eq api (dict_get job ''schedule'') parsed then
                 (case ca_update api i schedule s of
                    (s, Some e) \<Rightarrow> (s, Inl e)
                  | (s, None) \<Rightarrow> (s, return (Cron_adopted i)))
               else (s, return (Cron_adopted i))
           | _ \<Rightarrow> replace_job api profile_id schedule owned s)
      | _ \<Rightarrow> replace_job api profile_id schedule owned s)"

text \<open>The body of the \<^verbatim>\<open>with\<close> statement; \<open>parsed\<close> is there exactly when the cycle is enabled.\<close>

definition reconcile_jobs ::
    "'s cron_api \<Rightarrow> cron_reg_env \<Rightarrow> path \<Rightarrow> CashewConfig \<Rightarrow> string \<Rightarrow> pyval option \<Rightarrow> 's cron_world \<Rightarrow>
     's cron_world \<times> cron_result res" where
  "reconcile_jobs api env home config profile_id parsed w =
     (case ca_list api (cw_jobs w) of
        Inl e \<Rightarrow> (w, Inl e)
      | Inr listed \<Rightarrow>
          (let owned = filter (\<lambda>job. owns_job job profile_id) (dicts listed)
           in case parsed of
                None \<Rightarrow>
                  (case remove_jobs api owned (cw_jobs w) of
                     (s, r) \<Rightarrow> (w\<lparr>cw_jobs := s\<rparr>, bind_res r (\<lambda>_. return Cron_disabled)))
              | Some schedule \<Rightarrow>
                  (case prepare_script env home config (cw_dir w) of
                     (d, Inl e) \<Rightarrow> (w\<lparr>cw_dir := d\<rparr>, Inl e)
                   | (d, Inr _) \<Rightarrow>
                       (case adopt_job api profile_id (cfg_sleep_schedule config) schedule owned (cw_jobs w) of
                          (s, r) \<Rightarrow> (\<lparr>cw_jobs = s, cw_dir = d\<rparr>, r)))))"

text \<open>\<^verbatim>\<open>with profile_cron_lock(home), use_cron_store(home)\<close>.\<close>

definition with_cron_store :: "cron_reg_env \<Rightarrow> ('w \<Rightarrow> 'w \<times> 'a res) \<Rightarrow> 'w \<Rightarrow> 'w \<times> 'a res" where
  "with_cron_store env body w =
     (case cr_enter env of
        Some e \<Rightarrow> (w, Inl e)
      | None \<Rightarrow> (case body w of (w, r) \<Rightarrow> (w, case cr_exit env of Some e \<Rightarrow> Inl e | None \<Rightarrow> r)))"

definition cron_enabled :: "CashewConfig \<Rightarrow> bool" where
  "cron_enabled config \<longleftrightarrow> cfg_sleep_cycles config \<and> cfg_sleep_schedule config \<noteq> []"

text \<open>
  The attributes of the provider: a disabled or adopted job is published inside the \<^verbatim>\<open>with\<close>
  statement, a created one after it.
\<close>

definition registered :: "string \<Rightarrow> provider \<Rightarrow> provider" where
  "registered i p = p\<lparr>pv_sleep_cron_job_id := Some i, pv_health_cron := ''registered''\<rparr>"

fun publish_job :: "cron_result res \<Rightarrow> provider \<Rightarrow> provider" where
  "publish_job (Inr Cron_disabled) p = p\<lparr>pv_sleep_cron_job_id := None\<rparr>"
| "publish_job (Inr (Cron_adopted i)) p = registered i p"
| "publish_job _ p = p"

definition register_body ::
    "'s cron_api \<Rightarrow> cron_reg_env \<Rightarrow> path \<Rightarrow> CashewConfig \<Rightarrow> 's cron_world \<times> provider \<Rightarrow>
     ('s cron_world \<times> provider) \<times> cron_result res" where
  "register_body api env home config wp =
     (case bind_res (raised (cr_import env)) (\<lambda>_.
             bind_res (if cron_enabled config
                       then bind_res (ca_parse api (cfg_sleep_schedule config)) (\<lambda>x. return (Some x))
                       else return None) (\<lambda>parsed.
             bind_res (cron_profile_identity (cr_sha env) (cr_resolve env) home) (\<lambda>profile_id. return (parsed, profile_id)))) of
        Inl e \<Rightarrow> (wp, Inl e)
      | Inr (parsed, profile_id) \<Rightarrow>
          with_cron_store env (\<lambda>(w, p).
            case reconcile_jobs api env home config profile_id parsed w of (w, r) \<Rightarrow> ((w, publish_job r p), r)) wp)"

definition cron_failed :: "exn \<Rightarrow> provider \<Rightarrow> provider \<times> unit res" where
  "cron_failed e p =
     (if isinstance e C_ImportError then (p\<lparr>pv_health_cron := ''unavailable''\<rparr>, return ())
      else if isinstance e C_Exception then (p\<lparr>pv_health_cron := ''failed'', pv_sleep_cron_job_id := None\<rparr>, return ())
      else (p, Inl e))"

definition register_sleep_cron ::
    "'s cron_api \<Rightarrow> cron_reg_env \<Rightarrow> provider \<Rightarrow> 's cron_world \<Rightarrow> 's cron_world \<times> provider \<times> unit res" where
  "register_sleep_cron api env p w =
     (case (pv_hermes_home p, pv_config p) of
        (Some home, Some config) \<Rightarrow>
          if \<not> pv_identity_ready p then (w, p, return ())
          else (case register_body api env home config (w, p) of
                  ((w, p), Inl e) \<Rightarrow> (w, cron_failed e p)
                | ((w, p), Inr (Cron_created (Some i))) \<Rightarrow> (w, registered i p, return ())
                | ((w, p), Inr (Cron_created None)) \<Rightarrow> (w, cron_failed (mk_exn C_KeyError ''id'') p)
                | ((w, p), Inr _) \<Rightarrow> (w, p, return ()))
      | _ \<Rightarrow> (w, p, return ()))"

definition suspend_body :: "'s cron_api \<Rightarrow> cron_reg_env \<Rightarrow> path \<Rightarrow> 's \<Rightarrow> 's \<times> unit res" where
  "suspend_body api env home s =
     (case bind_res (raised (cr_import env)) (\<lambda>_. cron_profile_identity (cr_sha env) (cr_resolve env) home) of
        Inl e \<Rightarrow> (s, Inl e)
      | Inr profile_id \<Rightarrow>
          with_cron_store env (\<lambda>s.
            case ca_list api s of
              Inl e \<Rightarrow> (s, Inl e)
            | Inr listed \<Rightarrow> remove_jobs api (filter (\<lambda>job. owns_job job profile_id) (dicts listed)) s) s)"

definition suspend_sleep_cron ::
    "'s cron_api \<Rightarrow> cron_reg_env \<Rightarrow> provider \<Rightarrow> 's \<Rightarrow> 's \<times> provider \<times> unit res" where
  "suspend_sleep_cron api env p s =
     (case pv_hermes_home p of
        None \<Rightarrow> (s, p, return ())
      | Some home \<Rightarrow>
          (case suspend_body api env home s of
             (s, r) \<Rightarrow>
               (s, p\<lparr>pv_sleep_cron_job_id := None, pv_health_cron := ''disabled''\<rparr>,
                case r of Inl e \<Rightarrow> if isinstance e C_Exception then return () else Inl e | Inr _ \<Rightarrow> return ())))"

section \<open>The script's tests\<close>

definition ANCHORS :: "(string \<times> string) list" where
  "ANCHORS = [(''flat'', ''plugins/cashew''), (''development'', ''hermes-agent/plugins/memory/cashew'')]"

definition REQUIRED_FILES :: "string list" where
  "REQUIRED_FILES = [''config.py'', ''sleep_adapter.py'', ''embedding_process.py'', ''embedding_worker.py'', ''admission.py'', ''locking.py'']"

text \<open>\<^verbatim>\<open>Path(text)\<close>, in the current directory \<open>cwd\<close>.\<close>

definition path_of :: "path \<Rightarrow> string \<Rightarrow> path" where
  "path_of cwd text = (if py_startswith ''/'' text then split_path text else cwd @ split_path text)"

text \<open>\<^verbatim>\<open>kind not in anchors\<close> raises for a list or a dictionary, which have no hash.\<close>

definition anchor_of :: "pyval \<Rightarrow> string option res" where
  "anchor_of kind =
     (case kind of
        PStr k \<Rightarrow> return (map_of ANCHORS k)
      | PList _ \<Rightarrow> raise C_TypeError ''unhashable type''
      | PDict _ \<Rightarrow> raise C_TypeError ''unhashable type''
      | _ \<Rightarrow> return None)"

definition is_two :: "pyval \<Rightarrow> bool" where
  "is_two v \<longleftrightarrow> v = PInt 2 \<or> v = PFloat (Fin 2)"

definition marker_ok ::
    "(string \<Rightarrow> string) \<Rightarrow> (pydict \<Rightarrow> string) \<Rightarrow> (path \<Rightarrow> path res) \<Rightarrow> path \<Rightarrow> pydict \<Rightarrow> bool res" where
  "marker_ok sha fp fs_resolve home marker =
     bind_res (anchor_of (dict_get marker ''kind'')) (\<lambda>anchor.
       if anchor = None \<or> dict_get marker ''anchor'' \<noteq> PStr (the anchor) \<or>
          \<not> is_str (dict_get marker ''implementation'') \<or> \<not> is_two (dict_get marker ''version'') then return False
       else bind_res (cron_profile_identity sha fs_resolve home) (\<lambda>profile_id.
         return (dict_get marker ''profile_id'' = PStr profile_id \<and>
           (case dict_get marker ''config'' of
              PDict snap \<Rightarrow> dict_get marker ''config_id'' = PStr (config_identity fp snap)
            | _ \<Rightarrow> False))))"

text \<open>
  \<^verbatim>\<open>_load_profile_modules\<close> with the names it leaves in \<^verbatim>\<open>sys.modules\<close>; \<open>imports\<close> is what the two
  imports raise.
\<close>

definition CRON_PACKAGE :: string where
  "CRON_PACKAGE = ''_hermes_cashew_cron_impl''"

definition cron_implementation :: "path \<Rightarrow> string \<Rightarrow> path" where
  "cron_implementation home kind =
     (case map_of ANCHORS kind of
        None \<Rightarrow> home
      | Some anchor \<Rightarrow>
          home @ split_path anchor @ (if kind = ''flat'' then [''plugins'', ''memory'', ''cashew''] else []))"

definition import_modules :: "exn option \<Rightarrow> string set \<Rightarrow> string set \<times> unit res" where
  "import_modules imports modules =
     (let loaded = {CRON_PACKAGE, CRON_PACKAGE @ ''.config'', CRON_PACKAGE @ ''.sleep_adapter''}
      in case imports of
           None \<Rightarrow> (modules \<union> loaded, return ())
         | Some e \<Rightarrow>
             if isinstance e C_ImportError then
               (modules - loaded, raise C_RuntimeError ''Cashew installation could not load cron dependencies'')
             else (insert CRON_PACKAGE modules, Inl e))"

definition load_profile_modules ::
    "(string \<Rightarrow> string) \<Rightarrow> (pydict \<Rightarrow> string) \<Rightarrow> (path \<Rightarrow> path res) \<Rightarrow> path \<Rightarrow> (path \<Rightarrow> bool) \<Rightarrow> exn option \<Rightarrow>
     path \<Rightarrow> pyval \<Rightarrow> string set \<Rightarrow> string set \<times> pydict res" where
  "load_profile_modules sha fp fs_resolve cwd is_file imports home marker modules =
     (case marker of
        PDict m \<Rightarrow>
          (case marker_ok sha fp fs_resolve home m of
             Inl e \<Rightarrow> (modules, Inl e)
           | Inr False \<Rightarrow> (modules, raise C_RuntimeError ''Cashew cron installation marker is malformed'')
           | Inr True \<Rightarrow>
               (case (dict_get m ''kind'', dict_get m ''implementation'') of
                  (PStr kind, PStr expected) \<Rightarrow>
                    (let implementation = cron_implementation home kind
                     in case bind_res (fs_resolve implementation) (\<lambda>a.
                               bind_res (fs_resolve (path_of cwd expected)) (\<lambda>b. return (a = b))) of
                          Inl e \<Rightarrow> (modules, Inl e)
                        | Inr same \<Rightarrow>
                            if \<not> same then
                              (modules, raise C_RuntimeError ''Cashew installation no longer matches this cron registration'')
                            else if \<not> list_all (\<lambda>f. is_file (implementation @ [f])) REQUIRED_FILES then
                              (modules, raise C_RuntimeError ''Cashew installation is incomplete for this cron job'')
                            else (case import_modules imports modules of
                                    (modules, r) \<Rightarrow> (modules, bind_res r (\<lambda>_. return m))))
                | _ \<Rightarrow> (modules, raise C_RuntimeError ''Cashew cron installation marker is malformed'')))
      | _ \<Rightarrow> (modules, raise C_RuntimeError ''Cashew cron script has no installation marker''))"

section \<open>Staging and rendering\<close>

text \<open>The template has one place for the marker, and everything around it is kept.\<close>

lemma marker_count_none: "marker_count s = 0 \<Longrightarrow> replace_marker new s = s"
  by (induction s rule: marker_count.induct) (auto split: if_splits)

lemma render_script_splits:
  assumes "render_script py_repr template marker = Inr t"
  shows "\<exists>u v. template = u @ MARKER_SENTINEL @ v \<and> t = u @ ''_INSTALLATION_MARKER = '' @ py_repr marker @ v"
proof -
  have "\<exists>u v. s = u @ MARKER_SENTINEL @ v \<and> replace_marker new s = u @ new @ v" if "marker_count s = 1" for s new
    using that
  proof (induction s rule: marker_count.induct)
    case (2 c cs)
    show ?case
    proof (cases "py_startswith MARKER_SENTINEL (c # cs)")
      case True
      then have "c # cs = [] @ MARKER_SENTINEL @ drop (length MARKER_SENTINEL) (c # cs)"
        by (metis append_Nil append_take_drop_id py_startswith_def)
      moreover have "replace_marker new (c # cs) = [] @ new @ drop (length MARKER_SENTINEL) (c # cs)"
        using True by simp
      ultimately show ?thesis by blast
    next
      case False
      then obtain u v where "cs = u @ MARKER_SENTINEL @ v" "replace_marker new cs = u @ new @ v"
        using 2 by auto
      then show ?thesis using False by (intro exI [of _ "c # u"] exI [of _ v]) simp
    qed
  qed simp
  moreover have "marker_count template = 1" "t = replace_marker (''_INSTALLATION_MARKER = '' @ py_repr marker) template"
    using assms by (simp_all add: render_script_def split: if_splits)
  ultimately obtain u v where "template = u @ MARKER_SENTINEL @ v"
      "t = u @ (''_INSTALLATION_MARKER = '' @ py_repr marker) @ v" by blast
  then show ?thesis unfolding append_assoc by blast
qed

lemma stage_script_atomic:
  assumes "stage_script flt content d = (d', r)"
  shows "(sd_script d' = sd_script d \<or> sd_script d' = Some content) \<and>
    (\<forall>b. r = Inr b \<longrightarrow> sd_script d' = Some content \<and> sd_staged d' = sd_staged d) \<and>
    (sf_unlink flt = None \<longrightarrow> sd_staged d' = sd_staged d)"
  using assms by (auto simp: stage_script_def unstage_def Let_def split: if_splits option.splits)

section \<open>What the scheduler promises\<close>

definition has_id :: "string \<Rightarrow> pyval \<Rightarrow> bool" where
  "has_id i v \<longleftrightarrow> (case v of PDict d \<Rightarrow> dict_get d ''id'' = PStr i | _ \<Rightarrow> False)"

text \<open>Jobs have identifiers of their own.\<close>

definition jobs_wf :: "pyval list \<Rightarrow> bool" where
  "jobs_wf vs \<longleftrightarrow> list_all (\<lambda>d. is_str (dict_get d ''id'')) (dicts vs) \<and> distinct (map (\<lambda>d. dict_get d ''id'') (dicts vs))"

text \<open>A job with another schedule, and a job as it was asked for.\<close>

definition rescheduled :: "pyval \<Rightarrow> pydict \<Rightarrow> pydict \<Rightarrow> bool" where
  "rescheduled x d d' \<longleftrightarrow> dict_get d' ''schedule'' = x \<and>
     list_all (\<lambda>k. dict_get d' k = dict_get d k) [''name'', ''script'', ''prompt'', ''no_agent'', ''repeat'', ''id'']"

definition created_as :: "string \<Rightarrow> pyval \<Rightarrow> pydict \<Rightarrow> string \<Rightarrow> pydict \<Rightarrow> bool" where
  "created_as prompt x args i d \<longleftrightarrow> dict_get d ''id'' = PStr i \<and> dict_get d ''prompt'' = PStr prompt \<and>
     dict_get d ''schedule'' = x \<and>
     list_all (\<lambda>k. dict_get d k = dict_get args k) [''name'', ''script'', ''no_agent''] \<and>
     (dict_get args ''repeat'' = PNone \<longrightarrow>
        (case dict_get d ''repeat'' of PNone \<Rightarrow> True | PDict t \<Rightarrow> dict_get t ''times'' = PNone | _ \<Rightarrow> False))"

definition job_updated :: "string \<Rightarrow> pyval \<Rightarrow> pyval \<Rightarrow> pyval \<Rightarrow> bool" where
  "job_updated i x v v' \<longleftrightarrow>
     (if has_id i v then \<exists>d d'. v = PDict d \<and> v' = PDict d' \<and> rescheduled x d d' else v' = v)"

definition removes_jobs :: "'s cron_api \<Rightarrow> ('s \<Rightarrow> pyval list) \<Rightarrow> bool" where
  "removes_jobs api jobs \<longleftrightarrow> (\<forall>i s s' e. ca_remove api i s = (s', e) \<longrightarrow>
     jobs s' = (if e = None then filter (\<lambda>v. \<not> has_id i v) (jobs s) else jobs s))"

definition updates_jobs :: "'s cron_api \<Rightarrow> ('s \<Rightarrow> pyval list) \<Rightarrow> bool" where
  "updates_jobs api jobs \<longleftrightarrow> (\<forall>i t s s' e. ca_update api i t s = (s', e) \<longrightarrow>
     (if e = None
      then \<exists>x. ca_parse api t = Inr x \<and>
        list_all2 (job_updated i x) (jobs s) (jobs s')
      else jobs s' = jobs s))"

definition creates_jobs :: "'s cron_api \<Rightarrow> ('s \<Rightarrow> pyval list) \<Rightarrow> bool" where
  "creates_jobs api jobs \<longleftrightarrow> (\<forall>p t f s s' r. ca_create api p t f s = (s', r) \<longrightarrow>
     (case r of
        Inl e \<Rightarrow> jobs s' = jobs s
      | Inr i \<Rightarrow> \<exists>x d j. ca_parse api t = Inr x \<and> i = Some j \<and> jobs s' = jobs s @ [PDict d] \<and> created_as p x f j d))"

definition scheduler_laws :: "'s cron_api \<Rightarrow> ('s \<Rightarrow> pyval list) \<Rightarrow> bool" where
  "scheduler_laws api jobs \<longleftrightarrow>
     (\<forall>s. jobs_wf (jobs s)) \<and> (\<forall>x. ca_eq api x x) \<and> (\<forall>s vs. ca_list api s = Inr vs \<longrightarrow> vs = jobs s) \<and>
     removes_jobs api jobs \<and> updates_jobs api jobs \<and> creates_jobs api jobs"

definition owned :: "string \<Rightarrow> pyval list \<Rightarrow> pydict list" where
  "owned pid vs = filter (\<lambda>d. owns_job d pid) (dicts vs)"

definition others :: "string \<Rightarrow> pyval list \<Rightarrow> pyval list" where
  "others pid vs = filter (\<lambda>v. case v of PDict d \<Rightarrow> \<not> owns_job d pid | _ \<Rightarrow> True) vs"

lemma dicts_simps [simp]:
  "dicts [] = []" "dicts (PDict d # vs) = d # dicts vs" "\<not> is_dict v \<Longrightarrow> dicts (v # vs) = dicts vs"
  "dicts (vs @ ws) = dicts vs @ dicts ws"
  by (auto simp: dicts_def split: pyval.split)

lemma dicts_Cons: "dicts (v # vs) = (case v of PDict d \<Rightarrow> d # dicts vs | _ \<Rightarrow> dicts vs)"
  by (simp add: dicts_def split: pyval.split)

lemma in_dicts: "d \<in> set (dicts vs) \<longleftrightarrow> PDict d \<in> set vs"
  by (induction vs) (auto simp: dicts_Cons split: pyval.splits)

lemma dicts_without: "dicts (filter (\<lambda>v. \<not> has_id i v) vs) = filter (\<lambda>d. dict_get d ''id'' \<noteq> PStr i) (dicts vs)"
  by (induction vs) (auto simp: dicts_Cons has_id_def split: pyval.splits)

text \<open>With identifiers of their own, the one job that has an identifier is the one meant.\<close>

lemma same_id:
  assumes "jobs_wf vs" "d \<in> set (dicts vs)" "d' \<in> set (dicts vs)" "dict_get d ''id'' = dict_get d' ''id''"
  shows "d = d'"
  using assms by (auto simp: jobs_wf_def distinct_map inj_on_def)

lemma others_without:
  assumes "jobs_wf vs" "d \<in> set (owned pid vs)" "dict_get d ''id'' = PStr i"
  shows "others pid (filter (\<lambda>v. \<not> has_id i v) vs) = others pid vs"
proof -
  have "owns_job d' pid" if "PDict d' \<in> set vs" "dict_get d' ''id'' = PStr i" for d'
    using same_id [OF assms(1), of d d'] assms(2,3) that by (auto simp: owned_def in_dicts)
  then show ?thesis
    by (auto simp: others_def has_id_def intro!: filter_cong split: pyval.splits)
qed

lemma laws_wf: "scheduler_laws api jobs \<Longrightarrow> jobs_wf (jobs s)"
  and laws_eq: "scheduler_laws api jobs \<Longrightarrow> ca_eq api x x"
  and laws_list: "scheduler_laws api jobs \<Longrightarrow> ca_list api s = Inr vs \<Longrightarrow> vs = jobs s"
  by (simp_all add: scheduler_laws_def)

lemma laws_remove:
  "scheduler_laws api jobs \<Longrightarrow> ca_remove api i s = (s', e) \<Longrightarrow>
   jobs s' = (if e = None then filter (\<lambda>v. \<not> has_id i v) (jobs s) else jobs s)"
  by (simp add: scheduler_laws_def removes_jobs_def)

lemma laws_update:
  assumes "scheduler_laws api jobs" "ca_update api i t s = (s', None)"
  obtains x where "ca_parse api t = Inr x"
    "list_all2 (job_updated i x) (jobs s) (jobs s')"
proof -
  have "updates_jobs api jobs" using assms(1) by (simp add: scheduler_laws_def)
  then show ?thesis using assms(2) that unfolding updates_jobs_def by (metis (full_types))
qed

lemma laws_not_updated: "scheduler_laws api jobs \<Longrightarrow> ca_update api i t s = (s', Some y) \<Longrightarrow> jobs s' = jobs s"
  unfolding scheduler_laws_def updates_jobs_def by (metis option.distinct(1))

lemma laws_create:
  assumes "scheduler_laws api jobs" "ca_create api p t f s = (s', Inr i)"
  obtains x d j where "ca_parse api t = Inr x" "i = Some j" "jobs s' = jobs s @ [PDict d]" "created_as p x f j d"
proof -
  have "creates_jobs api jobs" using assms(1) by (simp add: scheduler_laws_def)
  then have "\<exists>x d j. ca_parse api t = Inr x \<and> i = Some j \<and> jobs s' = jobs s @ [PDict d] \<and> created_as p x f j d"
    using assms(2) unfolding creates_jobs_def by fastforce
  then show ?thesis using that by blast
qed

lemma laws_not_created: "scheduler_laws api jobs \<Longrightarrow> ca_create api p t f s = (s', Inl y) \<Longrightarrow> jobs s' = jobs s"
  unfolding scheduler_laws_def creates_jobs_def by fastforce

lemma remove_owned:
  assumes laws: "scheduler_laws api jobs" and "owned pid (jobs s) = ds" "remove_jobs api ds s = (s', r)"
  shows "others pid (jobs s') = others pid (jobs s) \<and> (r = Inr () \<longrightarrow> owned pid (jobs s') = [])"
  using assms(2,3)
proof (induction ds arbitrary: s)
  case (Cons d ds)
  note wf = laws_wf [OF laws, of s]
  have d: "d \<in> set (owned pid (jobs s))" unfolding Cons.prems(1) by simp
  then have "d \<in> set (dicts (jobs s))" by (simp add: owned_def)
  then obtain i where i: "dict_get d ''id'' = PStr i"
    using wf by (auto simp: jobs_wf_def list_all_iff elim: is_str.elims)
  obtain t e where rm: "ca_remove api i s = (t, e)" by fastforce
  then have t: "jobs t = (if e = None then filter (\<lambda>v. \<not> has_id i v) (jobs s) else jobs s)"
    by (rule laws_remove [OF laws])
  show ?case
  proof (cases e)
    case None
    have "distinct (map (\<lambda>d. dict_get d ''id'') (d # ds))"
      using wf Cons.prems(1) distinct_map_filter by (metis jobs_wf_def owned_def)
    then have "filter (\<lambda>d. dict_get d ''id'' \<noteq> PStr i) (d # ds) = ds"
      using i by (force simp: filter_id_conv)
    moreover have "owned pid (jobs t) = filter (\<lambda>d. dict_get d ''id'' \<noteq> PStr i) (owned pid (jobs s))"
      using t None by (simp add: owned_def dicts_without conj_commute)
    ultimately have "owned pid (jobs t) = ds" using Cons.prems(1) by simp
    then show ?thesis
      using Cons.IH [of t] Cons.prems(2) i rm None t others_without [OF wf d i] by simp
  next
    case (Some x)
    then show ?thesis using Cons.prems(2) i rm t by auto
  qed
qed simp

lemma rescheduled_owns: "rescheduled x d d' \<Longrightarrow> owns_job d' pid = owns_job d pid"
  by (simp add: rescheduled_def owns_job_def)

lemma update_owned:
  assumes wf: "jobs_wf vs" and one: "owned pid vs = [d]" and i: "dict_get d ''id'' = PStr i"
    and upd: "list_all2 (job_updated i x) vs vs'"
  shows "others pid vs' = others pid vs \<and> (\<exists>d'. owned pid vs' = [d'] \<and> rescheduled x d d')"
proof -
  have "owns_job d' pid" if "PDict d' \<in> set vs" "dict_get d' ''id'' = PStr i" for d'
    using same_id [OF wf, of d d'] one i that by (metis filter_eq_Cons_iff filter_set in_dicts in_set_conv_decomp owned_def append_Cons)
  then have own: "\<forall>d'. PDict d' \<in> set vs \<longrightarrow> dict_get d' ''id'' = PStr i \<longrightarrow> owns_job d' pid" by blast
  have "others pid vs' = others pid vs \<and>
      list_all2 (\<lambda>d d'. if dict_get d ''id'' = PStr i then rescheduled x d d' else d' = d) (owned pid vs) (owned pid vs')"
    using upd own
  proof (induction rule: list_all2_induct)
    case (Cons v vs v' vs')
    then have IH: "others pid vs' = others pid vs"
      "list_all2 (\<lambda>d d'. if dict_get d ''id'' = PStr i then rescheduled x d d' else d' = d) (owned pid vs) (owned pid vs')"
      by auto
    show ?case
    proof (cases "has_id i v")
      case True
      then obtain e e' where e: "v = PDict e" "v' = PDict e'" "rescheduled x e e'" using Cons.hyps(1) by (auto simp: job_updated_def)
      then have "owns_job e pid" "owns_job e' pid"
        using True Cons.prems rescheduled_owns [of x e e' pid] by (auto simp: has_id_def)
      then show ?thesis using IH e True by (simp add: others_def owned_def has_id_def)
    next
      case False
      then have "v' = v" using Cons.hyps(1) by (simp add: job_updated_def)
      then show ?thesis using IH False by (cases v) (auto simp: others_def owned_def has_id_def)
    qed
  qed (simp add: others_def owned_def)
  then show ?thesis using one i by (auto simp: list_all2_Cons1)
qed

lemma created_owns:
  "created_as (cron_prompt pid) x [(''name'', PStr CRON_JOB_NAME), (''script'', PStr CRON_SCRIPT_NAME),
     (''no_agent'', PBool True), (''repeat'', PNone)] i d \<Longrightarrow> owns_job d pid"
  by (simp add: created_as_def owns_job_def dict_get_def)

text \<open>A job that is this profile's only one, with the schedule that was asked for.\<close>

definition only_job :: "'s cron_api \<Rightarrow> string \<Rightarrow> string \<Rightarrow> pyval list \<Rightarrow> string \<Rightarrow> bool" where
  "only_job api pid schedule vs i \<longleftrightarrow>
     (\<exists>d x. owned pid vs = [d] \<and> dict_get d ''id'' = PStr i \<and> ca_parse api schedule = Inr x \<and> ca_eq api (dict_get d ''schedule'') x)"

lemma replace_job_spec:
  assumes laws: "scheduler_laws api jobs"
    and run: "replace_job api pid schedule (owned pid (jobs s)) s = (s', r)"
  shows "others pid (jobs s') = others pid (jobs s) \<and>
    (\<forall>q. r = Inr q \<longrightarrow> (\<exists>i. q = Cron_created (Some i) \<and> only_job api pid schedule (jobs s') i))"
proof -
  let ?args = "[(''name'', PStr CRON_JOB_NAME), (''script'', PStr CRON_SCRIPT_NAME), (''no_agent'', PBool True), (''repeat'', PNone)]"
  obtain t q where rm: "remove_jobs api (owned pid (jobs s)) s = (t, q)" by fastforce
  note t = remove_owned [OF laws refl rm]
  show ?thesis
  proof (cases q)
    case (Inl e)
    then show ?thesis using run t rm by (auto simp: replace_job_def)
  next
    case (Inr u)
    obtain t' c where cr: "ca_create api (cron_prompt pid) schedule ?args t = (t', c)" by fastforce
    then have s': "s' = t'" "r = bind_res c (\<lambda>i. return (Cron_created i))"
      using run rm Inr by (simp_all add: replace_job_def)
    show ?thesis
    proof (cases c)
      case (Inl e)
      then have "jobs t' = jobs t" using cr laws_not_created [OF laws] by simp
      then show ?thesis using s' t Inl by simp
    next
      case c: (Inr i)
      with cr have "ca_create api (cron_prompt pid) schedule ?args t = (t', Inr i)" by simp
      from laws_create [OF laws this] obtain x d j where j: "ca_parse api schedule = Inr x" "i = Some j" "jobs t' = jobs t @ [PDict d]"
          "created_as (cron_prompt pid) x ?args j d" by blast
      have "owns_job d pid" by (rule created_owns [OF j(4)])
      then have "others pid (jobs t') = others pid (jobs t)" "owned pid (jobs t') = owned pid (jobs t) @ [d]"
        using j(3) by (simp_all add: others_def owned_def)
      moreover have "owned pid (jobs t) = []" using t Inr by simp
      ultimately have "owned pid (jobs s') = [d]" "others pid (jobs s') = others pid (jobs s)" using s' t by simp_all
      moreover have "dict_get d ''id'' = PStr j" "ca_eq api (dict_get d ''schedule'') x"
        using j(4) laws_eq [OF laws] by (simp_all add: created_as_def)
      ultimately show ?thesis using j(1,2) s'(2) c unfolding only_job_def by simp
    qed
  qed
qed

lemma adopt_job_spec:
  assumes laws: "scheduler_laws api jobs" and parsed: "ca_parse api schedule = Inr x"
    and run: "adopt_job api pid schedule x (owned pid (jobs s)) s = (s', r)"
  shows "others pid (jobs s') = others pid (jobs s) \<and>
    (\<forall>q. r = Inr q \<longrightarrow> (\<exists>i. q \<in> {Cron_adopted i, Cron_created (Some i)} \<and> only_job api pid schedule (jobs s') i))"
proof (cases "\<exists>d i. owned pid (jobs s) = [d] \<and> dict_get d ''id'' = PStr i")
  case True
  then obtain d i where d: "owned pid (jobs s) = [d]" "dict_get d ''id'' = PStr i" by blast
  note wf = laws_wf [OF laws, of s]
  show ?thesis
  proof (cases "ca_eq api (dict_get d ''schedule'') x")
    case True
    then have "s' = s" "r = Inr (Cron_adopted i)" using run d by (simp_all add: adopt_job_def)
    then show ?thesis using True d parsed unfolding only_job_def by simp
  next
    case False
    obtain t e where up: "ca_update api i schedule s = (t, e)" by fastforce
    show ?thesis
    proof (cases e)
      case (Some y)
      then have "jobs t = jobs s" using up laws_not_updated [OF laws] by simp
      then show ?thesis using run d False up Some by (auto simp: adopt_job_def)
    next
      case None
      with up have "ca_update api i schedule s = (t, None)" by simp
      from laws_update [OF laws this] obtain x' where x': "ca_parse api schedule = Inr x'"
        "list_all2 (job_updated i x') (jobs s) (jobs t)" by blast
      obtain d' where "others pid (jobs t) = others pid (jobs s)" "owned pid (jobs t) = [d']" "rescheduled x d d'"
        using update_owned [OF wf d x'(2)] x'(1) parsed by auto
      moreover have "s' = t" "r = Inr (Cron_adopted i)" using run d False up None by (simp_all add: adopt_job_def)
      ultimately show ?thesis using d(2) parsed laws_eq [OF laws] by (simp add: only_job_def rescheduled_def)
    qed
  qed
next
  case False
  then have "adopt_job api pid schedule x (owned pid (jobs s)) s = replace_job api pid schedule (owned pid (jobs s)) s"
    by (auto simp: adopt_job_def split: list.split pyval.split)
  then show ?thesis using replace_job_spec [OF laws, of pid schedule s s' r] run by auto
qed

text \<open>The script in place is the template with the marker of this installation and configuration.\<close>

definition script_current :: "cron_reg_env \<Rightarrow> path \<Rightarrow> CashewConfig \<Rightarrow> script_dir \<Rightarrow> bool" where
  "script_current env home config d \<longleftrightarrow>
     (\<exists>marker template t.
        installation_marker (cr_sha env) (cr_fp env) (cr_resolve env) home (cr_implementation env) config = Inr marker \<and>
        cr_template env = Inr template \<and> render_script (cr_repr env) template marker = Inr t \<and> sd_script d = Some t)"

lemma prepare_current: "prepare_script env home config d = (d', Inr b) \<Longrightarrow> script_current env home config d'"
  unfolding prepare_script_def script_current_def
  by (auto simp: res_simps dest: stage_script_atomic split: sum.splits)

definition cron_reconciled :: "'s cron_api \<Rightarrow> ('s \<Rightarrow> pyval list) \<Rightarrow> cron_reg_env \<Rightarrow> path \<Rightarrow> CashewConfig \<Rightarrow> string \<Rightarrow> 's cron_world \<Rightarrow>
    cron_result \<Rightarrow> bool" where
  "cron_reconciled api jobs env home config pid w q \<longleftrightarrow>
     (if cron_enabled config
      then script_current env home config (cw_dir w) \<and>
        (\<exists>i. (q = Cron_adopted i \<or> q = Cron_created (Some i)) \<and> only_job api pid (cfg_sleep_schedule config) (jobs (cw_jobs w)) i)
      else q = Cron_disabled \<and> owned pid (jobs (cw_jobs w)) = [])"

lemma reconcile_spec:
  assumes laws: "scheduler_laws api jobs"
    and parsed: "if cron_enabled config then \<exists>x. parsed = Some x \<and> ca_parse api (cfg_sleep_schedule config) = Inr x else parsed = None"
    and run: "reconcile_jobs api env home config pid parsed w = (w', r)"
  shows "others pid (jobs (cw_jobs w')) = others pid (jobs (cw_jobs w)) \<and>
    (\<forall>q. r = Inr q \<longrightarrow> cron_reconciled api jobs env home config pid w' q)"
proof (cases "ca_list api (cw_jobs w)")
  case (Inl e)
  then show ?thesis using run by (auto simp: reconcile_jobs_def)
next
  case (Inr vs)
  then have vs: "filter (\<lambda>job. owns_job job pid) (dicts vs) = owned pid (jobs (cw_jobs w))"
    using laws_list [OF laws] by (simp add: owned_def)
  show ?thesis
  proof (cases "cron_enabled config")
    case False
    obtain s q where rm: "remove_jobs api (owned pid (jobs (cw_jobs w))) (cw_jobs w) = (s, q)" by fastforce
    then have "w' = w\<lparr>cw_jobs := s\<rparr>" "r = bind_res q (\<lambda>_. return Cron_disabled)"
      using run Inr vs False parsed by (auto simp: reconcile_jobs_def)
    then show ?thesis
      using remove_owned [OF laws refl rm] False by (auto simp: cron_reconciled_def res_simps)
  next
    case True
    then obtain x where x: "parsed = Some x" "ca_parse api (cfg_sleep_schedule config) = Inr x" using parsed by auto
    obtain d b where prep: "prepare_script env home config (cw_dir w) = (d, b)" by fastforce
    show ?thesis
    proof (cases b)
      case (Inl e)
      then show ?thesis using run Inr vs x prep by (auto simp: reconcile_jobs_def)
    next
      case b: (Inr c)
      obtain s q where ad: "adopt_job api pid (cfg_sleep_schedule config) x (owned pid (jobs (cw_jobs w))) (cw_jobs w) = (s, q)"
        by fastforce
      then have "w' = \<lparr>cw_jobs = s, cw_dir = d\<rparr>" "r = q"
        using run Inr vs x prep b by (simp_all add: reconcile_jobs_def)
      then show ?thesis
        using adopt_job_spec [OF laws x(2) ad] prepare_current prep b True by (auto simp: cron_reconciled_def)
    qed
  qed
qed

lemma register_body_spec:
  assumes laws: "scheduler_laws api jobs" and pid: "cron_profile_identity (cr_sha env) (cr_resolve env) home = Inr pid"
    and run: "register_body api env home config (w, p) = ((w', p'), r)"
  shows "others pid (jobs (cw_jobs w')) = others pid (jobs (cw_jobs w)) \<and>
    (p' = p \<or> (\<exists>q. p' = publish_job (Inr q) p \<and> cron_reconciled api jobs env home config pid w' q)) \<and>
    (\<forall>q. r = Inr q \<longrightarrow> p' = publish_job (Inr q) p \<and> cron_reconciled api jobs env home config pid w' q)"
proof (cases "\<exists>parsed. bind_res (raised (cr_import env)) (\<lambda>_.
      if cron_enabled config then bind_res (ca_parse api (cfg_sleep_schedule config)) (\<lambda>x. return (Some x)) else return None) =
    Inr parsed \<and> cr_enter env = None")
  case True
  then obtain parsed where p: "raised (cr_import env) = Inr ()" "cr_enter env = None"
    "(if cron_enabled config then bind_res (ca_parse api (cfg_sleep_schedule config)) (\<lambda>x. return (Some x)) else return None) = Inr parsed"
    by (auto simp: res_simps)
  then have parsed: "if cron_enabled config then \<exists>x. parsed = Some x \<and> ca_parse api (cfg_sleep_schedule config) = Inr x else parsed = None"
    by (auto simp: res_simps split: if_splits)
  obtain v q where rec: "reconcile_jobs api env home config pid parsed w = (v, q)" by fastforce
  have "w' = v" "p' = publish_job q p" "r = (case cr_exit env of Some e \<Rightarrow> Inl e | None \<Rightarrow> q)"
    using run p pid rec by (auto simp: register_body_def with_cron_store_def)
  moreover have "publish_job q p = p" if "\<not> (\<exists>x. q = Inr x)" using that by (cases q) auto
  ultimately show ?thesis
    using reconcile_spec [OF laws parsed rec] by (cases q) (auto split: option.splits)
next
  case False
  then have "w' = w \<and> p' = p \<and> (\<exists>e. r = Inl e)"
    using run pid by (auto simp: register_body_def with_cron_store_def res_simps split: sum.splits option.splits if_splits)
  then show ?thesis by auto
qed

text \<open>What the provider's attributes and the result say of the jobs and the script.\<close>

definition registration_truthful ::
    "'s cron_api \<Rightarrow> ('s \<Rightarrow> pyval list) \<Rightarrow> cron_reg_env \<Rightarrow> path \<Rightarrow> CashewConfig \<Rightarrow> string \<Rightarrow> 's cron_world \<Rightarrow> provider \<Rightarrow>
     unit res \<Rightarrow> bool" where
  "registration_truthful api jobs env home config pid w p r \<longleftrightarrow>
    (pv_health_cron p = ''registered'' \<longrightarrow> cron_enabled config \<and> script_current env home config (cw_dir w) \<and>
       (\<exists>i. pv_sleep_cron_job_id p = Some i \<and> only_job api pid (cfg_sleep_schedule config) (jobs (cw_jobs w)) i)) \<and>
    (pv_health_cron p = ''disabled'' \<and> r = return () \<longrightarrow>
       \<not> cron_enabled config \<and> pv_sleep_cron_job_id p = None \<and> owned pid (jobs (cw_jobs w)) = []) \<and>
    (\<forall>e. r = Inl e \<longrightarrow> \<not> isinstance e C_Exception)"

lemma published_truthful:
  assumes "cron_reconciled api jobs env home config pid w q" "pv_health_cron p = ''disabled''" "\<nexists>i. q = Cron_created i"
  shows "registration_truthful api jobs env home config pid w (publish_job (Inr q) p) (return ())"
  using assms by (auto simp: registration_truthful_def cron_reconciled_def registered_def split: if_splits)

lemma created_truthful:
  assumes "cron_reconciled api jobs env home config pid w (Cron_created (Some i))"
  shows "registration_truthful api jobs env home config pid w (registered i p) (return ())"
  using assms by (auto simp: registration_truthful_def cron_reconciled_def registered_def split: if_splits)

lemma failed_truthful:
  assumes "cron_failed e p1 = (p', r)" "pv_health_cron p = ''disabled''"
    and "p1 = p \<or> (\<exists>q. p1 = publish_job (Inr q) p \<and> cron_reconciled api jobs env home config pid w q)"
  shows "registration_truthful api jobs env home config pid w p' r"
proof (cases "isinstance e C_Exception \<or> isinstance e C_ImportError")
  case True
  then show ?thesis using assms(1) by (auto simp: cron_failed_def registration_truthful_def split: if_splits)
next
  case False
  then have f: "p' = p1" "r = Inl e" "\<not> isinstance e C_Exception" using assms(1) by (auto simp: cron_failed_def)
  have "pv_health_cron p1 = ''disabled'' \<or>
      (\<exists>i. p1 = registered i p \<and> cron_enabled config \<and> script_current env home config (cw_dir w) \<and>
         only_job api pid (cfg_sleep_schedule config) (jobs (cw_jobs w)) i)"
    using assms(2,3) by (auto simp: cron_reconciled_def split: if_splits)
  then show ?thesis using f by (elim disjE exE conjE) (simp_all add: registration_truthful_def registered_def)
qed

text \<open>
  C37: Whatever fails on the way, a registration leaves every job alone that is not this profile's.
  When it reports the job as registered, the profile has exactly one job, with the identifier that
  the provider holds and the configured schedule, and the script in place carries this
  installation and this configuration; when it ends quietly with the cycle disabled, the profile has no job.
\<close>

theorem register_reconciles:
  assumes laws: "scheduler_laws api jobs" and pid: "cron_profile_identity (cr_sha env) (cr_resolve env) home = Inr pid"
    and p: "pv_hermes_home p = Some home" "pv_config p = Some config" "pv_identity_ready p" "pv_health_cron p = ''disabled''"
    and run: "register_sleep_cron api env p w = (w', p', r)"
  shows "others pid (jobs (cw_jobs w')) = others pid (jobs (cw_jobs w)) \<and>
    (pv_health_cron p' = ''registered'' \<longrightarrow> cron_enabled config \<and> script_current env home config (cw_dir w') \<and>
       (\<exists>i. pv_sleep_cron_job_id p' = Some i \<and> only_job api pid (cfg_sleep_schedule config) (jobs (cw_jobs w')) i)) \<and>
    (pv_health_cron p' = ''disabled'' \<and> r = return () \<longrightarrow>
       \<not> cron_enabled config \<and> pv_sleep_cron_job_id p' = None \<and> owned pid (jobs (cw_jobs w')) = []) \<and>
    (\<forall>e. r = Inl e \<longrightarrow> \<not> isinstance e C_Exception)"
proof -
  obtain v p1 q where body: "register_body api env home config (w, p) = ((v, p1), q)"
    by (metis surj_pair)
  note spec = register_body_spec [OF laws pid body]
  have w': "w' = v" using run p body by (auto simp: register_sleep_cron_def split: sum.splits cron_result.splits option.splits)
  have "registration_truthful api jobs env home config pid v p' r"
  proof (cases q)
    case (Inl e)
    then have "cron_failed e p1 = (p', r)" using run p body by (simp add: register_sleep_cron_def)
    then show ?thesis using failed_truthful p(4) spec by blast
  next
    case (Inr x)
    then have rec: "cron_reconciled api jobs env home config pid v x" "p1 = publish_job (Inr x) p" using spec by auto
    show ?thesis
    proof (cases "\<exists>i. x = Cron_created i")
      case True
      then obtain i where i: "x = Cron_created (Some i)" using rec(1) by (auto simp: cron_reconciled_def split: if_splits)
      then have "p' = registered i p" "r = return ()" using rec run p body Inr by (auto simp: register_sleep_cron_def)
      then show ?thesis using created_truthful rec(1) i by blast
    next
      case False
      then have "p' = p1" "r = return ()"
        using run p body Inr by (auto simp: register_sleep_cron_def split: cron_result.splits)
      then show ?thesis using published_truthful [OF rec(1) p(4)] rec(2) False by blast
    qed
  qed
  then show ?thesis using spec w' unfolding registration_truthful_def by blast
qed

section \<open>The registration and the script agree\<close>

definition plain :: "string \<Rightarrow> bool" where
  "plain c \<longleftrightarrow> c \<noteq> [] \<and> c \<noteq> ''.'' \<and> CHR ''/'' \<notin> set c"

lemma split_slash_plain: "CHR ''/'' \<notin> set c \<Longrightarrow> split_slash acc (c @ rest) = split_slash (rev c @ acc) rest"
  by (induction c arbitrary: acc) auto

lemma split_slash_text:
  "list_all plain p \<Longrightarrow> split_slash acc (concat (map (\<lambda>c. CHR ''/'' # c) p)) = rev acc # p"
  by (induction p arbitrary: acc) (auto simp: plain_def split_slash_plain)

lemma path_of_text: "list_all plain p \<Longrightarrow> path_of cwd (path_text p) = p"
proof (cases p)
  case (Cons c cs)
  assume p: "list_all plain p"
  have "py_startswith ''/'' (path_text p)" by (simp add: Cons path_text_def py_startswith_def)
  moreover have "split_path (path_text p) = filter (\<lambda>c. c \<noteq> [] \<and> c \<noteq> ''.'') p"
    using split_slash_text [OF p, of "[]"] by (simp add: split_path_def path_text_def Cons)
  moreover have "filter (\<lambda>c. c \<noteq> [] \<and> c \<noteq> ''.'') p = p"
    using p by (auto simp: filter_id_conv list_all_iff plain_def)
  ultimately show ?thesis by (simp add: path_of_def)
qed (simp add: path_of_def path_text_def py_startswith_def split_path_def)

lemma split_anchors:
  "split_path ''plugins/cashew'' = [''plugins'', ''cashew'']"
  "split_path ''hermes-agent/plugins/memory/cashew'' = [''hermes-agent'', ''plugins'', ''memory'', ''cashew'']"
  by (simp_all add: split_path_def)

lemma installation_markerD:
  assumes "installation_marker sha fp fs home impl c = Inr m"
  obtains kind anchor pid where "map_of ANCHORS kind = Some anchor" "fs (cron_implementation home kind) = Inr impl"
    "cron_profile_identity sha fs home = Inr pid"
    "m = [(''version'', PInt 2), (''kind'', PStr kind), (''anchor'', PStr anchor),
       (''implementation'', PStr (path_text impl)), (''profile_id'', PStr pid),
       (''config_id'', PStr (config_identity fp (effective_config_snapshot c))), (''config'', PDict (effective_config_snapshot c))]"
proof -
  let ?flat = "home @ [''plugins'', ''cashew'', ''plugins'', ''memory'', ''cashew'']"
  let ?dev = "home @ [''hermes-agent'', ''plugins'', ''memory'', ''cashew'']"
  have impl: "cron_implementation home ''flat'' = ?flat" "cron_implementation home ''development'' = ?dev"
    by (simp_all add: cron_implementation_def ANCHORS_def split_anchors)
  obtain flat where f: "fs ?flat = Inr flat" using assms by (auto simp: installation_marker_def res_simps)
  obtain pid where p: "cron_profile_identity sha fs home = Inr pid" using assms by (auto simp: installation_marker_def res_simps Let_def)
  show ?thesis
  proof (cases "flat = impl")
    case True
    then show ?thesis
      using assms f p impl by (intro that [of "''flat''" "''plugins/cashew''" pid]) (simp_all add: installation_marker_def ANCHORS_def Let_def)
  next
    case False
    then obtain dev where d: "fs ?dev = Inr dev" "dev = impl"
      using assms f by (auto simp: installation_marker_def res_simps split: if_splits)
    then show ?thesis
      using assms f p impl False by (intro that [of "''development''" "''hermes-agent/plugins/memory/cashew''" pid])
        (simp_all add: installation_marker_def ANCHORS_def Let_def)
  qed
qed

text \<open>
  C38: The script accepts the marker that a registration wrote for its profile, loads the modules
  from that installation and reads back the configuration that was registered; run for a profile with
  another identity it refuses the marker and loads nothing.
\<close>

theorem marker_accepted:
  assumes "wf_config fs home c" "installation_marker sha fp fs home impl c = Inr m"
    and "fs impl = Inr impl" "list_all plain impl"
    and "dict_get m ''kind'' = PStr kind" "list_all (\<lambda>f. is_file (cron_implementation home kind @ [f])) REQUIRED_FILES"
  shows "load_profile_modules sha fp fs cwd is_file None home (PDict m) modules =
      (modules \<union> {CRON_PACKAGE, CRON_PACKAGE @ ''.config'', CRON_PACKAGE @ ''.sleep_adapter''}, return m) \<and>
    fs (cron_implementation home kind) = Inr impl \<and>
    load_effective_config_snapshot fs home (dict_get m ''config'') = Inr c \<and>
    (\<forall>home' pid'. cron_profile_identity sha fs home' = Inr pid' \<and> cron_profile_identity sha fs home \<noteq> Inr pid' \<longrightarrow>
       fst (load_profile_modules sha fp fs cwd is_file imports home' (PDict m) modules) = modules \<and>
       isl (snd (load_profile_modules sha fp fs cwd is_file imports home' (PDict m) modules)))"
proof -
  obtain kind' anchor pid where m: "map_of ANCHORS kind' = Some anchor" "fs (cron_implementation home kind') = Inr impl"
    "cron_profile_identity sha fs home = Inr pid"
    "m = [(''version'', PInt 2), (''kind'', PStr kind'), (''anchor'', PStr anchor),
       (''implementation'', PStr (path_text impl)), (''profile_id'', PStr pid),
       (''config_id'', PStr (config_identity fp (effective_config_snapshot c))), (''config'', PDict (effective_config_snapshot c))]"
    by (rule installation_markerD [OF assms(2)])
  have get: "dict_get m ''version'' = PInt 2" "dict_get m ''anchor'' = PStr anchor" "dict_get m ''profile_id'' = PStr pid"
    "dict_get m ''implementation'' = PStr (path_text impl)" "dict_get m ''config'' = PDict (effective_config_snapshot c)"
    "dict_get m ''config_id'' = PStr (config_identity fp (effective_config_snapshot c))" "kind' = kind"
    using assms(5) by (simp_all add: m(4) dict_get_def)
  have ok: "marker_ok sha fp fs h m = bind_res (cron_profile_identity sha fs h) (\<lambda>q. return (q = pid))" for h
    using m(1) get assms(5) by (auto simp: marker_ok_def anchor_of_def is_two_def intro!: arg_cong [of _ _ "bind_res _"])
  have "load_profile_modules sha fp fs cwd is_file None home (PDict m) modules =
      (modules \<union> {CRON_PACKAGE, CRON_PACKAGE @ ''.config'', CRON_PACKAGE @ ''.sleep_adapter''}, return m)"
    using ok [of home] m(2,3) get assms(3-6)
    by (simp add: load_profile_modules_def path_of_text import_modules_def Let_def)
  moreover have "fst (load_profile_modules sha fp fs cwd is_file imports h (PDict m) modules) = modules \<and>
      isl (snd (load_profile_modules sha fp fs cwd is_file imports h (PDict m) modules))"
    if "cron_profile_identity sha fs h = Inr q" "q \<noteq> pid" for h q
    using ok [of h] that by (simp add: load_profile_modules_def)
  ultimately show ?thesis
    using snapshot_roundtrip [OF assms(1)] m(2,3) get by auto
qed

theorem marker_accepted_witness:
  "\<exists>m. installation_marker id (\<lambda>_. ''digest'') lex_resolve [''home''] [''home'', ''plugins'', ''cashew'', ''plugins'', ''memory'', ''cashew'']
       (config_of_payload DEFAULTS) = Inr m \<and>
     snd (load_profile_modules id (\<lambda>_. ''digest'') lex_resolve [] (\<lambda>_. True) None [''home''] (PDict m) {}) = Inr m \<and>
     isl (snd (load_profile_modules id (\<lambda>_. ''digest'') lex_resolve [] (\<lambda>_. True) None [''elsewhere''] (PDict m) {}))"
proof -
  let ?impl = "[''home'', ''plugins'', ''cashew'', ''plugins'', ''memory'', ''cashew'']" and ?c = "config_of_payload DEFAULTS"
  have wf: "wf_config lex_resolve [''home''] ?c" by code_simp
  have fs: "lex_resolve ?impl = Inr ?impl" "lex_resolve [''home''] = Inr [''home'']" "lex_resolve [''elsewhere''] = Inr [''elsewhere'']"
    by code_simp+
  have pl: "list_all plain ?impl" by code_simp
  obtain m where m: "installation_marker id (\<lambda>_. ''digest'') lex_resolve [''home''] ?impl ?c = Inr m" "dict_get m ''kind'' = PStr ''flat''"
    using fs by (simp add: installation_marker_def cron_profile_identity_def Let_def dict_get_def)
  have id: "cron_profile_identity id lex_resolve [''elsewhere''] = Inr ''/elsewhere''" "cron_profile_identity id lex_resolve [''home''] = Inr ''/home''"
    using fs by (simp_all add: cron_profile_identity_def path_text_def)
  show ?thesis
    using marker_accepted [OF wf m(1) fs(1) pl m(2), of "\<lambda>_. True" "[]" "{}" None] m(1) id
    by (intro exI [of _ m]) (simp add: list_all_iff)
qed

section \<open>A scheduler\<close>

text \<open>A scheduler that keeps its laws: a list of jobs, with an identifier longer than all others for a new one.\<close>

definition kept :: "pyval list \<Rightarrow> pyval list" where
  "kept vs = (if jobs_wf vs then vs else [])"

definition id_length :: "pydict \<Rightarrow> nat" where
  "id_length d = (case dict_get d ''id'' of PStr i \<Rightarrow> length i | _ \<Rightarrow> 0)"

definition fresh_id :: "pyval list \<Rightarrow> string" where
  "fresh_id vs = replicate (Suc (sum_list (map id_length (dicts vs)))) CHR ''j''"

definition retime :: "string \<Rightarrow> string \<Rightarrow> pyval \<Rightarrow> pyval" where
  "retime i t v = (case v of PDict d \<Rightarrow> if has_id i v then PDict (AList.update ''schedule'' (PStr t) d) else v | _ \<Rightarrow> v)"

definition list_scheduler :: "pyval list cron_api" where
  "list_scheduler = \<lparr>ca_list = (\<lambda>vs. Inr (kept vs)), ca_parse = (\<lambda>t. Inr (PStr t)), ca_eq = (=),
     ca_remove = (\<lambda>i vs. (filter (\<lambda>v. \<not> has_id i v) (kept vs), None)),
     ca_update = (\<lambda>i t vs. (map (retime i t) (kept vs), None)),
     ca_create = (\<lambda>p t args vs. let vs = kept vs; i = fresh_id vs
        in (vs @ [PDict ([(''id'', PStr i), (''prompt'', PStr p), (''schedule'', PStr t)] @ args)], Inr (Some i)))\<rparr>"

lemma kept_wf: "jobs_wf (kept vs)"
  by (simp add: kept_def jobs_wf_def)

lemma kept_id: "jobs_wf vs \<Longrightarrow> kept vs = vs"
  by (simp add: kept_def)

lemma wf_filter: "jobs_wf vs \<Longrightarrow> jobs_wf (filter (\<lambda>v. \<not> has_id i v) vs)"
  by (auto simp: jobs_wf_def dicts_without list_all_iff distinct_map_filter)

lemma dict_get_update: "k \<noteq> j \<Longrightarrow> dict_get (AList.update j v d) k = dict_get d k"
  by (simp add: dict_get_def update_conv')

lemma retime_ids: "map (\<lambda>d. dict_get d ''id'') (dicts (map (retime i t) vs)) = map (\<lambda>d. dict_get d ''id'') (dicts vs)"
  by (induction vs) (auto simp: dicts_Cons retime_def dict_get_update split: pyval.splits)

lemma wf_ids: "jobs_wf vs \<longleftrightarrow> (let ids = map (\<lambda>d. dict_get d ''id'') (dicts vs) in list_all is_str ids \<and> distinct ids)"
  by (auto simp: jobs_wf_def Let_def list_all_iff)

lemma fresh_id_new: "d \<in> set (dicts vs) \<Longrightarrow> dict_get d ''id'' \<noteq> PStr (fresh_id vs)"
proof
  assume d: "d \<in> set (dicts vs)" "dict_get d ''id'' = PStr (fresh_id vs)"
  then have "id_length d \<le> sum_list (map id_length (dicts vs))" by (intro member_le_sum_list) simp_all
  then show False using d(2) by (simp add: id_length_def fresh_id_def)
qed

lemma list_scheduler_laws: "scheduler_laws list_scheduler kept"
proof -
  have "removes_jobs list_scheduler kept"
    by (auto simp: removes_jobs_def list_scheduler_def kept_id wf_filter kept_wf)
  moreover have "updates_jobs list_scheduler kept"
  proof -
    have "jobs_wf (map (retime i t) (kept vs))" for i t vs
      using kept_wf [of vs] by (simp add: wf_ids retime_ids)
    moreover have "list_all2 (job_updated i (PStr t)) vs (map (retime i t) vs)" for i t vs
      by (induction vs) (auto simp: job_updated_def retime_def has_id_def rescheduled_def dict_get_update
          dict_get_def update_conv' split: pyval.splits)
    ultimately show ?thesis by (simp add: updates_jobs_def list_scheduler_def kept_id)
  qed
  moreover have "creates_jobs list_scheduler kept"
  proof -
    have "jobs_wf (kept vs @ [PDict ((''id'', PStr (fresh_id (kept vs))) # d)])" for vs d
    proof -
      have "dict_get ((''id'', PStr (fresh_id (kept vs))) # d) ''id'' = PStr (fresh_id (kept vs))" by (simp add: dict_get_def)
      then show ?thesis using kept_wf [of vs] fresh_id_new [of _ "kept vs"] by (force simp: jobs_wf_def)
    qed
    then show ?thesis
      by (auto simp: creates_jobs_def list_scheduler_def Let_def kept_id created_as_def dict_get_def)
  qed
  ultimately show ?thesis
    by (simp add: scheduler_laws_def kept_wf) (simp add: list_scheduler_def)
qed

text \<open>A host with a job of its own; this profile's job is created beside it.\<close>

definition other_job :: pyval where
  "other_job = PDict [(''id'', PStr ''x''), (''name'', PStr CRON_JOB_NAME), (''prompt'', PStr ''water the plants'')]"

definition cron_reg_example :: cron_reg_env where
  "cron_reg_example = \<lparr>cr_import = None, cr_enter = None, cr_exit = None,
     cr_implementation = [''home'', ''plugins'', ''cashew'', ''plugins'', ''memory'', ''cashew''],
     cr_template = Inr (''# '' @ MARKER_SENTINEL), cr_stage = \<lparr>sf_read = None, sf_create = None, sf_write = None,
       sf_replace = None, sf_unlink = None\<rparr>, cr_sha = id, cr_fp = (\<lambda>_. ''digest''), cr_repr = (\<lambda>_. ''{}''), cr_resolve = Inr\<rparr>"

definition cron_provider :: provider where
  "cron_provider = new_provider\<lparr>pv_hermes_home := Some [''home''], pv_config := Some (config_of_payload DEFAULTS),
     pv_identity_ready := True\<rparr>"

definition cron_before :: "pyval list cron_world" where
  "cron_before = \<lparr>cw_jobs = [other_job], cw_dir = \<lparr>sd_script = None, sd_staged = 0\<rparr>\<rparr>"

definition cron_after :: "pyval list cron_world \<times> provider \<times> unit res" where
  "cron_after = register_sleep_cron list_scheduler cron_reg_example cron_provider cron_before"

lemma cron_after_registered: "pv_health_cron (fst (snd cron_after)) = ''registered''"
  by code_simp

lemma cron_example_home: "cron_profile_identity (cr_sha cron_reg_example) (cr_resolve cron_reg_example) [''home''] = Inr ''/home''"
  by code_simp

lemma cron_example_other: "others ''/home'' (kept [other_job]) = [other_job]"
  by code_simp

theorem register_reconciles_witness:
  "others ''/home'' (kept (cw_jobs (fst cron_after))) = [other_job] \<and>
   length (owned ''/home'' (kept (cw_jobs (fst cron_after)))) = 1 \<and>
   script_current cron_reg_example [''home''] (config_of_payload DEFAULTS) (cw_dir (fst cron_after))"
proof -
  have p: "pv_hermes_home cron_provider = Some [''home'']" "pv_config cron_provider = Some (config_of_payload DEFAULTS)"
    "pv_identity_ready cron_provider" "pv_health_cron cron_provider = ''disabled''"
    by (simp_all add: cron_provider_def new_provider_def)
  have run: "register_sleep_cron list_scheduler cron_reg_example cron_provider cron_before =
      (fst cron_after, fst (snd cron_after), snd (snd cron_after))" by (simp add: cron_after_def)
  show ?thesis
    using register_reconciles [OF list_scheduler_laws cron_example_home p run] cron_after_registered cron_example_other
    by (auto simp: only_job_def cron_before_def)
qed

text \<open>A schedule that was changed moves to the job that is there.\<close>

lemma adoption_reschedules:
  "map (\<lambda>d. (dict_get d ''id'', dict_get d ''schedule'')) (owned ''/home'' (fst (adopt_job list_scheduler ''/home'' ''daily'' (PStr ''daily'')
     (owned ''/home'' (cw_jobs (fst cron_after))) (cw_jobs (fst cron_after))))) = [(PStr ''jj'', PStr ''daily'')]"
  by code_simp

end
