(* ===== verification/Binding.thy ===== *)
theory Binding
  imports Profile Admission
begin

text \<open>
  What stands between the engine and its embedding cache (\<^verbatim>\<open>embedding_compat.py\<close>), and how a profile
  is bound to the engine (\<^verbatim>\<open>_bind_upstream_embedding\<close> of \<^verbatim>\<open>__init__.py\<close>).

  The engine is an argument: a tree of the cache operations and encodings it asks for, with its
  next step for every answer, so that it may also go on after an exception. Each operation that
  reaches the raw cache is recorded with the admission and the leases of that moment.
\<close>

section \<open>The cache\<close>

datatype cache_op =
    Cop_get_many string "string list"
  | Cop_put_many string "(string \<times> pyval) list"
  | Cop_get string string
  | Cop_put string string pyval
  | Cop_size "string option"
  | Cop_invalidate string

text \<open>\<^verbatim>\<open>NoopEmbeddingCache\<close>.\<close>

fun noop_cache :: "cache_op \<Rightarrow> pyval" where
  "noop_cache (Cop_get_many model texts) = PList (map (\<lambda>_. PNone) texts)"
| "noop_cache (Cop_put_many model pairs) = PInt 0"
| "noop_cache (Cop_get model t) = PNone"
| "noop_cache (Cop_put model t vector) = PNone"
| "noop_cache (Cop_size model) = PInt 0"
| "noop_cache (Cop_invalidate model) = PNone"

record gen_cache =
  gc_noop :: bool
  gc_path :: path
  gc_model :: string
  gc_dim :: int
  gc_supervisor :: nat
  gc_generation :: "pyval option"

definition check_cache ::
    "gen_cache \<Rightarrow> exn option \<Rightarrow> cache_meta \<Rightarrow> OperationAdmission option \<Rightarrow> string \<Rightarrow> unit res" where
  "check_cache gc unreadable meta admission model =
     (case admission of
        None \<Rightarrow> raise C_OperationAdmissionError ''embedding cache operation is not admitted''
      | Some a \<Rightarrow>
          if gc_noop gc then
            (if model \<noteq> gc_model gc then raise C_OperationAdmissionError ''embedding cache admission model mismatch''
             else return ())
          else if oa_cache_path a \<noteq> Some (gc_path gc) then
            raise C_OperationAdmissionError ''embedding cache admission path mismatch''
          else if oa_model a \<noteq> Some model \<or> oa_model a \<noteq> Some (gc_model gc) then
            raise C_OperationAdmissionError ''embedding cache admission model mismatch''
          else if oa_embedding_dim a \<noteq> None \<and> oa_embedding_dim a \<noteq> Some (gc_dim gc) then
            raise C_OperationAdmissionError ''embedding cache admission dimension mismatch''
          else if oa_supervisor a \<noteq> Some (gc_supervisor gc) then
            raise C_OperationAdmissionError ''embedding cache admission supervisor mismatch''
          else if oa_embedding_generation a \<noteq> gc_generation gc then
            raise C_OperationAdmissionError ''embedding cache admission generation mismatch''
          else if oa_cache_lease a = None then
            raise C_OperationAdmissionError ''embedding cache lease is not owned''
          else case unreadable of
            Some e \<Rightarrow>
              if isinstance e C_SqliteError
              then raise C_OperationAdmissionError ''embedding cache identity metadata is unavailable'' else Inl e
          | None \<Rightarrow>
              if map_of meta model \<noteq> Some (gc_dim gc)
              then raise C_OperationAdmissionError ''embedding cache model dimension metadata mismatch''
              else return ())"

text \<open>The model an operation is about; \<^verbatim>\<open>size\<close> takes the cache's own when none is given.\<close>

fun selected_op :: "gen_cache \<Rightarrow> cache_op \<Rightarrow> cache_op" where
  "selected_op gc (Cop_size None) = Cop_size (Some (gc_model gc))"
| "selected_op gc (Cop_size (Some m)) = Cop_size (Some (if m = [] then gc_model gc else m))"
| "selected_op gc op = op"

fun op_model :: "cache_op \<Rightarrow> string" where
  "op_model (Cop_get_many m _) = m"
| "op_model (Cop_put_many m _) = m"
| "op_model (Cop_get m _) = m"
| "op_model (Cop_put m _ _) = m"
| "op_model (Cop_size m) = (case m of Some m \<Rightarrow> m | None \<Rightarrow> [])"
| "op_model (Cop_invalidate m) = m"

section \<open>The service\<close>

record gen_service =
  gs_supervisor :: nat
  gs_generation :: "pyval option"
  gs_cache_path :: "path option"
  gs_model :: "string option"
  gs_dim :: "int option"

record cache_access =
  ca_op :: cache_op
  ca_admission :: "OperationAdmission option"
  ca_locks :: "lockfd list"

text \<open>
  The process as far as the binding touches it; \<open>bd_config_model\<close>, \<open>bd_known_dims\<close> and \<open>bd_service\<close> are
  the three attributes of the engine's modules that are replaced.
\<close>

record 'c bind_world =
  bd_adm :: adm_world
  bd_meta :: "cache_meta store"
  bd_cache :: 'c
  bd_reached :: "cache_access list"
  bd_config_model :: string
  bd_known_dims :: "(string \<times> int) list"
  bd_service :: "(gen_service \<times> gen_cache) option"
  bd_closed :: "nat list"

datatype engine =
    Eng_done "pyval res"
  | Eng_cache cache_op "pyval res \<Rightarrow> engine"
  | Eng_encode "string list" "pyval res \<Rightarrow> engine"

text \<open>
  The answers of the environment: the raw cache, the worker, whether the cache's metadata can be
  read, the gate of the supervisor; and of the steps of a binding.
\<close>

record 'c bind_env =
  be_raw :: "cache_op \<Rightarrow> 'c \<Rightarrow> 'c \<times> pyval res"
  be_encode :: "string list \<Rightarrow> pyval res"
  be_unreadable :: "exn option"
  be_gate :: "exn option"
  be_resolve :: "path \<Rightarrow> path res"
  be_faults :: "nat \<Rightarrow> lock_faults"
  be_schedule :: schedule
  be_fuel :: nat
  be_import :: "exn option"
  be_supervisor :: "nat res"
  be_generation :: "pyval option"
  be_start :: "int res"
  be_open :: "exn option"
  be_persist :: txn_faults
  be_construct :: "exn option"
  be_close :: "exn option"

definition cached_call :: "'c bind_env \<Rightarrow> gen_cache \<Rightarrow> cache_op \<Rightarrow> 'c bind_world \<Rightarrow> 'c bind_world \<times> pyval res" where
  "cached_call env gc op w =
     (let op = selected_op gc op; a = aw_current (bd_adm w)
      in case check_cache gc (be_unreadable env) (st_durable (bd_meta w)) a (op_model op) of
           Inl e \<Rightarrow> (w, Inl e)
         | Inr _ \<Rightarrow>
             if gc_noop gc then (w, return (noop_cache op))
             else (case be_raw env op (bd_cache w) of
                     (c, r) \<Rightarrow>
                       (w\<lparr>bd_cache := c, bd_reached := bd_reached w @
                          [\<lparr>ca_op = op, ca_admission = a, ca_locks = own_locks (aw_kernel (bd_adm w))\<rparr>]\<rparr>, r)))"

primrec run_engine :: "'c bind_env \<Rightarrow> gen_cache \<Rightarrow> engine \<Rightarrow> 'c bind_world \<Rightarrow> 'c bind_world \<times> pyval res" where
  "run_engine env gc (Eng_done r) = (\<lambda>w. (w, r))"
| "run_engine env gc (Eng_cache op k) = (\<lambda>w. case cached_call env gc op w of (w, r) \<Rightarrow> run_engine env gc (k r) w)"
| "run_engine env gc (Eng_encode texts k) = (\<lambda>w. run_engine env gc (k (be_encode env texts)) w)"

definition service_request :: "gen_service \<Rightarrow> adm_request" where
  "service_request gs =
     \<lparr>rq_graph_path = None, rq_cache_path = gs_cache_path gs, rq_model = gs_model gs, rq_embedding_dim = gs_dim gs,
      rq_vec_dim = None, rq_epoch = None, rq_supervisor = Some (gs_supervisor gs),
      rq_embedding_generation = gs_generation gs, rq_exclusive = False, rq_cache_exclusive = True, rq_deadline = 3 / 2\<rparr>"

text \<open>\<^verbatim>\<open>with supervisor.serve_generation()\<close>, and \<^verbatim>\<open>with admit_operation(...)\<close> around a body.\<close>

definition served :: "'c bind_env \<Rightarrow> ('c bind_world \<Rightarrow> 'c bind_world \<times> 'a res) \<Rightarrow> 'c bind_world \<Rightarrow> 'c bind_world \<times> 'a res" where
  "served env body w = (case be_gate env of Some e \<Rightarrow> (w, Inl e) | None \<Rightarrow> body w)"

definition admitted_body ::
    "'c bind_env \<Rightarrow> adm_request \<Rightarrow> ('c bind_world \<Rightarrow> 'c bind_world \<times> 'a res) \<Rightarrow> 'c bind_world \<Rightarrow> ('c bind_world \<times> 'a res) option" where
  "admitted_body env rq body w =
     (case admit_operation (be_resolve env) (be_faults env) (be_schedule env) False (be_fuel env) rq (bd_adm w) of
        None \<Rightarrow> None
      | Some (a, Inl e) \<Rightarrow> Some (w\<lparr>bd_adm := a\<rparr>, Inl e)
      | Some (a, Inr token) \<Rightarrow>
          (case body (w\<lparr>bd_adm := a\<rparr>) of
             (w1, r) \<Rightarrow>
               (case admit_exit (be_faults env) False (aw_current (bd_adm w) \<noteq> None) token
                       (case r of Inl e \<Rightarrow> Some e | Inr _ \<Rightarrow> None) (bd_adm w1) of
                  (b, Some e) \<Rightarrow> Some (w1\<lparr>bd_adm := b\<rparr>, Inl e)
                | (b, None) \<Rightarrow> Some (w1\<lparr>bd_adm := b\<rparr>, r))))"

text \<open>\<^verbatim>\<open>embed_np\<close> and \<^verbatim>\<open>embed\<close>, which differ in the engine's function they call.\<close>

definition service_embed ::
    "'c bind_env \<Rightarrow> gen_service \<Rightarrow> gen_cache \<Rightarrow> engine \<Rightarrow> 'c bind_world \<Rightarrow> ('c bind_world \<times> pyval res) option" where
  "service_embed env gs gc engine w =
     (if aw_current (bd_adm w) = None \<and> gs_cache_path gs \<noteq> None
      then admitted_body env (service_request gs) (served env (run_engine env gc engine)) w
      else Some (served env (run_engine env gc engine) w))"

section \<open>Binding a profile\<close>

definition UPSTREAM_KNOWN_DIMS :: "(string \<times> int) list" where
  "UPSTREAM_KNOWN_DIMS =
     [(''all-MiniLM-L6-v2'', 384), (''sentence-transformers/all-MiniLM-L6-v2'', 384), (''thenlper/gte-large'', 1024),
      (''thenlper/gte-base'', 768), (''thenlper/gte-small'', 384), (''all-mpnet-base-v2'', 768),
      (''BAAI/bge-large-en-v1.5'', 1024), (''BAAI/bge-base-en-v1.5'', 768), (''BAAI/bge-small-en-v1.5'', 384)]"

definition expected_dim :: "string \<Rightarrow> int" where
  "expected_dim model = (case map_of UPSTREAM_KNOWN_DIMS model of Some d \<Rightarrow> d | None \<Rightarrow> 0)"

definition new_service :: "'c bind_env \<Rightarrow> nat \<Rightarrow> path \<Rightarrow> string \<Rightarrow> int \<Rightarrow> gen_service" where
  "new_service env spv path model d =
     \<lparr>gs_supervisor = spv, gs_generation = be_generation env, gs_cache_path = Some path, gs_model = Some model, gs_dim = Some d\<rparr>"

definition persist_identity :: "'c bind_env \<Rightarrow> string \<Rightarrow> int \<Rightarrow> 'c bind_world \<Rightarrow> 'c bind_world \<times> unit res" where
  "persist_identity env model d w =
     (case persist_cache_identity (be_persist env) True (Some model) (Some d) (bd_meta w) of (s, r) \<Rightarrow> (w\<lparr>bd_meta := s\<rparr>, r))"

text \<open>The \<^verbatim>\<open>try\<close> block: the worker is started, the cache opened and its record written, both facades built.\<close>

definition bind_body ::
    "'c bind_env \<Rightarrow> nat \<Rightarrow> path \<Rightarrow> string \<Rightarrow> bool \<Rightarrow> 'c bind_world \<Rightarrow> ('c bind_world \<times> (int \<times> gen_service \<times> gen_cache) res) option" where
  "bind_body env spv path model disabled w =
     (case be_start env of
        Inl e \<Rightarrow> Some (w, Inl e)
      | Inr d \<Rightarrow>
          (let gs = new_service env spv path model d;
               facades = (case bind_res (be_resolve env path) (\<lambda>p. bind_res (raised (be_construct env)) (\<lambda>_. return p)) of
                  Inl e \<Rightarrow> Inl e
                | Inr p \<Rightarrow> return (d, gs, \<lparr>gc_noop = disabled, gc_path = p, gc_model = model, gc_dim = d,
                    gc_supervisor = spv, gc_generation = be_generation env\<rparr>))
           in if disabled then Some (w, facades)
              else case be_open env of
                Some e \<Rightarrow> Some (w, Inl e)
              | None \<Rightarrow>
                  (case admitted_body env (service_request gs) (persist_identity env model d) w of
                     None \<Rightarrow> None
                   | Some (w, Inl e) \<Rightarrow> Some (w, Inl e)
                   | Some (w, Inr _) \<Rightarrow> Some (w, facades))))"

definition bind_upstream_embedding ::
    "'c bind_env \<Rightarrow> string \<Rightarrow> path option \<Rightarrow> bool \<Rightarrow> 'c bind_world \<Rightarrow> ('c bind_world \<times> nat option res) option" where
  "bind_upstream_embedding env model cache_path disabled w =
     (case be_import env of
        Some e \<Rightarrow> Some (w, if isinstance e C_ImportError then return None else Inl e)
      | None \<Rightarrow>
          (case cache_path of
             None \<Rightarrow> Some (w, raise C_ValueError ''profile-scoped embedding cache path is required'')
           | Some path \<Rightarrow>
               (case be_supervisor env of
                  Inl e \<Rightarrow> Some (w, Inl e)
                | Inr spv \<Rightarrow>
                    (case bind_body env spv path model disabled w of
                       None \<Rightarrow> None
                     | Some (w, Inl e) \<Rightarrow>
                         Some (if isinstance e C_Exception
                               then (w\<lparr>bd_closed := spv # bd_closed w\<rparr>, Inl (case be_close env of Some c \<Rightarrow> c | None \<Rightarrow> e))
                               else (w, Inl e))
                     | Some (w, Inr (d, service)) \<Rightarrow>
                         Some (w\<lparr>bd_config_model := model,
                                 bd_known_dims := (if expected_dim model = 0 then AList.update model d (bd_known_dims w)
                                                   else bd_known_dims w),
                                 bd_service := Some service\<rparr>, return (Some spv))))))"

section \<open>What reaches the cache\<close>

definition cache_admission :: "gen_cache \<Rightarrow> OperationAdmission \<Rightarrow> bool" where
  "cache_admission gc a \<longleftrightarrow> oa_cache_path a = Some (gc_path gc) \<and> oa_model a = Some (gc_model gc) \<and>
     oa_embedding_dim a \<in> {None, Some (gc_dim gc)} \<and> oa_supervisor a = Some (gc_supervisor gc) \<and>
     oa_embedding_generation a = gc_generation gc \<and> oa_cache_lease a \<noteq> None"

lemma check_cache_Inr:
  assumes "check_cache gc u meta admission model = Inr x" "\<not> gc_noop gc"
  shows "\<exists>a. admission = Some a \<and> cache_admission gc a \<and> model = gc_model gc \<and> map_of meta model = Some (gc_dim gc)"
  using assms by (auto simp: check_cache_def cache_admission_def split: option.splits if_splits)

lemma check_cache_accepts:
  "cache_admission gc a \<Longrightarrow> map_of meta (gc_model gc) = Some (gc_dim gc) \<Longrightarrow>
   check_cache gc None meta (Some a) (gc_model gc) = return ()"
  by (auto simp: check_cache_def cache_admission_def)

text \<open>An access made in the world \<open>w\<close> and allowed there.\<close>

definition access_ok :: "gen_cache \<Rightarrow> 'c bind_world \<Rightarrow> cache_access \<Rightarrow> bool" where
  "access_ok gc w x \<longleftrightarrow> ca_admission x = aw_current (bd_adm w) \<and> ca_locks x = own_locks (aw_kernel (bd_adm w)) \<and>
     (\<exists>a. ca_admission x = Some a \<and> cache_admission gc a) \<and> op_model (ca_op x) = gc_model gc \<and>
     map_of (st_durable (bd_meta w)) (gc_model gc) = Some (gc_dim gc)"

lemma access_okD:
  "access_ok gc w x \<Longrightarrow> (\<exists>t. ca_admission x = Some t \<and> cache_admission gc t) \<and> op_model (ca_op x) = gc_model gc \<and>
     map_of (st_durable (bd_meta w)) (gc_model gc) = Some (gc_dim gc)"
  unfolding access_ok_def by blast

definition only_reaches :: "gen_cache \<Rightarrow> 'c bind_world \<Rightarrow> 'c bind_world \<Rightarrow> bool" where
  "only_reaches gc w w' \<longleftrightarrow> bd_adm w' = bd_adm w \<and> bd_meta w' = bd_meta w \<and>
     (\<exists>xs. bd_reached w' = bd_reached w @ xs \<and> list_all (access_ok gc w) xs)"

lemma only_reaches_refl: "only_reaches gc w w"
  by (auto simp: only_reaches_def)

lemma only_reaches_trans: "only_reaches gc w w' \<Longrightarrow> only_reaches gc w' w'' \<Longrightarrow> only_reaches gc w w''"
  by (auto simp: only_reaches_def access_ok_def list_all_iff)

lemma cached_call_reaches: "cached_call env gc op w = (w', r) \<Longrightarrow> only_reaches gc w w'"
  using check_cache_Inr [of gc "be_unreadable env" "st_durable (bd_meta w)" "aw_current (bd_adm w)" "op_model (selected_op gc op)"]
  by (auto simp: cached_call_def Let_def only_reaches_def access_ok_def split: sum.splits if_splits prod.splits)

lemma run_engine_reaches: "run_engine env gc engine w = (w', r) \<Longrightarrow> only_reaches gc w w'"
proof (induction engine arbitrary: w)
  case (Eng_cache op k)
  obtain w1 q where q: "cached_call env gc op w = (w1, q)" by fastforce
  then have "run_engine env gc (k q) w1 = (w', r)" using Eng_cache.prems by simp
  then have "only_reaches gc w1 w'" by (rule Eng_cache.IH [OF rangeI])
  with cached_call_reaches [OF q] show ?case by (rule only_reaches_trans)
next
  case (Eng_encode texts k)
  then show ?case using Eng_encode.IH [OF rangeI] by simp
qed (simp add: only_reaches_refl)

lemma served_reaches: "served env (run_engine env gc engine) w = (w', r) \<Longrightarrow> only_reaches gc w w'"
  by (auto simp: served_def only_reaches_refl run_engine_reaches split: option.splits)

text \<open>
  A body under an admission of its own, which does not touch leases: it runs under the request's token,
  and afterwards all leases are back.
\<close>

definition keeps_adm :: "('c bind_world \<Rightarrow> 'c bind_world \<times> 'a res) \<Rightarrow> bool" where
  "keeps_adm body \<longleftrightarrow> (\<forall>v. bd_adm (fst (body v)) = bd_adm v)"

lemma keeps_admD: "keeps_adm body \<Longrightarrow> body v = (v', q) \<Longrightarrow> bd_adm v' = bd_adm v"
  unfolding keeps_adm_def by (metis fst_conv)

lemma admitted_body_spec:
  assumes "fair_schedule (be_schedule env)" "locks_ok (aw_kernel (bd_adm w))" "aw_current (bd_adm w) = None"
    and body: "keeps_adm body"
    and run: "admitted_body env rq body w = Some (w', r)"
  obtains a where "own_locks (aw_kernel (bd_adm w')) = own_locks (aw_kernel (bd_adm w))" "aw_current (bd_adm w') = None"
      "w' = w\<lparr>bd_adm := a\<rparr>" "isl r"
    | a b token cache w1 q where "own_locks (aw_kernel (bd_adm w')) = own_locks (aw_kernel (bd_adm w))"
      "aw_current (bd_adm w') = None" "canonical (be_resolve env) (rq_cache_path rq) = Inr cache"
      "\<exists>graph. canonical (be_resolve env) (rq_graph_path rq) = Inr graph \<and>
        admitted (be_resolve env) graph cache rq (bd_adm w) a token"
      "body (w\<lparr>bd_adm := a\<rparr>) = (w1, q)" "w' = w1\<lparr>bd_adm := b\<rparr>" "\<And>x. r = Inr x \<Longrightarrow> q = Inr x"
proof -
  obtain a t where adm: "admit_operation (be_resolve env) (be_faults env) (be_schedule env) False (be_fuel env) rq (bd_adm w) = Some (a, t)"
    using run by (auto simp: admitted_body_def split: option.splits)
  note out = admit_outermost [OF assms(1-3) adm]
  show ?thesis
  proof (cases t)
    case (Inl e)
    then have "w' = w\<lparr>bd_adm := a\<rparr>" "r = Inl e" using run adm by (simp_all add: admitted_body_def)
    then show ?thesis using that(1) [of a] out Inl assms(3) by (simp add: refused_def)
  next
    case (Inr token)
    obtain w1 q where q: "body (w\<lparr>bd_adm := a\<rparr>) = (w1, q)" by fastforce
    obtain b e where ex: "admit_exit (be_faults env) False False token (case q of Inl e \<Rightarrow> Some e | Inr _ \<Rightarrow> None) (bd_adm w1) = (b, e)"
      by fastforce
    have w': "w' = w1\<lparr>bd_adm := b\<rparr>" "r = (case e of Some e \<Rightarrow> Inl e | None \<Rightarrow> q)"
      using run adm Inr q ex assms(3) by (auto simp: admitted_body_def split: option.splits)
    have "bd_adm w1 = a" using keeps_admD [OF body q] by simp
    then have "own_locks (aw_kernel b) = own_locks (aw_kernel (bd_adm w)) \<and> aw_current b = None"
      using admit_then_exit [OF assms(1-3) adm [unfolded Inr] _ _ ex] by simp
    then have given: "own_locks (aw_kernel (bd_adm w')) = own_locks (aw_kernel (bd_adm w))" "aw_current (bd_adm w') = None"
      using w'(1) by simp_all
    obtain graph cache where c: "canonical (be_resolve env) (rq_graph_path rq) = Inr graph"
        "canonical (be_resolve env) (rq_cache_path rq) = Inr cache" "admitted (be_resolve env) graph cache rq (bd_adm w) a token"
      using out Inr by auto
    have "q = Inr x" if "r = Inr x" for x using w'(2) that by (simp split: option.splits)
    then show ?thesis using c by (intro that(2) [OF given c(2) _ q w'(1)]) blast+
  qed
qed

definition excludes_others :: "'c bind_env \<Rightarrow> gen_cache \<Rightarrow> cache_access \<Rightarrow> bool" where
  "excludes_others env gc x \<longleftrightarrow>
     (\<exists>h \<in> set (ca_locks x). lf_mode h = Some LOCK_EX \<and> lock_path_for_db (be_resolve env) (gc_path gc) = Inr (lf_path h))"

lemma admitted_exclusive:
  assumes "admitted resolve graph cache (service_request gs) w a token" "cache = Some p"
  shows "\<exists>h \<in> set (own_locks (aw_kernel a)). lf_mode h = Some LOCK_EX \<and> lock_path_for_db resolve p = Inr (lf_path h)"
proof -
  obtain l es where es: "own_locks (aw_kernel a) = es @ own_locks (aw_kernel w)"
      "holds es (stack_of l) (wanted resolve graph cache (service_request gs))"
    using assms(1) by (auto simp: admitted_def)
  then have "(lock_path_for_db resolve p, Some LOCK_EX) \<in> (\<lambda>e. (Inr (lf_path e), lf_mode e)) ` set es"
    by (simp add: holds_def wanted_def assms(2) service_request_def flip: set_map)
  then show ?thesis using es(1) by auto
qed

text \<open>
  C39: Whatever the engine does in a call of the embedding service, each operation that reaches the
  cache is made under an admission with the path, the model, the dimension, the supervisor and the generation the
  cache was bound to and with its lease, for the bound model, whose recorded dimension is
  the bound one. A call outside every admission takes the exclusive lease of the cache for itself;
  after the call the leases and the admission are what they were.
\<close>

theorem embed_guarded:
  assumes "fair_schedule (be_schedule env)" "locks_ok (aw_kernel (bd_adm w))"
    and run: "service_embed env gs gc engine w = Some (w', r)"
  shows "own_locks (aw_kernel (bd_adm w')) = own_locks (aw_kernel (bd_adm w)) \<and>
    aw_current (bd_adm w') = aw_current (bd_adm w) \<and>
    (\<exists>xs. bd_reached w' = bd_reached w @ xs \<and>
       (\<forall>x \<in> set xs. (\<exists>a. ca_admission x = Some a \<and> cache_admission gc a) \<and> op_model (ca_op x) = gc_model gc \<and>
          map_of (st_durable (bd_meta w)) (gc_model gc) = Some (gc_dim gc) \<and>
          (aw_current (bd_adm w) = None \<longrightarrow> excludes_others env gc x)))"
proof (cases "aw_current (bd_adm w) = None \<and> gs_cache_path gs \<noteq> None")
  case False
  then have "only_reaches gc w w'" using run served_reaches by (auto simp: service_embed_def split: if_splits)
  moreover have "\<not> list_all (access_ok gc w) (x # xs)" if "aw_current (bd_adm w) = None" for x xs
    using that by (auto simp: access_ok_def)
  ultimately show ?thesis by (fastforce simp: only_reaches_def access_ok_def list_all_iff)
next
  case True
  let ?body = "served env (run_engine env gc engine)"
  have body: "keeps_adm ?body"
    unfolding keeps_adm_def using served_reaches by (metis only_reaches_def prod.collapse)
  have adm: "admitted_body env (service_request gs) ?body w = Some (w', r)"
    using run True by (simp add: service_embed_def)
  show ?thesis
  proof (cases rule: admitted_body_spec [OF assms(1,2) conjunct1 [OF True] body adm])
    case (1 a)
    then show ?thesis using True by simp
  next
    case (2 a b token cache w1 q)
    obtain graph where g: "admitted (be_resolve env) graph cache (service_request gs) (bd_adm w) a token" using 2(4) by blast
    have tok: "aw_current a = Some token" "oa_cache_path token = cache" using g by (auto simp: admitted_def make_token_def)
    obtain xs where xs: "bd_reached w1 = bd_reached w @ xs" "list_all (access_ok gc (w\<lparr>bd_adm := a\<rparr>)) xs"
      using served_reaches [OF 2(5)] by (auto simp: only_reaches_def)
    have "excludes_others env gc x" if "x \<in> set xs" for x
    proof -
      have x: "ca_locks x = own_locks (aw_kernel a)" "cache = Some (gc_path gc)"
        using xs(2) that tok by (auto simp: list_all_iff access_ok_def cache_admission_def)
      then show ?thesis using admitted_exclusive [OF g x(2)] by (simp add: excludes_others_def)
    qed
    moreover have "\<forall>x \<in> set xs. (\<exists>t. ca_admission x = Some t \<and> cache_admission gc t) \<and> op_model (ca_op x) = gc_model gc \<and>
        map_of (st_durable (bd_meta w)) (gc_model gc) = Some (gc_dim gc)"
      using xs(2) access_okD [of gc "w\<lparr>bd_adm := a\<rparr>"] by (auto simp: list_all_iff)
    moreover have "bd_reached w' = bd_reached w @ xs" using xs(1) 2(6) by simp
    ultimately show ?thesis using 2(1,2) True by simp
  qed
qed

section \<open>A binding takes effect as a whole\<close>

text \<open>The attributes of the engine's modules that other profiles see.\<close>

abbreviation globals :: "'c bind_world \<Rightarrow> string \<times> (string \<times> int) list \<times> (gen_service \<times> gen_cache) option" where
  "globals w \<equiv> (bd_config_model w, bd_known_dims w, bd_service w)"

lemma persist_identity_spec:
  assumes "persist_identity env model d w = (w', r)"
  shows "bd_adm w' = bd_adm w \<and> globals w' = globals w \<and> bd_closed w' = bd_closed w \<and>
    (r = Inr () \<longrightarrow> map_of (st_durable (bd_meta w')) model = Some d)"
proof -
  obtain s where s: "persist_cache_identity (be_persist env) True (Some model) (Some d) (bd_meta w) = (s, r)" "w' = w\<lparr>bd_meta := s\<rparr>"
    using assms by (auto simp: persist_identity_def split: prod.splits)
  have "map_of (st_durable s) model = Some d" if "r = Inr ()"
    using s(1) that cache_body_keeps(2) [of "be_persist env" model d "bd_meta w" s r]
    by (auto simp: persist_cache_identity_def split: if_splits)
  then show ?thesis using s(2) by simp
qed

lemma bind_body_spec:
  assumes "fair_schedule (be_schedule env)" "locks_ok (aw_kernel (bd_adm w))" "aw_current (bd_adm w) = None"
    and run: "bind_body env spv path model disabled w = Some (w', r)"
  shows "own_locks (aw_kernel (bd_adm w')) = own_locks (aw_kernel (bd_adm w)) \<and> aw_current (bd_adm w') = None \<and>
    globals w' = globals w \<and> bd_closed w' = bd_closed w \<and>
    (\<forall>d gs gc. r = Inr (d, gs, gc) \<longrightarrow> be_start env = Inr d \<and> gs = new_service env spv path model d \<and>
       be_resolve env path = Inr (gc_path gc) \<and> gc = \<lparr>gc_noop = disabled, gc_path = gc_path gc, gc_model = model, gc_dim = d,
         gc_supervisor = spv, gc_generation = be_generation env\<rparr> \<and>
       (\<not> disabled \<longrightarrow> map_of (st_durable (bd_meta w')) model = Some d))"
proof (cases "\<exists>d. be_start env = Inr d \<and> \<not> disabled \<and> be_open env = None")
  case False
  then have "w' = w" using run by (auto simp: bind_body_def Let_def split: sum.splits option.splits if_splits)
  then show ?thesis
    using run assms(3) False by (auto simp: bind_body_def Let_def res_simps split: sum.splits option.splits if_splits)
next
  case True
  then obtain d where d: "be_start env = Inr d" "\<not> disabled" "be_open env = None" by blast
  obtain q where adm: "admitted_body env (service_request (new_service env spv path model d)) (persist_identity env model d) w = Some (w', q)"
    using run d by (auto simp: bind_body_def Let_def split: option.splits sum.splits)
  have keeps: "keeps_adm (persist_identity env model d)"
    unfolding keeps_adm_def using persist_identity_spec by (metis prod.collapse)
  have "own_locks (aw_kernel (bd_adm w')) = own_locks (aw_kernel (bd_adm w)) \<and> aw_current (bd_adm w') = None \<and>
      globals w' = globals w \<and> bd_closed w' = bd_closed w \<and> (q = Inr () \<longrightarrow> map_of (st_durable (bd_meta w')) model = Some d)"
  proof (cases rule: admitted_body_spec [OF assms(1-3) keeps adm])
    case (1 a)
    then show ?thesis by auto
  next
    case (2 a b token cache w1 p)
    then show ?thesis using persist_identity_spec [OF 2(5)] by simp
  qed
  moreover have "r = Inr (d', gs, gc) \<Longrightarrow> q = Inr () \<and> d' = d \<and> gs = new_service env spv path model d \<and>
      be_resolve env path = Inr (gc_path gc) \<and> gc = \<lparr>gc_noop = disabled, gc_path = gc_path gc, gc_model = model, gc_dim = d,
        gc_supervisor = spv, gc_generation = be_generation env\<rparr>" for d' gs gc
    using run d adm by (auto simp: bind_body_def Let_def res_simps split: sum.splits)
  ultimately show ?thesis using d by blast
qed

text \<open>
  C40: A binding takes effect as a whole or not at all. When it succeeds, the engine's selected model,
  its service and the cache behind it carry the same supervisor, generation, model and the dimension the
  worker reported, and this dimension is on record before the service can be seen, unless the cache
  is disabled; then the cache accepts what its own service is admitted for. When it fails, nothing another
  profile sees has changed, and a supervisor that was started is closed unless the interpreter is interrupted. Leases are given back in
  both cases.
\<close>

theorem binding_all_or_nothing:
  assumes "fair_schedule (be_schedule env)" "locks_ok (aw_kernel (bd_adm w))" "aw_current (bd_adm w) = None"
    and run: "bind_upstream_embedding env model cache_path disabled w = Some (w', r)"
  shows "own_locks (aw_kernel (bd_adm w')) = own_locks (aw_kernel (bd_adm w)) \<and> aw_current (bd_adm w') = None \<and>
    (case r of
       Inr (Some spv) \<Rightarrow> bd_config_model w' = model \<and> bd_closed w' = bd_closed w \<and>
         (\<exists>d gs gc. bd_service w' = Some (gs, gc) \<and> be_start env = Inr d \<and> be_supervisor env = Inr spv \<and>
            gs_supervisor gs = spv \<and> gc_supervisor gc = spv \<and> gs_generation gs = gc_generation gc \<and>
            gs_model gs = Some model \<and> gc_model gc = model \<and> gs_dim gs = Some d \<and> gc_dim gc = d \<and>
            (expected_dim model = 0 \<longrightarrow> map_of (bd_known_dims w') model = Some d) \<and>
            (\<not> disabled \<longrightarrow> check_cache gc None (st_durable (bd_meta w'))
               (Some (make_token None (Some (gc_path gc)) (service_request gs) (None, Some cm) n)) model = return ()))
     | Inr None \<Rightarrow> w' = w
     | Inl e \<Rightarrow> globals w' = globals w \<and>
         (bd_closed w' = bd_closed w \<or> (\<exists>spv. be_supervisor env = Inr spv \<and> bd_closed w' = spv # bd_closed w)) \<and>
         (\<forall>spv. be_import env = None \<and> cache_path \<noteq> None \<and> be_supervisor env = Inr spv \<and> be_close env = None \<and>
            isinstance e C_Exception \<longrightarrow> spv \<in> set (bd_closed w')))"
proof (cases "\<exists>path spv. be_import env = None \<and> cache_path = Some path \<and> be_supervisor env = Inr spv")
  case False
  then show ?thesis
    using run assms(3) by (auto simp: bind_upstream_embedding_def split: option.splits sum.splits if_splits)
next
  case True
  then obtain path spv where p: "be_import env = None" "cache_path = Some path" "be_supervisor env = Inr spv" by blast
  obtain v q where body: "bind_body env spv path model disabled w = Some (v, q)"
    using run p by (auto simp: bind_upstream_embedding_def split: option.splits)
  note spec = bind_body_spec [OF assms(1-3) body]
  show ?thesis
  proof (cases q)
    case (Inl e)
    then show ?thesis using run p body spec
      by (auto simp: bind_upstream_embedding_def split: option.splits if_splits)
  next
    case (Inr x)
    obtain d gs gc where x: "x = (d, gs, gc)" by (cases x) auto
    then have s: "be_start env = Inr d" "gs = new_service env spv path model d"
        "gc = \<lparr>gc_noop = disabled, gc_path = gc_path gc, gc_model = model, gc_dim = d, gc_supervisor = spv, gc_generation = be_generation env\<rparr>"
        "\<not> disabled \<longrightarrow> map_of (st_durable (bd_meta v)) model = Some d"
      using spec Inr by blast+
    have f: "gc_noop gc = disabled" "gc_model gc = model" "gc_dim gc = d" "gc_supervisor gc = spv" "gc_generation gc = be_generation env"
      using s(3) by (metis gen_cache.select_convs)+
    have "cache_admission gc (make_token None (Some (gc_path gc)) (service_request gs) (None, Some cm) n)"
      by (simp add: cache_admission_def make_token_def service_request_def s(2) new_service_def f)
    then have "check_cache gc None (st_durable (bd_meta v))
        (Some (make_token None (Some (gc_path gc)) (service_request gs) (None, Some cm) n)) model = return ()" if "\<not> disabled"
      using check_cache_accepts [of gc _ "st_durable (bd_meta v)"] s(4) that f by simp
    moreover have "w' = v\<lparr>bd_config_model := model, bd_known_dims := (if expected_dim model = 0 then AList.update model d (bd_known_dims v)
        else bd_known_dims v), bd_service := Some (gs, gc)\<rparr>" "r = Inr (Some spv)"
      using run p body Inr x by (simp_all add: bind_upstream_embedding_def)
    ultimately show ?thesis
      using spec s(1) p(3) f by (simp add: s(2) new_service_def update_conv')
  qed
qed

section \<open>A binding and a call\<close>

definition bind_example :: "(string \<times> pyval) list bind_env" where
  "bind_example = \<lparr>be_raw = (\<lambda>op c. case op of Cop_put m t v \<Rightarrow> ((t, v) # c, return PNone) | _ \<Rightarrow> (c, return PNone)),
     be_encode = (\<lambda>_. return (PList [])), be_unreadable = None, be_gate = None, be_resolve = return,
     be_faults = no_faults, be_schedule = quiet, be_fuel = 1, be_import = None, be_supervisor = Inr 7,
     be_generation = Some (PInt 1), be_start = Inr 3, be_open = None, be_persist = no_txn_faults, be_construct = None,
     be_close = None\<rparr>"

definition bind_before :: "(string \<times> pyval) list bind_world" where
  "bind_before = \<lparr>bd_adm = idle_world, bd_meta = \<lparr>st_durable = [], st_work = None, st_backups = [], st_temporary = 0\<rparr>,
     bd_cache = [], bd_reached = [], bd_config_model = [], bd_known_dims = [], bd_service = None, bd_closed = []\<rparr>"

definition bind_service :: gen_service where
  "bind_service = new_service bind_example 7 [''cache.db''] ''m'' 3"

definition bind_cache :: gen_cache where
  "bind_cache = \<lparr>gc_noop = False, gc_path = [''cache.db''], gc_model = ''m'', gc_dim = 3, gc_supervisor = 7, gc_generation = Some (PInt 1)\<rparr>"

lemmas bind_example_simps = bind_example_def bind_before_def bind_service_def bind_cache_def new_service_def service_request_def
  admitted_body_def admit_operation_def canonical_def idle_world_def quiet_def acquire_leases_def lease_enter_def lock_enter_def
  lock_path_for_db_def no_faults_def no_locks_def open_lock_file_def set_lock_def flock_grant_def grant_def stack_of_def
  make_token_def admit_exit_def close_owner_def new_owner_def lock_exit_def close_lock_file_def own_locks_def

lemma bind_example_binds:
  "\<exists>w. bind_upstream_embedding bind_example ''m'' (Some [''cache.db'']) False bind_before = Some (w, return (Some 7)) \<and>
     bd_service w = Some (bind_service, bind_cache) \<and> bd_adm w = (bd_adm bind_before)\<lparr>aw_kernel := aw_kernel (bd_adm w), aw_owners := aw_owners (bd_adm w)\<rparr>"
  by (simp add: bind_upstream_embedding_def bind_body_def persist_identity_def persist_cache_identity_def transact_ok
      cache_identity_body_def insert_or_ignore_def raised_def expected_dim_def UPSTREAM_KNOWN_DIMS_def Let_def bind_example_simps)

theorem binding_all_or_nothing_witness:
  "\<exists>w. bind_upstream_embedding bind_example ''m'' (Some [''cache.db'']) False bind_before = Some (w, return (Some 7)) \<and>
     bd_config_model w = ''m'' \<and> aw_current (bd_adm w) = None \<and> own_locks (aw_kernel (bd_adm w)) = []"
proof -
  obtain w where w: "bind_upstream_embedding bind_example ''m'' (Some [''cache.db'']) False bind_before = Some (w, return (Some 7))"
    using bind_example_binds by blast
  have "fair_schedule (be_schedule bind_example)" "locks_ok (aw_kernel (bd_adm bind_before))" "aw_current (bd_adm bind_before) = None"
    by (simp_all add: bind_example_def bind_before_def quiet_fair idle_ok)
  from binding_all_or_nothing [OF this w] w show ?thesis
    by (simp add: bind_before_def idle_world_def no_locks_def own_locks_def)
qed

definition bind_ready :: "(string \<times> pyval) list bind_world" where
  "bind_ready = bind_before\<lparr>bd_meta := \<lparr>st_durable = [(''m'', 3)], st_work = None, st_backups = [], st_temporary = 0\<rparr>\<rparr>"

definition put_engine :: engine where
  "put_engine = Eng_cache (Cop_put ''m'' ''text'' (PList [])) Eng_done"

lemma put_engine_runs:
  "\<exists>w. service_embed bind_example bind_service bind_cache put_engine bind_ready = Some (w, return PNone) \<and>
     map ca_op (bd_reached w) = [Cop_put ''m'' ''text'' (PList [])]"
  by (simp add: service_embed_def served_def put_engine_def bind_ready_def cached_call_def check_cache_def Let_def bind_example_simps)

theorem embed_guarded_witness:
  "\<exists>w x. service_embed bind_example bind_service bind_cache put_engine bind_ready = Some (w, return PNone) \<and>
     bd_reached w = [x] \<and> ca_op x = Cop_put ''m'' ''text'' (PList []) \<and> excludes_others bind_example bind_cache x \<and>
     own_locks (aw_kernel (bd_adm w)) = []"
proof -
  obtain w where w: "service_embed bind_example bind_service bind_cache put_engine bind_ready = Some (w, return PNone)"
      "map ca_op (bd_reached w) = [Cop_put ''m'' ''text'' (PList [])]"
    by (rule exE [OF put_engine_runs], erule conjE) (rule that)
  then obtain x where x: "bd_reached w = [x]" "ca_op x = Cop_put ''m'' ''text'' (PList [])" by (auto simp: map_eq_Cons_conv)
  have "fair_schedule (be_schedule bind_example)" "locks_ok (aw_kernel (bd_adm bind_ready))"
    by (simp_all add: bind_example_def bind_ready_def bind_before_def quiet_fair idle_ok)
  note g = embed_guarded [OF this w(1)]
  have i: "aw_current (bd_adm bind_ready) = None" "own_locks (aw_kernel (bd_adm bind_ready)) = []" "bd_reached bind_ready = []"
    by (simp_all add: bind_ready_def bind_before_def idle_world_def no_locks_def own_locks_def)
  then have "excludes_others bind_example bind_cache x" using g x(1) by simp
  then show ?thesis using g w(1) x i(2) by metis
qed

end
